(* ===== verification/Dfim_Prelude.thy ===== *)
theory Dfim_Prelude
  imports Main "HOL-Library.Word"
begin

unbundle bit_operations_syntax

text \<open>
  What the component theories share.

  \<^item> The type \<open>outcome\<close> of a Rust computation that returns a \<^verbatim>\<open>Result\<close>: it returns \<open>Ok\<close> a
    value, returns \<open>Err\<close> an error, or stops with a \<open>Panic\<close> (an index or a slice out of range, an
    overflow the compiler traps). Panics are values of the model, so that a theorem can say that
    a parser never panics. \<open>and_then\<close> is the operator \<^verbatim>\<open>?\<close>.
  \<^item> Slices and arrays: \<open>sub_slice\<close> and \<open>index_at\<close> panic out of range; \<open>put\<close> is
    \<^verbatim>\<open>buf[off..off+n].copy_from_slice(src)\<close> on a buffer whose length is a constant of the source.
  \<^item> \<^verbatim>\<open>usize\<close> as \<open>nat\<close> with the bound of a 64-bit target written out in the checked and
    saturating operations.
  \<^item> Little- and big-endian encodings of machine words, with their inverse laws.
  \<^item> The interfaces of encoders and parsers as locales: a \<open>codec\<close> parses what it prints, a
    \<open>canonical_codec\<close> accepts nothing else, and a \<open>total_parser\<close> does not panic.
\<close>

section \<open>Outcomes of fallible code\<close>

datatype ('e, 'a) outcome = Ok 'a | Err 'e | Panic

type_synonym u8 = "8 word"
type_synonym u16 = "16 word"
type_synonym u32 = "32 word"
type_synonym u64 = "64 word"
type_synonym bytes = "8 word list"

named_theorems outcome_simps \<open>unfolding rules for the combinators on outcomes\<close>
named_theorems layout_simps \<open>lengths and offsets of the binary layouts\<close>

primrec and_then :: "('e, 'a) outcome \<Rightarrow> ('a \<Rightarrow> ('e, 'b) outcome) \<Rightarrow> ('e, 'b) outcome" where
  "and_then (Ok a) f = f a"
| "and_then (Err e) f = Err e"
| "and_then Panic f = Panic"

primrec map_err :: "('e \<Rightarrow> 'f) \<Rightarrow> ('e, 'a) outcome \<Rightarrow> ('f, 'a) outcome" where
  "map_err g (Ok a) = Ok a"
| "map_err g (Err e) = Err (g e)"
| "map_err g Panic = Panic"

primrec ok_or :: "'e \<Rightarrow> 'a option \<Rightarrow> ('e, 'a) outcome" where
  "ok_or e None = Err e"
| "ok_or e (Some a) = Ok a"

primrec is_ok :: "('e, 'a) outcome \<Rightarrow> bool" where
  "is_ok (Ok a) = True"
| "is_ok (Err e) = False"
| "is_ok Panic = False"

text \<open>A loop \<^verbatim>\<open>for x in xs { ... }\<close> whose body may return early.\<close>

primrec fold_outcome :: "('s \<Rightarrow> 'x \<Rightarrow> ('e, 's) outcome) \<Rightarrow> 's \<Rightarrow> 'x list \<Rightarrow> ('e, 's) outcome" where
  "fold_outcome f s [] = Ok s"
| "fold_outcome f s (x # xs) = and_then (f s x) (\<lambda>s'. fold_outcome f s' xs)"

lemma and_then_eq_Ok [simp]:
  "and_then m f = Ok b \<longleftrightarrow> (\<exists>a. m = Ok a \<and> f a = Ok b)"
  by (cases m) auto

lemma and_then_eq_Panic [simp]:
  "and_then m f = Panic \<longleftrightarrow> m = Panic \<or> (\<exists>a. m = Ok a \<and> f a = Panic)"
  by (cases m) auto

lemma and_then_eq_Err:
  "and_then m f = Err e \<longleftrightarrow> m = Err e \<or> (\<exists>a. m = Ok a \<and> f a = Err e)"
  by (cases m) auto

lemma and_then_assoc:
  "and_then (and_then m f) g = and_then m (\<lambda>a. and_then (f a) g)"
  by (cases m) auto

text \<open>A guard that returns an error, seen from its success and from a panic.\<close>

lemma err_if_eq_Ok [outcome_simps]: "(if c then Err e else m) = Ok x \<longleftrightarrow> \<not> c \<and> m = Ok x"
  by auto

lemma err_if_eq_Panic [outcome_simps]: "(if c then Err e else m) = Panic \<longleftrightarrow> \<not> c \<and> m = Panic"
  by auto

declare and_then_eq_Ok [outcome_simps] and_then_eq_Panic [outcome_simps]

lemma and_then_Ok_right [simp]: "and_then m Ok = m"
  by (cases m) auto

lemma and_then_cong [fundef_cong]:
  "m = m' \<Longrightarrow> (\<And>a. m' = Ok a \<Longrightarrow> f a = g a) \<Longrightarrow> and_then m f = and_then m' g"
  by (cases m') auto

lemma map_err_eq_Ok [simp]: "map_err g m = Ok a \<longleftrightarrow> m = Ok a"
  by (cases m) auto

lemma map_err_eq_Panic [simp]: "map_err g m = Panic \<longleftrightarrow> m = Panic"
  by (cases m) auto

lemma ok_or_eq_Ok [simp]: "ok_or e p = Ok a \<longleftrightarrow> p = Some a"
  by (cases p) auto

lemma ok_or_not_Panic [simp]: "ok_or e p \<noteq> Panic"
  by (cases p) auto

declare ok_or_eq_Ok [outcome_simps] ok_or_not_Panic [outcome_simps] map_err_eq_Ok [outcome_simps]
  map_err_eq_Panic [outcome_simps] outcome.inject [outcome_simps] outcome.distinct [outcome_simps]

lemma is_ok_iff: "is_ok m \<longleftrightarrow> (\<exists>a. m = Ok a)"
  by (cases m) auto

lemma fold_outcome_append:
  "fold_outcome f s (xs @ ys) = and_then (fold_outcome f s xs) (\<lambda>s'. fold_outcome f s' ys)"
  by (induction xs arbitrary: s) (auto simp: and_then_assoc)

lemma fold_outcome_Ok_foldl:
  assumes "\<And>s x. x \<in> set xs \<Longrightarrow> f s x = Ok (g s x)"
  shows "fold_outcome f s xs = Ok (foldl g s xs)"
  using assms by (induction xs arbitrary: s) auto

lemma fold_outcome_cong:
  assumes "\<And>s x. x \<in> set xs \<Longrightarrow> f s x = g s x"
  shows "fold_outcome f s xs = fold_outcome g s xs"
  using assms by (induction xs arbitrary: s) (auto intro!: and_then_cong)

lemma fold_outcome_map: "fold_outcome f s (map h xs) = fold_outcome (\<lambda>s x. f s (h x)) s xs"
  by (induction xs arbitrary: s) (auto intro!: and_then_cong)

lemma fold_outcome_not_Panic:
  assumes "\<And>s x. x \<in> set xs \<Longrightarrow> f s x \<noteq> Panic"
  shows "fold_outcome f s xs \<noteq> Panic"
  using assms by (induction xs arbitrary: s) auto

section \<open>Machine arithmetic on usize\<close>

definition USIZE_MAX :: nat where
  "USIZE_MAX = 2 ^ 64 - 1"

definition checked_add :: "nat \<Rightarrow> nat \<Rightarrow> nat option" where
  "checked_add a b = (if a + b \<le> USIZE_MAX then Some (a + b) else None)"

definition checked_mul :: "nat \<Rightarrow> nat \<Rightarrow> nat option" where
  "checked_mul a b = (if a * b \<le> USIZE_MAX then Some (a * b) else None)"

definition checked_sub :: "nat \<Rightarrow> nat \<Rightarrow> nat option" where
  "checked_sub a b = (if b \<le> a then Some (a - b) else None)"

definition saturating_add :: "nat \<Rightarrow> nat \<Rightarrow> nat" where
  "saturating_add a b = min (a + b) USIZE_MAX"

definition saturating_mul :: "nat \<Rightarrow> nat \<Rightarrow> nat" where
  "saturating_mul a b = min (a * b) USIZE_MAX"

text \<open>The plain \<^verbatim>\<open>+\<close> on \<^verbatim>\<open>usize\<close>, which traps an overflow.\<close>

definition usize_add :: "nat \<Rightarrow> nat \<Rightarrow> ('e, nat) outcome" where
  "usize_add a b = (if a + b \<le> USIZE_MAX then Ok (a + b) else Panic)"

definition div_ceil :: "nat \<Rightarrow> nat \<Rightarrow> nat" where
  "div_ceil a b = (a + b - 1) div b"

lemma checked_add_eq_Some [simp]: "checked_add a b = Some c \<longleftrightarrow> c = a + b \<and> a + b \<le> USIZE_MAX"
  by (auto simp: checked_add_def)

lemma checked_mul_eq_Some [simp]: "checked_mul a b = Some c \<longleftrightarrow> c = a * b \<and> a * b \<le> USIZE_MAX"
  by (auto simp: checked_mul_def)

lemma checked_sub_eq_Some [simp]: "checked_sub a b = Some c \<longleftrightarrow> c = a - b \<and> b \<le> a"
  by (auto simp: checked_sub_def)

lemma div_ceil_bounds:
  assumes "0 < b"
  shows "a \<le> div_ceil a b * b" and "div_ceil a b * b < a + b"
proof -
  have "(a + b - 1) div b * b + (a + b - 1) mod b = a + b - 1"
    by (rule div_mult_mod_eq)
  moreover have "(a + b - 1) mod b \<le> b - 1"
    using assms by (metis Suc_diff_1 less_Suc_eq_le mod_less_divisor)
  ultimately show "a \<le> div_ceil a b * b" and "div_ceil a b * b < a + b"
    using assms unfolding div_ceil_def by linarith+
qed

lemma div_ceil_le_iff:
  assumes "0 < b"
  shows "div_ceil a b \<le> n \<longleftrightarrow> a \<le> n * b"
proof
  assume "div_ceil a b \<le> n"
  then have "div_ceil a b * b \<le> n * b" by simp
  with div_ceil_bounds(1)[OF assms, of a] show "a \<le> n * b" by linarith
next
  assume "a \<le> n * b"
  with div_ceil_bounds(2)[OF assms, of a] have "div_ceil a b * b < (n + 1) * b"
    by (simp add: algebra_simps)
  then have "div_ceil a b < n + 1"
    using assms mult_less_cancel2 by blast
  then show "div_ceil a b \<le> n" by simp
qed

lemma div_ceil_pos: "0 < b \<Longrightarrow> 0 < a \<Longrightarrow> 0 < div_ceil a b"
  using div_ceil_bounds(1)[of b a] by (cases "div_ceil a b") auto

section \<open>Slices and arrays\<close>

definition sub_slice :: "'x list \<Rightarrow> nat \<Rightarrow> nat \<Rightarrow> ('e, 'x list) outcome" where
  "sub_slice xs a b = (if a \<le> b \<and> b \<le> length xs then Ok (take (b - a) (drop a xs)) else Panic)"

definition index_at :: "'x list \<Rightarrow> nat \<Rightarrow> ('e, 'x) outcome" where
  "index_at xs i = (if i < length xs then Ok (xs ! i) else Panic)"

definition put :: "'x list \<Rightarrow> nat \<Rightarrow> 'x list \<Rightarrow> 'x list" where
  "put buf off src = take off buf @ src @ drop (off + length src) buf"

definition starts_with :: "'x list \<Rightarrow> 'x list \<Rightarrow> bool" where
  "starts_with xs p = (take (length p) xs = p)"

definition is_multiple_of :: "nat \<Rightarrow> nat \<Rightarrow> bool" where
  "is_multiple_of a b = (a mod b = 0)"

lemma sub_slice_eq_Ok [simp]:
  "sub_slice xs a b = Ok ys \<longleftrightarrow> a \<le> b \<and> b \<le> length xs \<and> ys = take (b - a) (drop a xs)"
  by (auto simp: sub_slice_def)

lemma sub_slice_eq_Panic [simp]: "sub_slice xs a b = Panic \<longleftrightarrow> \<not> (a \<le> b \<and> b \<le> length xs)"
  by (auto simp: sub_slice_def)

lemma sub_slice_not_Err [simp]: "sub_slice xs a b \<noteq> Err e"
  by (auto simp: sub_slice_def)

lemma put_zeros:
  "length pre = off \<Longrightarrow> length x \<le> n \<Longrightarrow> put (pre @ replicate n 0) off x = (pre @ x) @ replicate (n - length x) 0"
  by (simp add: put_def)

lemma put_zeros_first: "length x \<le> n \<Longrightarrow> put (replicate n 0) 0 x = x @ replicate (n - length x) 0"
  by (simp add: put_def)

lemma drop_split: "drop a h = take n (drop a h) @ drop (a + n) h"
  by (metis add.commute append_take_drop_id drop_drop)

lemma sub_slice_Ok: "a \<le> b \<Longrightarrow> b \<le> length xs \<Longrightarrow> sub_slice xs a b = Ok (take (b - a) (drop a xs))"
  by (simp add: sub_slice_def)

lemma index_at_eq_Ok [simp]: "index_at xs i = Ok x \<longleftrightarrow> i < length xs \<and> x = xs ! i"
  by (auto simp: index_at_def)

lemma index_at_eq_Panic [simp]: "index_at xs i = Panic \<longleftrightarrow> \<not> i < length xs"
  by (auto simp: index_at_def)

declare sub_slice_eq_Ok [outcome_simps] sub_slice_eq_Panic [outcome_simps]
  index_at_eq_Ok [outcome_simps] index_at_eq_Panic [outcome_simps]

lemma length_put [layout_simps]:
  "off + length src \<le> length buf \<Longrightarrow> length (put buf off src) = length buf"
  by (auto simp: put_def)

lemma drop_append_exact: "length xs = n \<Longrightarrow> drop n (xs @ ys) = ys"
  by simp

lemma take_append_exact: "length xs = n \<Longrightarrow> take n (xs @ ys) = xs"
  by simp

text \<open>A field of a record that is laid out as a concatenation.\<close>

lemma field_of_concat:
  assumes "length pre = off" and "length fld = n"
  shows "take n (drop off (pre @ fld @ rest)) = fld"
  using assms by simp

lemma take_drop_split:
  assumes "a \<le> length xs"
  shows "xs = take a xs @ drop a xs"
  by simp

lemma take_split_add: "take (a + b) xs = take a xs @ take b (drop a xs)"
  by (simp add: take_add)

text \<open>A byte string literal \<^verbatim>\<open>b"..."\<close>.\<close>

definition ascii :: "string \<Rightarrow> bytes" where
  "ascii cs = map (\<lambda>c. of_nat (of_char c)) cs"

lemma length_ascii [simp, layout_simps]: "length (ascii cs) = length cs"
  by (simp add: ascii_def)

section \<open>Encodings of machine words\<close>

text \<open>
  \<^verbatim>\<open>to_le_bytes\<close>, \<^verbatim>\<open>from_le_bytes\<close>, \<^verbatim>\<open>to_be_bytes\<close> and \<^verbatim>\<open>from_be_bytes\<close> of the integer types; the number
  of bytes of the type is the first argument of the encoders.
\<close>

definition to_le_bytes :: "nat \<Rightarrow> 'a::len word \<Rightarrow> bytes" where
  "to_le_bytes n w = map (\<lambda>i. ucast (drop_bit (8 * i) w)) [0..<n]"

primrec from_le_bytes :: "bytes \<Rightarrow> 'a::len word" where
  "from_le_bytes [] = 0"
| "from_le_bytes (b # bs) = ucast b OR push_bit 8 (from_le_bytes bs)"

definition to_be_bytes :: "nat \<Rightarrow> 'a::len word \<Rightarrow> bytes" where
  "to_be_bytes n w = rev (to_le_bytes n w)"

definition from_be_bytes :: "bytes \<Rightarrow> 'a::len word" where
  "from_be_bytes bs = from_le_bytes (rev bs)"

lemma length_to_le_bytes [simp, layout_simps]: "length (to_le_bytes n w) = n"
  by (simp add: to_le_bytes_def)

lemma length_to_be_bytes [simp, layout_simps]: "length (to_be_bytes n w) = n"
  by (simp add: to_be_bytes_def)

lemma bit_from_le_bytes:
  "bit (from_le_bytes bs :: 'a::len word) k \<longleftrightarrow>
     k < LENGTH('a) \<and> k div 8 < length bs \<and> bit (bs ! (k div 8)) (k mod 8)"
proof (induction bs arbitrary: k)
  case (Cons b bs)
  show ?case
  proof (cases "k < 8")
    case True
    then show ?thesis by (auto simp: bit_simps)
  next
    case False
    then obtain j where k: "k = j + 8" by (metis add.commute le_add_diff_inverse not_less)
    have "(j + 8) div 8 = Suc (j div 8)" by simp
    moreover have "\<not> bit b k" using False by (simp add: bit_word.rep_eq)
    ultimately show ?thesis
      using Cons.IH [of j] by (auto simp: bit_simps k)
  qed
qed simp

lemma bit_to_le_bytes:
  assumes "i < n" and "j < 8"
  shows "bit (to_le_bytes n w ! i) j \<longleftrightarrow> bit w (8 * i + j)"
  using assms by (simp add: to_le_bytes_def bit_simps add.commute)

lemma from_to_le_bytes:
  fixes w :: "'a::len word"
  assumes "LENGTH('a) = 8 * n"
  shows "from_le_bytes (to_le_bytes n w) = w"
proof (rule bit_word_eqI)
  fix k
  assume k: "k < LENGTH('a)"
  then have "k div 8 < n" using assms by auto
  then show "bit (from_le_bytes (to_le_bytes n w) :: 'a word) k \<longleftrightarrow> bit w k"
    using k bit_to_le_bytes [of "k div 8" n "k mod 8" w] by (simp add: bit_from_le_bytes)
qed

lemma to_from_le_bytes:
  assumes "length bs = n" and "LENGTH('a::len) = 8 * n"
  shows "to_le_bytes n (from_le_bytes bs :: 'a word) = bs"
proof (rule nth_equalityI)
  show "length (to_le_bytes n (from_le_bytes bs :: 'a word)) = length bs"
    using assms by simp
next
  fix i
  assume "i < length (to_le_bytes n (from_le_bytes bs :: 'a word))"
  then have i: "i < n" by simp
  show "to_le_bytes n (from_le_bytes bs :: 'a word) ! i = bs ! i"
  proof (rule bit_word_eqI)
    fix j
    assume "j < LENGTH(8)"
    then have j: "j < 8" by simp
    have "(8 * i + j) div 8 = i" and "(8 * i + j) mod 8 = j" and "8 * i + j < 8 * n"
      using i j by auto
    then show "bit (to_le_bytes n (from_le_bytes bs :: 'a word) ! i) j \<longleftrightarrow> bit (bs ! i) j"
      using assms i by (simp add: bit_to_le_bytes [OF i j] bit_from_le_bytes)
  qed
qed

lemma from_to_be_bytes:
  fixes w :: "'a::len word"
  assumes "LENGTH('a) = 8 * n"
  shows "from_be_bytes (to_be_bytes n w) = w"
  using assms by (simp add: from_be_bytes_def to_be_bytes_def from_to_le_bytes)

lemma to_from_be_bytes:
  assumes "length bs = n" and "LENGTH('a::len) = 8 * n"
  shows "to_be_bytes n (from_be_bytes bs :: 'a word) = bs"
  using assms by (simp add: from_be_bytes_def to_be_bytes_def to_from_le_bytes)

lemmas word_bytes_roundtrip [simp] =
  from_to_le_bytes [where 'a = 16 and n = 2, simplified]
  from_to_le_bytes [where 'a = 32 and n = 4, simplified]
  from_to_le_bytes [where 'a = 64 and n = 8, simplified]
  from_to_be_bytes [where 'a = 32 and n = 4, simplified]
  from_to_be_bytes [where 'a = 64 and n = 8, simplified]

lemmas bytes_word_roundtrip [simp] =
  to_from_le_bytes [where 'a = 16 and n = 2, simplified]
  to_from_le_bytes [where 'a = 32 and n = 4, simplified]
  to_from_le_bytes [where 'a = 64 and n = 8, simplified]
  to_from_be_bytes [where 'a = 32 and n = 4, simplified]
  to_from_be_bytes [where 'a = 64 and n = 8, simplified]

text \<open>A \<^verbatim>\<open>usize\<close> value written through a cast to a fixed-width integer and read back.\<close>

lemma unat_of_nat_u32: "n < 2 ^ 32 \<Longrightarrow> unat (of_nat n :: u32) = n"
  by (simp add: unat_of_nat take_bit_nat_eq_self)

lemma unat_of_nat_u64: "n < 2 ^ 64 \<Longrightarrow> unat (of_nat n :: u64) = n"
  by (simp add: unat_of_nat take_bit_nat_eq_self)

lemma unat_u32_bound: "unat (w :: u32) < 2 ^ 32"
  using unsigned_less [of w] by simp

section \<open>Interfaces of encoders and parsers\<close>

text \<open>
  A parser that does not panic, an encoder whose output the parser reads back, and a parser that
  accepts the encoder's output only.
\<close>

locale total_parser =
  fixes dec :: "bytes \<Rightarrow> ('e, 'x) outcome"
  assumes dec_no_panic: "dec b \<noteq> Panic"
begin

lemma dec_cases: "(\<exists>x. dec b = Ok x) \<or> (\<exists>e. dec b = Err e)"
  using dec_no_panic [of b] by (cases "dec b") auto

end

locale codec =
  fixes enc :: "'x \<Rightarrow> ('e, bytes) outcome"
    and dec :: "bytes \<Rightarrow> ('e, 'x) outcome"
    and valid :: "'x \<Rightarrow> bool"
  assumes enc_valid: "valid x \<Longrightarrow> \<exists>b. enc x = Ok b"
    and dec_enc: "valid x \<Longrightarrow> enc x = Ok b \<Longrightarrow> dec b = Ok x"
begin

lemma roundtrip:
  assumes "valid x"
  shows "and_then (enc x) dec = Ok x"
  using enc_valid [OF assms] dec_enc [OF assms] by auto

lemma enc_inj:
  assumes "valid x" and "valid y" and "enc x = enc y"
  shows "x = y"
  using roundtrip [OF assms(1)] roundtrip [OF assms(2)] unfolding assms(3) by (metis outcome.inject(1))

end

locale canonical_codec = codec enc dec valid
  for enc :: "'x \<Rightarrow> ('e, bytes) outcome"
    and dec :: "bytes \<Rightarrow> ('e, 'x) outcome"
    and valid :: "'x \<Rightarrow> bool" +
  assumes dec_canonical: "dec b = Ok x \<Longrightarrow> valid x \<and> enc x = Ok b"
begin

lemma dec_accepts_iff: "dec b = Ok x \<longleftrightarrow> valid x \<and> enc x = Ok b"
  using dec_canonical dec_enc by blast

lemma dec_inj: "dec b = Ok x \<Longrightarrow> dec c = Ok x \<Longrightarrow> b = c"
  using dec_canonical [of b x] dec_canonical [of c x] by simp

end

end
