(* ===== verification/Core_Base.thy ===== *)
theory Core_Base
  imports Dfim_Prelude
begin

text \<open>
  The vocabulary of \<^verbatim>\<open>dfim_core_engine\<close> that every other component uses: the error type of
  \<^verbatim>\<open>error.rs\<close>, the work-capping observer of \<^verbatim>\<open>observer.rs\<close>, the constants, and the digest
  functions of \<^verbatim>\<open>digest.rs\<close> and \<^verbatim>\<open>crypto.rs\<close>.

  SHA-256 (crate \<^verbatim>\<open>sha2\<close>) and the constant-time comparison (crate \<^verbatim>\<open>subtle\<close>) are not part of the
  repository. They are the fields of a record \<open>hash_prims\<close> that every definition using them takes as
  an argument; the locale \<open>hash_contract\<close> states what the code relies on: digests have 32 bytes and
  the comparison of two digests decides equality. The \<^verbatim>\<open>bpf\<close> build of the engine brings its own SHA-256;
  its model satisfies this contract (theory \<open>Bpf_Sha256\<close>).
\<close>

section \<open>Errors\<close>

datatype dfim_error =
    InvalidParameter
  | ParameterOverflow
  | BufferTooShort
  | BufferTooLong
  | UncorrectableError
  | CorruptMetadata
  | IntegrityFailure
  | WorkCapExceeded
  | EmptyInput

type_synonym 'a dfim_result = "(dfim_error, 'a) outcome"

primrec as_str :: "dfim_error \<Rightarrow> string" where
  "as_str InvalidParameter = ''invalid parameter''"
| "as_str ParameterOverflow = ''parameter overflow''"
| "as_str BufferTooShort = ''buffer too short''"
| "as_str BufferTooLong = ''buffer too long''"
| "as_str UncorrectableError = ''uncorrectable error detected''"
| "as_str CorruptMetadata = ''corrupt metadata detected''"
| "as_str IntegrityFailure = ''integrity verification failed''"
| "as_str WorkCapExceeded = ''computation work cap exceeded''"
| "as_str EmptyInput = ''empty input''"

lemma as_str_inj: "as_str e = as_str f \<Longrightarrow> e = f"
  by (cases e; cases f) simp_all

section \<open>Constants\<close>

definition SHA256_LEN :: nat where "SHA256_LEN = 32"

definition DK_LEN :: nat where "DK_LEN = 32"

definition HAMMING_MIN_DATA_BITS :: nat where "HAMMING_MIN_DATA_BITS = 4"

definition HAMMING_MAX_DATA_BITS :: nat where "HAMMING_MAX_DATA_BITS = 247"

section \<open>The work-capping observer\<close>

record pattern_observer =
  max_iterations :: nat
  obs_count :: nat

definition observer_new :: "nat \<Rightarrow> pattern_observer dfim_result" where
  "observer_new m =
     (if m = 0 then Err InvalidParameter
      else Ok \<lparr>max_iterations = m, obs_count = 0\<rparr>)"

definition tick :: "pattern_observer \<Rightarrow> pattern_observer \<times> unit dfim_result" where
  "tick obs =
     (let obs' = obs\<lparr>obs_count := saturating_add (obs_count obs) 1\<rparr>
      in if obs_count obs' > max_iterations obs' then (obs', Err WorkCapExceeded) else (obs', Ok ()))"

definition reset :: "pattern_observer \<Rightarrow> pattern_observer" where
  "reset obs = obs\<lparr>obs_count := 0\<rparr>"

text \<open>The statement \<^verbatim>\<open>observer.tick()?\<close>: the caller goes on with the updated observer or returns.\<close>

definition tick_q :: "pattern_observer \<Rightarrow> pattern_observer dfim_result" where
  "tick_q obs = (case tick obs of (obs', r) \<Rightarrow> and_then r (\<lambda>_. Ok obs'))"

text \<open>A loop that ticks \<open>n\<close> times.\<close>

primrec ticks :: "nat \<Rightarrow> pattern_observer \<Rightarrow> pattern_observer dfim_result" where
  "ticks 0 obs = Ok obs"
| "ticks (Suc n) obs = and_then (tick_q obs) (ticks n)"

lemma tick_q_not_Panic [simp]: "tick_q obs \<noteq> Panic"
  by (simp add: tick_q_def tick_def Let_def)

lemma tick_q_eq_Ok:
  "tick_q obs = Ok obs' \<longleftrightarrow>
     obs' = obs\<lparr>obs_count := saturating_add (obs_count obs) 1\<rparr> \<and>
     saturating_add (obs_count obs) 1 \<le> max_iterations obs"
  by (auto simp: tick_q_def tick_def Let_def)

lemma tick_q_Err: "tick_q obs = Err e \<Longrightarrow> e = WorkCapExceeded"
  by (auto simp: tick_q_def tick_def Let_def split: if_splits)

lemma tick_q_within:
  assumes "obs_count obs < max_iterations obs" and "max_iterations obs \<le> USIZE_MAX"
  shows "tick_q obs = Ok (obs\<lparr>obs_count := Suc (obs_count obs)\<rparr>)"
  using assms by (simp add: tick_q_eq_Ok saturating_add_def)

lemma ticks_within:
  assumes "obs_count obs + n \<le> max_iterations obs" and "max_iterations obs \<le> USIZE_MAX"
  shows "ticks n obs = Ok (obs\<lparr>obs_count := obs_count obs + n\<rparr>)"
  using assms by (induction n arbitrary: obs) (auto simp: tick_q_within)

lemma ticks_beyond:
  assumes "obs_count obs + n > max_iterations obs" and "max_iterations obs < USIZE_MAX"
    and "obs_count obs \<le> max_iterations obs"
  shows "ticks n obs = Err WorkCapExceeded"
  using assms
proof (induction n arbitrary: obs)
  case (Suc n)
  show ?case
  proof (cases "obs_count obs < max_iterations obs")
    case True
    then show ?thesis using Suc.IH [of "obs\<lparr>obs_count := Suc (obs_count obs)\<rparr>"] Suc.prems
      by (simp add: tick_q_within)
  next
    case False
    then have "tick_q obs = Err WorkCapExceeded"
      using Suc.prems by (simp add: tick_q_def tick_def Let_def saturating_add_def)
    then show ?thesis by simp
  qed
qed simp

text \<open>An observer that has \<open>n\<close> ticks left (one capped at \<^verbatim>\<open>usize::MAX\<close> never runs out).\<close>

definition budget :: "pattern_observer \<Rightarrow> nat \<Rightarrow> bool" where
  "budget obs n \<longleftrightarrow> obs_count obs + n \<le> max_iterations obs \<or> USIZE_MAX \<le> max_iterations obs"

lemma budget_tick:
  assumes "budget obs (Suc n)"
  obtains obs' where "tick_q obs = Ok obs'" and "budget obs' n"
proof
  let ?obs' = "obs\<lparr>obs_count := saturating_add (obs_count obs) 1\<rparr>"
  have "saturating_add (obs_count obs) 1 \<le> max_iterations obs"
    using assms by (auto simp: budget_def saturating_add_def)
  then show "tick_q obs = Ok ?obs'" by (simp add: tick_q_eq_Ok)
  show "budget ?obs' n"
    using assms by (auto simp: budget_def saturating_add_def)
qed

lemma budget_mono: "budget obs n \<Longrightarrow> m \<le> n \<Longrightarrow> budget obs m"
  by (auto simp: budget_def)

lemma observer_new_budget:
  assumes "0 < m"
  obtains obs where "observer_new m = Ok obs" and "budget obs m"
  using assms by (simp add: observer_new_def budget_def)

section \<open>Digests\<close>

record hash_prims =
  sha256 :: "bytes \<Rightarrow> bytes"
  ct_eq :: "bytes \<Rightarrow> bytes \<Rightarrow> bool"

locale hash_contract =
  fixes C :: hash_prims
  assumes sha256_len: "length (sha256 C m) = 32"
    and ct_eq_iff: "length a = 32 \<Longrightarrow> length b = 32 \<Longrightarrow> ct_eq C a b \<longleftrightarrow> a = b"
begin

lemma ct_eq_refl: "length a = 32 \<Longrightarrow> ct_eq C a a"
  by (simp add: ct_eq_iff)

lemma ct_eq_sha256 [simp]: "ct_eq C (sha256 C a) (sha256 C b) \<longleftrightarrow> sha256 C a = sha256 C b"
  by (simp add: ct_eq_iff sha256_len)

end

definition sha256_digest :: "hash_prims \<Rightarrow> bytes \<Rightarrow> bytes" where
  "sha256_digest C data = sha256 C data"

definition manifest_digest :: "hash_prims \<Rightarrow> bytes \<Rightarrow> bytes dfim_result" where
  "manifest_digest C canonical_utf8 =
     (if canonical_utf8 = [] then Err EmptyInput else Ok (sha256_digest C canonical_utf8))"

text \<open>The hasher of \<^verbatim>\<open>sha2\<close> absorbs the chunks in order; its state is what it has absorbed.\<close>

definition sha256_digest_chunked :: "hash_prims \<Rightarrow> bytes list \<Rightarrow> bytes" where
  "sha256_digest_chunked C chunks = sha256 C (foldl (\<lambda>hasher chunk. hasher @ chunk) [] chunks)"

definition constant_time_hash_eq :: "hash_prims \<Rightarrow> bytes \<Rightarrow> bytes \<Rightarrow> bool" where
  "constant_time_hash_eq C a b = ct_eq C a b"

text \<open>
  The comparison loop of \<^verbatim>\<open>dfim_host_init/src/lib.rs\<close>, the repository's own constant-time equality.
\<close>

definition constant_time_eq :: "bytes \<Rightarrow> bytes \<Rightarrow> bool" where
  "constant_time_eq a b =
     (if length a \<noteq> length b then False
      else foldl (\<lambda>diff (l, r). diff OR (l XOR r)) (0 :: u8) (zip a b) = 0)"

lemma or_zero_iff: "(x OR y = 0) \<longleftrightarrow> (x = 0 \<and> y = (0 :: 'a::len word))"
  by (simp add: or_eq_0_iff)

lemma xor_zero_iff: "(x XOR y = 0) \<longleftrightarrow> (x = (y :: 'a::len word))"
  by (auto simp: bit_eq_iff bit_xor_iff)

lemma constant_time_eq_iff: "constant_time_eq a b \<longleftrightarrow> a = b"
proof -
  have "foldl (\<lambda>diff (l, r). diff OR (l XOR r)) d (zip a b) = 0 \<longleftrightarrow> d = 0 \<and> a = b"
    if "length a = length b" for d :: u8
    using that by (induction a b arbitrary: d rule: list_induct2) (auto simp: or_zero_iff xor_zero_iff)
  then show ?thesis by (auto simp: constant_time_eq_def)
qed

lemma foldl_append_concat: "foldl (\<lambda>acc x. acc @ x) ys xss = ys @ concat xss"
  by (induction xss arbitrary: ys) auto

lemma sha256_digest_chunked_concat:
  "sha256_digest_chunked C chunks = sha256_digest C (concat chunks)"
  by (simp add: sha256_digest_chunked_def sha256_digest_def foldl_append_concat)

lemma length_sha256_digest:
  "hash_contract C \<Longrightarrow> length (sha256_digest C m) = 32"
  by (simp add: sha256_digest_def hash_contract.sha256_len)

lemma constant_time_hash_eq_iff:
  "hash_contract C \<Longrightarrow> length a = 32 \<Longrightarrow> length b = 32 \<Longrightarrow> constant_time_hash_eq C a b \<longleftrightarrow> a = b"
  by (simp add: constant_time_hash_eq_def hash_contract.ct_eq_iff)

subsection \<open>Lowercase hexadecimal\<close>

definition HEX :: bytes where
  "HEX = map (\<lambda>c. of_nat (of_char c)) ''0123456789abcdef''"

text \<open>The loop writes the two characters of byte \<open>i\<close> at offsets \<open>2 i\<close> and \<open>2 i + 1\<close>.\<close>

definition digest_to_hex :: "bytes \<Rightarrow> bytes" where
  "digest_to_hex digest =
     foldl (\<lambda>out (i, byte). out[i * 2 := HEX ! unat (drop_bit 4 byte),
                               i * 2 + 1 := HEX ! unat (byte AND 0x0f)])
       (replicate 64 0) (enumerate 0 digest)"

definition hex_pair :: "u8 \<Rightarrow> bytes" where
  "hex_pair byte = [HEX ! unat (drop_bit 4 byte), HEX ! unat (byte AND 0x0f)]"

lemma hex_loop:
  assumes "length pre = 2 * n"
  shows "foldl (\<lambda>out (i, byte). out[i * 2 := HEX ! unat (drop_bit 4 byte),
                               i * 2 + 1 := HEX ! unat (byte AND 0x0f)])
       (pre @ replicate (2 * length ds) 0) (enumerate n ds) = pre @ concat (map hex_pair ds)"
  using assms
proof (induction ds arbitrary: pre n)
  case (Cons d ds)
  have "(pre @ replicate (2 * length (d # ds)) 0)[n * 2 := HEX ! unat (drop_bit 4 d),
          n * 2 + 1 := HEX ! unat (d AND 0x0f)] = (pre @ hex_pair d) @ replicate (2 * length ds) 0"
    using Cons.prems by (simp add: list_update_append hex_pair_def numeral_2_eq_2)
  moreover have "length (pre @ hex_pair d) = 2 * Suc n"
    using Cons.prems by (simp add: hex_pair_def)
  ultimately show ?case
    using Cons.IH [of "pre @ hex_pair d" "Suc n"] by simp
qed simp

lemma digest_to_hex_pairs:
  assumes "length digest = 32"
  shows "digest_to_hex digest = concat (map hex_pair digest)"
  using hex_loop [of "[]" 0 digest] assms by (simp add: digest_to_hex_def)

section \<open>Properties\<close>

text \<open>
  The work cap is exact: an observer made by \<open>new(m)\<close> accepts its first \<open>m\<close> ticks and answers
  every later one with \<open>WorkCapExceeded\<close>, so a loop that ticks once per iteration runs at most \<open>m\<close>
  times.
\<close>

theorem observer_cap_exact:
  assumes "observer_new m = Ok obs" and "m < USIZE_MAX"
  shows "ticks n obs = (if n \<le> m then Ok (obs\<lparr>obs_count := n\<rparr>) else Err WorkCapExceeded)"
proof -
  have "obs = \<lparr>max_iterations = m, obs_count = 0\<rparr>"
    using assms(1) by (simp add: observer_new_def split: if_splits)
  then show ?thesis
    using assms(2) ticks_within [of obs n] ticks_beyond [of obs n] by simp
qed

theorem observer_cap_exact_witness:
  "ticks 3 \<lparr>max_iterations = 2, obs_count = 0\<rparr> = Err WorkCapExceeded"
  using observer_cap_exact [of 2 "\<lparr>max_iterations = 2, obs_count = 0\<rparr>" 3]
  by (simp add: observer_new_def USIZE_MAX_def)

end
