(* ===== verification/Bpf_Sha256.thy ===== *)
theory Bpf_Sha256
  imports Core_Base
begin

text \<open>
  The SHA-256 of the kernel build, \<^verbatim>\<open>dfim_core_engine/src/bpf_sha256.rs\<close>, which keeps its message
  schedule and its buffers in a workspace that is reused from call to call.

  The reference is the function of FIPS 180-4: pad the message, cut it into blocks of 16 words, and
  fold the compression function, whose schedule is a recursive equation on the index. The in-place
  schedule, the streaming loop, the padding across one or two blocks and the special-cased parent
  hash of the code are shown to compute it, whatever the workspace held before.
\<close>

section \<open>The implementation\<close>

definition INIT_STATE :: "u32 list" where
  "INIT_STATE =
    [0x6a09e667, 0xbb67ae85, 0x3c6ef372, 0xa54ff53a, 0x510e527f, 0x9b05688c, 0x1f83d9ab, 0x5be0cd19]"

definition K :: "u32 list" where
  "K = concat [
    [0x428a2f98, 0x71374491, 0xb5c0fbcf, 0xe9b5dba5, 0x3956c25b, 0x59f111f1, 0x923f82a4, 0xab1c5ed5],
    [0xd807aa98, 0x12835b01, 0x243185be, 0x550c7dc3, 0x72be5d74, 0x80deb1fe, 0x9bdc06a7, 0xc19bf174],
    [0xe49b69c1, 0xefbe4786, 0x0fc19dc6, 0x240ca1cc, 0x2de92c6f, 0x4a7484aa, 0x5cb0a9dc, 0x76f988da],
    [0x983e5152, 0xa831c66d, 0xb00327c8, 0xbf597fc7, 0xc6e00bf3, 0xd5a79147, 0x06ca6351, 0x14292967],
    [0x27b70a85, 0x2e1b2138, 0x4d2c6dfc, 0x53380d13, 0x650a7354, 0x766a0abb, 0x81c2c92e, 0x92722c85],
    [0xa2bfe8a1, 0xa81a664b, 0xc24b8b70, 0xc76c51a3, 0xd192e819, 0xd6990624, 0xf40e3585, 0x106aa070],
    [0x19a4c116, 0x1e376c08, 0x2748774c, 0x34b0bcb5, 0x391c0cb3, 0x4ed8aa4a, 0x5b9cca4f, 0x682e6ff3],
    [0x748f82ee, 0x78a5636f, 0x84c87814, 0x8cc70208, 0x90befffa, 0xa4506ceb, 0xbef9a3f7, 0xc67178f2]]"

record sha256_workspace =
  ws_state :: "u32 list"
  ws_w :: "u32 list"
  ws_block :: bytes
  ws_merge :: bytes

definition workspace_new :: sha256_workspace where
  "workspace_new =
     \<lparr>ws_state = INIT_STATE, ws_w = replicate 64 0, ws_block = replicate 64 0,
      ws_merge = replicate 64 0\<rparr>"

definition rotr :: "u32 \<Rightarrow> nat \<Rightarrow> u32" where "rotr x n = word_rotr n x"

definition ch :: "u32 \<Rightarrow> u32 \<Rightarrow> u32 \<Rightarrow> u32" where
  "ch x y z = (x AND y) XOR (NOT x AND z)"

definition maj :: "u32 \<Rightarrow> u32 \<Rightarrow> u32 \<Rightarrow> u32" where
  "maj x y z = (x AND y) XOR (x AND z) XOR (y AND z)"

definition sig0 :: "u32 \<Rightarrow> u32" where "sig0 x = rotr x 2 XOR rotr x 13 XOR rotr x 22"

definition sig1 :: "u32 \<Rightarrow> u32" where "sig1 x = rotr x 6 XOR rotr x 11 XOR rotr x 25"

definition gam0 :: "u32 \<Rightarrow> u32" where "gam0 x = rotr x 7 XOR rotr x 18 XOR drop_bit 3 x"

definition gam1 :: "u32 \<Rightarrow> u32" where "gam1 x = rotr x 17 XOR rotr x 19 XOR drop_bit 10 x"

definition load_block :: "u32 list \<Rightarrow> bytes \<Rightarrow> u32 list" where
  "load_block w block =
     foldl (\<lambda>w i. w[i := from_be_bytes (take 4 (drop (4 * i) block))]) w [0..<16]"

definition extend_schedule :: "u32 list \<Rightarrow> u32 list" where
  "extend_schedule w =
     foldl (\<lambda>w i. w[i := gam1 (w ! (i - 2)) + w ! (i - 7) + gam0 (w ! (i - 15)) + w ! (i - 16)])
       w [16..<64]"

type_synonym working = "u32 \<times> u32 \<times> u32 \<times> u32 \<times> u32 \<times> u32 \<times> u32 \<times> u32"

definition round_step :: "u32 list \<Rightarrow> working \<Rightarrow> nat \<Rightarrow> working" where
  "round_step w v i =
     (case v of (a, b, c, d, e, f, g, h) \<Rightarrow>
        let t1 = h + sig1 e + ch e f g + K ! i + w ! i;
            t2 = sig0 a + maj a b c
        in (t1 + t2, a, b, c, d + t1, e, f, g))"

definition compress_block_raw :: "u32 list \<Rightarrow> u32 list \<Rightarrow> bytes \<Rightarrow> u32 list \<times> u32 list" where
  "compress_block_raw st w block =
     (let w = extend_schedule (load_block w block)
      in case foldl (round_step w)
                (st ! 0, st ! 1, st ! 2, st ! 3, st ! 4, st ! 5, st ! 6, st ! 7) [0..<64] of
           (a, b, c, d, e, f, g, h) \<Rightarrow>
             ([st ! 0 + a, st ! 1 + b, st ! 2 + c, st ! 3 + d,
               st ! 4 + e, st ! 5 + f, st ! 6 + g, st ! 7 + h], w))"

definition reset_sha256 :: "sha256_workspace \<Rightarrow> sha256_workspace" where
  "reset_sha256 ws = ws\<lparr>ws_state := INIT_STATE, ws_w := replicate (length (ws_w ws)) 0\<rparr>"

definition state_to_digest :: "u32 list \<Rightarrow> bytes" where
  "state_to_digest st =
     foldl (\<lambda>out (i, word). put out (i * 4) (to_be_bytes 4 word)) (replicate 32 0) (enumerate 0 st)"

text \<open>\<^verbatim>\<open>compress_block_raw(&mut ws.state, &mut ws.w, ...)\<close> on the workspace.\<close>

definition compress_ws :: "bytes \<Rightarrow> sha256_workspace \<Rightarrow> sha256_workspace" where
  "compress_ws block ws =
     (case compress_block_raw (ws_state ws) (ws_w ws) block of
        (st, w) \<Rightarrow> ws\<lparr>ws_state := st, ws_w := w\<rparr>)"

function absorb_blocks ::
  "bytes \<Rightarrow> nat \<Rightarrow> sha256_workspace \<Rightarrow> nat \<times> sha256_workspace" where
  "absorb_blocks data offset ws =
     (if offset + 64 \<le> length data
      then let ws = ws\<lparr>ws_block := take 64 (drop offset data)\<rparr>
           in absorb_blocks data (offset + 64) (compress_ws (ws_block ws) ws)
      else (offset, ws))"
  by pat_completeness auto
termination
  by (relation "measure (\<lambda>(data, offset, ws). length data - offset)") auto

declare absorb_blocks.simps [simp del]

text \<open>The statements after the loop: pad the remainder, append the length, compress.\<close>

definition finish_blocks :: "nat \<Rightarrow> bytes \<Rightarrow> sha256_workspace \<Rightarrow> sha256_workspace" where
  "finish_blocks full_len rest ws =
     (let rem = length rest;
          ws = ws\<lparr>ws_block := replicate 64 0\<rparr>;
          ws = ws\<lparr>ws_block := put (ws_block ws) 0 rest\<rparr>;
          ws = ws\<lparr>ws_block := (ws_block ws)[rem := 0x80]\<rparr>;
          ws = (if rem \<ge> 56
                then (compress_ws (ws_block ws) ws)\<lparr>ws_block := replicate 64 0\<rparr>
                else ws);
          bit_len = of_nat full_len * 8 :: u64;
          ws = ws\<lparr>ws_block := put (ws_block ws) 56 (to_be_bytes 8 bit_len)\<rparr>
      in compress_ws (ws_block ws) ws)"

definition bpf_sha256_digest ::
  "bytes \<Rightarrow> sha256_workspace \<Rightarrow> bytes \<times> sha256_workspace" where
  "bpf_sha256_digest data ws =
     (case absorb_blocks data 0 (reset_sha256 ws) of
        (offset, ws) \<Rightarrow>
          let ws = finish_blocks (length data) (drop offset data) ws
          in (state_to_digest (ws_state ws), ws))"

definition bpf_parent_hash ::
  "bytes \<Rightarrow> bytes \<Rightarrow> sha256_workspace \<Rightarrow> bytes \<times> sha256_workspace" where
  "bpf_parent_hash l r ws =
     (let ws = ws\<lparr>ws_merge := put (put (ws_merge ws) 0 l) 32 r\<rparr>;
          ws = reset_sha256 ws;
          ws = compress_ws (ws_merge ws) ws;
          ws = ws\<lparr>ws_block := (replicate 64 0)[0 := 0x80]\<rparr>;
          ws = ws\<lparr>ws_block := put (ws_block ws) 56 (to_be_bytes 8 (512 :: u64))\<rparr>;
          ws = compress_ws (ws_block ws) ws
      in (state_to_digest (ws_state ws), ws))"

text \<open>The fixed-size arrays of the workspace.\<close>

definition ws_ok :: "sha256_workspace \<Rightarrow> bool" where
  "ws_ok ws \<longleftrightarrow> length (ws_state ws) = 8 \<and> length (ws_w ws) = 64 \<and>
     length (ws_block ws) = 64 \<and> length (ws_merge ws) = 64"

section \<open>The reference: FIPS 180-4\<close>

text \<open>The message schedule of a block of sixteen words (section 6.2.2, step 1).\<close>

fun fips_w :: "u32 list \<Rightarrow> nat \<Rightarrow> u32" where
  "fips_w M t =
     (if t < 16 then M ! t
      else gam1 (fips_w M (t - 2)) + fips_w M (t - 7) + gam0 (fips_w M (t - 15)) + fips_w M (t - 16))"

declare fips_w.simps [simp del]

definition fips_words :: "bytes \<Rightarrow> u32 list" where
  "fips_words block = map (\<lambda>i. from_be_bytes (take 4 (drop (4 * i) block))) [0..<16]"

definition fips_round :: "u32 list \<Rightarrow> working \<Rightarrow> nat \<Rightarrow> working" where
  "fips_round M v t =
     (case v of (a, b, c, d, e, f, g, h) \<Rightarrow>
        let t1 = h + sig1 e + ch e f g + K ! t + fips_w M t;
            t2 = sig0 a + maj a b c
        in (t1 + t2, a, b, c, d + t1, e, f, g))"

definition fips_compress :: "u32 list \<Rightarrow> bytes \<Rightarrow> u32 list" where
  "fips_compress H block =
     (case foldl (fips_round (fips_words block))
             (H ! 0, H ! 1, H ! 2, H ! 3, H ! 4, H ! 5, H ! 6, H ! 7) [0..<64] of
        (a, b, c, d, e, f, g, h) \<Rightarrow>
          [H ! 0 + a, H ! 1 + b, H ! 2 + c, H ! 3 + d, H ! 4 + e, H ! 5 + f, H ! 6 + g, H ! 7 + h])"

text \<open>Padding (section 5.1.1): a one bit, zeros up to 56 bytes modulo 64, the length in bits.\<close>

definition fips_pad :: "bytes \<Rightarrow> bytes" where
  "fips_pad m =
     m @ [0x80] @ replicate ((119 - length m mod 64) mod 64) 0 @
     to_be_bytes 8 (of_nat (8 * length m) :: u64)"

fun fips_blocks :: "bytes \<Rightarrow> bytes list" where
  "fips_blocks m = (if m = [] then [] else take 64 m # fips_blocks (drop 64 m))"

declare fips_blocks.simps [simp del]

definition fips_sha256 :: "bytes \<Rightarrow> bytes" where
  "fips_sha256 m =
     concat (map (to_be_bytes 4) (foldl fips_compress INIT_STATE (fips_blocks (fips_pad m))))"

lemma pad_zeros:
  fixes n :: nat
  shows "(119 - n mod 64) mod 64 = (if n mod 64 < 56 then 55 - n mod 64 else 119 - n mod 64)"
proof (cases "n mod 64 < 56")
  case True
  then have "119 - n mod 64 = 64 + (55 - n mod 64)" by simp
  moreover have "(64 + (55 - n mod 64)) mod 64 = 55 - n mod 64" by simp
  ultimately show ?thesis using True by simp
qed simp

lemma fips_pad_aligned: "length (fips_pad m) mod 64 = 0"
proof -
  define q r where "q = length m div 64" and "r = length m mod 64"
  have len: "length m = 64 * q + r" and r: "r < 64" by (simp_all add: q_def r_def)
  have "length (fips_pad m) = 64 * q + r + 9 + (if r < 56 then 55 - r else 119 - r)"
    using len pad_zeros [of "length m", folded r_def] unfolding fips_pad_def r_def [symmetric]
    by (simp only: length_append length_replicate length_to_be_bytes list.size)
  also have "\<dots> = 64 * (q + (if r < 56 then 1 else 2))" using r by auto
  finally show ?thesis by simp
qed

section \<open>The compression function\<close>

lemma foldl_fill:
  "n \<le> length w \<Longrightarrow> foldl (\<lambda>w i. w[i := f i]) w [0..<n] = map f [0..<n] @ drop n w"
proof (induction n)
  case (Suc n)
  then obtain x xs where "drop n w = x # xs" by (metis Suc_le_lessD Cons_nth_drop_Suc)
  moreover from this have "drop (Suc n) w = xs" by (metis drop_Suc list.sel(3) tl_drop)
  ultimately show ?case using Suc by (simp add: list_update_append)
qed simp

lemma load_block_words: "length w = 64 \<Longrightarrow> load_block w block = fips_words block @ drop 16 w"
  by (simp only: load_block_def fips_words_def) (rule foldl_fill, simp)

lemma extend_schedule_loop:
  assumes "length w = 64" and "\<forall>t < 16. w ! t = M ! t" and "16 \<le> k" and "k \<le> 64"
  defines "ext \<equiv> \<lambda>k. foldl (\<lambda>w i. w[i := gam1 (w ! (i - 2)) + w ! (i - 7) +
                                       gam0 (w ! (i - 15)) + w ! (i - 16)]) w [16..<k]"
  shows "length (ext k) = 64 \<and> (\<forall>t < k. ext k ! t = fips_w M t)"
  using assms(3,4)
proof (induction k rule: nat_induct_at_least)
  case base
  then show ?case using assms(1,2) by (simp add: ext_def fips_w.simps)
next
  case (Suc k)
  let ?w = "ext k"
  have IH: "length ?w = 64" "\<forall>t < k. ?w ! t = fips_w M t" using Suc by simp_all
  have "ext (Suc k) = ?w[k := gam1 (?w ! (k - 2)) + ?w ! (k - 7) + gam0 (?w ! (k - 15)) + ?w ! (k - 16)]"
    using Suc.hyps by (simp add: ext_def)
  also have "\<dots> = ?w[k := fips_w M k]"
    using IH(2) Suc.hyps by (simp add: fips_w.simps [of M k])
  finally show ?case using IH Suc.prems by (auto simp: nth_list_update less_Suc_eq)
qed

lemma extend_schedule_fips:
  assumes "length w = 64" and "\<forall>t < 16. w ! t = M ! t"
  shows "length (extend_schedule w) = 64" and "t < 64 \<Longrightarrow> extend_schedule w ! t = fips_w M t"
proof -
  have "length (extend_schedule w) = 64 \<and> (\<forall>t < 64. extend_schedule w ! t = fips_w M t)"
    unfolding extend_schedule_def by (rule extend_schedule_loop [OF assms]) simp_all
  then show "length (extend_schedule w) = 64" and "t < 64 \<Longrightarrow> extend_schedule w ! t = fips_w M t"
    by blast+
qed

lemma compress_block_raw_fips:
  assumes "length w = 64"
  shows "fst (compress_block_raw st w block) = fips_compress st block"
    and "length (snd (compress_block_raw st w block)) = 64"
proof -
  define v where "v = extend_schedule (load_block w block)"
  have lw: "length (load_block w block) = 64"
    using assms by (simp add: load_block_words fips_words_def)
  have first: "\<forall>t < 16. load_block w block ! t = fips_words block ! t"
    using assms by (simp add: load_block_words nth_append fips_words_def)
  have "foldl (round_step v) x [0..<64] = foldl (fips_round (fips_words block)) x [0..<64]" for x
    using extend_schedule_fips(2) [OF lw first]
    by (intro foldl_cong refl) (auto simp: round_step_def fips_round_def v_def split: prod.splits)
  then show "fst (compress_block_raw st w block) = fips_compress st block"
    by (simp add: compress_block_raw_def fips_compress_def Let_def split_def flip: v_def)
  show "length (snd (compress_block_raw st w block)) = 64"
    using extend_schedule_fips(1) [OF lw first]
    by (simp add: compress_block_raw_def Let_def split_def)
qed

lemma length_fips_compress [simp]: "length (fips_compress st block) = 8"
  by (simp add: fips_compress_def split_def)

lemma compress_ws_fips:
  assumes "ws_ok ws"
  shows "ws_state (compress_ws block ws) = fips_compress (ws_state ws) block"
    and "ws_ok (compress_ws block ws)"
    and "ws_block (compress_ws block ws) = ws_block ws"
    and "ws_merge (compress_ws block ws) = ws_merge ws"
  using assms compress_block_raw_fips [of "ws_w ws" "ws_state ws" block]
  by (auto simp: compress_ws_def ws_ok_def split_def)

section \<open>The streaming loop and the padding\<close>

lemma fips_blocks_Nil [simp]: "fips_blocks [] = []"
  by (simp add: fips_blocks.simps)

lemma fips_blocks_block: "length b = 64 \<Longrightarrow> fips_blocks (b @ m) = b # fips_blocks m"
  by (subst fips_blocks.simps) auto

lemma absorb_blocks_fips:
  assumes "absorb_blocks data offset ws = (off', ws')" and "offset \<le> length data" and "ws_ok ws"
  shows "ws_ok ws' \<and> off' \<le> length data \<and> length data - off' < 64 \<and>
     (length data - off') mod 64 = (length data - offset) mod 64 \<and>
     foldl fips_compress (ws_state ws') (fips_blocks (drop off' data @ tail)) =
     foldl fips_compress (ws_state ws) (fips_blocks (drop offset data @ tail))"
  using assms
proof (induction data offset ws rule: absorb_blocks.induct)
  case (1 data offset ws)
  show ?case
  proof (cases "offset + 64 \<le> length data")
    case False
    then show ?thesis using 1(2-) by (auto simp: absorb_blocks.simps)
  next
    case True
    let ?b = "take 64 (drop offset data)"
    let ?ws = "compress_ws ?b (ws\<lparr>ws_block := ?b\<rparr>)"
    have ok: "ws_ok (ws\<lparr>ws_block := ?b\<rparr>)" using True 1(4) by (simp add: ws_ok_def)
    have rec: "absorb_blocks data (offset + 64) ?ws = (off', ws')"
      using 1(2) True by (subst (asm) absorb_blocks.simps) (simp add: Let_def)
    have split: "drop offset data @ tail = ?b @ drop (offset + 64) data @ tail"
      by (metis append.assoc append_take_drop_id drop_drop add.commute)
    have "length data - offset = length data - (offset + 64) + 64" using True by simp
    then have m: "(length data - offset) mod 64 = (length data - (offset + 64)) mod 64"
      by (metis mod_add_self2)
    have "length ?b = 64" using True by simp
    note blk = fips_blocks_block [OF this, of "drop (offset + 64) data @ tail"]
    show ?thesis
      using 1(1) [OF True refl] rec True compress_ws_fips(1,2) [OF ok, of ?b]
      unfolding split blk m by simp
  qed
qed

lemma put_whole_block:
  "length b = off + length tail \<Longrightarrow> put b off tail = take off b @ tail"
  by (simp add: put_def)

lemma put_prefix_marked:
  fixes r :: bytes
  assumes "length r < 64"
  shows "(put (replicate 64 0) 0 r)[length r := 0x80] = r @ 0x80 # replicate (63 - length r) 0"
proof -
  have "64 - length r = Suc (63 - length r)" using assms by simp
  then have "replicate (64 - length r) 0 = (0 :: u8) # replicate (63 - length r) 0"
    by (simp only: replicate_Suc)
  then show ?thesis
    by (simp only: put_def take_0 append_Nil drop_replicate add_0 list_update_length)
qed

lemma state_to_digest_concat:
  assumes "length st = 8"
  shows "state_to_digest st = concat (map (to_be_bytes 4) st)"
proof -
  have loop: "foldl (\<lambda>out (i, word). put out (i * 4) (to_be_bytes 4 word))
      (pre @ replicate (4 * length ws) 0) (enumerate n ws) = pre @ concat (map (to_be_bytes 4) ws)"
    if "length pre = 4 * n" for pre :: bytes and n and ws :: "u32 list"
    using that
  proof (induction ws arbitrary: pre n)
    case (Cons w ws)
    have "put (pre @ replicate (4 * length (w # ws)) 0) (n * 4) (to_be_bytes 4 w) =
          (pre @ to_be_bytes 4 w) @ replicate (4 * length ws) 0"
      using Cons.prems by (simp add: put_def mult.commute)
    with Cons.IH [of "pre @ to_be_bytes 4 w" "Suc n"] Cons.prems show ?case by simp
  qed simp
  from loop [of "[]" 0 st] assms show ?thesis by (simp add: state_to_digest_def)
qed

text \<open>The padded remainder as one block or two.\<close>

lemma fips_pad_blocks:
  fixes r :: bytes and len :: bytes
  assumes "length r < 64" and "length len = 8"
  shows "fips_blocks (r @ [0x80] @ replicate ((119 - length r) mod 64) 0 @ len) =
    (if length r < 56 then [take 56 (r @ 0x80 # replicate (63 - length r) 0) @ len]
     else [r @ 0x80 # replicate (63 - length r) 0, replicate 56 0 @ len])"
proof (cases "length r < 56")
  case True
  have z: "(119 - length r) mod 64 = 55 - length r" using pad_zeros [of "length r"] assms True by simp
  have t: "take 56 (r @ 0x80 # replicate (63 - length r) 0) = r @ 0x80 # replicate (55 - length r) 0"
  proof -
    have "56 - length r = Suc (55 - length r)" using True by simp
    then have "take 56 (r @ 0x80 # replicate (63 - length r) 0) =
        r @ 0x80 # replicate (min (55 - length r) (63 - length r)) 0"
      using True by (simp only: take_append take_all_iff take_Suc_Cons take_replicate) simp
    then show ?thesis by simp
  qed
  have "length (r @ 0x80 # replicate (55 - length r) 0 @ len) = 64" using True assms by simp
  from fips_blocks_block [OF this, of "[]"] show ?thesis
    using True unfolding t z by simp
next
  case False
  have z: "(119 - length r) mod 64 = 119 - length r"
    using pad_zeros [of "length r"] assms False by simp
  have "119 - length r = (63 - length r) + 56" using assms by simp
  then have zeros: "replicate (119 - length r) (0 :: u8) = replicate (63 - length r) 0 @ replicate 56 0"
    by (simp only: replicate_add)
  have split: "r @ [0x80] @ replicate (119 - length r) 0 @ len =
      (r @ 0x80 # replicate (63 - length r) 0) @ (replicate 56 0 @ len) @ []"
    unfolding zeros by (simp only: append.simps append_assoc append_Nil2)
  have l: "length (r @ 0x80 # replicate (63 - length r) 0) = 64" "length (replicate 56 0 @ len) = 64"
    using assms by simp_all
  show ?thesis
    using False unfolding z split
    by (simp only: fips_blocks_block [OF l(1)] fips_blocks_block [OF l(2)] fips_blocks_Nil if_False)
qed

section \<open>The digests are those of FIPS 180-4\<close>

lemma reset_sha256_ok:
  assumes "ws_ok ws"
  shows "ws_ok (reset_sha256 ws)" and "ws_state (reset_sha256 ws) = INIT_STATE"
    and "ws_merge (reset_sha256 ws) = ws_merge ws"
  using assms by (simp_all add: reset_sha256_def ws_ok_def INIT_STATE_def)

lemma finish_blocks_fips:
  assumes "ws_ok ws" and r: "length r < 64" and len_def: "len = to_be_bytes 8 (of_nat n * 8 :: u64)"
  shows "ws_state (finish_blocks n r ws) =
      foldl fips_compress (ws_state ws) (fips_blocks (r @ [0x80] @ replicate ((119 - length r) mod 64) 0 @ len))"
    and "ws_ok (finish_blocks n r ws)"
proof -
  define blk where "blk = r @ 0x80 # replicate (63 - length r) 0"
  define w2 where "w2 = ws\<lparr>ws_block := blk\<rparr>"
  define w3 where "w3 = (if 56 \<le> length r then (compress_ws blk w2)\<lparr>ws_block := replicate 64 0\<rparr> else w2)"
  define w4 where "w4 = w3\<lparr>ws_block := put (ws_block w3) 56 len\<rparr>"
  have run: "finish_blocks n r ws = compress_ws (ws_block w4) w4"
    using put_prefix_marked [OF r]
    by (simp add: finish_blocks_def Let_def w4_def w3_def w2_def blk_def len_def)
  have ok2: "ws_ok w2" using assms(1) r by (simp add: w2_def blk_def ws_ok_def)
  have ok3: "ws_ok w3" using ok2 compress_ws_fips(2) [OF ok2, of blk] by (simp add: w3_def ws_ok_def)
  then have b4: "ws_block w4 = take 56 (ws_block w3) @ len"
    by (simp add: w4_def ws_ok_def put_whole_block len_def)
  have ok4: "ws_ok w4" using ok3 b4 by (simp add: ws_ok_def w4_def len_def)
  show "ws_ok (finish_blocks n r ws)" using compress_ws_fips(2) [OF ok4] by (simp add: run)
  have "fips_blocks (r @ [0x80] @ replicate ((119 - length r) mod 64) 0 @ len) =
      (if length r < 56 then [ws_block w4] else [blk, ws_block w4])"
    using fips_pad_blocks [OF r, of len]
    by (simp add: b4 w3_def w2_def len_def blk_def del: take_append)
  then show "ws_state (finish_blocks n r ws) =
      foldl fips_compress (ws_state ws) (fips_blocks (r @ [0x80] @ replicate ((119 - length r) mod 64) 0 @ len))"
    using compress_ws_fips(1) [OF ok4] compress_ws_fips(1) [OF ok2, of blk]
    by (simp add: run) (simp add: w4_def w3_def w2_def)
qed

lemma bpf_sha256_digest_fips:
  assumes "ws_ok ws"
  shows "fst (bpf_sha256_digest data ws) = fips_sha256 data"
    and "ws_ok (snd (bpf_sha256_digest data ws))"
proof -
  obtain off w1 where ab: "absorb_blocks data 0 (reset_sha256 ws) = (off, w1)" by fastforce
  define r where "r = drop off data"
  define tail where "tail = [0x80] @ replicate ((119 - length r) mod 64) 0 @
    to_be_bytes 8 (of_nat (length data) * 8 :: u64)"
  note abs = absorb_blocks_fips [OF ab _ reset_sha256_ok(1) [OF assms], of tail]
  have w1: "ws_ok w1" and r: "length r < 64" and m: "length r mod 64 = length data mod 64"
    using abs by (simp_all add: r_def)
  have "length data mod 64 = length r" using m r by simp
  then have "fips_pad data = data @ tail" by (simp add: fips_pad_def tail_def mult.commute)
  then have "foldl fips_compress INIT_STATE (fips_blocks (fips_pad data)) =
      foldl fips_compress (ws_state w1) (fips_blocks (r @ tail))"
    using abs reset_sha256_ok(2) [OF assms] by (simp add: r_def)
  then have st: "ws_state (finish_blocks (length data) r w1) =
      foldl fips_compress INIT_STATE (fips_blocks (fips_pad data))"
    using finish_blocks_fips(1) [OF w1 r refl] by (simp add: tail_def)
  have ok: "ws_ok (finish_blocks (length data) r w1)" by (rule finish_blocks_fips(2) [OF w1 r refl])
  have run: "bpf_sha256_digest data ws =
      (state_to_digest (ws_state (finish_blocks (length data) r w1)), finish_blocks (length data) r w1)"
    by (simp add: bpf_sha256_digest_def ab Let_def r_def)
  show "fst (bpf_sha256_digest data ws) = fips_sha256 data"
    using ok st by (simp add: run fips_sha256_def ws_ok_def state_to_digest_concat)
  show "ws_ok (snd (bpf_sha256_digest data ws))" using ok by (simp add: run)
qed

lemma bpf_parent_hash_fips:
  assumes "ws_ok ws" and "length l = 32" and "length r = 32"
  shows "fst (bpf_parent_hash l r ws) = fips_sha256 (l @ r)"
    and "ws_ok (snd (bpf_parent_hash l r ws))"
proof -
  define len where "len = to_be_bytes 8 (512 :: u64)"
  define w1 where "w1 = reset_sha256 (ws\<lparr>ws_merge := l @ r\<rparr>)"
  define w2 where "w2 = compress_ws (l @ r) w1"
  define w3 where "w3 = w2\<lparr>ws_block := put ((replicate 64 0)[0 := 0x80]) 56 len\<rparr>"
  have merge: "put (put (ws_merge ws) 0 l) 32 r = l @ r"
    using assms by (simp add: put_def ws_ok_def)
  have ok0: "ws_ok (ws\<lparr>ws_merge := l @ r\<rparr>)" using assms by (simp add: ws_ok_def)
  note w1 = reset_sha256_ok [OF ok0, folded w1_def]
  have run: "bpf_parent_hash l r ws = (state_to_digest (ws_state (compress_ws (ws_block w3) w3)),
      compress_ws (ws_block w3) w3)"
    using w1(3) by (simp add: bpf_parent_hash_def Let_def merge w3_def w2_def w1_def len_def)
  have b: "ws_block w3 = 0x80 # replicate 55 0 @ len"
    using put_prefix_marked [of "[]"] by (simp add: w3_def put_whole_block len_def numeral_eq_Suc)
  have ok2: "ws_ok w2" and ok3: "ws_ok w3"
    using compress_ws_fips(2) [OF w1(1), of "l @ r"] by (simp_all add: w2_def w3_def ws_ok_def len_def put_def)
  have "fips_pad (l @ r) = (l @ r) @ [] @ [0x80] @ replicate ((119 - length []) mod 64) 0 @ len"
    using assms by (simp add: fips_pad_def len_def)
  then have "fips_blocks (fips_pad (l @ r)) = [l @ r, ws_block w3]"
    using fips_pad_blocks [of "[]" len] assms fips_blocks_block [of "l @ r"]
    by (simp add: b len_def)
  then have st: "ws_state (compress_ws (ws_block w3) w3) =
      foldl fips_compress INIT_STATE (fips_blocks (fips_pad (l @ r)))"
    using compress_ws_fips(1) [OF ok3] compress_ws_fips(1) [OF w1(1)] w1(2)
    by (simp add: w2_def w3_def)
  have ok: "ws_ok (compress_ws (ws_block w3) w3)" by (rule compress_ws_fips(2) [OF ok3])
  show "fst (bpf_parent_hash l r ws) = fips_sha256 (l @ r)"
    using ok st by (simp add: run fips_sha256_def ws_ok_def state_to_digest_concat)
  show "ws_ok (snd (bpf_parent_hash l r ws))" using ok by (simp add: run)
qed

lemma length_foldl_compress: "length H = 8 \<Longrightarrow> length (foldl fips_compress H bs) = 8"
  by (induction bs arbitrary: H) auto

lemma length_fips_sha256 [simp]: "length (fips_sha256 m) = 32"
  using length_foldl_compress [of INIT_STATE]
  by (simp add: fips_sha256_def length_concat comp_def sum_list_triv INIT_STATE_def)

section \<open>The primitives of the kernel build\<close>

text \<open>
  In the \<^verbatim>\<open>bpf\<close> build, \<^verbatim>\<open>digest::sha256_digest\<close> runs the routine above on a fresh workspace. With the
  comparison loop of \<^verbatim>\<open>dfim_host_init\<close> these are primitives written in the repository itself, and
  they satisfy the contract the other components rely on.
\<close>

definition bpf_prims :: hash_prims where
  "bpf_prims = \<lparr>sha256 = (\<lambda>data. fst (bpf_sha256_digest data workspace_new)),
                ct_eq = constant_time_eq\<rparr>"

lemma workspace_new_ok: "ws_ok workspace_new"
  by (simp add: ws_ok_def workspace_new_def INIT_STATE_def)

lemma sha256_bpf_prims: "sha256 bpf_prims data = fips_sha256 data"
  by (simp add: bpf_prims_def bpf_sha256_digest_fips(1) workspace_new_ok)

interpretation kernel_hash: hash_contract bpf_prims
  by unfold_locales (simp_all add: sha256_bpf_prims, simp add: bpf_prims_def constant_time_eq_iff)

section \<open>Properties\<close>

text \<open>
  C27. The kernel's workspace SHA-256 computes the FIPS 180-4 digest of every message, whatever an
  earlier call left in the workspace, and keeps the workspace well formed for the next call.
\<close>

theorem kernel_sha256_correct:
  assumes "ws_ok ws"
  shows "fst (bpf_sha256_digest data ws) = fips_sha256 data \<and> ws_ok (snd (bpf_sha256_digest data ws))"
  using bpf_sha256_digest_fips [OF assms] by simp

theorem kernel_sha256_correct_witness:
  "fst (bpf_sha256_digest [0x61, 0x62, 0x63] (snd (bpf_sha256_digest [1] workspace_new))) =
   fips_sha256 [0x61, 0x62, 0x63]"
  using kernel_sha256_correct [of "snd (bpf_sha256_digest [1] workspace_new)" "[0x61, 0x62, 0x63]"]
    bpf_sha256_digest_fips(2) [OF workspace_new_ok, of "[1]"] by simp

text \<open>
  The special-cased parent hash of the kernel, which compresses the two children and a constant
  padding block, is the digest of their concatenation by the general routine, on any workspaces.
\<close>

theorem kernel_parent_hash_correct:
  assumes "ws_ok ws" and "ws_ok ws'" and "length l = 32" and "length r = 32"
  shows "fst (bpf_parent_hash l r ws) = fst (bpf_sha256_digest (l @ r) ws')"
  using bpf_parent_hash_fips(1) [OF assms(1,3,4)] bpf_sha256_digest_fips(1) [OF assms(2)] by simp

theorem kernel_parent_hash_correct_witness:
  "fst (bpf_parent_hash (replicate 32 1) (replicate 32 2) workspace_new) =
   fst (bpf_sha256_digest (replicate 32 1 @ replicate 32 2) workspace_new)"
  using kernel_parent_hash_correct
    [OF workspace_new_ok workspace_new_ok, of "replicate 32 1" "replicate 32 2"] by simp

end
