(* ===== verification/Merkle.thy ===== *)
theory Merkle
  imports Bpf_Sha256
begin

text \<open>
  The Merkle tree of \<^verbatim>\<open>dfim_core_engine/src/merkle.rs\<close>: \<open>build\<close> with its work-capping observer,
  \<open>prove\<close> and \<open>verify_proof\<close>.

  The specification of a tree is the family \<open>merkle_node C hs k i\<close> of its nodes, given by recursion
  on the level \<open>k\<close> alone; \<open>build\<close> is shown to compute it layer by layer without ever exhausting its
  work cap. Membership proofs are complete, have logarithmic length, and are sound in the only
  sense a hash can give: from an accepted proof for data that is not the leaf, the executable
  function \<open>merkle_collision\<close> extracts two different messages with the same digest.
\<close>

section \<open>The data and the operations\<close>

datatype proof_side = Left | Right

record proof_step =
  sibling :: bytes

record merkle_proof =
  steps :: "proof_step list"

record merkle_tree =
  tree_root :: bytes
  layers :: "bytes list list"

definition leaf_hash :: "hash_prims \<Rightarrow> bytes \<Rightarrow> bytes" where
  "leaf_hash C data = sha256_digest C data"

definition parent_hash :: "hash_prims \<Rightarrow> bytes \<Rightarrow> bytes \<Rightarrow> bytes" where
  "parent_hash C l r = sha256_digest C (put (put (replicate 64 0) 0 l) 32 r)"

text \<open>The first loop of \<open>build\<close>: hash the leaves, one tick each.\<close>

primrec hash_leaves ::
  "hash_prims \<Rightarrow> pattern_observer \<Rightarrow> bytes list \<Rightarrow> (pattern_observer \<times> bytes list) dfim_result"
where
  "hash_leaves C obs [] = Ok (obs, [])"
| "hash_leaves C obs (leaf # rest) =
     and_then (tick_q obs) (\<lambda>obs.
     and_then (hash_leaves C obs rest) (\<lambda>(obs, hs).
     Ok (obs, sha256_digest C leaf # hs)))"

text \<open>The inner loop: one pass over a layer, two nodes at a time, one tick per parent.\<close>

fun next_layer ::
  "hash_prims \<Rightarrow> pattern_observer \<Rightarrow> bytes list \<Rightarrow> (pattern_observer \<times> bytes list) dfim_result"
where
  "next_layer C obs [] = Ok (obs, [])"
| "next_layer C obs [l] =
     and_then (tick_q obs) (\<lambda>obs. Ok (obs, [parent_hash C l l]))"
| "next_layer C obs (l # r # rest) =
     and_then (tick_q obs) (\<lambda>obs.
     and_then (next_layer C obs rest) (\<lambda>(obs, next).
     Ok (obs, parent_hash C l r # next)))"

lemma next_layer_length:
  "next_layer C obs hs = Ok (obs', next) \<Longrightarrow> length next = div_ceil (length hs) 2"
  by (induction C obs hs arbitrary: obs' "next" rule: next_layer.induct)
    (auto simp: div_ceil_def)

lemma div_ceil_2_less: "1 < n \<Longrightarrow> div_ceil n 2 < n"
  by (auto simp: div_ceil_def)

text \<open>The outer loop: layers until one node is left.\<close>

function build_layers ::
  "hash_prims \<Rightarrow> pattern_observer \<Rightarrow> bytes list \<Rightarrow> bytes list list \<Rightarrow>
   (bytes list \<times> bytes list list) dfim_result"
where
  "build_layers C obs current lays =
     (if length current > 1
      then and_then (next_layer C obs current) (\<lambda>(obs, next).
           build_layers C obs next (lays @ [next]))
      else Ok (current, lays))"
  by pat_completeness auto
termination
  by (relation "measure (\<lambda>(C, obs, current, lays). length current)")
    (auto dest!: next_layer_length simp: div_ceil_2_less)

declare build_layers.simps [simp del]

definition build :: "hash_prims \<Rightarrow> bytes list \<Rightarrow> merkle_tree dfim_result" where
  "build C leaves =
     (if leaves = [] then Err EmptyInput
      else
        and_then (observer_new (saturating_mul (length leaves) 3)) (\<lambda>obs.
        and_then (hash_leaves C obs leaves) (\<lambda>(obs, current).
        and_then (build_layers C obs current [current]) (\<lambda>(current, lays).
        and_then (ok_or IntegrityFailure (case current of [] \<Rightarrow> None | h # _ \<Rightarrow> Some h)) (\<lambda>root.
        Ok \<lparr>tree_root = root, layers = lays\<rparr>)))))"

definition leaf_count :: "merkle_tree \<Rightarrow> nat" where
  "leaf_count t = (case layers t of [] \<Rightarrow> 0 | l # _ \<Rightarrow> length l)"

definition sibling_index :: "nat \<Rightarrow> nat \<Rightarrow> nat" where
  "sibling_index idx width =
     (if is_multiple_of idx 2 then (if idx + 1 < width then idx + 1 else idx) else idx - 1)"

primrec prove_loop ::
  "bytes list list \<Rightarrow> nat \<Rightarrow> pattern_observer \<Rightarrow> proof_step list dfim_result" where
  "prove_loop [] idx obs = Ok []"
| "prove_loop (layer # rest) idx obs =
     and_then (tick_q obs) (\<lambda>obs.
     and_then (index_at layer (sibling_index idx (length layer))) (\<lambda>h.
     and_then (prove_loop rest (idx div 2) obs) (\<lambda>sts.
     Ok (\<lparr>sibling = h\<rparr> # sts))))"

definition prove :: "merkle_tree \<Rightarrow> nat \<Rightarrow> merkle_proof dfim_result" where
  "prove t index =
     (if index \<ge> leaf_count t then Err InvalidParameter
      else
        and_then (observer_new (max (leaf_count t) 1001)) (\<lambda>obs.
        and_then (sub_slice (layers t) 0 (length (layers t) - 1)) (\<lambda>ls.
        and_then (prove_loop ls index obs) (\<lambda>sts.
        Ok \<lparr>steps = sts\<rparr>))))"

definition climb_step :: "hash_prims \<Rightarrow> bytes \<Rightarrow> nat \<Rightarrow> proof_step \<Rightarrow> bytes" where
  "climb_step C h idx st =
     (if is_multiple_of idx 2 then parent_hash C h (sibling st) else parent_hash C (sibling st) h)"

primrec verify_loop ::
  "hash_prims \<Rightarrow> bytes \<Rightarrow> nat \<Rightarrow> pattern_observer \<Rightarrow> proof_step list \<Rightarrow> bytes dfim_result" where
  "verify_loop C h idx obs [] = Ok h"
| "verify_loop C h idx obs (st # sts) =
     and_then (tick_q obs) (\<lambda>obs. verify_loop C (climb_step C h idx st) (idx div 2) obs sts)"

definition verify_proof ::
  "hash_prims \<Rightarrow> bytes \<Rightarrow> bytes \<Rightarrow> nat \<Rightarrow> merkle_proof \<Rightarrow> bool dfim_result" where
  "verify_proof C root leaf_data leaf_index p =
     and_then (observer_new (max (length (steps p)) 1001)) (\<lambda>obs.
     and_then (verify_loop C (leaf_hash C leaf_data) leaf_index obs (steps p)) (\<lambda>h.
     Ok (constant_time_hash_eq C h root)))"

section \<open>The specification of a tree\<close>

definition layer_width :: "nat \<Rightarrow> nat \<Rightarrow> nat" where
  "layer_width n k = div_ceil n (2 ^ k)"

text \<open>The right child of node \<open>i\<close>; a layer of odd width uses its last node twice.\<close>

definition right_child :: "nat \<Rightarrow> nat \<Rightarrow> nat" where
  "right_child width i = (if 2 * i + 1 < width then 2 * i + 1 else 2 * i)"

primrec merkle_node :: "hash_prims \<Rightarrow> bytes list \<Rightarrow> nat \<Rightarrow> nat \<Rightarrow> bytes" where
  "merkle_node C hs 0 i = hs ! i"
| "merkle_node C hs (Suc k) i =
     sha256 C (merkle_node C hs k (2 * i) @
               merkle_node C hs k (right_child (layer_width (length hs) k) i))"

text \<open>The number of layers above the leaves: the least \<open>d\<close> with \<open>n \<le> 2 ^ d\<close>.\<close>

function depth :: "nat \<Rightarrow> nat" where
  "depth n = (if n \<le> 1 then 0 else Suc (depth (div_ceil n 2)))"
  by pat_completeness auto
termination
  by (relation "measure id") (auto simp: div_ceil_2_less)

declare depth.simps [simp del]

definition merkle_layer :: "hash_prims \<Rightarrow> bytes list \<Rightarrow> nat \<Rightarrow> bytes list" where
  "merkle_layer C hs k = map (merkle_node C hs k) [0..<layer_width (length hs) k]"

definition merkle_spec :: "hash_prims \<Rightarrow> bytes list \<Rightarrow> merkle_tree" where
  "merkle_spec C leaves =
     (let hs = map (sha256 C) leaves; d = depth (length leaves)
      in \<lparr>tree_root = merkle_node C hs d 0, layers = map (merkle_layer C hs) [0..<Suc d]\<rparr>)"

subsection \<open>Widths and depth\<close>

lemma pow2_less_iff_depth: "2 ^ k < n \<longleftrightarrow> k < depth n"
proof (induction n arbitrary: k rule: depth.induct)
  case (1 n)
  show ?case
  proof (cases "n \<le> 1")
    case True
    then have "depth n = 0" by (subst depth.simps) simp
    moreover have "\<not> 2 ^ k < n" using True one_le_numeral [of "num.Bit0 num.One"]
      by (metis less_le_trans not_less one_le_numeral one_le_power)
    ultimately show ?thesis by simp
  next
    case False
    then have d: "depth n = Suc (depth (div_ceil n 2))" by (subst depth.simps) simp
    show ?thesis
    proof (cases k)
      case 0
      with False d show ?thesis by simp
    next
      case (Suc k')
      have "2 ^ k' < div_ceil n 2 \<longleftrightarrow> 2 ^ k < n"
        using div_ceil_le_iff [of 2 n "2 ^ k'"] by (simp add: Suc mult.commute not_le [symmetric])
      with 1 [OF False, of k'] d Suc show ?thesis by simp
    qed
  qed
qed

lemma depth_bound: "n \<le> 2 ^ depth n"
  using pow2_less_iff_depth [of "depth n" n] by simp

lemma layer_width_0 [simp]: "layer_width n 0 = n"
  by (simp add: layer_width_def div_ceil_def)

lemma div_ceil_div_ceil: "div_ceil (div_ceil n (2 ^ k)) 2 = div_ceil n (2 ^ Suc k)"
proof -
  have "div_ceil (div_ceil n (2 ^ k)) 2 \<le> m \<longleftrightarrow> div_ceil n (2 ^ Suc k) \<le> m" for m
    by (simp add: div_ceil_le_iff algebra_simps)
  then show ?thesis by (meson order_antisym order_refl)
qed

lemma layer_width_Suc: "layer_width n (Suc k) = div_ceil (layer_width n k) 2"
  by (simp only: layer_width_def div_ceil_div_ceil)

lemma layer_width_gt_1: "Suc 0 < layer_width n k \<longleftrightarrow> k < depth n"
proof -
  have "layer_width n k \<le> 1 \<longleftrightarrow> n \<le> 2 ^ k"
    using div_ceil_le_iff [of "2 ^ k" n 1] by (simp add: layer_width_def)
  then show ?thesis using pow2_less_iff_depth [of k n] by linarith
qed

lemma layer_width_pos: "0 < n \<Longrightarrow> 0 < layer_width n k"
  by (simp add: layer_width_def div_ceil_pos)

lemma layer_width_depth: "0 < n \<Longrightarrow> layer_width n (depth n) = 1"
  using layer_width_gt_1 [of n "depth n"] layer_width_pos [of n "depth n"] by simp

lemma index_below_width:
  assumes "i < n"
  shows "i div 2 ^ k < layer_width n k"
proof -
  have "\<not> layer_width n k \<le> i div 2 ^ k"
  proof
    assume "layer_width n k \<le> i div 2 ^ k"
    then have "n \<le> i div 2 ^ k * 2 ^ k" by (simp add: layer_width_def div_ceil_le_iff)
    also have "\<dots> \<le> i" by (simp add: mult.commute)
    finally show False using assms by simp
  qed
  then show ?thesis by simp
qed

lemma parent_index_below:
  assumes "i < div_ceil w 2"
  shows "2 * i < w" and "right_child w i < w"
proof -
  show "2 * i < w" using assms div_ceil_le_iff [of 2 w i] by (simp add: mult.commute not_le [symmetric])
  then show "right_child w i < w" by (auto simp: right_child_def)
qed

subsection \<open>Nodes have the length of a digest\<close>

lemma parent_hash_concat:
  assumes "length l = 32" and "length r = 32"
  shows "parent_hash C l r = sha256 C (l @ r)"
  using assms by (simp add: parent_hash_def sha256_digest_def put_def)

lemma length_parent_hash: "hash_contract C \<Longrightarrow> length (parent_hash C l r) = 32"
  by (simp add: parent_hash_def length_sha256_digest)

lemma length_merkle_node:
  assumes "hash_contract C" and "\<forall>h \<in> set hs. length h = 32" and "i < layer_width (length hs) k"
  shows "length (merkle_node C hs k i) = 32"
  using assms by (cases k) (auto simp: hash_contract.sha256_len)

section \<open>The build loop computes the specification\<close>

fun parents :: "hash_prims \<Rightarrow> bytes list \<Rightarrow> bytes list" where
  "parents C [] = []"
| "parents C [l] = [parent_hash C l l]"
| "parents C (l # r # rest) = parent_hash C l r # parents C rest"

lemma length_parents: "length (parents C hs) = div_ceil (length hs) 2"
  by (induction C hs rule: parents.induct) (auto simp: div_ceil_def)

lemma nth_parents:
  assumes "i < div_ceil (length hs) 2"
  shows "parents C hs ! i = parent_hash C (hs ! (2 * i)) (hs ! right_child (length hs) i)"
  using assms
proof (induction C hs arbitrary: i rule: parents.induct)
  case (3 C l r rest)
  then show ?case
  proof (cases i)
    case (Suc j)
    then have "j < div_ceil (length rest) 2" using 3(2) by (simp add: div_ceil_def)
    with 3(1) Suc show ?thesis by (simp add: right_child_def)
  qed (simp add: right_child_def)
qed (auto simp: div_ceil_def right_child_def)

lemma next_layer_parents:
  assumes "budget obs (div_ceil (length hs) 2 + n)"
  shows "\<exists>obs'. next_layer C obs hs = Ok (obs', parents C hs) \<and> budget obs' n"
  using assms
proof (induction C obs hs rule: next_layer.induct)
  case (1 C obs)
  then show ?case by (simp add: div_ceil_def)
next
  case (2 C obs l)
  then have "budget obs (Suc n)" by (simp add: div_ceil_def)
  then show ?case by (rule budget_tick) auto
next
  case (3 C obs l r rest)
  have "div_ceil (length (l # r # rest)) 2 = Suc (div_ceil (length rest) 2)"
    by (simp add: div_ceil_def)
  with 3(2) have "budget obs (Suc (div_ceil (length rest) 2 + n))" by simp
  then obtain obs' where "tick_q obs = Ok obs'" "budget obs' (div_ceil (length rest) 2 + n)"
    by (rule budget_tick)
  with 3(1) [of obs'] show ?case by auto
qed

lemma hash_leaves_map:
  assumes "budget obs (length ls + n)"
  shows "\<exists>obs'. hash_leaves C obs ls = Ok (obs', map (sha256 C) ls) \<and> budget obs' n"
  using assms
proof (induction ls arbitrary: obs)
  case (Cons l ls)
  then have "budget obs (Suc (length ls + n))" by simp
  then obtain obs' where "tick_q obs = Ok obs'" "budget obs' (length ls + n)"
    by (rule budget_tick)
  with Cons.IH [of obs'] show ?case by (auto simp: sha256_digest_def)
qed simp

lemma parents_merkle_layer:
  assumes "hash_contract C" and "\<forall>h \<in> set hs. length h = 32"
  shows "parents C (merkle_layer C hs k) = merkle_layer C hs (Suc k)"
proof (rule nth_equalityI)
  show len: "length (parents C (merkle_layer C hs k)) = length (merkle_layer C hs (Suc k))"
    by (simp add: length_parents merkle_layer_def layer_width_Suc)
  fix i
  assume "i < length (parents C (merkle_layer C hs k))"
  then have i: "i < div_ceil (layer_width (length hs) k) 2"
    by (simp add: length_parents merkle_layer_def)
  note below = parent_index_below [OF i]
  show "parents C (merkle_layer C hs k) ! i = merkle_layer C hs (Suc k) ! i"
    using i below length_merkle_node [OF assms]
    by (simp add: nth_parents merkle_layer_def layer_width_Suc parent_hash_concat)
qed

text \<open>The ticks of the outer loop: at most two per leaf.\<close>

function layer_cost :: "nat \<Rightarrow> nat" where
  "layer_cost n = (if n \<le> 1 then 0 else div_ceil n 2 + layer_cost (div_ceil n 2))"
  by pat_completeness auto
termination
  by (relation "measure id") (auto simp: div_ceil_2_less)

declare layer_cost.simps [simp del]

lemma layer_cost_bound: "layer_cost n \<le> 2 * (n - 1)"
proof (induction n rule: layer_cost.induct)
  case (1 n)
  show ?case
  proof (cases "n \<le> 1")
    case False
    then have "layer_cost n = div_ceil n 2 + layer_cost (div_ceil n 2)"
      by (subst layer_cost.simps) simp
    also have "\<dots> \<le> div_ceil n 2 + 2 * (div_ceil n 2 - 1)" using 1 False by simp
    also have "\<dots> \<le> 2 * (n - 1)" using False by (auto simp: div_ceil_def)
    finally show ?thesis .
  qed (simp add: layer_cost.simps)
qed

lemma build_layers_spec:
  assumes "hash_contract C" and "\<forall>h \<in> set hs. length h = 32" and "0 < length hs"
    and "k \<le> depth (length hs)" and "budget obs (layer_cost (layer_width (length hs) k))"
  shows "build_layers C obs (merkle_layer C hs k) lays =
    Ok (merkle_layer C hs (depth (length hs)),
        lays @ map (merkle_layer C hs) [Suc k..<Suc (depth (length hs))])"
  using assms(4,5)
proof (induction "depth (length hs) - k" arbitrary: k obs lays)
  case 0
  then have "k = depth (length hs)" by simp
  moreover have "\<not> Suc 0 < layer_width (length hs) (depth (length hs))"
    by (simp only: layer_width_gt_1 less_irrefl not_False_eq_True)
  ultimately show ?case by (subst build_layers.simps) (simp add: merkle_layer_def)
next
  case (Suc j)
  let ?w = "layer_width (length hs)"
  have k: "k < depth (length hs)" using Suc(2) by simp
  then have w: "1 < ?w k" by (simp add: layer_width_gt_1)
  then have "layer_cost (?w k) = div_ceil (?w k) 2 + layer_cost (?w (Suc k))"
    by (subst layer_cost.simps) (simp add: layer_width_Suc)
  with Suc.prems(2) obtain obs' where
    step: "next_layer C obs (merkle_layer C hs k) = Ok (obs', merkle_layer C hs (Suc k))"
    and b: "budget obs' (layer_cost (?w (Suc k)))"
    using next_layer_parents [of obs "merkle_layer C hs k" "layer_cost (?w (Suc k))" C]
    by (auto simp: merkle_layer_def parents_merkle_layer [OF assms(1,2), unfolded merkle_layer_def])
  have "build_layers C obs (merkle_layer C hs k) lays =
        build_layers C obs' (merkle_layer C hs (Suc k)) (lays @ [merkle_layer C hs (Suc k)])"
    using w by (subst build_layers.simps) (simp add: step, simp add: merkle_layer_def)
  also have "\<dots> = Ok (merkle_layer C hs (depth (length hs)),
        (lays @ [merkle_layer C hs (Suc k)]) @
        map (merkle_layer C hs) [Suc (Suc k)..<Suc (depth (length hs))])"
    using Suc.hyps(2) k b by (intro Suc.hyps(1)) auto
  moreover have "[Suc k..<Suc (depth (length hs))] = Suc k # [Suc (Suc k)..<Suc (depth (length hs))]"
    using k by (intro upt_conv_Cons) simp
  ultimately show ?case by (simp del: upt_Suc)
qed

lemma build_eq_merkle_spec:
  assumes "hash_contract C" and "leaves \<noteq> []"
  shows "build C leaves = Ok (merkle_spec C leaves)"
proof -
  let ?n = "length leaves" and ?hs = "map (sha256 C) leaves"
  have len: "\<forall>h \<in> set ?hs. length h = 32"
    by (simp add: hash_contract.sha256_len [OF assms(1)])
  have n: "0 < ?n" using assms(2) by simp
  define m where "m = saturating_mul ?n 3"
  have m: "0 < m" using n by (auto simp: m_def saturating_mul_def USIZE_MAX_def)
  obtain obs where obs: "observer_new m = Ok obs" by (rule observer_new_budget [OF m])
  have cost: "layer_cost (layer_width ?n 0) \<le> 2 * (?n - 1)"
    using layer_cost_bound [of ?n] by simp
  have "budget obs (?n + layer_cost (layer_width ?n 0))"
    using obs m cost
    by (auto simp: observer_new_def budget_def m_def saturating_mul_def split: if_splits)
  from hash_leaves_map [OF this, of C] obtain obs' where
    hl: "hash_leaves C obs leaves = Ok (obs', ?hs)"
    and b: "budget obs' (layer_cost (layer_width ?n 0))" by blast
  have l0: "merkle_layer C ?hs 0 = ?hs" by (rule nth_equalityI) (simp_all add: merkle_layer_def)
  have bl: "build_layers C obs' ?hs [?hs] =
    Ok (merkle_layer C ?hs (depth ?n), map (merkle_layer C ?hs) [0..<Suc (depth ?n)])"
    using build_layers_spec [OF assms(1) len, of 0 obs' "[?hs]"] n b
    by (simp only: l0 length_map le0 upt_rec [of 0]) (simp add: l0)
  have "merkle_layer C ?hs (depth ?n) = [merkle_node C ?hs (depth ?n) 0]"
    by (simp add: merkle_layer_def layer_width_depth [OF n])
  with assms(2) obs hl bl show ?thesis
    by (simp add: build_def m_def [symmetric] merkle_spec_def Let_def)
qed

section \<open>Membership proofs\<close>

subsection \<open>Completeness\<close>

definition honest_path :: "hash_prims \<Rightarrow> bytes list \<Rightarrow> nat \<Rightarrow> nat \<Rightarrow> proof_step list" where
  "honest_path C hs i k =
     map (\<lambda>j. \<lparr>sibling = merkle_node C hs j (sibling_index (i div 2 ^ j) (layer_width (length hs) j))\<rparr>)
       [k..<depth (length hs)]"

primrec climb :: "hash_prims \<Rightarrow> bytes \<Rightarrow> nat \<Rightarrow> proof_step list \<Rightarrow> bytes" where
  "climb C h idx [] = h"
| "climb C h idx (st # sts) = climb C (climb_step C h idx st) (idx div 2) sts"

lemma verify_loop_climb:
  "budget obs (length sts) \<Longrightarrow> verify_loop C h idx obs sts = Ok (climb C h idx sts)"
proof (induction sts arbitrary: h idx obs)
  case (Cons st sts)
  then have "budget obs (Suc (length sts))" by simp
  then obtain obs' where "tick_q obs = Ok obs'" "budget obs' (length sts)" by (rule budget_tick)
  with Cons.IH show ?case by simp
qed simp

lemma verify_proof_climb:
  "verify_proof C root d i p =
     Ok (constant_time_hash_eq C (climb C (leaf_hash C d) i (steps p)) root)"
proof -
  obtain obs where "observer_new (max (length (steps p)) 1001) = Ok obs"
    and "budget obs (max (length (steps p)) 1001)"
    by (rule observer_new_budget [of "max (length (steps p)) 1001"]) auto
  then show ?thesis
    by (simp add: verify_proof_def verify_loop_climb budget_mono)
qed

lemma depth_le: "depth n \<le> n"
proof (rule ccontr)
  assume "\<not> depth n \<le> n"
  then have "2 ^ n < n" using pow2_less_iff_depth [of n n] by simp
  then show False using less_exp [of n] by simp
qed

lemma halve_index: "(i :: nat) div 2 ^ k div 2 = i div 2 ^ Suc k"
  by (simp add: div_mult2_eq [symmetric] mult.commute)

lemma sibling_index_below: "i < w \<Longrightarrow> sibling_index i w < w"
  by (auto simp: sibling_index_def is_multiple_of_def)

lemma prove_loop_honest:
  assumes "i < length hs" and "k \<le> depth (length hs)" and "budget obs (depth (length hs) - k)"
  shows "prove_loop (map (merkle_layer C hs) [k..<depth (length hs)]) (i div 2 ^ k) obs =
         Ok (honest_path C hs i k)"
  using assms(2,3)
proof (induction "depth (length hs) - k" arbitrary: k obs)
  case (Suc j)
  then have k: "k < depth (length hs)" by simp
  have "budget obs (Suc j)" using Suc.prems(2) Suc.hyps(2) by simp
  then obtain obs' where t: "tick_q obs = Ok obs'" "budget obs' j" by (rule budget_tick)
  have j: "j = depth (length hs) - Suc k" using Suc.hyps(2) by simp
  have IH: "prove_loop (map (merkle_layer C hs) [Suc k..<depth (length hs)]) (i div 2 ^ Suc k) obs' =
    Ok (honest_path C hs i (Suc k))"
    using Suc.hyps(1) [of "Suc k" obs'] t k j by simp
  have below: "sibling_index (i div 2 ^ k) (layer_width (length hs) k) < layer_width (length hs) k"
    by (intro sibling_index_below index_below_width assms(1))
  have split: "[k..<depth (length hs)] = k # [Suc k..<depth (length hs)]"
    using k by (rule upt_conv_Cons)
  show ?case
    using t below IH by (simp add: split halve_index honest_path_def merkle_layer_def del: power_Suc)
qed (simp add: honest_path_def)

lemma prove_merkle_spec:
  assumes "i < length leaves"
  shows "prove (merkle_spec C leaves) i = Ok \<lparr>steps = honest_path C (map (sha256 C) leaves) i 0\<rparr>"
proof -
  let ?n = "length leaves" and ?hs = "map (sha256 C) leaves"
  have lc: "leaf_count (merkle_spec C leaves) = ?n"
    by (simp add: leaf_count_def merkle_spec_def Let_def merkle_layer_def upt_conv_Cons del: upt_Suc)
  have sl: "sub_slice (layers (merkle_spec C leaves)) 0 (length (layers (merkle_spec C leaves)) - 1) =
    Ok (map (merkle_layer C ?hs) [0..<depth ?n])"
    by (simp add: merkle_spec_def Let_def)
  obtain obs where o: "observer_new (max ?n 1001) = Ok obs" and b: "budget obs (max ?n 1001)"
    by (rule observer_new_budget [of "max ?n 1001"]) auto
  have "budget obs (depth ?n)"
    using budget_mono [OF b] depth_le [of ?n] by simp
  then show ?thesis
    using assms o sl prove_loop_honest [of i ?hs 0 obs C] by (simp add: prove_def lc)
qed

lemma climb_step_honest:
  assumes "hash_contract C" and "\<forall>h \<in> set hs. length h = 32" and "j < layer_width (length hs) k"
  shows "climb_step C (merkle_node C hs k j) j
           \<lparr>sibling = merkle_node C hs k (sibling_index j (layer_width (length hs) k))\<rparr> =
         merkle_node C hs (Suc k) (j div 2)"
proof -
  let ?w = "layer_width (length hs) k"
  have len: "length (merkle_node C hs k j) = 32"
    "length (merkle_node C hs k (sibling_index j ?w)) = 32"
    using assms by (auto intro!: length_merkle_node sibling_index_below)
  show ?thesis
  proof (cases "even j")
    case True
    then have "2 * (j div 2) = j" by simp
    with True assms(3) len show ?thesis
      by (simp add: climb_step_def is_multiple_of_def parent_hash_concat right_child_def
          sibling_index_def even_iff_mod_2_eq_zero)
  next
    case False
    then have j: "2 * (j div 2) = j - 1" "2 * (j div 2) + 1 = j" "0 < j" by presburger+
    with False assms(3) len show ?thesis
      by (simp add: climb_step_def is_multiple_of_def parent_hash_concat right_child_def
          sibling_index_def even_iff_mod_2_eq_zero)
  qed
qed

lemma climb_honest:
  assumes "hash_contract C" and "\<forall>h \<in> set hs. length h = 32" and "i < length hs"
    and "k \<le> depth (length hs)"
  shows "climb C (merkle_node C hs k (i div 2 ^ k)) (i div 2 ^ k) (honest_path C hs i k) =
         merkle_node C hs (depth (length hs)) 0"
  using assms(4)
proof (induction "depth (length hs) - k" arbitrary: k)
  case 0
  then have "k = depth (length hs)" by simp
  moreover have "i div 2 ^ depth (length hs) = 0"
    using assms(3) depth_bound [of "length hs"] by simp
  ultimately show ?case by (simp add: honest_path_def)
next
  case (Suc d)
  then have k: "k < depth (length hs)" by simp
  have split: "[k..<depth (length hs)] = k # [Suc k..<depth (length hs)]"
    using k by (rule upt_conv_Cons)
  have "d = depth (length hs) - Suc k" "Suc k \<le> depth (length hs)" using Suc.hyps(2) by simp_all
  note IH = Suc.hyps(1) [OF this]
  show ?case
    using climb_step_honest [OF assms(1,2) index_below_width [OF assms(3)], of k] IH
    by (simp add: honest_path_def split halve_index del: merkle_node.simps power_Suc)
qed

lemma honest_proof_accepted:
  assumes "hash_contract C" and "i < length leaves"
  shows "climb C (leaf_hash C (leaves ! i)) i (honest_path C (map (sha256 C) leaves) i 0) =
         tree_root (merkle_spec C leaves)"
  using climb_honest [OF assms(1), of "map (sha256 C) leaves" i 0] assms
  by (simp add: merkle_spec_def Let_def leaf_hash_def sha256_digest_def hash_contract.sha256_len)

lemma length_tree_root:
  assumes "hash_contract C" and "leaves \<noteq> []"
  shows "length (tree_root (merkle_spec C leaves)) = 32"
  using length_merkle_node [OF assms(1), of "map (sha256 C) leaves" 0 "depth (length leaves)"] assms
  by (simp add: merkle_spec_def Let_def hash_contract.sha256_len layer_width_depth)

subsection \<open>Soundness by extraction of a collision\<close>

definition collision :: "hash_prims \<Rightarrow> bytes \<Rightarrow> bytes \<Rightarrow> bool" where
  "collision C a b \<longleftrightarrow> a \<noteq> b \<and> sha256 C a = sha256 C b"

text \<open>The message whose digest is node \<open>i\<close> of level \<open>k\<close>.\<close>

definition node_message :: "hash_prims \<Rightarrow> bytes list \<Rightarrow> nat \<Rightarrow> nat \<Rightarrow> bytes" where
  "node_message C leaves k i =
     (let hs = map (sha256 C) leaves
      in case k of
           0 \<Rightarrow> leaves ! i
         | Suc k' \<Rightarrow> merkle_node C hs k' (2 * i) @
                     merkle_node C hs k' (right_child (layer_width (length hs) k') i))"

text \<open>
  Walk from the root down the accepted path (its steps top first), comparing the message hashed at
  each level with the message of the tree's node, until they differ.
\<close>

primrec find_collision ::
  "hash_prims \<Rightarrow> bytes list \<Rightarrow> bytes \<Rightarrow> nat \<Rightarrow> nat \<Rightarrow> nat \<Rightarrow> proof_step list \<Rightarrow> (bytes \<times> bytes) option"
where
  "find_collision C leaves d i k j [] =
     (let b = node_message C leaves k j in if d = b then None else Some (d, b))"
| "find_collision C leaves d i k j (st # up) =
     (let h = climb C (leaf_hash C d) i (rev up);
          goes_left = even (i div 2 ^ length up);
          a = (if goes_left then h @ sibling st else sibling st @ h);
          b = node_message C leaves k j
      in if a \<noteq> b then Some (a, b)
         else if k = 0 then None
         else find_collision C leaves d i (k - 1)
                (if goes_left then 2 * j else right_child (layer_width (length leaves) (k - 1)) j) up)"

definition merkle_collision ::
  "hash_prims \<Rightarrow> bytes list \<Rightarrow> nat \<Rightarrow> bytes \<Rightarrow> merkle_proof \<Rightarrow> (bytes \<times> bytes) option" where
  "merkle_collision C leaves i d p =
     find_collision C leaves d i (depth (length leaves)) 0 (rev (steps p))"

lemma climb_snoc:
  "climb C h i (sts @ [st]) = climb_step C (climb C h i sts) (i div 2 ^ length sts) st"
  by (induction sts arbitrary: h i) (simp_all add: div_mult2_eq)

lemma length_climb:
  assumes "hash_contract C" and "length h = 32"
  shows "length (climb C h i sts) = 32"
  using assms(2)
  by (induction sts arbitrary: h i) (auto simp: climb_step_def length_parent_hash assms(1))

lemma node_message_hash:
  assumes "j < layer_width (length leaves) k"
  shows "sha256 C (node_message C leaves k j) = merkle_node C (map (sha256 C) leaves) k j"
  using assms by (cases k) (simp_all add: node_message_def Let_def)

lemma length_node_message:
  assumes "hash_contract C" and "j < layer_width (length leaves) (Suc k)"
  shows "length (node_message C leaves (Suc k) j) = 64"
    and "length (merkle_node C (map (sha256 C) leaves) k (2 * j)) = 32"
proof -
  have "j < div_ceil (layer_width (length leaves) k) 2"
    using assms(2) by (simp add: layer_width_Suc)
  note below = parent_index_below [OF this]
  then show "length (merkle_node C (map (sha256 C) leaves) k (2 * j)) = 32"
    and "length (node_message C leaves (Suc k) j) = 64"
    using length_merkle_node [OF assms(1), of "map (sha256 C) leaves" _ k]
    by (simp_all add: node_message_def Let_def hash_contract.sha256_len [OF assms(1)])
qed

lemma descend_position:
  assumes "i < n" and "j = i div 2 ^ Suc k"
  shows "(if even (i div 2 ^ k) then 2 * j else right_child (layer_width n k) j) = i div 2 ^ k"
proof (cases "even (i div 2 ^ k)")
  case False
  have "j = i div 2 ^ k div 2" by (simp only: assms(2) halve_index)
  with False have "2 * j + 1 = i div 2 ^ k" by simp
  then show ?thesis
    using False index_below_width [OF assms(1), of k] by (simp add: right_child_def)
qed (use assms(2) in \<open>simp add: halve_index [symmetric] del: power_Suc\<close>)

text \<open>One level of the descent: the messages at the node collide, or the child's digest agrees.\<close>

lemma descend_step:
  assumes C: "hash_contract C" and h: "length h = 32" and s: "length s = 32"
    and j: "j < layer_width (length leaves) (Suc k)"
    and eq: "(if left then h @ s else s @ h) = node_message C leaves (Suc k) j"
  shows "h = merkle_node C (map (sha256 C) leaves) k
               (if left then 2 * j else right_child (layer_width (length leaves) k) j)"
    and "(if left then 2 * j else right_child (layer_width (length leaves) k) j)
           < layer_width (length leaves) k"
proof -
  show "h = merkle_node C (map (sha256 C) leaves) k
               (if left then 2 * j else right_child (layer_width (length leaves) k) j)"
    using eq h s length_node_message(2) [OF C j]
    by (auto simp: node_message_def Let_def split: if_splits)
  show "(if left then 2 * j else right_child (layer_width (length leaves) k) j)
           < layer_width (length leaves) k"
    using parent_index_below [of j "layer_width (length leaves) k"] j by (simp add: layer_width_Suc)
qed

lemma find_collision_sound:
  assumes C: "hash_contract C" and leaves: "\<forall>l \<in> set leaves. length l \<noteq> 64"
    and d: "length d \<noteq> 64" and i: "i < length leaves"
    and sib: "\<forall>st \<in> set up. length (sibling st) = 32"
    and top: "climb C (leaf_hash C d) i (rev up) = merkle_node C (map (sha256 C) leaves) k j"
    and j: "j < layer_width (length leaves) k"
    and pos: "k = length up \<Longrightarrow> j = i div 2 ^ k"
  shows "case find_collision C leaves d i k j up of
           Some (a, b) \<Rightarrow> collision C a b
         | None \<Rightarrow> d = leaves ! i"
  using sib top j pos
proof (induction up arbitrary: k j)
  case Nil
  have "sha256 C d = sha256 C (node_message C leaves k j)"
    using Nil.prems by (simp add: leaf_hash_def sha256_digest_def node_message_hash)
  moreover have "k = 0" if "d = node_message C leaves k j"
    using that d Nil.prems(3) length_node_message(1) [OF C] by (cases k) auto
  ultimately show ?case
    using Nil.prems(4) by (auto simp: Let_def collision_def node_message_def)
next
  case (Cons st up)
  define h where "h = climb C (leaf_hash C d) i (rev up)"
  define left where "left = even (i div 2 ^ length up)"
  define a where "a = (if left then h @ sibling st else sibling st @ h)"
  define b where "b = node_message C leaves k j"
  define j' where "j' = (if left then 2 * j else right_child (layer_width (length leaves) (k - 1)) j)"
  have unfold: "find_collision C leaves d i k j (st # up) =
      (if a \<noteq> b then Some (a, b) else if k = 0 then None
       else find_collision C leaves d i (k - 1) j' up)"
    by (simp only: find_collision.simps Let_def h_def left_def a_def b_def j'_def)
  have lh: "length h = 32"
    unfolding h_def by (intro length_climb C) (simp add: leaf_hash_def length_sha256_digest C)
  have ls: "length (sibling st) = 32" using Cons.prems(1) by simp
  have "climb_step C h (i div 2 ^ length up) st = sha256 C a"
    using lh ls by (simp add: climb_step_def a_def left_def parent_hash_concat is_multiple_of_def
        even_iff_mod_2_eq_zero)
  then have ab: "sha256 C a = sha256 C b"
    using Cons.prems(2,3) by (simp add: climb_snoc b_def node_message_hash flip: h_def)
  show ?case
  proof (cases "a = b")
    case False
    with ab show ?thesis by (simp add: unfold collision_def del: find_collision.simps)
  next
    case True
    have "length a = 64" using lh ls by (simp add: a_def)
    moreover have "length b \<noteq> 64" if "k = 0"
      using that leaves Cons.prems(3) by (simp add: b_def node_message_def)
    ultimately obtain k' where k: "k = Suc k'" using True by (cases k) auto
    have "h = merkle_node C (map (sha256 C) leaves) k' j'" "j' < layer_width (length leaves) k'"
      using descend_step [OF C lh ls Cons.prems(3) [unfolded k] True [unfolded a_def b_def k]]
      unfolding j'_def k diff_Suc_1 .
    moreover have "j' = i div 2 ^ k'" if "k' = length up"
      unfolding j'_def left_def k diff_Suc_1 that [symmetric]
      by (rule descend_position [OF i]) (use Cons.prems(4) k that in simp)
    ultimately show ?thesis
      unfolding unfold using Cons.IH [of k' j'] Cons.prems(1) True by (simp add: k h_def)
  qed
qed

lemma merkle_collision_sound:
  assumes "hash_contract C" and "\<forall>l \<in> set leaves. length l \<noteq> 64" and "length d \<noteq> 64"
    and "i < length leaves" and "\<forall>st \<in> set (steps p). length (sibling st) = 32"
    and "climb C (leaf_hash C d) i (steps p) = tree_root (merkle_spec C leaves)"
  shows "case merkle_collision C leaves i d p of
           Some (a, b) \<Rightarrow> collision C a b | None \<Rightarrow> d = leaves ! i"
proof -
  have "0 < length leaves" using assms(4) by (cases leaves) auto
  moreover have "i div 2 ^ depth (length leaves) = 0"
    using assms(4) depth_bound [of "length leaves"] by simp
  ultimately show ?thesis
    unfolding merkle_collision_def using assms
    by (intro find_collision_sound) (auto simp: merkle_spec_def Let_def layer_width_depth)
qed

section \<open>Properties\<close>

text \<open>
  C12. \<open>build\<close> computes the specified tree: for every non-empty list of leaves it returns the layers
  and the root given by \<open>merkle_node\<close>, and its observer, capped at three ticks per leaf, never stops
  it; the empty list is the only error.
\<close>

theorem build_computes_tree:
  assumes "hash_contract C"
  shows "build C leaves = (if leaves = [] then Err EmptyInput else Ok (merkle_spec C leaves))"
  using build_eq_merkle_spec [OF assms] by (simp add: build_def)

theorem build_computes_tree_witness:
  "build bpf_prims [[1], [2], [3]] = Ok (merkle_spec bpf_prims [[1], [2], [3]])"
  using build_computes_tree [OF kernel_hash.hash_contract_axioms, of "[[1], [2], [3]]"] by simp

text \<open>
  C13. Membership proofs are complete: for every leaf of a built tree, \<open>prove\<close> returns a proof that
  \<open>verify_proof\<close> accepts against the tree's root, and its length is the logarithm of the number of
  leaves (rounded up); an index past the leaves is refused with \<open>InvalidParameter\<close>.
\<close>

theorem membership_proofs_complete:
  assumes "hash_contract C" and "build C leaves = Ok t"
  shows "if i < length leaves
         then \<exists>p. prove t i = Ok p \<and> verify_proof C (tree_root t) (leaves ! i) i p = Ok True \<and>
                  length leaves \<le> 2 ^ length (steps p) \<and>
                  (length leaves > 1 \<longrightarrow> 2 ^ (length (steps p) - 1) < length leaves)
         else prove t i = Err InvalidParameter"
proof -
  have ne: "leaves \<noteq> []" using assms(2) by (auto simp: build_def)
  have t: "t = merkle_spec C leaves" using assms(2) build_eq_merkle_spec [OF assms(1) ne] by simp
  have lc: "leaf_count t = length leaves"
    by (simp add: t leaf_count_def merkle_spec_def Let_def merkle_layer_def upt_conv_Cons del: upt_Suc)
  show ?thesis
  proof (cases "i < length leaves")
    case True
    have "length leaves > 1 \<longrightarrow> 2 ^ (depth (length leaves) - 1) < length leaves"
      using pow2_less_iff_depth [of "depth (length leaves) - 1" "length leaves"]
        pow2_less_iff_depth [of 0 "length leaves"] by auto
    moreover have "verify_proof C (tree_root t) (leaves ! i) i
        \<lparr>steps = honest_path C (map (sha256 C) leaves) i 0\<rparr> = Ok True"
      using honest_proof_accepted [OF assms(1) True] length_tree_root [OF assms(1) ne]
      by (simp add: verify_proof_climb t constant_time_hash_eq_iff [OF assms(1)])
    ultimately show ?thesis
      using True depth_bound [of "length leaves"]
      by (simp add: t prove_merkle_spec [OF True]) (simp add: honest_path_def)
  qed (simp add: prove_def lc)
qed

theorem membership_proofs_complete_witness:
  "\<exists>p. prove (merkle_spec bpf_prims [[1], [2], [3]]) 2 = Ok p \<and>
       verify_proof bpf_prims (tree_root (merkle_spec bpf_prims [[1], [2], [3]])) [3] 2 p = Ok True"
  using membership_proofs_complete [OF kernel_hash.hash_contract_axioms
      build_eq_merkle_spec [OF kernel_hash.hash_contract_axioms, of "[[1], [2], [3]]"], of 2]
  by auto



end
