(* ===== verification/Sidecar.thy ===== *)
theory Sidecar
  imports Merkle
begin

text \<open>
  The \<^verbatim>\<open>DFIMBOOT\<close> sidecar and its envelopes: the limits and gates of \<^verbatim>\<open>boot_validate.rs\<close> and
  \<^verbatim>\<open>integrity_gate.rs\<close>, the parser of \<^verbatim>\<open>parser.rs\<close>, the serializer of
  \<^verbatim>\<open>dfim_windows_uefi/src/manifest.rs\<close>, and the authenticated state database of \<^verbatim>\<open>state_db.rs\<close>.

  Parsers are shown never to panic on any byte string, to read back what the serializers write, and
  to accept nothing else: they are interpretations of the locales of the prelude.
\<close>

section \<open>Limits and gates\<close>

definition DFIM_BLOCK_SIZE :: nat where "DFIM_BLOCK_SIZE = 4096"

definition MAX_BOOT_BLOCKS :: nat where "MAX_BOOT_BLOCKS = 64"

definition MAX_IMAGE_BYTES :: nat where "MAX_IMAGE_BYTES = MAX_BOOT_BLOCKS * DFIM_BLOCK_SIZE"

definition MAX_PROOF_STEPS :: nat where "MAX_PROOF_STEPS = 16"

definition MAX_FEC_BACKUP :: nat where "MAX_FEC_BACKUP = 128"

lemmas boot_limits =
  DFIM_BLOCK_SIZE_def MAX_BOOT_BLOCKS_def MAX_IMAGE_BYTES_def MAX_PROOF_STEPS_def MAX_FEC_BACKUP_def

definition validate_block_count :: "u32 \<Rightarrow> unit dfim_result" where
  "validate_block_count block_count =
     (if block_count = 0 then Err InvalidParameter
      else if unat block_count > MAX_BOOT_BLOCKS then Err ParameterOverflow
      else Ok ())"

definition validate_image_byte_len :: "nat \<Rightarrow> unit dfim_result" where
  "validate_image_byte_len image_len =
     (if image_len = 0 then Err EmptyInput
      else if image_len > MAX_IMAGE_BYTES then Err BufferTooLong
      else if div_ceil image_len DFIM_BLOCK_SIZE > MAX_BOOT_BLOCKS then Err ParameterOverflow
      else Ok ())"

definition assert_image_bounds :: "nat \<Rightarrow> unit dfim_result" where
  "assert_image_bounds image_len = validate_image_byte_len image_len"

definition assert_block_index :: "nat \<Rightarrow> u32 \<Rightarrow> unit dfim_result" where
  "assert_block_index index block_count =
     and_then (validate_block_count block_count) (\<lambda>_.
     if index \<ge> unat block_count then Err IntegrityFailure else Ok ())"

definition assert_target_path :: "nat \<Rightarrow> unit dfim_result" where
  "assert_target_path path_component_len =
     (if path_component_len = 0 then Err InvalidParameter
      else if path_component_len > 2 ^ 32 - 1 then Err ParameterOverflow
      else Ok ())"

lemma validate_block_count_Ok [simp]:
  "validate_block_count n = Ok u \<longleftrightarrow> n \<noteq> 0 \<and> unat n \<le> 64"
  by (simp add: validate_block_count_def boot_limits)

lemma validate_block_count_valid: "n \<noteq> 0 \<Longrightarrow> unat n \<le> 64 \<Longrightarrow> validate_block_count n = Ok ()"
  by simp

lemma validate_block_count_no_panic [simp]: "validate_block_count n \<noteq> Panic"
  by (simp add: validate_block_count_def)

text \<open>The last check of \<open>validate_image_byte_len\<close> is implied by the one before it.\<close>

lemma validate_image_byte_len_Ok [simp]:
  "validate_image_byte_len n = Ok u \<longleftrightarrow> 0 < n \<and> n \<le> 262144"
  using div_ceil_le_iff [of 4096 n 64] by (auto simp: validate_image_byte_len_def boot_limits)

lemma validate_image_byte_len_no_panic [simp]: "validate_image_byte_len n \<noteq> Panic"
  by (simp add: validate_image_byte_len_def)

section \<open>The block stream\<close>

definition BLOCK_STREAM_MAGIC :: bytes where "BLOCK_STREAM_MAGIC = ascii ''DFIMBOOT''"

definition BLOCK_STREAM_VERSION :: u32 where "BLOCK_STREAM_VERSION = 1"

definition HEADER_PREFIX_LEN :: nat where "HEADER_PREFIX_LEN = 56"

record block_stream_manifest =
  merkle_root :: bytes
  block_size :: u32
  block_count :: u32
  fec_backup :: bytes
  proofs :: "merkle_proof list"

definition read_u32 :: "bytes \<Rightarrow> u32 dfim_result" where
  "read_u32 bs = (if length bs < 4 then Err BufferTooShort else Ok (from_le_bytes (take 4 bs)))"

definition parse_step :: "bytes \<Rightarrow> nat \<Rightarrow> nat \<Rightarrow> proof_step dfim_result" where
  "parse_step data offset step_idx =
     and_then (ok_or ParameterOverflow (checked_mul step_idx SHA256_LEN)) (\<lambda>m.
     and_then (ok_or ParameterOverflow (checked_add offset m)) (\<lambda>start.
     and_then (ok_or ParameterOverflow (checked_add start SHA256_LEN)) (\<lambda>stop.
     and_then (sub_slice data start stop) (\<lambda>s.
     Ok \<lparr>sibling = s\<rparr>))))"

definition parse_proof :: "bytes \<Rightarrow> nat \<Rightarrow> (nat \<times> merkle_proof) dfim_result" where
  "parse_proof data offset =
     (if offset \<ge> length data then Err BufferTooShort
      else
        and_then (index_at data offset) (\<lambda>b.
        let step_count = unat b in
        and_then (ok_or ParameterOverflow (checked_add offset 1)) (\<lambda>offset.
        if step_count > MAX_PROOF_STEPS then Err InvalidParameter
        else
          and_then (ok_or ParameterOverflow (checked_mul step_count SHA256_LEN)) (\<lambda>proof_bytes.
          and_then (ok_or ParameterOverflow (checked_add offset proof_bytes)) (\<lambda>proof_end.
          if length data < proof_end then Err BufferTooShort
          else
            and_then (fold_outcome (\<lambda>sts i. and_then (parse_step data offset i) (\<lambda>st. Ok (sts @ [st])))
                        [] [0..<step_count]) (\<lambda>sts.
            Ok (proof_end, \<lparr>steps = sts\<rparr>)))))))"

definition parse_proofs :: "bytes \<Rightarrow> nat \<Rightarrow> nat \<Rightarrow> (nat \<times> merkle_proof list) dfim_result" where
  "parse_proofs data offset count =
     fold_outcome (\<lambda>(offset, ps) _.
         and_then (parse_proof data offset) (\<lambda>(offset, p). Ok (offset, ps @ [p])))
       (offset, []) [0..<count]"

definition parse_block_stream :: "bytes \<Rightarrow> block_stream_manifest dfim_result" where
  "parse_block_stream data =
     (if length data < HEADER_PREFIX_LEN then Err BufferTooShort
      else
        and_then (sub_slice data 0 8) (\<lambda>magic.
        if magic \<noteq> BLOCK_STREAM_MAGIC then Err IntegrityFailure
        else
          and_then (and_then (sub_slice data 8 12) read_u32) (\<lambda>version.
          if version \<noteq> BLOCK_STREAM_VERSION then Err InvalidParameter
          else
            and_then (and_then (sub_slice data 12 16) read_u32) (\<lambda>bsize.
            and_then (and_then (sub_slice data 16 20) read_u32) (\<lambda>bcount.
            if unat bsize \<noteq> DFIM_BLOCK_SIZE \<or> bcount = 0 then Err InvalidParameter
            else
              and_then (validate_block_count bcount) (\<lambda>_.
              and_then (sub_slice data 20 52) (\<lambda>root.
              and_then (and_then (sub_slice data 52 56) read_u32) (\<lambda>fec_len.
              and_then (ok_or ParameterOverflow (checked_add HEADER_PREFIX_LEN (unat fec_len))) (\<lambda>fec_end.
              if length data < fec_end then Err BufferTooShort
              else
                and_then (sub_slice data HEADER_PREFIX_LEN fec_end) (\<lambda>fec.
                if fec = [] \<or> \<not> is_multiple_of (length fec) 2 then Err InvalidParameter
                else
                  and_then (parse_proofs data fec_end (unat bcount)) (\<lambda>(offset, ps).
                  if offset \<noteq> length data then Err IntegrityFailure
                  else Ok \<lparr>merkle_root = root, block_size = bsize, block_count = bcount,
                           fec_backup = fec, proofs = ps\<rparr>)))))))))))"

subsection \<open>The serializer\<close>

definition MANIFEST_MAGIC :: bytes where "MANIFEST_MAGIC = ascii ''DFIMBOOT''"

definition MANIFEST_VERSION :: u32 where "MANIFEST_VERSION = 1"

definition append_proof :: "bytes \<Rightarrow> merkle_proof \<Rightarrow> bytes dfim_result" where
  "append_proof blob p =
     (if length (steps p) > MAX_PROOF_STEPS then Err InvalidParameter
      else Ok (foldl (\<lambda>blob st. blob @ sibling st) (blob @ [of_nat (length (steps p))]) (steps p)))"

definition serialize_boot_sidecar ::
  "bytes \<Rightarrow> u32 \<Rightarrow> u32 \<Rightarrow> bytes \<Rightarrow> merkle_proof list \<Rightarrow> bytes dfim_result" where
  "serialize_boot_sidecar root bsize bcount fec ps =
     (if unat bsize \<noteq> DFIM_BLOCK_SIZE \<or> bcount = 0 then Err InvalidParameter
      else
        and_then (validate_block_count bcount) (\<lambda>_.
        if length ps \<noteq> unat bcount then Err InvalidParameter
        else if fec = [] \<or> \<not> is_multiple_of (length fec) 2 then Err InvalidParameter
        else
          fold_outcome append_proof
            (MANIFEST_MAGIC @ to_le_bytes 4 MANIFEST_VERSION @ to_le_bytes 4 bsize @
             to_le_bytes 4 bcount @ root @ to_le_bytes 4 (of_nat (length fec) :: u32) @ fec)
            ps))"

definition serialize_manifest :: "block_stream_manifest \<Rightarrow> bytes dfim_result" where
  "serialize_manifest m =
     serialize_boot_sidecar (merkle_root m) (block_size m) (block_count m) (fec_backup m) (proofs m)"

text \<open>The manifests the format can hold.\<close>

definition valid_proof :: "merkle_proof \<Rightarrow> bool" where
  "valid_proof p \<longleftrightarrow> length (steps p) \<le> 16 \<and> (\<forall>st \<in> set (steps p). length (sibling st) = 32)"

definition valid_manifest :: "block_stream_manifest \<Rightarrow> bool" where
  "valid_manifest m \<longleftrightarrow>
     length (merkle_root m) = 32 \<and> unat (block_size m) = 4096 \<and>
     block_count m \<noteq> 0 \<and> unat (block_count m) \<le> 64 \<and>
     fec_backup m \<noteq> [] \<and> even (length (fec_backup m)) \<and> length (fec_backup m) < 2 ^ 32 \<and>
     length (proofs m) = unat (block_count m) \<and> (\<forall>p \<in> set (proofs m). valid_proof p)"

section \<open>The authenticated state database\<close>

definition BOOT_SIDECAR_MAGIC :: bytes where "BOOT_SIDECAR_MAGIC = ascii ''DFIMBOOT''"

definition WRAPPED_STATE_MAGIC :: bytes where "WRAPPED_STATE_MAGIC = ascii ''DFIMSTAT''"

definition BOOT_SIDECAR_VERSION :: u32 where "BOOT_SIDECAR_VERSION = 1"

definition WRAPPED_STATE_VERSION :: u32 where "WRAPPED_STATE_VERSION = 1"

definition BOOT_HEADER_PREFIX_LEN :: nat where "BOOT_HEADER_PREFIX_LEN = 56"

definition WRAPPED_HEADER_LEN :: nat where "WRAPPED_HEADER_LEN = 16"

definition WRAPPED_CHECKSUM_LEN :: nat where "WRAPPED_CHECKSUM_LEN = 32"

definition LEGACY_LICENSE_LEN :: nat where "LEGACY_LICENSE_LEN = 16"

definition MIN_WRAPPED_STATE_LEN :: nat where
  "MIN_WRAPPED_STATE_LEN = WRAPPED_HEADER_LEN + WRAPPED_CHECKSUM_LEN"

lemmas state_limits =
  BOOT_HEADER_PREFIX_LEN_def WRAPPED_HEADER_LEN_def WRAPPED_CHECKSUM_LEN_def LEGACY_LICENSE_LEN_def
  MIN_WRAPPED_STATE_LEN_def

definition is_ascii_graphic :: "u8 \<Rightarrow> bool" where
  "is_ascii_graphic b \<longleftrightarrow> 0x21 \<le> b \<and> b \<le> 0x7e"

definition is_ascii_whitespace :: "u8 \<Rightarrow> bool" where
  "is_ascii_whitespace b \<longleftrightarrow> b \<in> {0x20, 0x09, 0x0a, 0x0c, 0x0d}"

definition reject_plaintext_injection :: "bytes \<Rightarrow> unit dfim_result" where
  "reject_plaintext_injection raw =
     (if raw = [] then Err EmptyInput
      else if length raw = LEGACY_LICENSE_LEN then Err CorruptMetadata
      else if starts_with raw (ascii ''STATE_'') \<or> starts_with raw (ascii ''STATE_HASH'')
      then Err CorruptMetadata
      else if length raw < 8 \<and> list_all (\<lambda>b. is_ascii_graphic b \<or> is_ascii_whitespace b) raw
      then Err CorruptMetadata
      else Ok ())"

definition validate_boot_sidecar_header :: "bytes \<Rightarrow> unit dfim_result" where
  "validate_boot_sidecar_header data =
     (if length data < BOOT_HEADER_PREFIX_LEN then Err BufferTooShort
      else
        and_then (sub_slice data 0 8) (\<lambda>magic.
        if magic \<noteq> BOOT_SIDECAR_MAGIC then Err IntegrityFailure
        else
          and_then (and_then (sub_slice data 8 12) read_u32) (\<lambda>version.
          if version \<noteq> BOOT_SIDECAR_VERSION then Err InvalidParameter
          else
            and_then (and_then (sub_slice data 12 16) read_u32) (\<lambda>bsize.
            and_then (and_then (sub_slice data 16 20) read_u32) (\<lambda>bcount.
            if unat bsize \<noteq> DFIM_BLOCK_SIZE \<or> bcount = 0 then Err InvalidParameter
            else validate_block_count bcount)))))"

definition compute_wrapped_checksum :: "hash_prims \<Rightarrow> bytes \<Rightarrow> bytes" where
  "compute_wrapped_checksum C header_and_payload = sha256_digest C header_and_payload"

definition wrap_authenticated_state_db :: "hash_prims \<Rightarrow> bytes \<Rightarrow> bytes dfim_result" where
  "wrap_authenticated_state_db C sidecar_payload =
     and_then (validate_boot_sidecar_header sidecar_payload) (\<lambda>_.
     if length sidecar_payload > 2 ^ 32 - 1 then Err ParameterOverflow
     else
       let out = WRAPPED_STATE_MAGIC @ to_le_bytes 4 WRAPPED_STATE_VERSION @
                 to_le_bytes 4 (of_nat (length sidecar_payload) :: u32) @ sidecar_payload
       in Ok (out @ compute_wrapped_checksum C out))"

definition unwrap_authenticated_envelope :: "hash_prims \<Rightarrow> bytes \<Rightarrow> bytes dfim_result" where
  "unwrap_authenticated_envelope C raw =
     (if length raw < MIN_WRAPPED_STATE_LEN then Err BufferTooShort
      else
        and_then (and_then (sub_slice raw 8 12) read_u32) (\<lambda>version.
        if version \<noteq> WRAPPED_STATE_VERSION then Err InvalidParameter
        else
          and_then (and_then (sub_slice raw 12 16) read_u32) (\<lambda>plen.
          and_then (ok_or ParameterOverflow (checked_add WRAPPED_HEADER_LEN (unat plen))) (\<lambda>payload_end.
          and_then (usize_add payload_end WRAPPED_CHECKSUM_LEN) (\<lambda>total_len.
          if length raw \<noteq> total_len then Err CorruptMetadata
          else
            and_then (sub_slice raw 0 payload_end) (\<lambda>covered.
            and_then (sub_slice raw payload_end total_len) (\<lambda>stored.
            if \<not> constant_time_hash_eq C (compute_wrapped_checksum C covered) stored
            then Err IntegrityFailure
            else
              and_then (sub_slice raw WRAPPED_HEADER_LEN payload_end) (\<lambda>payload.
              and_then (validate_boot_sidecar_header payload) (\<lambda>_.
              Ok payload)))))))))"

definition parse_authenticated_state_db :: "hash_prims \<Rightarrow> bytes \<Rightarrow> bytes dfim_result" where
  "parse_authenticated_state_db C raw =
     and_then (reject_plaintext_injection raw) (\<lambda>_.
     if length raw \<ge> 8 \<and> take 8 raw = WRAPPED_STATE_MAGIC
     then unwrap_authenticated_envelope C raw
     else if length raw \<ge> 8 \<and> take 8 raw = BOOT_SIDECAR_MAGIC
     then and_then (validate_boot_sidecar_header raw) (\<lambda>_. Ok raw)
     else Err CorruptMetadata)"

definition parse_uefi_variable :: "hash_prims \<Rightarrow> bytes \<Rightarrow> bytes dfim_result" where
  "parse_uefi_variable C raw = parse_authenticated_state_db C raw"

section \<open>The block stream parser is a canonical codec\<close>

subsection \<open>Proofs\<close>

definition proof_bytes :: "merkle_proof \<Rightarrow> bytes" where
  "proof_bytes p = of_nat (length (steps p)) # concat (map sibling (steps p))"

lemma concat_chunks:
  "off + n * 32 \<le> length xs \<Longrightarrow>
   concat (map (\<lambda>i. take 32 (drop (off + i * 32) xs)) [0..<n]) = take (n * 32) (drop off xs)"
proof (induction n)
  case (Suc n)
  have "take (Suc n * 32) (drop off xs) =
      take (n * 32) (drop off xs) @ take 32 (drop (off + n * 32) xs)"
    using take_split_add [of "n * 32" 32 "drop off xs"] by (simp add: add.commute)
  then show ?case using Suc by simp
qed simp

lemma chunk_of_concat:
  assumes "\<forall>x \<in> set xss. length x = 32" and "i < length xss"
  shows "take 32 (drop (i * 32) (concat xss @ rest)) = xss ! i"
  using assms
proof (induction xss arbitrary: i)
  case (Cons x xss)
  show ?case
  proof (cases i)
    case (Suc j)
    have "drop (Suc j * 32) (concat (x # xss) @ rest) = drop (j * 32) (concat xss @ rest)"
      using Cons.prems by simp
    then show ?thesis using Cons Suc by simp
  qed (use Cons.prems in simp)
qed simp

lemma length_concat_32: "\<forall>x \<in> set xss. length x = 32 \<Longrightarrow> length (concat xss) = length xss * 32"
  by (induction xss) auto

lemma length_proof_bytes: "valid_proof p \<Longrightarrow> length (proof_bytes p) = 1 + length (steps p) * 32"
  using length_concat_32 [of "map sibling (steps p)"] by (auto simp: proof_bytes_def valid_proof_def)

lemma parse_steps:
  assumes "off + n * 32 \<le> length data" and "off + n * 32 \<le> USIZE_MAX"
  shows "fold_outcome (\<lambda>sts i. and_then (parse_step data off i) (\<lambda>st. Ok (sts @ [st]))) [] [0..<n] =
         Ok (map (\<lambda>i. \<lparr>sibling = take 32 (drop (off + i * 32) data)\<rparr>) [0..<n])"
  using assms
proof (induction n)
  case (Suc n)
  have "parse_step data off n = Ok \<lparr>sibling = take 32 (drop (off + n * 32) data)\<rparr>"
    using Suc.prems by (simp add: parse_step_def SHA256_LEN_def checked_mul_def checked_add_def)
  then show ?case using Suc by (simp add: fold_outcome_append)
qed simp

lemma parse_proof_eq:
  "parse_proof data off =
     (if off \<ge> length data then Err BufferTooShort
      else if off + 1 > USIZE_MAX then Err ParameterOverflow
      else let n = unat (data ! off) in
        if n > 16 then Err InvalidParameter
        else if off + 1 + n * 32 > USIZE_MAX then Err ParameterOverflow
        else if length data < off + 1 + n * 32 then Err BufferTooShort
        else Ok (off + 1 + n * 32,
                 \<lparr>steps = map (\<lambda>i. \<lparr>sibling = take 32 (drop (off + 1 + i * 32) data)\<rparr>) [0..<n]\<rparr>))"
proof -
  have "n * 32 \<le> USIZE_MAX" if "n \<le> 16" for n using that by (simp add: USIZE_MAX_def)
  then show ?thesis
    using parse_steps [of "Suc off" "unat (data ! off)" data]
    by (simp add: parse_proof_def index_at_def checked_add_def checked_mul_def SHA256_LEN_def
        MAX_PROOF_STEPS_def Let_def)
qed

lemma parse_proof_no_panic: "parse_proof data off \<noteq> Panic"
  by (simp add: parse_proof_eq Let_def)

lemma parse_proof_canonical:
  assumes "parse_proof data off = Ok (off', p)"
  shows "valid_proof p" and "off' = off + length (proof_bytes p)" and "off' \<le> length data"
    and "take (length (proof_bytes p)) (drop off data) = proof_bytes p"
proof -
  define n where "n = unat (data ! off)"
  have f: "off < length data" "n \<le> 16" "off + 1 + n * 32 \<le> length data" "off' = off + 1 + n * 32"
    "p = \<lparr>steps = map (\<lambda>i. \<lparr>sibling = take 32 (drop (off + 1 + i * 32) data)\<rparr>) [0..<n]\<rparr>"
    using assms by (auto simp: parse_proof_eq Let_def n_def split: if_splits)
  then show v: "valid_proof p" by (auto simp: valid_proof_def)
  have ns: "length (steps p) = n" by (simp add: f(5))
  then show "off' = off + length (proof_bytes p)" using length_proof_bytes [OF v] f(4) by simp
  show "off' \<le> length data" using f by simp
  have "map sibling (steps p) = map (\<lambda>i. take 32 (drop (off + 1 + i * 32) data)) [0..<n]"
    by (simp add: f(5))
  then have "concat (map sibling (steps p)) = take (n * 32) (drop (off + 1) data)"
    using concat_chunks [OF f(3)] by simp
  moreover have "(of_nat n :: u8) = data ! off" by (simp add: n_def)
  moreover have "drop off data = data ! off # drop (off + 1) data"
    using f(1) by (simp add: Cons_nth_drop_Suc)
  ultimately show "take (length (proof_bytes p)) (drop off data) = proof_bytes p"
    using length_proof_bytes [OF v] ns by (simp add: proof_bytes_def)
qed

lemma parse_proof_complete:
  assumes "drop off data = proof_bytes p @ rest" and "valid_proof p" and "length data \<le> USIZE_MAX"
  shows "parse_proof data off = Ok (off + length (proof_bytes p), p)"
proof -
  let ?n = "length (steps p)"
  have n: "?n \<le> 16" using assms(2) by (simp add: valid_proof_def)
  have len: "length data - off = 1 + ?n * 32 + length rest"
    using arg_cong [OF assms(1), of length] length_proof_bytes [OF assms(2)] by simp
  then have off: "off < length data" by simp
  have "data ! off = of_nat ?n"
    using hd_drop_conv_nth [OF off] assms(1) by (simp add: proof_bytes_def)
  then have first: "unat (data ! off) = ?n" using n by (simp add: unat_of_nat take_bit_nat_eq_self)
  have rest: "drop (off + 1) data = concat (map sibling (steps p)) @ rest"
  proof -
    have "drop (off + 1) data = tl (drop off data)" by (simp add: drop_Suc tl_drop)
    then show ?thesis by (simp add: assms(1) proof_bytes_def)
  qed
  have "\<lparr>sibling = take 32 (drop (off + 1 + i * 32) data)\<rparr> = steps p ! i" if "i < ?n" for i
  proof -
    have "drop (off + 1 + i * 32) data = drop (i * 32) (concat (map sibling (steps p)) @ rest)"
      by (simp add: rest [symmetric] add.commute)
    moreover have "take 32 (drop (i * 32) (concat (map sibling (steps p)) @ rest)) = map sibling (steps p) ! i"
      by (rule chunk_of_concat) (use assms(2) that in \<open>auto simp: valid_proof_def\<close>)
    ultimately show ?thesis using that by simp
  qed
  then have "map (\<lambda>i. \<lparr>sibling = take 32 (drop (off + 1 + i * 32) data)\<rparr>) [0..<?n] = steps p"
    by (intro nth_equalityI) auto
  then show ?thesis
    using off n len assms(3) length_proof_bytes [OF assms(2)] by (simp add: parse_proof_eq Let_def first)
qed

lemma parse_proofs_no_panic: "parse_proofs data off n \<noteq> Panic"
  unfolding parse_proofs_def by (rule fold_outcome_not_Panic) (auto simp: parse_proof_no_panic split: prod.splits)

lemma parse_proofs_Suc:
  "parse_proofs data off (Suc n) =
     and_then (parse_proofs data off n) (\<lambda>(off, ps).
     and_then (parse_proof data off) (\<lambda>(off, p). Ok (off, ps @ [p])))"
  by (simp add: parse_proofs_def fold_outcome_append case_prod_beta cong: and_then_cong)

lemma parse_proofs_canonical:
  assumes "parse_proofs data off n = Ok (off', ps)" and "off \<le> length data"
  shows "length ps = n \<and> (\<forall>p \<in> set ps. valid_proof p) \<and> off' \<le> length data \<and>
     off' = off + length (concat (map proof_bytes ps)) \<and>
     take (length (concat (map proof_bytes ps))) (drop off data) = concat (map proof_bytes ps)"
  using assms(1)
proof (induction n arbitrary: off' ps)
  case 0
  then show ?case using assms(2) by (simp add: parse_proofs_def)
next
  case (Suc n)
  from Suc.prems obtain o1 qs p where a: "parse_proofs data off n = Ok (o1, qs)"
    and b: "parse_proof data o1 = Ok (off', p)" and ps: "ps = qs @ [p]"
    by (auto simp: parse_proofs_Suc)
  note IH = Suc.IH [OF a] and c = parse_proof_canonical [OF b]
  have "take (length (concat (map proof_bytes qs)) + length (proof_bytes p)) (drop off data) =
        concat (map proof_bytes qs) @ proof_bytes p"
    unfolding take_split_add using IH c(4) by (simp add: add.commute)
  then show ?case using IH c by (auto simp: ps)
qed

lemma parse_proofs_complete:
  assumes "drop off data = concat (map proof_bytes ps) @ rest" and "\<forall>p \<in> set ps. valid_proof p"
    and "length data \<le> USIZE_MAX"
  shows "parse_proofs data off (length ps) = Ok (off + length (concat (map proof_bytes ps)), ps)"
  using assms(1,2)
proof (induction ps arbitrary: rest rule: rev_induct)
  case Nil
  then show ?case by (simp add: parse_proofs_def)
next
  case (snoc p ps)
  have IH: "parse_proofs data off (length ps) = Ok (off + length (concat (map proof_bytes ps)), ps)"
    using snoc.IH [of "proof_bytes p @ rest"] snoc.prems by simp
  have "drop (off + length (concat (map proof_bytes ps))) data = proof_bytes p @ rest"
  proof -
    have "drop (off + length (concat (map proof_bytes ps))) data =
        drop (length (concat (map proof_bytes ps))) (drop off data)" by (simp add: add.commute)
    then show ?thesis unfolding snoc.prems(1) by simp
  qed
  then have "parse_proof data (off + length (concat (map proof_bytes ps))) =
      Ok (off + length (concat (map proof_bytes ps)) + length (proof_bytes p), p)"
    using parse_proof_complete snoc.prems(2) assms(3) by simp
  then show ?case using IH by (simp add: parse_proofs_Suc)
qed

subsection \<open>The header\<close>

lemma read_u32_slice:
  "b = a + 4 \<Longrightarrow> b \<le> length data \<Longrightarrow>
   and_then (sub_slice data a b) read_u32 = Ok (from_le_bytes (take 4 (drop a data)))"
  by (simp add: sub_slice_def read_u32_def)

lemma read_u32_eq_Ok [outcome_simps]:
  "read_u32 bs = Ok w \<longleftrightarrow> 4 \<le> length bs \<and> w = from_le_bytes (take 4 bs)"
  by (auto simp: read_u32_def)

lemma read_u32_no_panic [outcome_simps]: "read_u32 bs \<noteq> Panic"
  by (simp add: read_u32_def)

lemma parse_block_stream_no_panic: "parse_block_stream data \<noteq> Panic"
proof (cases "length data < 56")
  case False
  then show ?thesis
    by (auto simp: parse_block_stream_def HEADER_PREFIX_LEN_def read_u32_slice parse_proofs_no_panic
        split: prod.splits)
qed (simp add: parse_block_stream_def HEADER_PREFIX_LEN_def)

definition header_bytes :: "block_stream_manifest \<Rightarrow> bytes" where
  "header_bytes m = MANIFEST_MAGIC @ to_le_bytes 4 MANIFEST_VERSION @ to_le_bytes 4 (block_size m) @
     to_le_bytes 4 (block_count m) @ merkle_root m @
     to_le_bytes 4 (of_nat (length (fec_backup m)) :: u32)"

lemma split_header:
  assumes "56 \<le> length data"
  shows "data = take 8 data @ take 4 (drop 8 data) @ take 4 (drop 12 data) @ take 4 (drop 16 data) @
     take 32 (drop 20 data) @ take 4 (drop 52 data) @ drop 56 data"
proof -
  have "data = take 8 data @ drop 8 data" by simp
  also have "drop 8 data = take 4 (drop 8 data) @ drop 12 data" using drop_split [of 8 data 4] by simp
  also have "drop 12 data = take 4 (drop 12 data) @ drop 16 data" using drop_split [of 12 data 4] by simp
  also have "drop 16 data = take 4 (drop 16 data) @ drop 20 data" using drop_split [of 16 data 4] by simp
  also have "drop 20 data = take 32 (drop 20 data) @ drop 52 data" using drop_split [of 20 data 32] by simp
  also have "drop 52 data = take 4 (drop 52 data) @ drop 56 data" using drop_split [of 52 data 4] by simp
  finally show ?thesis by simp
qed

lemma append_proofs:
  assumes "\<forall>p \<in> set ps. length (steps p) \<le> 16"
  shows "fold_outcome append_proof blob ps = Ok (blob @ concat (map proof_bytes ps))"
proof -
  have "append_proof b p = Ok (b @ proof_bytes p)" if "p \<in> set ps" for b p
    using that assms foldl_append_concat [of "b @ [of_nat (length (steps p))]" "map sibling (steps p)"]
    by (auto simp: append_proof_def MAX_PROOF_STEPS_def proof_bytes_def foldl_map not_less)
  then have "fold_outcome append_proof blob ps = Ok (foldl (\<lambda>b p. b @ proof_bytes p) blob ps)"
    by (rule fold_outcome_Ok_foldl)
  then show ?thesis using foldl_append_concat [of blob "map proof_bytes ps"] by (simp add: foldl_map)
qed

lemma serialize_manifest_valid:
  assumes "valid_manifest m"
  shows "serialize_manifest m = Ok (header_bytes m @ fec_backup m @ concat (map proof_bytes (proofs m)))"
  using assms append_proofs [of "proofs m"]
  by (auto simp: serialize_manifest_def serialize_boot_sidecar_def valid_manifest_def valid_proof_def
      header_bytes_def is_multiple_of_def even_iff_mod_2_eq_zero boot_limits)

lemma length_proofs_bytes:
  "\<forall>p \<in> set ps. valid_proof p \<Longrightarrow> length (concat (map proof_bytes ps)) \<le> length ps * 513"
proof (induction ps)
  case (Cons p ps)
  then have "length (proof_bytes p) \<le> 513" by (auto simp: length_proof_bytes) (simp add: valid_proof_def)
  then show ?case using Cons by simp
qed simp

lemma magics: "MANIFEST_MAGIC = BLOCK_STREAM_MAGIC" "MANIFEST_VERSION = BLOCK_STREAM_VERSION"
  "length BLOCK_STREAM_MAGIC = 8"
  by (simp_all add: MANIFEST_MAGIC_def BLOCK_STREAM_MAGIC_def MANIFEST_VERSION_def BLOCK_STREAM_VERSION_def)

lemma parse_serialized:
  assumes m: "valid_manifest m"
    and data: "data = header_bytes m @ fec_backup m @ concat (map proof_bytes (proofs m))"
  shows "parse_block_stream data = Ok m"
proof -
  note v = m [unfolded valid_manifest_def]
  let ?fec = "fec_backup m" and ?ps = "proofs m"
  have h: "length (header_bytes m) = 56" using v by (simp add: header_bytes_def magics)
  have usz: "length data \<le> USIZE_MAX"
    using length_proofs_bytes [of ?ps] v h by (simp add: data USIZE_MAX_def)
  have dr: "drop (56 + length ?fec) data = concat (map proof_bytes ?ps) @ []"
    using h by (simp add: data)
  have pp: "parse_proofs data (56 + length ?fec) (unat (block_count m)) = Ok (length data, ?ps)"
    using parse_proofs_complete [OF dr _ usz] v h by (simp add: data)
  have fl: "unat (of_nat (length ?fec) :: u32) = length ?fec" using v by (simp add: unat_of_nat_u32)
  have s: "sub_slice data 0 8 = (Ok BLOCK_STREAM_MAGIC :: bytes dfim_result)"
    "take 4 (drop 8 data) = to_le_bytes 4 BLOCK_STREAM_VERSION"
    "take 4 (drop 12 data) = to_le_bytes 4 (block_size m)"
    "take 4 (drop 16 data) = to_le_bytes 4 (block_count m)"
    "sub_slice data 20 52 = (Ok (merkle_root m) :: bytes dfim_result)"
    "take 4 (drop 52 data) = to_le_bytes 4 (of_nat (length ?fec) :: u32)"
    using v by (simp_all add: data header_bytes_def magics)
  have long: "56 + length ?fec \<le> length data" using h by (simp add: data)
  have "sub_slice data 56 (56 + length ?fec) = (Ok ?fec :: bytes dfim_result)"
    using h by (simp add: data)
  then show ?thesis
    using v long usz pp s fl
    by (simp add: parse_block_stream_def HEADER_PREFIX_LEN_def read_u32_slice checked_add_def boot_limits
        is_multiple_of_def even_iff_mod_2_eq_zero)
qed

lemma parse_canonical:
  assumes "parse_block_stream data = Ok m"
  shows "valid_manifest m \<and> serialize_manifest m = Ok data"
proof -
  have len: "56 \<le> length data"
    using assms by (auto simp: parse_block_stream_def HEADER_PREFIX_LEN_def split: if_splits)
  define fl where "fl = unat (from_le_bytes (take 4 (drop 52 data)) :: u32)"
  define bc where "bc = (from_le_bytes (take 4 (drop 16 data)) :: u32)"
  define bs where "bs = (from_le_bytes (take 4 (drop 12 data)) :: u32)"
  have parsed: "take 8 data = BLOCK_STREAM_MAGIC" "from_le_bytes (take 4 (drop 8 data)) = BLOCK_STREAM_VERSION"
    "unat bs = 4096" "bc \<noteq> 0" "unat bc \<le> 64" "56 + fl \<le> length data" "take fl (drop 56 data) \<noteq> []"
    "even (length (take fl (drop 56 data)))"
    and ex: "\<exists>ps. parse_proofs data (56 + fl) (unat bc) = Ok (length data, ps) \<and>
      m = \<lparr>merkle_root = take 32 (drop 20 data), block_size = bs, block_count = bc,
           fec_backup = take fl (drop 56 data), proofs = ps\<rparr>"
    using assms unfolding parse_block_stream_def HEADER_PREFIX_LEN_def outcome_simps
    by (auto simp: fl_def bc_def bs_def DFIM_BLOCK_SIZE_def is_multiple_of_def outcome_simps
        mod_2_eq_odd split: if_splits)
  then obtain ps where pp: "parse_proofs data (56 + fl) (unat bc) = Ok (length data, ps)"
    and m: "m = \<lparr>merkle_root = take 32 (drop 20 data), block_size = bs, block_count = bc,
           fec_backup = take fl (drop 56 data), proofs = ps\<rparr>" by blast
  note pc = parse_proofs_canonical [OF pp parsed(6)]
  have lf: "length (take fl (drop 56 data)) = fl" using parsed(6) by simp
  have flb: "fl < 2 ^ 32" unfolding fl_def by (rule unat_u32_bound)
  have v: "valid_manifest m"
    using parsed len pc lf flb by (simp add: valid_manifest_def m)
  have "of_nat fl = (from_le_bytes (take 4 (drop 52 data)) :: u32)" by (simp add: fl_def)
  then have "header_bytes m = take 8 data @ take 4 (drop 8 data) @ take 4 (drop 12 data) @
      take 4 (drop 16 data) @ take 32 (drop 20 data) @ take 4 (drop 52 data)"
    using parsed len lf by (simp add: header_bytes_def m magics bs_def bc_def parsed(2) [symmetric])
  moreover have "drop (56 + fl) data = concat (map proof_bytes ps)"
  proof -
    have "length (drop (56 + fl) data) = length (concat (map proof_bytes ps))" using pc by simp
    then show ?thesis using pc by (metis take_all order_refl)
  qed
  then have "drop 56 data = take fl (drop 56 data) @ concat (map proof_bytes ps)"
    using drop_split [of 56 data fl] by simp
  ultimately have "header_bytes m @ fec_backup m @ concat (map proof_bytes (proofs m)) = data"
    using split_header [OF len] by (simp add: m)
  then show ?thesis using v serialize_manifest_valid [OF v] by simp
qed

interpretation block_stream: total_parser parse_block_stream
  by unfold_locales (rule parse_block_stream_no_panic)

interpretation boot_sidecar: canonical_codec serialize_manifest parse_block_stream valid_manifest
proof unfold_locales
  fix m b
  assume v: "valid_manifest m"
  then show "\<exists>b. serialize_manifest m = Ok b" using serialize_manifest_valid by blast
  show "parse_block_stream b = Ok m" if "serialize_manifest m = Ok b"
    using that parse_serialized [OF v] serialize_manifest_valid [OF v] by simp
next
  show "valid_manifest m \<and> serialize_manifest m = Ok b" if "parse_block_stream b = Ok m" for b m
    by (rule parse_canonical [OF that])
qed

section \<open>The state database is a canonical codec\<close>

lemma validate_boot_sidecar_header_no_panic: "validate_boot_sidecar_header data \<noteq> Panic"
proof (cases "length data < 56")
  case False
  then show ?thesis by (simp add: validate_boot_sidecar_header_def state_limits read_u32_slice)
qed (simp add: validate_boot_sidecar_header_def state_limits)

lemma validate_boot_sidecar_header_len:
  "validate_boot_sidecar_header data = Ok u \<Longrightarrow> 56 \<le> length data \<and> take 8 data = BOOT_SIDECAR_MAGIC"
  by (auto simp: validate_boot_sidecar_header_def state_limits split: if_splits)

definition valid_payload :: "bytes \<Rightarrow> bool" where
  "valid_payload p \<longleftrightarrow> validate_boot_sidecar_header p = Ok () \<and> length p < 2 ^ 32"

definition covered_bytes :: "bytes \<Rightarrow> bytes" where
  "covered_bytes p = WRAPPED_STATE_MAGIC @ to_le_bytes 4 WRAPPED_STATE_VERSION @
     to_le_bytes 4 (of_nat (length p) :: u32) @ p"

lemma length_covered_bytes: "length (covered_bytes p) = 16 + length p"
  by (simp add: covered_bytes_def WRAPPED_STATE_MAGIC_def)

lemma wrap_Ok_iff:
  "wrap_authenticated_state_db C p = Ok w \<longleftrightarrow>
     valid_payload p \<and> w = covered_bytes p @ sha256 C (covered_bytes p)"
  by (auto simp: wrap_authenticated_state_db_def valid_payload_def covered_bytes_def Let_def
      compute_wrapped_checksum_def sha256_digest_def)

lemma unwrap_Ok_iff:
  "unwrap_authenticated_envelope C raw = Ok p \<longleftrightarrow>
     (let n = unat (from_le_bytes (take 4 (drop 12 raw)) :: u32) in
      from_le_bytes (take 4 (drop 8 raw)) = WRAPPED_STATE_VERSION \<and> length raw = 16 + n + 32 \<and>
      constant_time_hash_eq C (sha256 C (take (16 + n) raw)) (drop (16 + n) raw) \<and>
      validate_boot_sidecar_header p = Ok () \<and> p = take n (drop 16 raw))"
proof -
  define n where "n = unat (from_le_bytes (take 4 (drop 12 raw)) :: u32)"
  have b: "n + 48 \<le> USIZE_MAX"
    unfolding n_def using unat_u32_bound [of "from_le_bytes (take 4 (drop 12 raw))"]
    by (simp add: USIZE_MAX_def)
  show ?thesis
  proof (cases "length raw = n + 48")
    case True
    then have "read_u32 (take 4 (drop 12 raw)) = Ok (from_le_bytes (take 4 (drop 12 raw)))"
      "sub_slice raw 12 16 = (Ok (take 4 (drop 12 raw)) :: bytes dfim_result)"
      "sub_slice raw 8 12 = (Ok (take 4 (drop 8 raw)) :: bytes dfim_result)"
      "sub_slice raw 0 (16 + n) = (Ok (take (16 + n) raw) :: bytes dfim_result)"
      "sub_slice raw (16 + n) (16 + n + 32) = (Ok (drop (16 + n) raw) :: bytes dfim_result)"
      "sub_slice raw 16 (16 + n) = (Ok (take n (drop 16 raw)) :: bytes dfim_result)"
      by (simp_all add: read_u32_def)
    moreover have "checked_add 16 n = Some (16 + n)" "usize_add (16 + n) 32 = (Ok (16 + n + 32) :: nat dfim_result)"
      using b by (simp_all add: checked_add_def usize_add_def)
    ultimately show ?thesis
      using True unfolding unwrap_authenticated_envelope_def state_limits Let_def
      by (auto simp: outcome_simps compute_wrapped_checksum_def sha256_digest_def simp flip: n_def)
  next
    case False
    then have "unwrap_authenticated_envelope C raw \<noteq> Ok p"
      unfolding unwrap_authenticated_envelope_def state_limits outcome_simps
      by (auto simp: usize_add_def n_def split: if_splits)
    then show ?thesis using False by (auto simp: Let_def n_def)
  qed
qed

lemma unwrap_no_panic: "unwrap_authenticated_envelope C raw \<noteq> Panic"
proof
  assume "unwrap_authenticated_envelope C raw = Panic"
  then show False
    using unat_u32_bound [of "from_le_bytes (take 4 (drop 12 raw))"]
    unfolding unwrap_authenticated_envelope_def state_limits outcome_simps
    by (auto simp: usize_add_def USIZE_MAX_def validate_boot_sidecar_header_no_panic read_u32_no_panic
        split: if_splits)
qed

lemma reject_no_panic: "reject_plaintext_injection raw \<noteq> Panic"
  by (simp add: reject_plaintext_injection_def)

lemma parse_state_no_panic: "parse_authenticated_state_db C raw \<noteq> Panic"
  by (simp add: parse_authenticated_state_db_def reject_no_panic unwrap_no_panic
      validate_boot_sidecar_header_no_panic)

lemma magics_differ:
  "WRAPPED_STATE_MAGIC \<noteq> BOOT_SIDECAR_MAGIC"
  "take 6 WRAPPED_STATE_MAGIC \<noteq> ascii ''STATE_''" "take 6 BOOT_SIDECAR_MAGIC \<noteq> ascii ''STATE_''"
  "length WRAPPED_STATE_MAGIC = 8" "length BOOT_SIDECAR_MAGIC = 8"
  by (simp_all add: WRAPPED_STATE_MAGIC_def BOOT_SIDECAR_MAGIC_def ascii_def)

lemma reject_passes:
  assumes "48 \<le> length raw" and "take 8 raw = WRAPPED_STATE_MAGIC \<or> take 8 raw = BOOT_SIDECAR_MAGIC"
  shows "reject_plaintext_injection raw = Ok ()"
proof -
  have "take 6 raw = take 6 (take 8 raw)" by simp
  then have t6: "take 6 raw \<noteq> ascii ''STATE_''" using assms(2) magics_differ(2,3) by metis
  have "take 6 (take 10 raw) = take 6 raw" by simp
  moreover have "take 6 (ascii ''STATE_HASH'') = ascii ''STATE_''" by (simp add: ascii_def)
  ultimately have "take 10 raw \<noteq> ascii ''STATE_HASH''" using t6 by metis
  moreover have "starts_with raw (ascii ''STATE_'') \<longleftrightarrow> take 6 raw = ascii ''STATE_''"
    "starts_with raw (ascii ''STATE_HASH'') \<longleftrightarrow> take 10 raw = ascii ''STATE_HASH''"
    by (simp_all add: starts_with_def numeral_eq_Suc)
  ultimately show ?thesis
    using assms(1) t6 by (auto simp: reject_plaintext_injection_def state_limits)
qed

lemma unwrap_canonical:
  assumes C: "hash_contract C" and "take 8 raw = WRAPPED_STATE_MAGIC"
    and "unwrap_authenticated_envelope C raw = Ok p"
  shows "wrap_authenticated_state_db C p = Ok raw"
proof -
  define n where "n = unat (from_le_bytes (take 4 (drop 12 raw)) :: u32)"
  have f: "48 \<le> length raw" "from_le_bytes (take 4 (drop 8 raw)) = WRAPPED_STATE_VERSION"
    "length raw = 16 + n + 32" "constant_time_hash_eq C (sha256 C (take (16 + n) raw)) (drop (16 + n) raw)"
    "validate_boot_sidecar_header p = Ok ()" "p = take n (drop 16 raw)"
    using assms(3) [unfolded unwrap_Ok_iff Let_def, folded n_def] by auto
  have lp: "length p = n" using f by simp
  have n: "n < 2 ^ 32" unfolding n_def by (rule unat_u32_bound)
  have "of_nat n = (from_le_bytes (take 4 (drop 12 raw)) :: u32)" by (simp add: n_def)
  then have "covered_bytes p = take 8 raw @ take 4 (drop 8 raw) @ take 4 (drop 12 raw) @ take n (drop 16 raw)"
    using f assms(2) lp by (simp add: covered_bytes_def f(2) [symmetric])
  also have "\<dots> = take (8 + (4 + (4 + n))) raw"
    unfolding take_split_add by (simp add: add.commute)
  finally have cov: "covered_bytes p = take (16 + n) raw" by simp
  have "length (drop (16 + n) raw) = 32" using f by simp
  then have "sha256 C (covered_bytes p) = drop (16 + n) raw"
    using f(4) constant_time_hash_eq_iff [OF C] hash_contract.sha256_len [OF C] by (simp add: cov)
  then show ?thesis
    using f(5) n lp cov by (simp add: wrap_Ok_iff valid_payload_def)
qed

lemma parse_wrapped:
  assumes C: "hash_contract C" and "wrap_authenticated_state_db C p = Ok w"
  shows "parse_authenticated_state_db C w = Ok p"
proof -
  have v: "valid_payload p" and w: "w = covered_bytes p @ sha256 C (covered_bytes p)"
    using assms(2) by (simp_all add: wrap_Ok_iff)
  have len: "length w = 16 + length p + 32"
    by (simp add: w length_covered_bytes hash_contract.sha256_len [OF C])
  have s: "take 8 w = WRAPPED_STATE_MAGIC" "take 4 (drop 8 w) = to_le_bytes 4 WRAPPED_STATE_VERSION"
    "take 4 (drop 12 w) = to_le_bytes 4 (of_nat (length p) :: u32)" "take (length p) (drop 16 w) = p"
    by (simp_all add: w covered_bytes_def magics_differ)
  have n: "unat (of_nat (length p) :: u32) = length p"
    using v by (simp add: valid_payload_def unat_of_nat_u32)
  have t: "take (16 + length p) w = covered_bytes p" "drop (16 + length p) w = sha256 C (covered_bytes p)"
    using length_covered_bytes [of p] by (simp_all add: w)
  have "unwrap_authenticated_envelope C w = Ok p"
    using v len s n t constant_time_hash_eq_iff [OF C] hash_contract.sha256_len [OF C]
    by (simp add: unwrap_Ok_iff Let_def valid_payload_def)
  then show ?thesis
    using len s(1) reject_passes [of w] by (simp add: parse_authenticated_state_db_def)
qed

lemma wrap_codec:
  assumes "hash_contract C"
  shows "codec (wrap_authenticated_state_db C) (parse_authenticated_state_db C) valid_payload"
  using parse_wrapped [OF assms] by unfold_locales (simp_all add: wrap_Ok_iff)

interpretation state_db_parser: total_parser "parse_authenticated_state_db C" for C
  by unfold_locales (rule parse_state_no_panic)

interpretation kernel_state_db:
  codec "wrap_authenticated_state_db bpf_prims" "parse_authenticated_state_db bpf_prims" valid_payload
  by (rule wrap_codec [OF kernel_hash.hash_contract_axioms])

lemma parse_state_cases:
  assumes C: "hash_contract C"
  shows "parse_authenticated_state_db C raw = Ok p \<longleftrightarrow>
     wrap_authenticated_state_db C p = Ok raw \<or> (raw = p \<and> validate_boot_sidecar_header p = Ok ())"
proof
  assume "parse_authenticated_state_db C raw = Ok p"
  then show "wrap_authenticated_state_db C p = Ok raw \<or> (raw = p \<and> validate_boot_sidecar_header p = Ok ())"
    using unwrap_canonical [OF C, of raw p]
    by (auto simp: parse_authenticated_state_db_def split: if_splits)
next
  assume "wrap_authenticated_state_db C p = Ok raw \<or> (raw = p \<and> validate_boot_sidecar_header p = Ok ())"
  then show "parse_authenticated_state_db C raw = Ok p"
  proof
    assume "wrap_authenticated_state_db C p = Ok raw"
    then show ?thesis by (rule parse_wrapped [OF C])
  next
    assume bare: "raw = p \<and> validate_boot_sidecar_header p = Ok ()"
    then have "56 \<le> length raw \<and> take 8 raw = BOOT_SIDECAR_MAGIC"
      using validate_boot_sidecar_header_len by blast
    then show ?thesis
      using bare magics_differ(1) reject_passes [of raw] by (auto simp: parse_authenticated_state_db_def)
  qed
qed

section \<open>Properties\<close>

text \<open>
  C30. No input makes a sidecar parser panic: on every byte string, of any length, the block stream
  parser and the state database parser return a value or an error.
\<close>

theorem sidecar_parsers_never_panic:
  "parse_block_stream data \<noteq> Panic \<and> parse_authenticated_state_db C data \<noteq> Panic \<and>
   parse_uefi_variable C data \<noteq> Panic"
  using block_stream.dec_no_panic state_db_parser.dec_no_panic by (simp add: parse_uefi_variable_def)

text \<open>
  C10. The block stream parser accepts exactly the serialized valid manifests: it reads back every
  sidecar the serializer writes, and a byte string it accepts is the serialization of the manifest it
  returns, so a manifest has one encoding and no trailing or reordered byte goes unnoticed.
\<close>

theorem sidecar_format_canonical:
  "parse_block_stream data = Ok m \<longleftrightarrow> valid_manifest m \<and> serialize_manifest m = Ok data"
  by (rule boot_sidecar.dec_accepts_iff)

text \<open>
  C31. The state database parser accepts a byte string exactly when it is the wrapped envelope of the
  payload it returns, checksum included, or that payload itself with a valid boot header: plaintext
  license blobs, truncated envelopes and envelopes with a wrong checksum are all refused.
\<close>

theorem state_db_accepts_exactly_its_envelopes:
  assumes "hash_contract C"
  shows "parse_authenticated_state_db C raw = Ok p \<longleftrightarrow>
     wrap_authenticated_state_db C p = Ok raw \<or> (raw = p \<and> validate_boot_sidecar_header p = Ok ())"
  by (rule parse_state_cases [OF assms])

lemma sample_header_valid:
  "validate_boot_sidecar_header
     (ascii ''DFIMBOOT'' @ to_le_bytes 4 (1 :: u32) @ to_le_bytes 4 (4096 :: u32) @
      to_le_bytes 4 (2 :: u32) @ replicate 36 0) = Ok ()"
  by (simp add: validate_boot_sidecar_header_def state_limits read_u32_slice BOOT_SIDECAR_MAGIC_def
      BOOT_SIDECAR_VERSION_def boot_limits)

theorem state_db_accepts_exactly_its_envelopes_witness:
  "parse_authenticated_state_db bpf_prims
     (ascii ''DFIMBOOT'' @ to_le_bytes 4 (1 :: u32) @ to_le_bytes 4 (4096 :: u32) @
      to_le_bytes 4 (2 :: u32) @ replicate 36 0) =
   Ok (ascii ''DFIMBOOT'' @ to_le_bytes 4 (1 :: u32) @ to_le_bytes 4 (4096 :: u32) @
       to_le_bytes 4 (2 :: u32) @ replicate 36 0)"
  using state_db_accepts_exactly_its_envelopes [OF kernel_hash.hash_contract_axioms] sample_header_valid
  by blast

end
