(* ===== verification/Hamming.thy ===== *)
theory Hamming
  imports Core_Base
begin

text \<open>
  The Hamming code of \<^verbatim>\<open>dfim_core_engine/src/hamming.rs\<close>: parity counts, the bit-level encoder and
  decoders on \<^verbatim>\<open>u64\<close> codewords, and the Hamming(7,4) packing of byte blocks.

  Shifts by the width of the type or more stop the program, so they are \<open>Panic\<close> here. The proofs
  go through the parities \<open>par_bit\<close> of a word: the encoder makes them all vanish, flipping
  position \<open>e\<close> adds the binary digits of \<open>e\<close> to them, and so the syndrome of the decoder is the
  position of a single error.
\<close>

section \<open>The operations\<close>

text \<open>\<^verbatim>\<open><<\<close> and \<^verbatim>\<open>>>\<close> on \<^verbatim>\<open>u64\<close>.\<close>

definition shl :: "u64 \<Rightarrow> nat \<Rightarrow> ('e, u64) outcome" where
  "shl w n = (if n < 64 then Ok (push_bit n w) else Panic)"

definition shr :: "u64 \<Rightarrow> nat \<Rightarrow> ('e, u64) outcome" where
  "shr w n = (if n < 64 then Ok (drop_bit n w) else Panic)"

definition in_hamming_range :: "nat \<Rightarrow> bool" where
  "in_hamming_range n_data \<longleftrightarrow> HAMMING_MIN_DATA_BITS \<le> n_data \<and> n_data \<le> HAMMING_MAX_DATA_BITS"

definition data_mask :: "nat \<Rightarrow> u64" where
  "data_mask bits = (if bits \<ge> 64 then - 1 else push_bit bits 1 - 1)"

function log_loop :: "nat \<Rightarrow> nat \<Rightarrow> nat" where
  "log_loop r v = (if v > 0 then log_loop (r + 1) (v div 2) else r)"
  by pat_completeness auto
termination by (relation "measure snd") auto

declare log_loop.simps [simp del]

definition ceil_log2 :: "nat \<Rightarrow> nat" where
  "ceil_log2 n = (if n \<le> 1 then 1 else log_loop 0 (n - 1))"

text \<open>\<^verbatim>\<open>1usize << r\<close> traps when \<open>r\<close> reaches 64.\<close>

function parity_loop :: "nat \<Rightarrow> nat \<Rightarrow> pattern_observer \<Rightarrow> nat dfim_result" where
  "parity_loop n_data r obs =
     (if r \<ge> 64 then Panic
      else if 2 ^ r < n_data + r + 1
      then and_then (tick_q obs) (\<lambda>obs.
           if r + 1 > 64 then Err ParameterOverflow else parity_loop n_data (r + 1) obs)
      else Ok r)"
  by pat_completeness auto
termination by (relation "measure (\<lambda>(n, r, obs). 65 - r)") auto

declare parity_loop.simps [simp del]

definition parity_bit_count :: "nat \<Rightarrow> nat dfim_result" where
  "parity_bit_count n_data =
     (if \<not> in_hamming_range n_data then Err InvalidParameter
      else and_then (observer_new 64) (\<lambda>obs. parity_loop n_data (ceil_log2 (n_data + 1)) obs))"

definition codeword_bit_length :: "nat \<Rightarrow> nat dfim_result" where
  "codeword_bit_length n_data =
     and_then (parity_bit_count n_data) (\<lambda>r. ok_or ParameterOverflow (checked_add n_data r))"

definition is_parity_position :: "nat \<Rightarrow> bool" where
  "is_parity_position pos \<longleftrightarrow> pos \<noteq> 0 \<and> pos AND (pos - 1) = 0"

definition place_bit :: "u64 \<Rightarrow> u64 \<times> nat \<Rightarrow> nat \<Rightarrow> (u64 \<times> nat) dfim_result" where
  "place_bit data s pos =
     (case s of (cw, data_idx) \<Rightarrow>
        if is_parity_position pos then Ok (cw, data_idx)
        else and_then (shr data data_idx) (\<lambda>d.
             and_then (shl (d AND 1) (pos - 1)) (\<lambda>b.
             Ok (cw OR b, data_idx + 1))))"

definition parity_term :: "u64 \<Rightarrow> nat \<Rightarrow> u64 \<Rightarrow> nat \<Rightarrow> u64 dfim_result" where
  "parity_term cw p parity pos =
     (if odd (drop_bit p pos)
      then and_then (shr cw (pos - 1)) (\<lambda>b. Ok (parity XOR (b AND 1)))
      else Ok parity)"

definition parity_of :: "u64 \<Rightarrow> nat \<Rightarrow> nat \<Rightarrow> u64 dfim_result" where
  "parity_of cw p tot = fold_outcome (parity_term cw p) 0 [1..<tot + 1]"

definition set_parity :: "nat \<Rightarrow> u64 \<Rightarrow> nat \<Rightarrow> u64 dfim_result" where
  "set_parity tot cw p =
     and_then (parity_of cw p tot) (\<lambda>parity.
     and_then (shl parity (2 ^ p - 1)) (\<lambda>b.
     Ok (cw OR b)))"

definition encode_bits :: "u64 \<Rightarrow> nat \<Rightarrow> u64 dfim_result" where
  "encode_bits data n_data =
     (if \<not> in_hamming_range n_data then Err InvalidParameter
      else if data AND NOT (data_mask n_data) \<noteq> 0 then Err InvalidParameter
      else
        and_then (parity_bit_count n_data) (\<lambda>r.
        and_then (fold_outcome (place_bit data) (0, 0) [1..<n_data + r + 1]) (\<lambda>(cw, _).
        and_then (fold_outcome (set_parity (n_data + r)) cw [0..<r]) (\<lambda>cw.
        Ok (cw AND data_mask (n_data + r))))))"

definition syndrome_bit :: "u64 \<Rightarrow> nat \<Rightarrow> u32 \<Rightarrow> nat \<Rightarrow> u32 dfim_result" where
  "syndrome_bit cw tot syndrome p =
     and_then (parity_of cw p tot) (\<lambda>parity.
     Ok (if parity \<noteq> 0 then syndrome OR push_bit p 1 else syndrome))"

definition extract_bit :: "u64 \<Rightarrow> u64 \<times> nat \<Rightarrow> nat \<Rightarrow> (u64 \<times> nat) dfim_result" where
  "extract_bit cw s pos =
     (case s of (data, data_idx) \<Rightarrow>
        if is_parity_position pos then Ok (data, data_idx)
        else and_then (shr cw (pos - 1)) (\<lambda>c.
             and_then (shl (c AND 1) data_idx) (\<lambda>b.
             Ok (data OR b, data_idx + 1))))"

definition decode_bits :: "u64 \<Rightarrow> nat \<Rightarrow> (u64 \<times> u32) dfim_result" where
  "decode_bits codeword n_data =
     (if \<not> in_hamming_range n_data then Err InvalidParameter
      else
        and_then (parity_bit_count n_data) (\<lambda>r.
        let tot = n_data + r; cw = codeword AND data_mask tot in
        and_then (fold_outcome (syndrome_bit cw tot) 0 [0..<r]) (\<lambda>syndrome.
        and_then (if syndrome \<noteq> 0 \<and> unat syndrome \<le> tot
                  then and_then (shl 1 (unat syndrome - 1)) (\<lambda>b. Ok (cw XOR b))
                  else Ok cw) (\<lambda>cw.
        and_then (fold_outcome (extract_bit cw) (0, 0) [1..<tot + 1]) (\<lambda>(data, _).
        Ok (data AND data_mask n_data, syndrome))))))"

definition decode_bits_strict :: "u64 \<Rightarrow> nat \<Rightarrow> u64 dfim_result" where
  "decode_bits_strict codeword n_data =
     (if \<not> in_hamming_range n_data then Err InvalidParameter
      else
        and_then (parity_bit_count n_data) (\<lambda>r.
        let tot = n_data + r; received = codeword AND data_mask tot in
        and_then (decode_bits received n_data) (\<lambda>(data, syndrome).
        and_then (encode_bits data n_data) (\<lambda>reencoded.
        if reencoded = received then Ok data
        else if syndrome = 0 then Err CorruptMetadata
        else if unat syndrome = 0 \<or> unat syndrome > tot then Err CorruptMetadata
        else and_then (shl 1 (unat syndrome - 1)) (\<lambda>b.
             if reencoded = received XOR b then Ok data else Err CorruptMetadata)))))"

section \<open>Blocks of bytes\<close>

definition encode_byte :: "pattern_observer \<times> bytes \<Rightarrow> u8 \<Rightarrow> (pattern_observer \<times> bytes) dfim_result" where
  "encode_byte s byte =
     (case s of (obs, out) \<Rightarrow>
        and_then (tick_q obs) (\<lambda>obs.
        and_then (encode_bits (ucast (drop_bit 4 byte AND 0x0f)) 4) (\<lambda>cw_hi.
        and_then (encode_bits (ucast (byte AND 0x0f)) 4) (\<lambda>cw_lo.
        Ok (obs, out @ [ucast (cw_hi AND 0x7f), ucast (cw_lo AND 0x7f)])))))"

definition encode_block :: "bytes \<Rightarrow> bytes dfim_result" where
  "encode_block data =
     (if data = [] then Err EmptyInput
      else
        and_then (observer_new (saturating_mul (length data) 2)) (\<lambda>obs.
        and_then (fold_outcome encode_byte (obs, []) data) (\<lambda>(_, out). Ok out)))"

text \<open>\<^verbatim>\<open>chunks_exact(2)\<close>.\<close>

fun chunks2 :: "'a list \<Rightarrow> ('a \<times> 'a) list" where
  "chunks2 (a # b # rest) = (a, b) # chunks2 rest"
| "chunks2 _ = []"

definition join_nibbles :: "u64 \<Rightarrow> u64 \<Rightarrow> u8" where
  "join_nibbles hi lo = push_bit 4 (ucast hi) OR ucast lo"

definition decode_chunk_into ::
  "pattern_observer \<times> bytes \<times> nat \<Rightarrow> u8 \<times> u8 \<Rightarrow> (pattern_observer \<times> bytes \<times> nat) dfim_result" where
  "decode_chunk_into s chunk =
     (case s of (obs, out, written) \<Rightarrow>
        and_then (tick_q obs) (\<lambda>obs.
        and_then (decode_bits (ucast (fst chunk AND 0x7f)) 4) (\<lambda>(hi, _).
        and_then (decode_bits (ucast (snd chunk AND 0x7f)) 4) (\<lambda>(lo, _).
        if written < length out
        then Ok (obs, out[written := join_nibbles hi lo], written + 1) else Panic))))"

definition decode_block_into :: "bytes \<Rightarrow> bytes \<Rightarrow> (bytes \<times> nat) dfim_result" where
  "decode_block_into encoded out =
     (if encoded = [] \<or> \<not> is_multiple_of (length encoded) 2 then Err InvalidParameter
      else let pairs = length encoded div 2 in
        if length out < pairs then Err BufferTooShort
        else
          and_then (observer_new pairs) (\<lambda>obs.
          and_then (fold_outcome decode_chunk_into (obs, out, 0) (chunks2 encoded)) (\<lambda>(_, out, written).
          Ok (out, written))))"

definition decode_chunk_into_strict ::
  "pattern_observer \<times> bytes \<times> nat \<Rightarrow> u8 \<times> u8 \<Rightarrow> (pattern_observer \<times> bytes \<times> nat) dfim_result" where
  "decode_chunk_into_strict s chunk =
     (case s of (obs, out, written) \<Rightarrow>
        and_then (tick_q obs) (\<lambda>obs.
        and_then (decode_bits_strict (ucast (fst chunk AND 0x7f)) 4) (\<lambda>hi.
        and_then (decode_bits_strict (ucast (snd chunk AND 0x7f)) 4) (\<lambda>lo.
        if written < length out
        then Ok (obs, out[written := join_nibbles hi lo], written + 1) else Panic))))"

definition decode_block_into_strict :: "bytes \<Rightarrow> bytes \<Rightarrow> (bytes \<times> nat) dfim_result" where
  "decode_block_into_strict encoded out =
     (if encoded = [] \<or> \<not> is_multiple_of (length encoded) 2 then Err InvalidParameter
      else let pairs = length encoded div 2 in
        if length out < pairs then Err BufferTooShort
        else
          and_then (observer_new pairs) (\<lambda>obs.
          and_then (fold_outcome decode_chunk_into_strict (obs, out, 0) (chunks2 encoded))
            (\<lambda>(_, out, written). Ok (out, written))))"

definition decode_chunk ::
  "pattern_observer \<times> bytes \<Rightarrow> u8 \<times> u8 \<Rightarrow> (pattern_observer \<times> bytes) dfim_result" where
  "decode_chunk s chunk =
     (case s of (obs, out) \<Rightarrow>
        and_then (tick_q obs) (\<lambda>obs.
        and_then (decode_bits_strict (ucast (fst chunk AND 0x7f)) 4) (\<lambda>hi.
        and_then (decode_bits_strict (ucast (snd chunk AND 0x7f)) 4) (\<lambda>lo.
        Ok (obs, out @ [join_nibbles hi lo])))))"

definition decode_block :: "bytes \<Rightarrow> bytes dfim_result" where
  "decode_block encoded =
     (if encoded = [] \<or> \<not> is_multiple_of (length encoded) 2 then Err InvalidParameter
      else
        and_then (observer_new (length encoded div 2)) (\<lambda>obs.
        and_then (fold_outcome decode_chunk (obs, []) (chunks2 encoded)) (\<lambda>(_, out). Ok out)))"

section \<open>Parity counts\<close>

lemma log_loop_add: "log_loop (r + k) v = log_loop r v + k"
proof (induction r v rule: log_loop.induct)
  case (1 r v)
  then show ?case
    using log_loop.simps [of "r + k" v] log_loop.simps [of r v] by (cases "v > 0") auto
qed

lemma log_loop_bounds:
  assumes "v > 0"
  shows "v < 2 ^ log_loop 0 v \<and> 2 ^ (log_loop 0 v - 1) \<le> v \<and> 1 \<le> log_loop 0 v"
  using assms
proof (induction v rule: less_induct)
  case (less v)
  have step: "log_loop 0 v = Suc (log_loop 0 (v div 2))"
    using less.prems log_loop_add [of 0 1 "v div 2"] by (subst log_loop.simps) simp
  show ?case
  proof (cases "v div 2 > 0")
    case False
    then have "v = 1" and "v div 2 = 0" using less.prems by auto
    then show ?thesis using step by (simp add: log_loop.simps)
  next
    case True
    then have IH: "v div 2 < 2 ^ log_loop 0 (v div 2)" "2 ^ (log_loop 0 (v div 2) - 1) \<le> v div 2"
      "1 \<le> log_loop 0 (v div 2)"
      using less.IH [of "v div 2"] less.prems by auto
    obtain l where l: "log_loop 0 (v div 2) = Suc l" using IH(3) by (cases "log_loop 0 (v div 2)") auto
    show ?thesis using IH(1,2) step l by simp linarith
  qed
qed

lemma parity_bit_count_range:
  assumes "in_hamming_range n"
  obtains r where "parity_bit_count n = Ok r" and "3 \<le> r" and "r \<le> 8"
    and "n + r < 2 ^ r" and "2 ^ (r - 1) \<le> n + r" and "n \<le> 57 \<Longrightarrow> n + r \<le> 63"
    and "58 \<le> n \<Longrightarrow> 65 \<le> n + r"
proof -
  have n: "4 \<le> n" "n \<le> 247"
    using assms by (simp_all add: in_hamming_range_def HAMMING_MIN_DATA_BITS_def HAMMING_MAX_DATA_BITS_def)
  define r0 where "r0 = ceil_log2 (n + 1)"
  have r0: "n < 2 ^ r0" "2 ^ (r0 - 1) \<le> n" "1 \<le> r0"
    using log_loop_bounds [of n] n by (simp_all add: r0_def ceil_log2_def)
  have "(2::nat) ^ (r0 - 1) < 2 ^ 8" using r0(2) n by simp
  then have "r0 - 1 < 8" using power_less_imp_less_exp one_less_numeral_iff semiring_norm(76) by blast
  moreover have "2 < r0"
  proof (rule ccontr)
    assume "\<not> 2 < r0"
    then have "(2::nat) ^ r0 \<le> 2 ^ 2" by (intro power_increasing) auto
    with r0(1) n show False by simp
  qed
  ultimately have "r0 = 3 \<or> r0 = 4 \<or> r0 = 5 \<or> r0 = 6 \<or> r0 = 7 \<or> r0 = 8" by linarith
  moreover have count: "parity_bit_count n =
      and_then (observer_new 64) (\<lambda>obs. parity_loop n r0 obs)"
    using assms by (simp add: parity_bit_count_def r0_def)
  moreover define q where "q = (if 2 ^ r0 < n + r0 + 1 then r0 + 1 else r0)"
  ultimately have "parity_bit_count n = Ok q"
    using r0 n by (elim disjE)
      (simp_all add: parity_loop.simps observer_new_def tick_q_within USIZE_MAX_def)
  moreover have "3 \<le> q \<and> q \<le> 8 \<and> n + q < 2 ^ q \<and> 2 ^ (q - 1) \<le> n + q \<and>
      (n \<le> 57 \<longrightarrow> n + q \<le> 63) \<and> (58 \<le> n \<longrightarrow> 65 \<le> n + q)"
    using \<open>r0 = 3 \<or> r0 = 4 \<or> r0 = 5 \<or> r0 = 6 \<or> r0 = 7 \<or> r0 = 8\<close> r0 n
    by (elim disjE) (simp_all add: q_def)
  ultimately show ?thesis using that by blast
qed

section \<open>Positions\<close>

lemma and_pred_even: "(2 * m) AND (2 * m - Suc 0) = 2 * (m AND (m - Suc 0))" if "m > 0" for m :: nat
proof -
  have "(2 * m - Suc 0) div 2 = m - Suc 0" using that by presburger
  then show ?thesis using and_rec [of "2 * m" "2 * m - Suc 0"] by simp
qed

lemma and_pred_odd: "Suc (2 * m) AND (2 * m) = 2 * m" for m :: nat
  using and_rec [of "Suc (2 * m)" "2 * m"] by simp

lemma parity_position_iff: "is_parity_position pos \<longleftrightarrow> (\<exists>p. pos = 2 ^ p)"
proof (induction pos rule: less_induct)
  case (less pos)
  show ?case
  proof (cases "pos = 0")
    case False
    show ?thesis
    proof (cases "even pos")
      case True
      then obtain m where m: "pos = 2 * m" by (rule evenE)
      with False have "m > 0" "m < pos" by auto
      then have "is_parity_position pos \<longleftrightarrow> (\<exists>p. m = 2 ^ p)"
        using less.IH [of m] by (simp add: m is_parity_position_def and_pred_even)
      also have "\<dots> \<longleftrightarrow> (\<exists>p. pos = 2 ^ p)"
      proof
        assume "\<exists>p. m = 2 ^ p"
        then obtain p where "m = 2 ^ p" ..
        then have "pos = 2 ^ Suc p" by (simp add: m)
        then show "\<exists>p. pos = 2 ^ p" ..
      next
        assume "\<exists>p. pos = 2 ^ p"
        then obtain p where p: "pos = 2 ^ p" ..
        then obtain q where "p = Suc q" using True by (cases p) auto
        with p show "\<exists>p. m = 2 ^ p" by (auto simp: m)
      qed
      finally show ?thesis .
    next
      case odd: False
      then obtain m where m: "pos = Suc (2 * m)" by (metis oddE Suc_eq_plus1)
      then have "is_parity_position pos \<longleftrightarrow> m = 0" by (simp add: is_parity_position_def and_pred_odd)
      moreover have "(\<exists>p. pos = 2 ^ p) \<longleftrightarrow> m = 0"
      proof
        assume "\<exists>p. pos = 2 ^ p"
        then obtain p where "pos = 2 ^ p" ..
        then show "m = 0" using odd by (cases p) (auto simp: m)
      qed (auto simp: m intro: exI [of _ 0])
      ultimately show ?thesis by simp
    qed
  qed (simp add: is_parity_position_def)
qed

lemma pow2_le_Suc:
  assumes "Suc m = 2 ^ q"
  shows "2 ^ p \<le> Suc m \<longleftrightarrow> 2 ^ p \<le> m \<or> p = q"
proof -
  have "2 ^ p = Suc m \<longleftrightarrow> p = q" unfolding assms by simp
  then show ?thesis by linarith
qed

text \<open>The number of data positions among \<open>1, \<dots>, m\<close>: the data index of position \<open>m + 1\<close>.\<close>

primrec data_count :: "nat \<Rightarrow> nat" where
  "data_count 0 = 0"
| "data_count (Suc m) = data_count m + (if is_parity_position (Suc m) then 0 else 1)"

lemma data_count_le: "data_count m \<le> m"
  by (induction m) auto

lemma data_count_complement: "data_count m + card {p. 2 ^ p \<le> m} = m"
proof (induction m)
  case (Suc m)
  have fin: "finite {p. 2 ^ p \<le> m}"
    by (rule finite_subset [of _ "{..m}"]) (auto intro: order_trans [OF less_imp_le [OF less_exp]])
  show ?case
  proof (cases "is_parity_position (Suc m)")
    case True
    then obtain q where q: "Suc m = 2 ^ q" by (auto simp: parity_position_iff)
    have "{p. 2 ^ p \<le> Suc m} = insert q {p. 2 ^ p \<le> m}"
      using pow2_le_Suc [OF q] by auto
    moreover have "q \<notin> {p. 2 ^ p \<le> m}" using q by simp
    ultimately show ?thesis using Suc True fin by simp
  next
    case False
    then have "{p. 2 ^ p \<le> Suc m} = {p. 2 ^ p \<le> m}"
      by (auto simp: parity_position_iff le_Suc_eq) metis
    then show ?thesis using Suc False by simp
  qed
qed simp

lemma data_count_codeword:
  assumes "1 \<le> r" and "2 ^ (r - 1) \<le> n + r" and "n + r < 2 ^ r"
  shows "data_count (n + r) = n"
proof -
  have "2 ^ p \<le> n + r \<longleftrightarrow> p < r" for p
  proof
    assume "2 ^ p \<le> n + r"
    then have "(2::nat) ^ p < 2 ^ r" using assms(3) by linarith
    then show "p < r" by (rule power_less_imp_less_exp [rotated]) simp
  next
    assume "p < r"
    then have "(2::nat) ^ p \<le> 2 ^ (r - 1)" by (intro power_increasing) auto
    then show "2 ^ p \<le> n + r" using assms(2) by linarith
  qed
  then have "card {p. 2 ^ p \<le> n + r} = r" by simp
  then show ?thesis using data_count_complement [of "n + r"] by simp
qed

lemma data_position_exists:
  "j < data_count m \<Longrightarrow> \<exists>k < m. \<not> is_parity_position (Suc k) \<and> data_count k = j"
proof (induction m)
  case (Suc m)
  show ?case
  proof (cases "j < data_count m")
    case True
    then show ?thesis using Suc.IH less_SucI by blast
  next
    case False
    then show ?thesis using Suc.prems by (intro exI [of _ m]) (auto split: if_splits)
  qed
qed simp

section \<open>The loops at bit level\<close>

lemma shl_Ok: "n < 64 \<Longrightarrow> shl w n = Ok (push_bit n w)"
  by (simp add: shl_def)

lemma shr_Ok: "n < 64 \<Longrightarrow> shr w n = Ok (drop_bit n w)"
  by (simp add: shr_def)

lemma bit_data_mask: "bit (data_mask n) k \<longleftrightarrow> k < 64 \<and> k < n"
  by (auto simp: data_mask_def bit_simps simp flip: mask_eq_exp_minus_1)

lemma bit_placed:
  "m < 64 \<Longrightarrow> bit (push_bit m (drop_bit i w) AND 2 ^ m :: u64) k \<longleftrightarrow> k = m \<and> bit w i"
  by (auto simp: bit_and_iff bit_push_bit_iff bit_drop_bit_eq bit_exp_iff)

lemma place_bit_step:
  "m < 64 \<Longrightarrow> idx < 64 \<Longrightarrow> place_bit data (cw, idx) (Suc m) =
     Ok (if is_parity_position (Suc m) then (cw, idx)
         else (cw OR push_bit m (drop_bit idx data AND 1), Suc idx))"
  by (simp add: place_bit_def shr_Ok shl_Ok)

lemma extract_bit_step:
  "m < 64 \<Longrightarrow> idx < 64 \<Longrightarrow> extract_bit cw (data, idx) (Suc m) =
     Ok (if is_parity_position (Suc m) then (data, idx)
         else (data OR push_bit idx (drop_bit m cw AND 1), Suc idx))"
  by (simp add: extract_bit_def shr_Ok shl_Ok)

lemma upt_snoc_1: "[1..<Suc m + 1] = [1..<m + 1] @ [Suc m]"
  by simp

lemma place_bits:
  assumes "m \<le> 64"
  shows "\<exists>cw. fold_outcome (place_bit data) (0, 0) [1..<m + 1] = Ok (cw, data_count m) \<and>
     (\<forall>k. bit cw k \<longleftrightarrow> k < m \<and> \<not> is_parity_position (Suc k) \<and> bit data (data_count k))"
  using assms
proof (induction m)
  case (Suc m)
  then obtain cw where cw: "fold_outcome (place_bit data) (0, 0) [1..<m + 1] = Ok (cw, data_count m)"
    and b: "\<forall>k. bit cw k \<longleftrightarrow> k < m \<and> \<not> is_parity_position (Suc k) \<and> bit data (data_count k)"
    by auto
  have idx: "data_count m < 64" using data_count_le [of m] Suc.prems by simp
  have "m < 64" using Suc.prems by simp
  note step = place_bit_step [OF this idx, of data cw]
  have run: "fold_outcome (place_bit data) (0, 0) [1..<Suc m + 1] =
      Ok (if is_parity_position (Suc m) then cw else cw OR push_bit m (drop_bit (data_count m) data AND 1),
          data_count (Suc m))"
    unfolding upt_snoc_1 fold_outcome_append cw and_then.simps fold_outcome.simps step by simp
  show ?case
    using b by (intro exI conjI) (rule run, auto simp: bit_or_iff bit_placed [OF \<open>m < 64\<close>] less_Suc_eq)
qed simp

lemma extract_bits:
  assumes "m \<le> 64"
  shows "\<exists>data. fold_outcome (extract_bit cw) (0, 0) [1..<m + 1] = Ok (data, data_count m) \<and>
     (\<forall>j. bit data j \<longleftrightarrow> (\<exists>k < m. \<not> is_parity_position (Suc k) \<and> data_count k = j \<and> bit cw k))"
  using assms
proof (induction m)
  case (Suc m)
  then obtain data where d: "fold_outcome (extract_bit cw) (0, 0) [1..<m + 1] = Ok (data, data_count m)"
    and b: "\<forall>j. bit data j \<longleftrightarrow> (\<exists>k < m. \<not> is_parity_position (Suc k) \<and> data_count k = j \<and> bit cw k)"
    by auto
  have idx: "data_count m < 64" using data_count_le [of m] Suc.prems by simp
  have "m < 64" using Suc.prems by simp
  note step = extract_bit_step [OF this idx, of cw data]
  have run: "fold_outcome (extract_bit cw) (0, 0) [1..<Suc m + 1] =
      Ok (if is_parity_position (Suc m) then data else data OR push_bit (data_count m) (drop_bit m cw AND 1),
          data_count (Suc m))"
    unfolding upt_snoc_1 fold_outcome_append d and_then.simps fold_outcome.simps step by simp
  show ?case
    using b by (intro exI conjI) (rule run, auto simp: bit_or_iff bit_placed [OF idx] less_Suc_eq)
qed simp

primrec par_bit :: "u64 \<Rightarrow> nat \<Rightarrow> nat \<Rightarrow> bool" where
  "par_bit cw p 0 = False"
| "par_bit cw p (Suc m) = (par_bit cw p m \<noteq> (bit (Suc m) p \<and> bit cw m))"

lemma parity_of_par_bit:
  "m \<le> 64 \<Longrightarrow> parity_of cw p m = Ok (if par_bit cw p m then 1 else 0)"
proof (induction m)
  case (Suc m)
  have "drop_bit m cw AND 1 = (if bit cw m then 1 else 0)"
    by (simp add: and_one_eq mod_2_eq_odd bit_iff_odd_drop_bit)
  then have "parity_term cw p par (Suc m) =
      Ok (if bit (Suc m) p \<and> bit cw m then par XOR 1 else par)" for par
    using Suc.prems by (simp add: parity_term_def shr_Ok bit_iff_odd_drop_bit)
  with Suc show ?case
    unfolding parity_of_def upt_snoc_1 by (auto simp: fold_outcome_append)
qed (simp add: parity_of_def)

definition flip_bit_at :: "nat \<Rightarrow> u64 \<Rightarrow> u64" where
  "flip_bit_at e w = (if e = 0 then w else w XOR push_bit (e - 1) 1)"

lemma bit_flip_bit_at: "e \<le> 64 \<Longrightarrow> bit (flip_bit_at e w) k \<longleftrightarrow> bit w k \<noteq> (e = Suc k)"
  by (cases e) (auto simp: flip_bit_at_def bit_simps)

lemma flip_bit_at_involution: "flip_bit_at e (flip_bit_at e w) = w"
  by (simp add: flip_bit_at_def xor.assoc)

lemma par_bit_flip:
  "e \<le> 64 \<Longrightarrow> par_bit (flip_bit_at e w) p m = (par_bit w p m \<noteq> (1 \<le> e \<and> e \<le> m \<and> bit e p))"
  by (induction m) (auto simp: bit_flip_bit_at le_Suc_eq)

lemma par_bit_cong:
  "(\<And>k. k < m \<Longrightarrow> bit v k = bit w k) \<Longrightarrow> par_bit v p m = par_bit w p m"
  by (induction m) auto

text \<open>Words that agree outside the parity positions differ in parity \<open>p\<close> by their bit at \<open>2 ^ p\<close>.\<close>

lemma par_bit_data_agree:
  assumes "\<And>k. \<not> is_parity_position (Suc k) \<Longrightarrow> k < m \<Longrightarrow> bit v k = bit w k"
  shows "(par_bit v p m \<noteq> par_bit w p m) \<longleftrightarrow> (2 ^ p \<le> m \<and> bit v (2 ^ p - 1) \<noteq> bit w (2 ^ p - 1))"
  using assms
proof (induction m)
  case (Suc m)
  show ?case
  proof (cases "is_parity_position (Suc m)")
    case True
    then obtain q where q: "Suc m = 2 ^ q" by (auto simp: parity_position_iff)
    then have m: "2 ^ q - 1 = m" by simp
    have "bit (Suc m) p \<longleftrightarrow> p = q" by (auto simp: q bit_simps)
    moreover have "2 ^ p \<le> Suc m \<longleftrightarrow> 2 ^ p \<le> m \<or> p = q"
      by (rule pow2_le_Suc [OF q])
    moreover have "(par_bit v p m \<noteq> par_bit w p m) \<longleftrightarrow>
        (2 ^ p \<le> m \<and> bit v (2 ^ p - 1) \<noteq> bit w (2 ^ p - 1))"
      using Suc by simp
    moreover have "\<not> 2 ^ q \<le> m" using q by simp
    ultimately show ?thesis using m by (cases "p = q") auto
  next
    case False
    then have "2 ^ p \<le> Suc m \<longleftrightarrow> 2 ^ p \<le> m" by (auto simp: parity_position_iff le_Suc_eq) metis
    moreover have "bit v m = bit w m" using False Suc.prems by simp
    moreover have "(par_bit v p m \<noteq> par_bit w p m) \<longleftrightarrow>
        (2 ^ p \<le> m \<and> bit v (2 ^ p - 1) \<noteq> bit w (2 ^ p - 1))"
      using Suc by simp
    ultimately show ?thesis by auto
  qed
qed simp

section \<open>Codewords\<close>

text \<open>The words with vanishing parities that carry the bits of \<open>data\<close> at the data positions.\<close>

definition is_codeword :: "nat \<Rightarrow> nat \<Rightarrow> u64 \<Rightarrow> u64 \<Rightarrow> bool" where
  "is_codeword n r data cw \<longleftrightarrow>
     (\<forall>p < r. \<not> par_bit cw p (n + r)) \<and> (\<forall>k \<ge> n + r. \<not> bit cw k) \<and>
     (\<forall>k < n + r. \<not> is_parity_position (Suc k) \<longrightarrow> bit cw k = bit data (data_count k))"

lemma set_parity_flip:
  assumes "2 ^ p \<le> m" and "m \<le> 64" and "\<not> bit cw (2 ^ p - 1)"
  shows "set_parity m cw p = Ok (if par_bit cw p m then flip_bit_at (2 ^ p) cw else cw)"
proof -
  have p: "2 ^ p - 1 < (64::nat)" "2 ^ p \<noteq> (0::nat)" using assms by auto
  have "cw OR push_bit (2 ^ p - 1) 1 = flip_bit_at (2 ^ p) cw"
    using assms(3) p
    by (intro bit_word_eqI) (auto simp: flip_bit_at_def bit_or_iff bit_xor_iff bit_exp_iff)
  then show ?thesis
    using assms p by (simp add: set_parity_def parity_of_par_bit shl_Ok)
qed

lemma set_parities:
  assumes "\<And>p. p < r \<Longrightarrow> 2 ^ p \<le> m" and "m \<le> 64" and "q \<le> r"
    and "\<And>p. p < r \<Longrightarrow> \<not> bit cw (2 ^ p - 1)"
  shows "\<exists>cw'. fold_outcome (set_parity m) cw [0..<q] = Ok cw' \<and>
     (\<forall>p < q. \<not> par_bit cw' p m) \<and> (\<forall>p. q \<le> p \<longrightarrow> p < r \<longrightarrow> \<not> bit cw' (2 ^ p - 1)) \<and>
     (\<forall>k. (\<not> is_parity_position (Suc k) \<or> m \<le> k) \<longrightarrow> bit cw' k = bit cw k)"
  using assms(3)
proof (induction q)
  case (Suc q)
  then obtain v where v: "fold_outcome (set_parity m) cw [0..<q] = Ok v"
    and par: "\<forall>p < q. \<not> par_bit v p m" and clear: "\<forall>p. q \<le> p \<longrightarrow> p < r \<longrightarrow> \<not> bit v (2 ^ p - 1)"
    and same: "\<forall>k. (\<not> is_parity_position (Suc k) \<or> m \<le> k) \<longrightarrow> bit v k = bit cw k" by auto
  have q: "q < r" "2 ^ q \<le> m" using Suc.prems assms(1) by auto
  define v' where "v' = (if par_bit v q m then flip_bit_at (2 ^ q) v else v)"
  have run: "fold_outcome (set_parity m) cw [0..<Suc q] = Ok v'"
    using v clear q assms(2) by (simp add: fold_outcome_append set_parity_flip v'_def)
  have q64: "2 ^ q \<le> (64::nat)" using q assms(2) by simp
  have bits: "bit v' k = (bit v k \<noteq> (par_bit v q m \<and> 2 ^ q = Suc k))" for k
    using bit_flip_bit_at [OF q64] by (simp add: v'_def)
  have "par_bit v' p m = (par_bit v p m \<noteq> (par_bit v q m \<and> p = q))" for p
    using par_bit_flip [OF q64, of v p m] q by (auto simp: v'_def bit_exp_iff)
  then have "\<forall>p < Suc q. \<not> par_bit v' p m" using par by (auto simp: less_Suc_eq)
  moreover have "\<not> bit v' (2 ^ p - 1)" if "Suc q \<le> p" "p < r" for p
  proof -
    have "Suc (2 ^ p - 1) = (2 :: nat) ^ p" by simp
    moreover have "(2 :: nat) ^ q \<noteq> 2 ^ p" using that by simp
    ultimately show ?thesis using bits clear that by simp
  qed
  moreover have "bit v' k = bit cw k" if "\<not> is_parity_position (Suc k) \<or> m \<le> k" for k
  proof -
    have "2 ^ q \<noteq> Suc k"
      using that q(2) by (auto simp: parity_position_iff) metis
    then show ?thesis using that same bits [of k] by auto
  qed
  ultimately show ?case using run by blast
qed (use assms(4) in auto)

lemma encode_bits_codeword:
  assumes "in_hamming_range n" and "\<forall>k \<ge> n. \<not> bit data k"
    and "parity_bit_count n = Ok r" and "2 ^ (r - 1) \<le> n + r" and "n + r \<le> 63"
  shows "\<exists>cw. encode_bits data n = Ok cw \<and> is_codeword n r data cw"
proof -
  have mask: "data AND NOT (data_mask n) = 0"
    using assms(2)
    by (intro bit_word_eqI) (auto simp: bit_and_iff bit_not_iff bit_data_mask not_less)
  obtain w where w: "fold_outcome (place_bit data) (0, 0) [1..<n + r + 1] = Ok (w, data_count (n + r))"
    and bw: "\<forall>k. bit w k \<longleftrightarrow> k < n + r \<and> \<not> is_parity_position (Suc k) \<and> bit data (data_count k)"
    using place_bits [of "n + r" data] assms(5) by auto
  have pow: "2 ^ p \<le> n + r" if "p < r" for p
  proof -
    have "(2::nat) ^ p \<le> 2 ^ (r - 1)" using that by (intro power_increasing) auto
    then show ?thesis using assms(4) by linarith
  qed
  have par: "is_parity_position (Suc (2 ^ p - 1))" for p by (auto simp: parity_position_iff)
  obtain cw where cw: "fold_outcome (set_parity (n + r)) w [0..<r] = Ok cw"
    and c: "\<forall>p < r. \<not> par_bit cw p (n + r)"
      "\<forall>k. (\<not> is_parity_position (Suc k) \<or> n + r \<le> k) \<longrightarrow> bit cw k = bit w k"
    using set_parities [of r "n + r" r w] pow assms(5) bw par by auto
  have "cw AND data_mask (n + r) = cw"
  proof (rule bit_word_eqI)
    fix k
    assume "k < LENGTH(64)"
    moreover have "\<not> bit cw k" if "n + r \<le> k" using c(2) bw that by simp
    ultimately show "bit (cw AND data_mask (n + r)) k = bit cw k"
      by (cases "k < n + r") (auto simp: bit_and_iff bit_data_mask)
  qed
  then have "encode_bits data n = Ok cw"
    using assms(1,3) mask w cw by (simp add: encode_bits_def del: upt_Suc)
  moreover have "is_codeword n r data cw" using c bw by (auto simp: is_codeword_def)
  ultimately show ?thesis by blast
qed

lemma syndrome_bits:
  assumes "m \<le> 64" and "r \<le> 32"
  shows "\<exists>syn. fold_outcome (syndrome_bit cw m) 0 [0..<r] = Ok syn \<and>
     (\<forall>p. bit syn p \<longleftrightarrow> p < r \<and> par_bit cw p m)"
  using assms(2)
proof (induction r)
  case (Suc r)
  then obtain syn where s: "fold_outcome (syndrome_bit cw m) 0 [0..<r] = Ok syn"
    and b: "\<forall>p. bit syn p \<longleftrightarrow> p < r \<and> par_bit cw p m" by auto
  define syn' where "syn' = (if par_bit cw r m then syn OR push_bit r 1 else syn)"
  have "syndrome_bit cw m syn r = Ok syn'"
    using assms(1) by (simp add: syn'_def syndrome_bit_def parity_of_par_bit)
  then have "fold_outcome (syndrome_bit cw m) 0 [0..<Suc r] = Ok syn'"
    by (simp add: fold_outcome_append s)
  moreover have "bit syn' p \<longleftrightarrow> p < Suc r \<and> par_bit cw p m" for p
    using b Suc.prems
    by (cases "p = r") (simp_all add: syn'_def bit_or_iff bit_exp_iff less_Suc_eq)
  ultimately show ?case by blast
qed simp

definition corrected :: "nat \<Rightarrow> u64 \<Rightarrow> nat \<Rightarrow> u64" where
  "corrected m cw s = (if s \<le> m then flip_bit_at s cw else cw)"

text \<open>What \<open>decode_bits\<close> returns for an arbitrary word.\<close>

lemma decode_bits_eval:
  assumes "in_hamming_range n" and "parity_bit_count n = Ok r" and "n + r \<le> 63" and "r \<le> 32"
    and w_def: "w = x AND data_mask (n + r)"
  obtains data syn where "decode_bits x n = Ok (data, syn)"
    and "\<forall>p. bit syn p \<longleftrightarrow> p < r \<and> par_bit w p (n + r)"
    and "\<forall>j. bit data j \<longleftrightarrow> j < n \<and> (\<exists>k < n + r. \<not> is_parity_position (Suc k) \<and> data_count k = j \<and>
           bit (corrected (n + r) w (unat syn)) k)"
proof -
  obtain syn where syn: "fold_outcome (syndrome_bit w (n + r)) 0 [0..<r] = Ok syn"
    and s: "\<forall>p. bit syn p \<longleftrightarrow> p < r \<and> par_bit w p (n + r)"
    using syndrome_bits [of "n + r" r w] assms(3,4) by auto
  obtain data where d: "fold_outcome (extract_bit (corrected (n + r) w (unat syn))) (0, 0)
      [1..<n + r + 1] = Ok (data, data_count (n + r))"
    and b: "\<forall>j. bit data j \<longleftrightarrow> (\<exists>k < n + r. \<not> is_parity_position (Suc k) \<and> data_count k = j \<and>
       bit (corrected (n + r) w (unat syn)) k)"
    using extract_bits [of "n + r" "corrected (n + r) w (unat syn)"] assms(3) by auto
  have corr: "(if syn \<noteq> 0 \<and> unat syn \<le> n + r
      then and_then (shl 1 (unat syn - 1)) (\<lambda>b. Ok (w XOR b)) else Ok w) =
      (Ok (corrected (n + r) w (unat syn)) :: u64 dfim_result)"
    using assms(3) by (auto simp: corrected_def flip_bit_at_def shl_Ok unat_eq_zero)
  have "decode_bits x n = Ok (data AND data_mask n, syn)"
    unfolding decode_bits_def assms(2) and_then.simps Let_def w_def [symmetric] syn corr d prod.case
    using assms(1) by simp
  moreover have "bit (data AND data_mask n) j \<longleftrightarrow> j < n \<and> bit data j" for j
    using assms(3) by (auto simp: bit_and_iff bit_data_mask)
  ultimately show ?thesis using that s b by simp
qed

lemma nat_bit_below: "bit (e :: nat) p \<Longrightarrow> e < 2 ^ r \<Longrightarrow> p < r"
proof (rule ccontr)
  assume "bit e p" "e < 2 ^ r" "\<not> p < r"
  then have "(2::nat) ^ r \<le> 2 ^ p" by (intro power_increasing) auto
  with \<open>e < 2 ^ r\<close> have "e < 2 ^ p" by linarith
  then have "e div 2 ^ p = 0" by (rule div_less)
  with \<open>bit e p\<close> show False by (simp add: bit_iff_odd)
qed

lemma codeword_single_error:
  assumes "in_hamming_range n" and "parity_bit_count n = Ok r" and "n + r \<le> 63" and "3 \<le> r"
    and "r \<le> 8" and "n + r < 2 ^ r" and "2 ^ (r - 1) \<le> n + r"
    and cw: "is_codeword n r data cw" and data: "\<forall>k \<ge> n. \<not> bit data k" and e: "e \<le> n + r"
  shows "decode_bits (flip_bit_at e cw) n = Ok (data, of_nat e)"
proof -
  have e64: "e \<le> 64" using e assms(3) by simp
  have w: "flip_bit_at e cw AND data_mask (n + r) = flip_bit_at e cw"
  proof (rule bit_word_eqI)
    fix k
    assume "k < LENGTH(64)"
    then show "bit (flip_bit_at e cw AND data_mask (n + r)) k = bit (flip_bit_at e cw) k"
      using cw e
      by (cases "k < n + r") (auto simp: bit_and_iff bit_data_mask bit_flip_bit_at [OF e64] is_codeword_def)
  qed
  have r32: "r \<le> 32" using assms(5) by simp
  obtain data' syn where dec: "decode_bits (flip_bit_at e cw) n = Ok (data', syn)"
    and s: "\<forall>p. bit syn p \<longleftrightarrow> p < r \<and> par_bit (flip_bit_at e cw) p (n + r)"
    and d: "\<forall>j. bit data' j \<longleftrightarrow> j < n \<and> (\<exists>k < n + r. \<not> is_parity_position (Suc k) \<and>
       data_count k = j \<and> bit (corrected (n + r) (flip_bit_at e cw) (unat syn)) k)"
    using decode_bits_eval [OF assms(1,2,3) r32 w [symmetric]] by blast
  have sb: "bit syn p \<longleftrightarrow> bit e p" for p
  proof -
    have "bit e p \<Longrightarrow> p < r" using nat_bit_below [of e p r] e assms(6) by simp
    moreover have "1 \<le> e" if "bit e p" using that by (cases e) auto
    ultimately show ?thesis
      using s cw e by (auto simp: par_bit_flip [OF e64] is_codeword_def)
  qed
  have es: "e < 2 ^ 32"
  proof -
    have "(2::nat) ^ r \<le> 2 ^ 32" using r32 by (intro power_increasing) auto
    then show ?thesis using e assms(6) by linarith
  qed
  have syn: "syn = of_nat e"
    using sb by (intro bit_word_eqI) (simp add: bit_of_nat_iff)
  then have u: "unat syn = e" using es by (simp add: unat_of_nat_u32)
  have c: "corrected (n + r) (flip_bit_at e cw) (unat syn) = cw"
    using e by (simp add: u corrected_def flip_bit_at_involution)
  have "data' = data"
  proof (rule bit_word_eqI)
    fix j
    have dc: "data_count (n + r) = n" using assms(4,6,7) by (intro data_count_codeword) auto
    have "bit data' j \<longleftrightarrow> j < n \<and> bit data j"
      using d data_position_exists [of j "n + r"] cw unfolding c dc is_codeword_def by metis
    then show "bit data' j = bit data j" using data by (auto simp: not_less)
  qed
  with dec syn show ?thesis by simp
qed


section \<open>Uniqueness of codewords and the strict decoder\<close>

lemma codeword_unique:
  assumes "is_codeword n r data a" and "is_codeword n r data b" and "n + r < 2 ^ r"
  shows "a = b"
proof (rule bit_word_eqI)
  fix k
  show "bit a k = bit b k"
  proof (cases "k < n + r \<and> is_parity_position (Suc k)")
    case False
    then show ?thesis using assms(1,2) by (cases "k < n + r") (auto simp: is_codeword_def)
  next
    case True
    then obtain p where p: "Suc k = 2 ^ p" by (auto simp: parity_position_iff)
    have "(2::nat) ^ p < 2 ^ r" using True assms(3) p by linarith
    then have "p < r" by simp
    then have "par_bit a p (n + r) = par_bit b p (n + r)" using assms(1,2) by (simp add: is_codeword_def)
    moreover have "\<And>k. \<not> is_parity_position (Suc k) \<Longrightarrow> k < n + r \<Longrightarrow> bit a k = bit b k"
      using assms(1,2) by (simp add: is_codeword_def)
    ultimately have "\<not> (2 ^ p \<le> n + r \<and> bit a (2 ^ p - 1) \<noteq> bit b (2 ^ p - 1))"
      using par_bit_data_agree [of "n + r" a b p] by blast
    moreover have "2 ^ p \<le> n + r" "2 ^ p - 1 = k" using True p by auto
    ultimately show ?thesis by simp
  qed
qed

text \<open>The widths whose codewords fit a \<^verbatim>\<open>u64\<close> and the number of parity bits of each.\<close>

definition supported :: "nat \<Rightarrow> nat \<Rightarrow> bool" where
  "supported n r \<longleftrightarrow> in_hamming_range n \<and> parity_bit_count n = Ok r \<and> n + r \<le> 63 \<and> 3 \<le> r \<and> r \<le> 8 \<and>
     n + r < 2 ^ r \<and> 2 ^ (r - 1) \<le> n + r"

lemma supported_exists:
  assumes "4 \<le> n" and "n \<le> 57"
  shows "\<exists>r. supported n r"
proof -
  have "in_hamming_range n"
    using assms by (simp add: in_hamming_range_def HAMMING_MIN_DATA_BITS_def HAMMING_MAX_DATA_BITS_def)
  then show ?thesis
    using parity_bit_count_range [of n] assms(2) by (metis supported_def)
qed

lemma encode_bits_supported:
  assumes "supported n r" and "\<forall>k \<ge> n. \<not> bit data k"
  obtains cw where "encode_bits data n = Ok cw" and "is_codeword n r data cw"
  using encode_bits_codeword [of n data r] assms unfolding supported_def by auto

lemma masked_flip:
  assumes "is_codeword n r data cw" and "e \<le> n + r" and "n + r \<le> 63"
  shows "flip_bit_at e cw AND data_mask (n + r) = flip_bit_at e cw"
proof (rule bit_word_eqI)
  fix k
  assume "k < LENGTH(64)"
  moreover have "e \<le> 64" using assms by simp
  ultimately show "bit (flip_bit_at e cw AND data_mask (n + r)) k = bit (flip_bit_at e cw) k"
    using assms
    by (cases "k < n + r") (auto simp: bit_and_iff bit_data_mask bit_flip_bit_at is_codeword_def)
qed

lemma strict_single_error:
  assumes sup: "supported n r" and cw: "is_codeword n r data cw" and data: "\<forall>k \<ge> n. \<not> bit data k"
    and e: "e \<le> n + r"
  shows "decode_bits_strict (flip_bit_at e cw) n = Ok data"
proof -
  note s = sup [unfolded supported_def]
  have mask: "flip_bit_at e cw AND data_mask (n + r) = flip_bit_at e cw"
    using masked_flip [OF cw e] s by simp
  have dec: "decode_bits (flip_bit_at e cw) n = Ok (data, of_nat e)"
    using codeword_single_error [of n r data cw e] s cw data e by simp
  obtain c where "encode_bits data n = Ok c" "is_codeword n r data c"
    using encode_bits_supported [OF sup data] by blast
  then have enc: "encode_bits data n = Ok cw"
    using codeword_unique [OF cw, of c] s by simp
  have u: "unat (of_nat e :: u32) = e" using e s by (simp add: unat_of_nat_u32)
  then have z: "(of_nat e :: u32) = 0 \<longleftrightarrow> e = 0" by (metis unat_0 unat_eq_zero)
  have sh: "shl 1 (e - 1) = (Ok (push_bit (e - 1) 1) :: u64 dfim_result)"
    using e s by (intro shl_Ok) linarith
  have "flip_bit_at e cw XOR push_bit (e - 1) 1 = cw" if "e \<noteq> 0"
    using flip_bit_at_involution [of e cw] that by (simp add: flip_bit_at_def xor.assoc)
  moreover have "flip_bit_at e cw = cw" if "e = 0" using that by (simp add: flip_bit_at_def)
  moreover have "parity_bit_count n = Ok r" "in_hamming_range n" using s by auto
  ultimately show ?thesis
    using e unfolding decode_bits_strict_def \<open>parity_bit_count n = Ok r\<close> and_then.simps Let_def
      mask dec prod.case enc u sh z by (auto simp: not_less)
qed

lemma data_count_strict_mono:
  "k < k' \<Longrightarrow> \<not> is_parity_position (Suc k) \<Longrightarrow> data_count k < data_count k'"
  by (induction k') (auto simp: less_Suc_eq)

lemma data_count_inj:
  assumes "data_count k = data_count k'" and "\<not> is_parity_position (Suc k)" "\<not> is_parity_position (Suc k')"
  shows "k = k'"
  using assms data_count_strict_mono [of k k'] data_count_strict_mono [of k' k]
  by (metis less_irrefl linorder_neqE_nat)

text \<open>A perfect code: every word is a codeword with at most one flipped bit.\<close>

lemma perfect_code_covers:
  assumes sup: "supported n r" and perfect: "n + r = 2 ^ r - 1" and w: "\<forall>k \<ge> n + r. \<not> bit w k"
  obtains data cw e where "is_codeword n r data cw" and "\<forall>k \<ge> n. \<not> bit data k"
    and "e \<le> n + r" and "w = flip_bit_at e cw"
proof -
  note s = sup [unfolded supported_def]
  have mask: "w = w AND data_mask (n + r)"
  proof (rule bit_word_eqI)
    fix k
    assume "k < LENGTH(64)"
    then show "bit w k = bit (w AND data_mask (n + r)) k"
      using w by (cases "k < n + r") (auto simp: bit_and_iff bit_data_mask)
  qed
  have "r \<le> 32" using s by simp
  then obtain data syn where "decode_bits w n = Ok (data, syn)"
    and sy: "\<forall>p. bit syn p \<longleftrightarrow> p < r \<and> par_bit w p (n + r)"
    and d: "\<forall>j. bit data j \<longleftrightarrow> j < n \<and> (\<exists>k < n + r. \<not> is_parity_position (Suc k) \<and>
       data_count k = j \<and> bit (corrected (n + r) w (unat syn)) k)"
    using decode_bits_eval [OF _ _ _ _ mask] s by blast
  define e where "e = unat syn"
  have eb: "bit e p \<longleftrightarrow> p < r \<and> par_bit w p (n + r)" for p
    using sy by (simp add: e_def bit_unsigned_iff)
  have "take_bit r e = e" by (rule bit_eqI) (simp add: bit_take_bit_iff eb)
  then have e: "e \<le> n + r" unfolding perfect using take_bit_nat_eq_self_iff [of r e] by simp
  then have e64: "e \<le> 64" using s by linarith
  define cw where "cw = flip_bit_at e w"
  have dc: "data_count (n + r) = n" using s by (intro data_count_codeword) auto
  have cor: "corrected (n + r) w (unat syn) = cw" using e by (simp add: corrected_def e_def cw_def)
  have "\<not> par_bit cw p (n + r)" if "p < r" for p
  proof -
    have "1 \<le> e" if "bit e p" using that by (cases e) auto
    then show ?thesis
      using e that unfolding cw_def par_bit_flip [OF e64] by (auto simp: eb)
  qed
  moreover have "\<not> bit cw k" if "n + r \<le> k" for k
    using that w e by (simp add: cw_def bit_flip_bit_at [OF e64])
  moreover have "bit cw k = bit data (data_count k)" if "k < n + r" "\<not> is_parity_position (Suc k)" for k
    using that d data_count_inj [of _ k] data_count_strict_mono [of k "n + r"] unfolding dc cor by blast
  ultimately have "is_codeword n r data cw" by (simp add: is_codeword_def)
  moreover have "\<forall>k \<ge> n. \<not> bit data k" using d by auto
  moreover have "w = flip_bit_at e cw" by (simp add: cw_def flip_bit_at_involution)
  ultimately show ?thesis using that e by blast
qed

section \<open>Hamming(7,4) blocks\<close>

lemma supported_4: "supported 4 3"
  by (simp add: supported_def in_hamming_range_def HAMMING_MIN_DATA_BITS_def HAMMING_MAX_DATA_BITS_def
      parity_bit_count_def ceil_log2_def log_loop.simps parity_loop.simps observer_new_def)

definition hamming74 :: "u64 \<Rightarrow> u64" where
  "hamming74 nib = (case encode_bits nib 4 of Ok cw \<Rightarrow> cw | _ \<Rightarrow> 0)"

definition code_pair :: "u8 \<Rightarrow> bytes" where
  "code_pair b = [ucast (hamming74 (ucast (drop_bit 4 b AND 0x0f)) AND 0x7f),
                  ucast (hamming74 (ucast (b AND 0x0f)) AND 0x7f)]"

text \<open>Two bytes that differ in at most one bit.\<close>

definition at_most_one_flip :: "u8 \<Rightarrow> u8 \<Rightarrow> bool" where
  "at_most_one_flip a b \<longleftrightarrow> a XOR b \<in> set (0 # map (\<lambda>i. push_bit i 1) [0..<8])"

lemma at_most_one_flip_cases:
  assumes "at_most_one_flip a b"
  obtains e where "e \<le> 8" and "\<And>k. k < 8 \<Longrightarrow> bit b k = (bit a k \<noteq> (e = Suc k))"
proof -
  have eq: "bit b k = (bit a k \<noteq> bit (a XOR b) k)" for k by (auto simp: bit_xor_iff)
  from assms consider "a XOR b = 0" | i where "i < 8" "a XOR b = push_bit i 1"
    by (auto simp: at_most_one_flip_def)
  then show ?thesis
  proof cases
    case 1
    have "bit b k = (bit a k \<noteq> (0 = Suc k))" for k using eq [of k] unfolding 1 by simp
    then show ?thesis using that [of 0] by simp
  next
    case 2
    have "bit b k = (bit a k \<noteq> (Suc i = Suc k))" if "k < 8" for k
      using eq [of k] that 2(1) unfolding 2(2) by (auto simp: bit_exp_iff)
    then show ?thesis using that [of "Suc i"] 2(1) by simp
  qed
qed

lemma bit_0x7f: "bit (0x7f :: int) k \<longleftrightarrow> k < 7"
proof -
  have "(0x7f :: int) = mask 7" by (simp add: mask_eq_exp_minus_1)
  then show ?thesis by (simp only: bit_mask_iff) simp
qed

lemma bit_0x0f: "bit (0x0f :: int) k \<longleftrightarrow> k < 4"
proof -
  have "(0x0f :: int) = mask 4" by (simp add: mask_eq_exp_minus_1)
  then show ?thesis by (simp only: bit_mask_iff) simp
qed

lemma hamming74_codeword:
  assumes "\<forall>k \<ge> 4. \<not> bit nib k"
  shows "encode_bits nib 4 = Ok (hamming74 nib)" and "is_codeword 4 3 nib (hamming74 nib)"
proof -
  obtain cw where "encode_bits nib 4 = Ok cw" "is_codeword 4 3 nib cw"
    by (rule encode_bits_supported [OF supported_4 assms])
  then show "encode_bits nib 4 = Ok (hamming74 nib)" and "is_codeword 4 3 nib (hamming74 nib)"
    by (simp_all add: hamming74_def)
qed

lemma nibble_corrected:
  assumes nib: "\<forall>k \<ge> 4. \<not> bit nib k" and near: "at_most_one_flip (ucast (hamming74 nib AND 0x7f)) c"
  shows "decode_bits_strict (ucast (c AND 0x7f)) 4 = Ok nib"
    and "\<exists>syn. decode_bits (ucast (c AND 0x7f)) 4 = Ok (nib, syn)"
proof -
  let ?cw = "hamming74 nib"
  note cw = hamming74_codeword(2) [OF nib]
  obtain e0 where e0: "e0 \<le> 8" "\<And>k. k < 8 \<Longrightarrow> bit c k = (bit (ucast (?cw AND 0x7f) :: u8) k \<noteq> (e0 = Suc k))"
    using at_most_one_flip_cases [OF near] by blast
  define e where "e = (if e0 \<le> 7 then e0 else 0)"
  have e: "e \<le> 4 + 3" by (simp add: e_def)
  have word: "ucast (c AND 0x7f) = flip_bit_at e ?cw"
  proof (rule bit_word_eqI)
    fix k
    assume "k < LENGTH(64)"
    moreover have "\<not> bit ?cw k" if "7 \<le> k" using cw that by (simp add: is_codeword_def)
    ultimately show "bit (ucast (c AND 0x7f) :: u64) k = bit (flip_bit_at e ?cw) k"
      using e e0 by (cases "k < 7")
        (auto simp: bit_flip_bit_at bit_unsigned_iff bit_and_iff bit_0x7f e_def)
  qed
  show "decode_bits_strict (ucast (c AND 0x7f)) 4 = Ok nib"
    unfolding word by (rule strict_single_error [OF supported_4 cw nib e])
  show "\<exists>syn. decode_bits (ucast (c AND 0x7f)) 4 = Ok (nib, syn)"
    unfolding word
    using codeword_single_error [of 4 3 nib ?cw e] supported_4 cw nib e by (auto simp: supported_def)
qed

lemma nibbles_of_byte:
  fixes b :: u8
  shows "\<forall>k \<ge> 4. \<not> bit (ucast (drop_bit 4 b AND 0x0f) :: u64) k"
    and "\<forall>k \<ge> 4. \<not> bit (ucast (b AND 0x0f) :: u64) k"
    and "join_nibbles (ucast (drop_bit 4 b AND 0x0f)) (ucast (b AND 0x0f)) = b"
proof -
  show "\<forall>k \<ge> 4. \<not> bit (ucast (drop_bit 4 b AND 0x0f) :: u64) k"
    and "\<forall>k \<ge> 4. \<not> bit (ucast (b AND 0x0f) :: u64) k"
    by (auto simp: bit_unsigned_iff bit_and_iff bit_0x0f)
  show "join_nibbles (ucast (drop_bit 4 b AND 0x0f)) (ucast (b AND 0x0f)) = b"
  proof (rule bit_word_eqI)
    fix k
    assume "k < LENGTH(8)"
    then show "bit (join_nibbles (ucast (drop_bit 4 b AND 0x0f)) (ucast (b AND 0x0f))) k = bit b k"
      by (cases "k < 4")
        (auto simp: join_nibbles_def bit_or_iff bit_push_bit_iff bit_unsigned_iff bit_and_iff bit_0x0f
          bit_drop_bit_eq)
  qed
qed

lemma encode_block_pairs:
  assumes "data \<noteq> []"
  shows "encode_block data = Ok (concat (map code_pair data))"
proof -
  have step: "encode_byte (obs, out) b = Ok (obs', out @ code_pair b)" if "tick_q obs = Ok obs'" for obs obs' out b
    using hamming74_codeword(1) [OF nibbles_of_byte(1) [of b]] hamming74_codeword(1) [OF nibbles_of_byte(2) [of b]]
    by (simp add: encode_byte_def code_pair_def that)
  have loop: "\<exists>obs'. fold_outcome encode_byte (obs, out) bs = Ok (obs', out @ concat (map code_pair bs))"
    if "budget obs (length bs)" for obs out bs
    using that
  proof (induction bs arbitrary: obs out)
    case (Cons b bs)
    then have "budget obs (Suc (length bs))" by simp
    then obtain obs' where "tick_q obs = Ok obs'" "budget obs' (length bs)" by (rule budget_tick)
    with Cons.IH [of obs' "out @ code_pair b"] show ?case by (auto simp: step)
  qed simp
  have "0 < saturating_mul (length data) 2"
    using assms by (simp add: saturating_mul_def USIZE_MAX_def)
  then obtain obs where o: "observer_new (saturating_mul (length data) 2) = Ok obs"
    by (rule observer_new_budget)
  then have "budget obs (length data)"
    by (auto simp: observer_new_def budget_def saturating_mul_def split: if_splits)
  then show ?thesis using assms o loop [of obs data "[]"] by (auto simp: encode_block_def)
qed

text \<open>A received block: every byte differs from the sent one in at most one bit.\<close>

definition received_block :: "bytes \<Rightarrow> bytes \<Rightarrow> bool" where
  "received_block sent got \<longleftrightarrow> list_all2 at_most_one_flip sent got"

lemma received_block_Cons:
  assumes "received_block (concat (map code_pair (b # bs))) got"
  obtains c1 c2 rest where "got = c1 # c2 # rest"
    and "at_most_one_flip (ucast (hamming74 (ucast (drop_bit 4 b AND 0x0f)) AND 0x7f)) c1"
    and "at_most_one_flip (ucast (hamming74 (ucast (b AND 0x0f)) AND 0x7f)) c2"
    and "received_block (concat (map code_pair bs)) rest"
  using assms unfolding received_block_def code_pair_def by (auto simp: list_all2_Cons1)

lemma length_received_block:
  "received_block (concat (map code_pair bs)) got \<Longrightarrow> length got = 2 * length bs"
  by (induction bs arbitrary: got) (auto simp: received_block_def code_pair_def list_all2_Cons1)

text \<open>A loop over the chunks of a received block, for any step that decodes one chunk.\<close>

lemma decode_loop:
  assumes step: "\<And>obs obs' out written b c1 c2.
      tick_q obs = Ok obs' \<Longrightarrow> written < length out \<Longrightarrow>
      at_most_one_flip (ucast (hamming74 (ucast (drop_bit 4 b AND 0x0f)) AND 0x7f)) c1 \<Longrightarrow>
      at_most_one_flip (ucast (hamming74 (ucast (b AND 0x0f)) AND 0x7f)) c2 \<Longrightarrow>
      f (obs, out, written) (c1, c2) = Ok (obs', out[written := b], written + 1)"
    and "received_block (concat (map code_pair bs)) got" and "budget obs (length bs)"
    and "written + length bs \<le> length out"
  shows "\<exists>obs'. fold_outcome f (obs, out, written) (chunks2 got) =
           Ok (obs', take written out @ bs @ drop (written + length bs) out, written + length bs)"
  using assms(2-)
proof (induction bs arbitrary: got obs out written)
  case Nil
  then show ?case by (simp add: received_block_def)
next
  case (Cons b bs)
  from Cons.prems(1) obtain c1 c2 rest where g: "got = c1 # c2 # rest"
    and c: "at_most_one_flip (ucast (hamming74 (ucast (drop_bit 4 b AND 0x0f)) AND 0x7f)) c1"
      "at_most_one_flip (ucast (hamming74 (ucast (b AND 0x0f)) AND 0x7f)) c2"
    and r: "received_block (concat (map code_pair bs)) rest" by (rule received_block_Cons)
  have "budget obs (Suc (length bs))" using Cons.prems(2) by simp
  then obtain obs' where t: "tick_q obs = Ok obs'" "budget obs' (length bs)" by (rule budget_tick)
  have w: "written < length out" using Cons.prems(3) by simp
  from Cons.IH [OF r t(2), of "written + 1" "out[written := b]"] Cons.prems(3)
  obtain obs'' where "fold_outcome f (obs', out[written := b], written + 1) (chunks2 rest) =
      Ok (obs'', take (written + 1) (out[written := b]) @ bs @
        drop (written + 1 + length bs) (out[written := b]), written + 1 + length bs)" by auto
  moreover have "take (written + 1) (out[written := b]) = take written out @ [b]"
    using w by (simp add: take_Suc_conv_app_nth)
  ultimately show ?case using step [OF t(1) w c] by (simp add: g)
qed

lemma decode_chunk_into_step:
  assumes "tick_q obs = Ok obs'" and "written < length out"
    and "at_most_one_flip (ucast (hamming74 (ucast (drop_bit 4 b AND 0x0f)) AND 0x7f)) c1"
    and "at_most_one_flip (ucast (hamming74 (ucast (b AND 0x0f)) AND 0x7f)) c2"
  shows "decode_chunk_into (obs, out, written) (c1, c2) = Ok (obs', out[written := b], written + 1)"
    and "decode_chunk_into_strict (obs, out, written) (c1, c2) = Ok (obs', out[written := b], written + 1)"
    and "decode_chunk (obs, out') (c1, c2) = Ok (obs', out' @ [b])"
proof -
  obtain s1 s2 where
    "decode_bits (ucast (c1 AND 0x7f)) 4 = Ok (ucast (drop_bit 4 b AND 0x0f), s1)"
    "decode_bits (ucast (c2 AND 0x7f)) 4 = Ok (ucast (b AND 0x0f), s2)"
    using nibble_corrected(2) [OF nibbles_of_byte(1) assms(3)]
      nibble_corrected(2) [OF nibbles_of_byte(2) assms(4)] by blast
  then show "decode_chunk_into (obs, out, written) (c1, c2) = Ok (obs', out[written := b], written + 1)"
    using assms(1,2) unfolding decode_chunk_into_def prod.case assms(1) and_then.simps fst_conv snd_conv
    by (simp only: and_then.simps prod.case nibbles_of_byte(3) if_True)
  show "decode_chunk_into_strict (obs, out, written) (c1, c2) = Ok (obs', out[written := b], written + 1)"
    unfolding decode_chunk_into_strict_def prod.case assms(1) and_then.simps fst_conv snd_conv
      nibble_corrected(1) [OF nibbles_of_byte(1) assms(3)]
      nibble_corrected(1) [OF nibbles_of_byte(2) assms(4)] nibbles_of_byte(3)
    using assms(2) by simp
  show "decode_chunk (obs, out') (c1, c2) = Ok (obs', out' @ [b])"
    unfolding decode_chunk_def prod.case assms(1) and_then.simps fst_conv snd_conv
      nibble_corrected(1) [OF nibbles_of_byte(1) assms(3)]
      nibble_corrected(1) [OF nibbles_of_byte(2) assms(4)] nibbles_of_byte(3) by simp
qed

lemma decode_block_into_received:
  assumes "bs \<noteq> []" and "received_block (concat (map code_pair bs)) got" and "length bs \<le> length out"
  shows "decode_block_into got out = Ok (bs @ drop (length bs) out, length bs)"
    and "decode_block_into_strict got out = Ok (bs @ drop (length bs) out, length bs)"
proof -
  have len: "length got = 2 * length bs" by (rule length_received_block [OF assms(2)])
  have ne: "got \<noteq> []" "0 < length bs" using len assms(1) by auto
  obtain obs where o: "observer_new (length bs) = Ok obs" "budget obs (length bs)"
    by (rule observer_new_budget [OF ne(2)])
  show "decode_block_into got out = Ok (bs @ drop (length bs) out, length bs)"
    using decode_loop [where f = decode_chunk_into, OF decode_chunk_into_step(1) assms(2) o(2), of 0 out] assms(3) ne o len
    by (auto simp: decode_block_into_def is_multiple_of_def)
  show "decode_block_into_strict got out = Ok (bs @ drop (length bs) out, length bs)"
    using decode_loop [where f = decode_chunk_into_strict, OF decode_chunk_into_step(2) assms(2) o(2), of 0 out] assms(3) ne o len
    by (auto simp: decode_block_into_strict_def is_multiple_of_def)
qed

lemma decode_block_received:
  assumes "bs \<noteq> []" and "received_block (concat (map code_pair bs)) got"
  shows "decode_block got = Ok bs"
proof -
  have len: "length got = 2 * length bs" by (rule length_received_block [OF assms(2)])
  have ne: "got \<noteq> []" "0 < length bs" using len assms(1) by auto
  obtain obs where o: "observer_new (length bs) = Ok obs" "budget obs (length bs)"
    by (rule observer_new_budget [OF ne(2)])
  have "\<exists>obs'. fold_outcome decode_chunk (obs, out) (chunks2 got) = Ok (obs', out @ bs)" for out
    using assms(2) o(2)
  proof (induction bs arbitrary: got obs out)
    case Nil
    then show ?case by (simp add: received_block_def)
  next
    case (Cons b bs)
    from Cons.prems(1) obtain c1 c2 rest where g: "got = c1 # c2 # rest"
      and c: "at_most_one_flip (ucast (hamming74 (ucast (drop_bit 4 b AND 0x0f)) AND 0x7f)) c1"
        "at_most_one_flip (ucast (hamming74 (ucast (b AND 0x0f)) AND 0x7f)) c2"
      and r: "received_block (concat (map code_pair bs)) rest" by (rule received_block_Cons)
    have "budget obs (Suc (length bs))" using Cons.prems(2) by simp
    then obtain obs' where t: "tick_q obs = Ok obs'" "budget obs' (length bs)" by (rule budget_tick)
    from Cons.IH [OF r t(2), of "out @ [b]"] obtain obs'' where
      "fold_outcome decode_chunk (obs', out @ [b]) (chunks2 rest) = Ok (obs'', (out @ [b]) @ bs)" by blast
    then show ?case using decode_chunk_into_step(3) [OF t(1) _ c, of 0 "[0]" out] by (simp add: g)
  qed
  from this [of "[]"] obtain obs' where "fold_outcome decode_chunk (obs, []) (chunks2 got) = Ok (obs', bs)" by auto
  then show ?thesis using ne o len by (simp add: decode_block_def is_multiple_of_def)
qed

lemma received_refl: "received_block sent sent"
  unfolding received_block_def by (intro list.rel_refl) (simp add: at_most_one_flip_def)

section \<open>Words the code cannot reject and widths it cannot hold\<close>

lemma strict_decoder_total_4:
  "\<exists>nib. decode_bits_strict w 4 = Ok nib"
proof -
  have perfect: "(4::nat) + 3 = 2 ^ 3 - 1" by (simp add: eval_nat_numeral)
  have "parity_bit_count 4 = Ok 3" using supported_4 by (simp add: supported_def)
  then have same: "decode_bits_strict w 4 = decode_bits_strict (w AND data_mask (4 + 3)) 4"
    by (simp only: decode_bits_strict_def and_then.simps Let_def and.assoc and.idem)
  have "\<forall>k \<ge> 4 + 3. \<not> bit (w AND data_mask (4 + 3)) k" by (auto simp: bit_and_iff bit_data_mask)
  then obtain data cw e where "is_codeword 4 3 data cw" "\<forall>k \<ge> 4. \<not> bit data k" "e \<le> 4 + 3"
    "w AND data_mask (4 + 3) = flip_bit_at e cw"
    by (rule perfect_code_covers [OF supported_4 perfect])
  then show ?thesis
    using strict_single_error [OF supported_4] by (auto simp: same)
qed

lemma encode_bits_overflows:
  assumes "58 \<le> n" and "n \<le> 247" and "data AND NOT (data_mask n) = 0"
  shows "encode_bits data n = Panic"
proof -
  have rng: "in_hamming_range n"
    using assms by (simp add: in_hamming_range_def HAMMING_MIN_DATA_BITS_def HAMMING_MAX_DATA_BITS_def)
  then obtain r where r: "parity_bit_count n = Ok r" and m: "65 \<le> n + r"
    using parity_bit_count_range assms(1) by metis
  obtain cw where cw: "fold_outcome (place_bit data) (0, 0) [1..<64 + 1] = Ok (cw, data_count 64)"
    using place_bits [of 64 data] by auto
  have dc: "data_count 64 = 57" using data_count_codeword [of 7 57] by simp
  have "\<not> is_parity_position 65" by (simp add: is_parity_position_def)
  then have "place_bit data (cw, 57) 65 = Panic" by (simp add: place_bit_def shr_def shl_def)
  moreover have "[1..<n + r + 1] = [1..<64 + 1] @ 65 # [66..<n + r + 1]"
    using m upt_add_eq_append [of 1 65 "n + r - 64"] upt_conv_Cons [of 65 "n + r + 1"] by simp
  ultimately have "fold_outcome (place_bit data) (0, 0) [1..<n + r + 1] = Panic"
    using cw unfolding dc by (simp only: fold_outcome_append and_then.simps fold_outcome.simps)
  then show ?thesis
    using rng assms(3) unfolding encode_bits_def r and_then.simps by simp
qed

lemma decode_block_total:
  assumes "got \<noteq> []" and "even (length got)"
  shows "\<exists>bs. decode_block got = Ok bs"
proof -
  have loop: "\<exists>s'. fold_outcome decode_chunk (obs, out) ps = Ok s'"
    if "budget obs (length ps)" for obs out ps
    using that
  proof (induction ps arbitrary: obs out)
    case (Cons c ps)
    then have "budget obs (Suc (length ps))" by simp
    then obtain obs' where t: "tick_q obs = Ok obs'" "budget obs' (length ps)" by (rule budget_tick)
    obtain hi lo where "decode_bits_strict (ucast (fst c AND 0x7f)) 4 = Ok hi"
      "decode_bits_strict (ucast (snd c AND 0x7f)) 4 = Ok lo" using strict_decoder_total_4 by blast
    then have "decode_chunk (obs, out) c = Ok (obs', out @ [join_nibbles hi lo])"
      unfolding decode_chunk_def prod.case t(1) and_then.simps by (simp only: and_then.simps)
    with Cons.IH [OF t(2)] show ?case by simp
  qed simp
  have len: "length (chunks2 xs) = length xs div 2" for xs :: bytes
    by (induction xs rule: chunks2.induct) auto
  have "0 < length got div 2" using assms by (cases got) auto
  then obtain obs where o: "observer_new (length got div 2) = Ok obs" "budget obs (length got div 2)"
    by (rule observer_new_budget)
  then show ?thesis
    using loop [of obs "chunks2 got" "[]"] assms by (auto simp: decode_block_def len is_multiple_of_def)
qed

section \<open>Properties\<close>

text \<open>
  C26. The bit codec corrects every single-bit error at every width whose codeword fits a \<^verbatim>\<open>u64\<close>: for 4
  to 57 data bits the encoder succeeds, and after flipping no bit (\<open>e = 0\<close>) or the bit at any
  position \<open>e\<close> of the codeword, the decoder returns the data with syndrome \<open>e\<close> and the strict
  decoder returns the data.
\<close>

theorem hamming_corrects_single_errors:
  assumes "4 \<le> n" and "n \<le> 57" and "data AND NOT (data_mask n) = 0"
  shows "\<exists>cw len. encode_bits data n = Ok cw \<and> codeword_bit_length n = Ok len \<and>
     (\<forall>e \<le> len. decode_bits (flip_bit_at e cw) n = Ok (data, of_nat e) \<and>
                decode_bits_strict (flip_bit_at e cw) n = Ok data)"
proof -
  obtain r where r: "supported n r" using supported_exists [OF assms(1,2)] ..
  have "\<not> bit data k" if "n \<le> k" for k
  proof
    assume "bit data k"
    moreover from this have "k < 64" by (auto dest: bit_imp_le_length)
    ultimately have "bit (data AND NOT (data_mask n)) k"
      using that by (simp add: bit_and_iff bit_not_iff bit_data_mask)
    then show False unfolding assms(3) by simp
  qed
  then have data: "\<forall>k \<ge> n. \<not> bit data k" by blast
  then obtain cw where cw: "encode_bits data n = Ok cw" "is_codeword n r data cw"
    by (rule encode_bits_supported [OF r])
  have "codeword_bit_length n = Ok (n + r)"
    using r by (simp add: codeword_bit_length_def supported_def USIZE_MAX_def)
  moreover have "decode_bits (flip_bit_at e cw) n = Ok (data, of_nat e)" if "e \<le> n + r" for e
    using codeword_single_error [of n r data cw e] r cw(2) data that by (simp add: supported_def)
  ultimately show ?thesis using cw(1) strict_single_error [OF r cw(2) data] by blast
qed

theorem hamming_corrects_single_errors_witness:
  "\<exists>cw len. encode_bits 0xB 4 = Ok cw \<and> codeword_bit_length 4 = Ok len \<and>
     (\<forall>e \<le> len. decode_bits (flip_bit_at e cw) 4 = Ok (0xB, of_nat e) \<and>
                decode_bits_strict (flip_bit_at e cw) 4 = Ok 0xB)"
  by (rule hamming_corrects_single_errors) (simp_all add: data_mask_def)

text \<open>
  A block survives one flipped bit in every byte: what \<open>encode_block\<close> sent and what was received
  may differ in one bit per byte, and \<open>decode_block\<close> still returns the block, and the two decoders
  into a caller's buffer write it to the front of the buffer and leave the rest alone.
\<close>

theorem block_survives_single_bit_rot:
  assumes "encode_block data = Ok sent" and "received_block sent got" and "length data \<le> length out"
  shows "decode_block got = Ok data \<and>
     decode_block_into got out = Ok (data @ drop (length data) out, length data) \<and>
     decode_block_into_strict got out = Ok (data @ drop (length data) out, length data)"
proof -
  have ne: "data \<noteq> []" using assms(1) by (auto simp: encode_block_def)
  then have "received_block (concat (map code_pair data)) got"
    using assms(1,2) encode_block_pairs [OF ne] by simp
  then show ?thesis using decode_block_received decode_block_into_received assms(3) ne by blast
qed

theorem block_survives_single_bit_rot_witness:
  "decode_block (concat (map code_pair [0xAB, 0x01])) = Ok [0xAB, 0x01]"
  using block_survives_single_bit_rot
    [OF encode_block_pairs received_refl, of "[0xAB, 0x01]" "[0, 0]"] by simp

text \<open>
  Hamming(7,4) is a perfect code, so the strict block decoder never rejects: every non-empty
  block of even length decodes to some bytes, whatever number of bits were flipped. Multi-bit rot is
  miscorrected, not reported as \<open>CorruptMetadata\<close>.
\<close>

theorem strict_block_decoder_rejects_nothing:
  assumes "got \<noteq> []" and "even (length got)"
  shows "\<exists>bs. decode_block got = Ok bs"
  by (rule decode_block_total [OF assms])

theorem strict_block_decoder_rejects_nothing_witness:
  "\<exists>bs. decode_block [0x03, 0x60] = Ok bs"
  using strict_block_decoder_rejects_nothing [of "[0x03, 0x60]"] by simp

text \<open>
  The declared maximum of 247 data bits is out of reach of a \<^verbatim>\<open>u64\<close> codeword: for every width from
  58 to 247, \<open>encode_bits\<close> on data within the mask stops with a shift overflow.
\<close>

theorem encoder_overflows_beyond_57_bits:
  assumes "58 \<le> n" and "n \<le> HAMMING_MAX_DATA_BITS" and "data AND NOT (data_mask n) = 0"
  shows "encode_bits data n = Panic"
  using encode_bits_overflows assms by (simp add: HAMMING_MAX_DATA_BITS_def)

theorem encoder_overflows_beyond_57_bits_witness: "encode_bits 1 64 = Panic"
  using encoder_overflows_beyond_57_bits [of 64 1] by (simp add: HAMMING_MAX_DATA_BITS_def data_mask_def)

end
