(* ===== verification/Boot_Pipeline.thy ===== *)
theory Boot_Pipeline
  imports Sidecar Hamming
begin

text \<open>
  The validation of a boot image against its sidecar, in the three forms the repository has: the
  UEFI pipeline (\<^verbatim>\<open>dfim_windows_uefi/src/manifest.rs\<close> and \<^verbatim>\<open>pipeline.rs\<close>), the fixed-buffer validator
  of \<^verbatim>\<open>dfim_core_engine/src/boot_validate.rs\<close>, and its kernel variant, which works on a per-CPU scratch
  record.

  Provisioning and validation compose: the sidecar built for an image parses and validates that
  image, also after one flipped bit in every byte of its error-correcting backup; and an image
  accepted under a trusted root is the provisioned image up to zero padding, or the accepted proofs
  yield a SHA-256 collision. The compact and kernel validators are shown equivalent to the pipeline.
\<close>

section \<open>The UEFI pipeline\<close>

record boot_manifest =
  bm_merkle_root :: bytes
  bm_block_size :: u32
  bm_block_count :: u32
  bm_fec_backup :: bytes
  bm_proofs :: "merkle_proof list"

definition parse_boot_manifest :: "bytes \<Rightarrow> boot_manifest dfim_result" where
  "parse_boot_manifest data =
     and_then (parse_block_stream data) (\<lambda>parsed.
     Ok \<lparr>bm_merkle_root = merkle_root parsed, bm_block_size = block_size parsed,
         bm_block_count = block_count parsed, bm_fec_backup = fec_backup parsed,
         bm_proofs = proofs parsed\<rparr>)"

definition image_block :: "bytes \<Rightarrow> nat \<Rightarrow> nat \<Rightarrow> bytes dfim_result" where
  "image_block img bsize idx =
     (let start = idx * bsize; stop = min (start + bsize) (length img)
      in and_then (sub_slice img start stop) (\<lambda>s. Ok (put (replicate bsize 0) 0 s)))"

definition partition_image_blocks :: "bytes \<Rightarrow> nat \<Rightarrow> bytes list dfim_result" where
  "partition_image_blocks img bsize =
     and_then (validate_image_byte_len (length img)) (\<lambda>_.
     if bsize \<noteq> DFIM_BLOCK_SIZE then Err InvalidParameter
     else
       let bcount = div_ceil (length img) bsize in
       and_then (validate_block_count (of_nat bcount)) (\<lambda>_.
       fold_outcome (\<lambda>blocks idx. and_then (image_block img bsize idx) (\<lambda>b. Ok (blocks @ [b])))
         [] [0..<bcount]))"

definition metadata_bytes :: "bytes \<Rightarrow> u32 \<Rightarrow> bytes" where
  "metadata_bytes root bcount =
     put (put (put (replicate 40 0) 0 root) 32 (to_le_bytes 4 (of_nat DFIM_BLOCK_SIZE :: u32)))
       36 (to_le_bytes 4 bcount)"

definition build_boot_sidecar :: "hash_prims \<Rightarrow> bytes \<Rightarrow> bytes dfim_result" where
  "build_boot_sidecar C img =
     and_then (validate_image_byte_len (length img)) (\<lambda>_.
     and_then (partition_image_blocks img DFIM_BLOCK_SIZE) (\<lambda>blocks.
     let bcount = of_nat (length blocks) :: u32 in
     and_then (build C blocks) (\<lambda>tree.
     let root = tree_root tree in
     and_then (encode_block (metadata_bytes root bcount)) (\<lambda>fec.
     and_then (fold_outcome (\<lambda>ps i. and_then (prove tree i) (\<lambda>p. Ok (ps @ [p]))) []
                 [0..<length blocks]) (\<lambda>ps.
     serialize_boot_sidecar root (of_nat DFIM_BLOCK_SIZE) bcount fec ps)))))"

record validated_boot_image =
  vb_payload :: bytes
  vb_merkle_root :: bytes
  vb_fec_corrected :: bool
  vb_blocks_verified :: u32

definition fec_recover_metadata :: "bytes \<Rightarrow> (bytes \<times> u32 \<times> u32) dfim_result" where
  "fec_recover_metadata fec =
     and_then (decode_block fec) (\<lambda>decoded.
     if length decoded < 40 then Err BufferTooShort
     else
       and_then (sub_slice decoded 0 SHA256_LEN) (\<lambda>root.
       and_then (sub_slice decoded 32 36) (\<lambda>bs.
       and_then (sub_slice decoded 36 40) (\<lambda>bc.
       Ok (root, from_le_bytes bs, from_le_bytes bc)))))"

definition resolve_metadata ::
  "hash_prims \<Rightarrow> boot_manifest \<Rightarrow> (bytes \<times> u32 \<times> u32 \<times> bool) dfim_result" where
  "resolve_metadata C m =
     and_then (fec_recover_metadata (bm_fec_backup m)) (\<lambda>(fec_root, fec_size, fec_count).
     if unat fec_size \<noteq> DFIM_BLOCK_SIZE then Err InvalidParameter
     else if fec_count = 0 then Err InvalidParameter
     else
       and_then (validate_block_count fec_count) (\<lambda>_.
       if constant_time_hash_eq C (bm_merkle_root m) fec_root \<and> bm_block_size m = fec_size \<and>
          bm_block_count m = fec_count
       then Ok (fec_root, fec_size, fec_count, False)
       else Err CorruptMetadata))"

text \<open>\<^verbatim>\<open>pipeline.rs\<close> has its own copy of the partitioning loop.\<close>

definition partition_blocks :: "bytes \<Rightarrow> nat \<Rightarrow> bytes list dfim_result" where
  "partition_blocks img bsize =
     and_then (validate_image_byte_len (length img)) (\<lambda>_.
     if bsize \<noteq> DFIM_BLOCK_SIZE then Err InvalidParameter
     else
       let bcount = div_ceil (length img) bsize in
       and_then (validate_block_count (of_nat bcount)) (\<lambda>_.
       fold_outcome (\<lambda>blocks idx. and_then (image_block img bsize idx) (\<lambda>b. Ok (blocks @ [b])))
         [] [0..<bcount]))"

definition verify_blocks ::
  "hash_prims \<Rightarrow> bytes \<Rightarrow> merkle_proof list \<Rightarrow> bytes list \<Rightarrow> unit dfim_result" where
  "verify_blocks C root ps blocks =
     fold_outcome (\<lambda>_ (index, block).
         and_then (index_at ps index) (\<lambda>p.
         and_then (verify_proof C root block index p) (\<lambda>ok.
         if \<not> ok then Err IntegrityFailure else Ok ())))
       () (enumerate 0 blocks)"

definition validate_boot_image ::
  "hash_prims \<Rightarrow> bytes \<Rightarrow> boot_manifest \<Rightarrow> validated_boot_image dfim_result" where
  "validate_boot_image C img m =
     and_then (validate_image_byte_len (length img)) (\<lambda>_.
     and_then (resolve_metadata C m) (\<lambda>(root, bsize, bcount, fec_corrected).
     if length (bm_proofs m) \<noteq> unat bcount then Err IntegrityFailure
     else
       and_then (partition_blocks img (unat bsize)) (\<lambda>blocks.
       if of_nat (length blocks) \<noteq> bcount then Err IntegrityFailure
       else
         and_then (verify_blocks C root (bm_proofs m) blocks) (\<lambda>_.
         Ok \<lparr>vb_payload = img, vb_merkle_root = root, vb_fec_corrected = fec_corrected,
             vb_blocks_verified = bcount\<rparr>))))"

section \<open>The fixed-buffer validator\<close>

record compact_proof =
  step_count :: u8
  siblings :: "bytes list"

record compact_manifest =
  cm_merkle_root :: bytes
  cm_block_size :: u32
  cm_block_count :: u32
  cm_fec_len :: u16
  cm_fec_backup :: bytes

definition verify_block :: "hash_prims \<Rightarrow> compact_proof \<Rightarrow> bytes \<Rightarrow> bytes \<Rightarrow> nat \<Rightarrow> bool dfim_result" where
  "verify_block C p root block index =
     (if unat (step_count p) > MAX_PROOF_STEPS then Err InvalidParameter
      else
        and_then (sub_slice (siblings p) 0 (unat (step_count p))) (\<lambda>sibs.
        case foldl (\<lambda>(h, idx) s.
                 (if is_multiple_of idx 2 then parent_hash C h s else parent_hash C s h, idx div 2))
               (sha256_digest C block, index) sibs of
          (h, _) \<Rightarrow> Ok (constant_time_hash_eq C h root)))"

definition fec_slice :: "compact_manifest \<Rightarrow> bytes dfim_result" where
  "fec_slice m =
     (if unat (cm_fec_len m) > MAX_FEC_BACKUP then Ok []
      else sub_slice (cm_fec_backup m) 0 (unat (cm_fec_len m)))"

definition resolve_metadata_into ::
  "hash_prims \<Rightarrow> compact_manifest \<Rightarrow> bytes \<Rightarrow> (bytes \<times> u32 \<times> u32) dfim_result" where
  "resolve_metadata_into C m buf =
     and_then (fec_slice m) (\<lambda>fec.
     if fec = [] \<or> \<not> is_multiple_of (length fec) 2 then Err InvalidParameter
     else
       and_then (decode_block_into_strict fec buf) (\<lambda>(decoded, decoded_len).
       if decoded_len < 40 then Err BufferTooShort
       else
         and_then (sub_slice decoded 0 SHA256_LEN) (\<lambda>fec_root.
         and_then (sub_slice decoded 32 36) (\<lambda>bs.
         and_then (sub_slice decoded 36 40) (\<lambda>bc.
         let bsize = from_le_bytes bs; bcount = from_le_bytes bc in
         if unat bsize \<noteq> DFIM_BLOCK_SIZE \<or> bcount = 0 then Err InvalidParameter
         else
           and_then (validate_block_count bcount) (\<lambda>_.
           if constant_time_hash_eq C (cm_merkle_root m) fec_root \<and> cm_block_size m = bsize \<and>
              cm_block_count m = bcount
           then Ok (fec_root, bsize, bcount)
           else Err CorruptMetadata))))))"

definition resolve_metadata_compact ::
  "hash_prims \<Rightarrow> compact_manifest \<Rightarrow> (bytes \<times> u32 \<times> u32) dfim_result" where
  "resolve_metadata_compact C m = resolve_metadata_into C m (replicate 64 0)"

definition validate_block_compact ::
  "hash_prims \<Rightarrow> bytes \<Rightarrow> bytes \<Rightarrow> nat \<Rightarrow> compact_proof \<Rightarrow> unit dfim_result" where
  "validate_block_compact C root block index p =
     (if length block \<noteq> DFIM_BLOCK_SIZE then Err InvalidParameter
      else
        and_then (verify_block C p root block index) (\<lambda>ok.
        if ok then Ok () else Err IntegrityFailure))"

definition validate_boot_image_compact ::
  "hash_prims \<Rightarrow> bytes \<Rightarrow> compact_manifest \<Rightarrow> compact_proof list \<Rightarrow> unit dfim_result" where
  "validate_boot_image_compact C img m ps =
     and_then (validate_image_byte_len (length img)) (\<lambda>_.
     and_then (resolve_metadata_compact C m) (\<lambda>(root, bsize, bcount).
     if unat bsize \<noteq> DFIM_BLOCK_SIZE then Err InvalidParameter
     else if length ps \<noteq> unat bcount then Err IntegrityFailure
     else
       and_then (validate_block_count bcount) (\<lambda>_.
       if of_nat (div_ceil (length img) DFIM_BLOCK_SIZE) \<noteq> bcount then Err IntegrityFailure
       else
         fold_outcome (\<lambda>_ (index, p).
             and_then (assert_block_index index bcount) (\<lambda>_.
             and_then (image_block img DFIM_BLOCK_SIZE index) (\<lambda>block.
             validate_block_compact C root block index p)))
           () (take (unat bcount) (enumerate 0 ps)))))"

section \<open>The kernel validator\<close>

record bpf_validate_scratch =
  sc_block :: bytes
  sc_sha256 :: sha256_workspace
  sc_fec_decoded :: bytes
  sc_fec_len :: nat
  sc_root :: bytes
  sc_index :: nat
  sc_block_count :: u32
  sc_proof :: compact_proof

text \<open>
  Both entry points update the scratch record in place; the record is returned beside the result,
  with the fields written before an early return.
\<close>

definition resolve_metadata_from_scratch ::
  "hash_prims \<Rightarrow> bpf_validate_scratch \<Rightarrow> compact_manifest \<Rightarrow>
   bpf_validate_scratch \<times> unit dfim_result" where
  "resolve_metadata_from_scratch C sc m =
     (case fec_slice m of
        Panic \<Rightarrow> (sc, Panic) | Err e \<Rightarrow> (sc, Err e)
      | Ok fec \<Rightarrow>
        if fec = [] \<or> \<not> is_multiple_of (length fec) 2 then (sc, Err InvalidParameter)
        else
          let sc = sc\<lparr>sc_fec_len := 0\<rparr> in
          case decode_block_into_strict fec (sc_fec_decoded sc) of
            Panic \<Rightarrow> (sc, Panic) | Err e \<Rightarrow> (sc, Err e)
          | Ok (decoded, n) \<Rightarrow>
            let sc = sc\<lparr>sc_fec_decoded := decoded, sc_fec_len := n\<rparr> in
            if n < 40 then (sc, Err BufferTooShort)
            else
              let sc = sc\<lparr>sc_root := take 32 decoded\<rparr>;
                  bsize = from_le_bytes (take 4 (drop 32 decoded)) :: u32;
                  sc = sc\<lparr>sc_block_count := from_le_bytes (take 4 (drop 36 decoded))\<rparr>
              in if unat bsize \<noteq> DFIM_BLOCK_SIZE \<or> sc_block_count sc = 0 then (sc, Err InvalidParameter)
                 else
                   (sc, and_then (validate_block_count (sc_block_count sc)) (\<lambda>_.
                        if constant_time_hash_eq C (cm_merkle_root m) (sc_root sc) \<and>
                           cm_block_size m = bsize \<and> cm_block_count m = sc_block_count sc
                        then Ok () else Err CorruptMetadata)))"

definition scratch_climb ::
  "bytes \<times> nat \<times> sha256_workspace \<Rightarrow> bytes \<Rightarrow> bytes \<times> nat \<times> sha256_workspace" where
  "scratch_climb s sib =
     (case s of (h, idx, ws) \<Rightarrow>
        case (if is_multiple_of idx 2 then bpf_parent_hash h sib ws else bpf_parent_hash sib h ws) of
          (h, ws) \<Rightarrow> (h, idx div 2, ws))"

definition validate_block_from_scratch ::
  "hash_prims \<Rightarrow> bpf_validate_scratch \<Rightarrow> bpf_validate_scratch \<times> unit dfim_result" where
  "validate_block_from_scratch C sc =
     (let p = sc_proof sc; n = unat (step_count p) in
      if n > MAX_PROOF_STEPS then (sc, Err InvalidParameter)
      else
        case bpf_sha256_digest (sc_block sc) (sc_sha256 sc) of (h, ws) \<Rightarrow>
        case sub_slice (siblings p) 0 n of
          Panic \<Rightarrow> (sc\<lparr>sc_sha256 := ws\<rparr>, Panic) | Err e \<Rightarrow> (sc\<lparr>sc_sha256 := ws\<rparr>, Err e)
        | Ok sibs \<Rightarrow>
          case foldl scratch_climb (h, sc_index sc, ws) sibs of (h, idx, ws) \<Rightarrow>
            (sc\<lparr>sc_sha256 := ws\<rparr>,
             if constant_time_hash_eq C h (sc_root sc) then Ok () else Err IntegrityFailure))"

section \<open>Images and their blocks\<close>

definition block_of :: "bytes \<Rightarrow> nat \<Rightarrow> bytes" where
  "block_of img i =
     (let s = take 4096 (drop (i * 4096) img) in s @ replicate (4096 - length s) 0)"

definition image_blocks :: "bytes \<Rightarrow> bytes list" where
  "image_blocks img = map (block_of img) [0..<div_ceil (length img) 4096]"

text \<open>The image with its zero-padded tail.\<close>

definition pad_image :: "bytes \<Rightarrow> bytes" where
  "pad_image img = img @ replicate (div_ceil (length img) 4096 * 4096 - length img) 0"

lemma length_block_of [simp]: "length (block_of img i) = 4096"
  by (simp add: block_of_def Let_def)

lemma length_image_blocks [simp]: "length (image_blocks img) = div_ceil (length img) 4096"
  by (simp add: image_blocks_def)

lemma block_start_below: "i < div_ceil n 4096 \<Longrightarrow> i * 4096 < n"
  using div_ceil_le_iff [of 4096 n i] by (simp add: not_le [symmetric])

lemma image_block_Ok:
  assumes "i < div_ceil (length img) 4096"
  shows "image_block img 4096 i = Ok (block_of img i)"
proof -
  have start: "i * 4096 < length img" by (rule block_start_below [OF assms])
  then have "min (i * 4096 + 4096) (length img) - i * 4096 = min 4096 (length img - i * 4096)" by simp
  then have "take (min (i * 4096 + 4096) (length img) - i * 4096) (drop (i * 4096) img) =
      take 4096 (drop (i * 4096) img)"
    by (simp add: min_def)
  then show ?thesis
    using start by (simp add: image_block_def Let_def sub_slice_def put_def block_of_def)
qed

lemma collect_blocks:
  assumes "n \<le> div_ceil (length img) 4096"
  shows "fold_outcome (\<lambda>blocks idx. and_then (image_block img 4096 idx) (\<lambda>b. Ok (blocks @ [b]))) [] [0..<n] =
     (Ok (map (block_of img) [0..<n]) :: bytes list dfim_result)"
  using assms by (induction n) (simp_all add: fold_outcome_append image_block_Ok)

lemma partition_Ok:
  assumes "0 < length img" and "length img \<le> 262144"
  shows "partition_image_blocks img 4096 = Ok (image_blocks img)"
    and "partition_blocks img 4096 = Ok (image_blocks img)"
    and "0 < div_ceil (length img) 4096" and "div_ceil (length img) 4096 \<le> 64"
proof -
  show c: "0 < div_ceil (length img) 4096" "div_ceil (length img) 4096 \<le> 64"
    using assms div_ceil_pos [of 4096 "length img"] div_ceil_le_iff [of 4096 "length img" 64] by simp_all
  have u: "unat (of_nat (div_ceil (length img) 4096) :: u32) = div_ceil (length img) 4096"
    using c by (intro unat_of_nat_u32) simp
  then have v: "validate_block_count (of_nat (div_ceil (length img) 4096)) = Ok ()"
    using c by (auto simp: unat_eq_zero [symmetric])
  have l: "validate_image_byte_len (length img) = Ok ()" using assms by simp
  show "partition_image_blocks img 4096 = Ok (image_blocks img)"
    and "partition_blocks img 4096 = Ok (image_blocks img)"
    by (simp_all only: partition_image_blocks_def partition_blocks_def l v and_then.simps DFIM_BLOCK_SIZE_def
        Let_def collect_blocks [OF order_refl] image_blocks_def simp_thms if_False)
qed

lemma block_of_pad_image:
  assumes "i < div_ceil (length img) 4096"
  shows "block_of img i = take 4096 (drop (i * 4096) (pad_image img))"
proof -
  let ?n = "div_ceil (length img) 4096"
  have start: "i * 4096 < length img" by (rule block_start_below [OF assms])
  have "length img \<le> ?n * 4096" using div_ceil_bounds(1) [of 4096 "length img"] by simp
  moreover have "(i + 1) * 4096 \<le> ?n * 4096" using assms by (intro mult_le_mono1) simp
  ultimately have "min (4096 - (length img - i * 4096)) (?n * 4096 - length img) = 4096 - (length img - i * 4096)"
    using start by auto
  then show ?thesis
    using start by (simp add: block_of_def pad_image_def Let_def min_def)
qed

lemma concat_take_chunks:
  "n * k \<le> length xs \<Longrightarrow> concat (map (\<lambda>i. take k (drop (i * k) xs)) [0..<n]) = take (n * k) xs"
proof (induction n)
  case (Suc n)
  have "take (Suc n * k) xs = take (n * k) xs @ take k (drop (n * k) xs)"
    using take_split_add [of "n * k" k xs] by (simp add: add.commute)
  then show ?case using Suc by simp
qed simp

lemma concat_image_blocks: "concat (image_blocks img) = pad_image img"
proof -
  let ?n = "div_ceil (length img) 4096"
  have len: "length (pad_image img) = ?n * 4096"
    using div_ceil_bounds(1) [of 4096 "length img"] by (simp add: pad_image_def)
  have "image_blocks img = map (\<lambda>i. take 4096 (drop (i * 4096) (pad_image img))) [0..<?n]"
    by (simp add: image_blocks_def block_of_pad_image)
  then show ?thesis using concat_take_chunks [of ?n 4096 "pad_image img"] len by simp
qed

section \<open>Provisioned manifests\<close>

definition sidecar_manifest :: "hash_prims \<Rightarrow> bytes \<Rightarrow> block_stream_manifest" where
  "sidecar_manifest C img =
     (let bl = image_blocks img; root = tree_root (merkle_spec C bl); n = of_nat (length bl)
      in \<lparr>merkle_root = root, block_size = 4096, block_count = n,
          fec_backup = concat (map code_pair (root @ to_le_bytes 4 (4096 :: u32) @ to_le_bytes 4 n)),
          proofs = map (\<lambda>i. \<lparr>steps = honest_path C (map (sha256 C) bl) i 0\<rparr>) [0..<length bl]\<rparr>)"

definition to_boot_manifest :: "block_stream_manifest \<Rightarrow> boot_manifest" where
  "to_boot_manifest m =
     \<lparr>bm_merkle_root = merkle_root m, bm_block_size = block_size m, bm_block_count = block_count m,
      bm_fec_backup = fec_backup m, bm_proofs = proofs m\<rparr>"

lemma parse_boot_manifest_eq:
  "parse_boot_manifest data = and_then (parse_block_stream data) (\<lambda>m. Ok (to_boot_manifest m))"
  by (simp add: parse_boot_manifest_def to_boot_manifest_def)

lemma metadata_bytes_concat:
  "length root = 32 \<Longrightarrow>
   metadata_bytes root n = root @ to_le_bytes 4 (4096 :: u32) @ to_le_bytes 4 n"
  by (simp add: metadata_bytes_def put_def DFIM_BLOCK_SIZE_def)

lemma honest_path_valid:
  assumes C: "hash_contract C" and i: "i < length leaves" and n: "length leaves \<le> 64"
  shows "valid_proof \<lparr>steps = honest_path C (map (sha256 C) leaves) i 0\<rparr>"
proof -
  let ?hs = "map (sha256 C) leaves"
  have "\<not> 2 ^ 6 < length leaves" using n by simp
  then have "depth (length leaves) \<le> 6" using pow2_less_iff_depth [of 6 "length leaves"] by simp
  moreover have "length (merkle_node C ?hs j (sibling_index (i div 2 ^ j) (layer_width (length ?hs) j))) = 32" for j
    by (intro length_merkle_node C sibling_index_below index_below_width)
      (use i in \<open>auto simp: hash_contract.sha256_len [OF C]\<close>)
  ultimately show ?thesis by (auto simp: valid_proof_def honest_path_def)
qed

lemma sidecar_manifest_valid:
  assumes C: "hash_contract C" and img: "0 < length img" "length img \<le> 262144"
  shows "valid_manifest (sidecar_manifest C img)"
proof -
  note n = partition_Ok(3,4) [OF img]
  have u: "unat (of_nat (div_ceil (length img) 4096) :: u32) = div_ceil (length img) 4096"
    using n by (intro unat_of_nat_u32) simp
  have ne: "image_blocks img \<noteq> []" using n by (simp add: image_blocks_def)
  have r: "length (tree_root (merkle_spec C (image_blocks img))) = 32" by (rule length_tree_root [OF C ne])
  have fl: "length (concat (map code_pair bs)) = 2 * length bs" for bs
    by (induction bs) (auto simp: code_pair_def)
  show ?thesis
    using n u r fl honest_path_valid [OF C, of _ "image_blocks img"]
    by (auto simp: valid_manifest_def sidecar_manifest_def Let_def unat_eq_zero [symmetric] code_pair_def)
qed

lemma build_boot_sidecar_eq:
  assumes C: "hash_contract C" and img: "0 < length img" "length img \<le> 262144"
  shows "build_boot_sidecar C img = serialize_manifest (sidecar_manifest C img)"
proof -
  let ?bl = "image_blocks img" and ?root = "tree_root (merkle_spec C (image_blocks img))"
  note n = partition_Ok(3,4) [OF img]
  have ne: "?bl \<noteq> []" using n by (simp add: image_blocks_def)
  have r: "length ?root = 32" by (rule length_tree_root [OF C ne])
  have prv: "fold_outcome (\<lambda>ps i. and_then (prove (merkle_spec C ?bl) i) (\<lambda>p. Ok (ps @ [p]))) [] [0..<k] =
      (Ok (map (\<lambda>i. \<lparr>steps = honest_path C (map (sha256 C) ?bl) i 0\<rparr>) [0..<k]) :: merkle_proof list dfim_result)"
    if "k \<le> length ?bl" for k
    using that by (induction k) (simp_all add: fold_outcome_append prove_merkle_spec)
  have enc: "encode_block (metadata_bytes ?root w) =
      Ok (concat (map code_pair (?root @ to_le_bytes 4 (4096 :: u32) @ to_le_bytes 4 w)))" for w
    unfolding metadata_bytes_concat [OF r] using r by (intro encode_block_pairs) auto
  have len: "validate_image_byte_len (length img) = Ok ()" using img by simp
  show ?thesis
    unfolding build_boot_sidecar_def len and_then.simps DFIM_BLOCK_SIZE_def partition_Ok(1) [OF img]
      build_eq_merkle_spec [OF C ne] Let_def enc prv [OF order_refl]
    by (simp add: serialize_manifest_def sidecar_manifest_def Let_def)
qed

section \<open>Validation\<close>

lemma fold_unit_Ok_iff:
  "fold_outcome (\<lambda>_. f) () xs = Ok () \<longleftrightarrow> (\<forall>x \<in> set xs. f x = Ok ())"
  by (induction xs) auto

lemma of_nat_eq_iff_unat: "unat (of_nat n :: u32) = n \<Longrightarrow> of_nat n = w \<longleftrightarrow> unat w = n" for w :: u32
proof
  assume "unat w = n"
  then have "of_nat n = (of_nat (unat w) :: u32)" by simp
  then show "of_nat n = w" by simp
qed simp

lemma ball_enumerate:
  "(\<forall>x \<in> set (enumerate 0 xs). P x) \<longleftrightarrow> (\<forall>i < length xs. P (i, xs ! i))"
  by (fastforce simp: in_set_enumerate_eq)

lemma verify_proof_not_Err: "verify_proof C root d i p \<noteq> Err e" "verify_proof C root d i p \<noteq> Panic"
  by (simp_all add: verify_proof_climb)

lemma verify_blocks_Ok_iff:
  "verify_blocks C root ps blocks = Ok () \<longleftrightarrow>
     (\<forall>i < length blocks. i < length ps \<and> verify_proof C root (blocks ! i) i (ps ! i) = Ok True)"
  unfolding verify_blocks_def fold_unit_Ok_iff ball_enumerate by (auto simp: outcome_simps split: if_splits)

lemma fec_recover_Ok:
  assumes "decode_block fec = Ok (root @ to_le_bytes 4 (bs :: u32) @ to_le_bytes 4 (bc :: u32) @ rest)"
    and "length root = 32"
  shows "fec_recover_metadata fec = Ok (root, bs, bc)"
  using assms by (simp add: fec_recover_metadata_def SHA256_LEN_def sub_slice_def)

lemma resolve_metadata_Ok_iff:
  assumes C: "hash_contract C" and "length (bm_merkle_root m) = 32"
  shows "resolve_metadata C m = Ok (root, bs, bc, corr) \<longleftrightarrow>
     fec_recover_metadata (bm_fec_backup m) = Ok (bm_merkle_root m, bm_block_size m, bm_block_count m) \<and>
     root = bm_merkle_root m \<and> bs = bm_block_size m \<and> bc = bm_block_count m \<and> \<not> corr \<and>
     unat bs = 4096 \<and> bc \<noteq> 0 \<and> unat bc \<le> 64"
proof -
  have len: "length r = 32" if "fec_recover_metadata fec = Ok (r, s, c)" for fec r s c
    using that unfolding fec_recover_metadata_def outcome_simps by (auto simp: SHA256_LEN_def)
  show ?thesis
    using constant_time_hash_eq_iff [OF C assms(2)] len
    unfolding resolve_metadata_def DFIM_BLOCK_SIZE_def
    by (auto simp: outcome_simps split: if_splits prod.splits)
qed

lemma validate_boot_image_Ok_iff:
  assumes C: "hash_contract C" and "length (bm_merkle_root m) = 32"
  shows "validate_boot_image C img m = Ok v \<longleftrightarrow>
     0 < length img \<and> length img \<le> 262144 \<and>
     fec_recover_metadata (bm_fec_backup m) = Ok (bm_merkle_root m, bm_block_size m, bm_block_count m) \<and>
     unat (bm_block_size m) = 4096 \<and> unat (bm_block_count m) = div_ceil (length img) 4096 \<and>
     length (bm_proofs m) = div_ceil (length img) 4096 \<and>
     (\<forall>i < div_ceil (length img) 4096.
        verify_proof C (bm_merkle_root m) (block_of img i) i (bm_proofs m ! i) = Ok True) \<and>
     v = \<lparr>vb_payload = img, vb_merkle_root = bm_merkle_root m, vb_fec_corrected = False,
          vb_blocks_verified = bm_block_count m\<rparr>"
    (is "?L \<longleftrightarrow> ?R")
proof (cases "0 < length img \<and> length img \<le> 262144")
  case False
  then show ?thesis by (auto simp: validate_boot_image_def)
next
  case True
  then have img: "0 < length img" "length img \<le> 262144" by simp_all
  note n = partition_Ok(3,4) [OF img]
  have u: "unat (of_nat (div_ceil (length img) 4096) :: u32) = div_ceil (length img) 4096"
    using n by (intro unat_of_nat_u32) simp
  have cnt: "of_nat (div_ceil (length img) 4096) = (w :: u32) \<longleftrightarrow> unat w = div_ceil (length img) 4096" for w
    using u by (rule of_nat_eq_iff_unat)
  have len: "validate_image_byte_len (length img) = Ok ()" using img by simp
  have vb: "verify_blocks C root ps (image_blocks img) = Ok () \<longleftrightarrow>
      (\<forall>i < div_ceil (length img) 4096. i < length ps \<and> verify_proof C root (block_of img i) i (ps ! i) = Ok True)"
    for root ps by (auto simp: verify_blocks_Ok_iff image_blocks_def)
  show ?thesis
  proof
    assume ?L
    then obtain root bs bc corr where r: "resolve_metadata C m = Ok (root, bs, bc, corr)"
      and l: "length (bm_proofs m) = unat bc"
      and rest: "and_then (partition_blocks img (unat bs)) (\<lambda>blocks.
         if of_nat (length blocks) \<noteq> bc then Err IntegrityFailure
         else and_then (verify_blocks C root (bm_proofs m) blocks) (\<lambda>_.
           Ok \<lparr>vb_payload = img, vb_merkle_root = root, vb_fec_corrected = corr, vb_blocks_verified = bc\<rparr>)) = Ok v"
      unfolding validate_boot_image_def len and_then.simps by (auto simp: outcome_simps split: if_splits)
    note res = r [unfolded resolve_metadata_Ok_iff [OF assms]]
    have "unat bs = 4096" "unat (bm_block_size m) = 4096" using res by blast+
    then show ?R
      using rest l res img n cnt [of bc] unfolding \<open>unat bs = 4096\<close> partition_Ok(2) [OF img] and_then.simps
      by (auto simp: outcome_simps vb split: if_splits)
  next
    assume R: ?R
    then have "resolve_metadata C m = Ok (bm_merkle_root m, bm_block_size m, bm_block_count m, False)"
      using n by (simp add: resolve_metadata_Ok_iff [OF assms]) (auto simp: unat_eq_zero [symmetric])
    moreover have "unat (bm_block_size m) = 4096" using R by simp
    ultimately show ?L
      using R cnt [of "bm_block_count m"] vb
      unfolding validate_boot_image_def len and_then.simps by (simp add: partition_Ok(2) [OF img])
  qed
qed

text \<open>The provisioned manifest validates its image, also with a damaged backup.\<close>

lemma provisioned_image_validates:
  assumes C: "hash_contract C" and img: "0 < length img" "length img \<le> 262144"
    and fec: "received_block (fec_backup (sidecar_manifest C img)) fec"
  shows "validate_boot_image C img ((to_boot_manifest (sidecar_manifest C img))\<lparr>bm_fec_backup := fec\<rparr>) =
     Ok \<lparr>vb_payload = img, vb_merkle_root = tree_root (merkle_spec C (image_blocks img)),
         vb_fec_corrected = False, vb_blocks_verified = of_nat (div_ceil (length img) 4096)\<rparr>"
proof -
  let ?bl = "image_blocks img" and ?root = "tree_root (merkle_spec C (image_blocks img))"
  let ?m = "(to_boot_manifest (sidecar_manifest C img))\<lparr>bm_fec_backup := fec\<rparr>"
  note n = partition_Ok(3,4) [OF img]
  have ne: "?bl \<noteq> []" using n by (simp add: image_blocks_def)
  have r: "length ?root = 32" by (rule length_tree_root [OF C ne])
  have u: "unat (of_nat (div_ceil (length img) 4096) :: u32) = div_ceil (length img) 4096"
    using n by (intro unat_of_nat_u32) simp
  let ?meta = "?root @ to_le_bytes 4 (4096 :: u32) @ to_le_bytes 4 (of_nat (div_ceil (length img) 4096) :: u32)"
  have "decode_block fec = Ok ?meta"
    using fec r by (intro decode_block_received) (auto simp: sidecar_manifest_def Let_def)
  then have rec: "fec_recover_metadata fec = Ok (?root, 4096, of_nat (div_ceil (length img) 4096))"
    using fec_recover_Ok [of fec ?root 4096 _ "[]"] r by simp
  have "verify_proof C ?root (block_of img i) i \<lparr>steps = honest_path C (map (sha256 C) ?bl) i 0\<rparr> = Ok True"
    if "i < div_ceil (length img) 4096" for i
  proof -
    have "?bl ! i = block_of img i" using that by (simp add: image_blocks_def)
    then show ?thesis
      using honest_proof_accepted [OF C, of i ?bl] that r
      by (simp add: verify_proof_climb constant_time_hash_eq_iff [OF C])
  qed
  then show ?thesis
    using validate_boot_image_Ok_iff [OF C, of ?m img] img rec u r
    by (simp add: to_boot_manifest_def sidecar_manifest_def Let_def)
qed

section \<open>Soundness of validation\<close>

primrec first_some :: "'a option list \<Rightarrow> 'a option" where
  "first_some [] = None"
| "first_some (x # xs) = (case x of None \<Rightarrow> first_some xs | Some a \<Rightarrow> Some a)"

lemma first_some_None: "first_some xs = None \<longleftrightarrow> (\<forall>x \<in> set xs. x = None)"
  by (induction xs) (auto split: option.splits)

lemma first_some_Some: "first_some xs = Some a \<Longrightarrow> Some a \<in> set xs"
  by (induction xs) (auto split: option.splits)

definition image_collision ::
  "hash_prims \<Rightarrow> bytes \<Rightarrow> bytes \<Rightarrow> merkle_proof list \<Rightarrow> (bytes \<times> bytes) option" where
  "image_collision C orig img ps =
     first_some (map (\<lambda>i. merkle_collision C (image_blocks orig) i (block_of img i) (ps ! i))
       [0..<length (image_blocks orig)])"

lemma accepted_image_is_original:
  assumes C: "hash_contract C" and orig: "0 < length orig" "length orig \<le> 262144"
    and root: "bm_merkle_root m = tree_root (merkle_spec C (image_blocks orig))"
    and count: "unat (bm_block_count m) = length (image_blocks orig)"
    and sibs: "\<forall>p \<in> set (bm_proofs m). valid_proof p"
    and val: "validate_boot_image C img m = Ok v"
  shows "case image_collision C orig img (bm_proofs m) of
           Some (a, b) \<Rightarrow> a \<noteq> b \<and> sha256 C a = sha256 C b
         | None \<Rightarrow> pad_image img = pad_image orig"
proof -
  let ?bl = "image_blocks orig" and ?n = "div_ceil (length orig) 4096"
  note n = partition_Ok(3,4) [OF orig]
  have ne: "?bl \<noteq> []" using n by (simp add: image_blocks_def)
  have r: "length (bm_merkle_root m) = 32" unfolding root by (rule length_tree_root [OF C ne])
  note v = val [unfolded validate_boot_image_Ok_iff [OF C r]]
  have same: "div_ceil (length img) 4096 = ?n" using v count by simp
  have sound: "case merkle_collision C ?bl i (block_of img i) (bm_proofs m ! i) of
      Some (a, b) \<Rightarrow> collision C a b | None \<Rightarrow> block_of img i = ?bl ! i" if i: "i < ?n" for i
  proof (rule merkle_collision_sound [OF C])
    show "\<forall>st \<in> set (steps (bm_proofs m ! i)). length (sibling st) = 32"
      using sibs v i same by (auto simp: valid_proof_def)
    have "verify_proof C (bm_merkle_root m) (block_of img i) i (bm_proofs m ! i) = Ok True"
      using v i same by simp
    moreover have "length (climb C (leaf_hash C (block_of img i)) i (steps (bm_proofs m ! i))) = 32"
      by (intro length_climb C) (simp add: leaf_hash_def length_sha256_digest C)
    ultimately show "climb C (leaf_hash C (block_of img i)) i (steps (bm_proofs m ! i)) =
        tree_root (merkle_spec C ?bl)"
      using r by (simp add: verify_proof_climb root constant_time_hash_eq_iff [OF C])
  qed (use i in \<open>auto simp: image_blocks_def\<close>)
  show ?thesis
  proof (cases "image_collision C orig img (bm_proofs m)")
    case None
    then have "block_of img i = ?bl ! i" if "i < ?n" for i
      using sound [OF that] that by (auto simp: image_collision_def first_some_None)
    then have "image_blocks img = ?bl"
      using same by (intro nth_equalityI) (simp_all add: image_blocks_def)
    then have "pad_image img = pad_image orig"
      using concat_image_blocks [of img] concat_image_blocks [of orig] by simp
    then show ?thesis using None by simp
  next
    case (Some ab)
    then obtain i where "i < ?n" "merkle_collision C ?bl i (block_of img i) (bm_proofs m ! i) = Some ab"
      using first_some_Some by (fastforce simp: image_collision_def)
    then show ?thesis using sound [of i] Some by (auto simp: collision_def split: prod.splits)
  qed
qed

section \<open>The fixed-buffer validator agrees with the pipeline\<close>

lemma decode_loops_agree:
  assumes "budget obs (length ps)" and "w + length ps \<le> length out"
  shows "\<exists>obs' bs. length bs = length ps \<and>
     fold_outcome decode_chunk (obs, pre) ps = Ok (obs', pre @ bs) \<and>
     fold_outcome decode_chunk_into_strict (obs, out, w) ps =
       Ok (obs', take w out @ bs @ drop (w + length bs) out, w + length bs)"
  using assms
proof (induction ps arbitrary: obs pre w out)
  case (Cons c ps)
  have "budget obs (Suc (length ps))" using Cons.prems(1) by simp
  then obtain obs' where t: "tick_q obs = Ok obs'" "budget obs' (length ps)" by (rule budget_tick)
  obtain hi lo where d: "decode_bits_strict (ucast (fst c AND 0x7f)) 4 = Ok hi"
    "decode_bits_strict (ucast (snd c AND 0x7f)) 4 = Ok lo" using strict_decoder_total_4 by blast
  define b where "b = join_nibbles hi lo"
  have w: "w < length out" using Cons.prems(2) by simp
  have s: "decode_chunk (obs, pre) c = Ok (obs', pre @ [b])"
    "decode_chunk_into_strict (obs, out, w) c = Ok (obs', out[w := b], w + 1)"
    unfolding decode_chunk_def decode_chunk_into_strict_def prod.case t(1) and_then.simps d b_def
    using w by simp_all
  from Cons.IH [OF t(2), of "w + 1" "out[w := b]" "pre @ [b]"] Cons.prems(2)
  obtain obs'' bs where IH: "length bs = length ps"
    "fold_outcome decode_chunk (obs', pre @ [b]) ps = Ok (obs'', (pre @ [b]) @ bs)"
    "fold_outcome decode_chunk_into_strict (obs', out[w := b], w + 1) ps =
      Ok (obs'', take (w + 1) (out[w := b]) @ bs @ drop (w + 1 + length bs) (out[w := b]), w + 1 + length bs)"
    by auto
  have "take (w + 1) (out[w := b]) = take w out @ [b]" using w by (simp add: take_Suc_conv_app_nth)
  then show ?case using IH s by (intro exI [of _ obs''] exI [of _ "b # bs"]) simp
qed simp

lemma length_chunks2: "length (chunks2 xs) = length xs div 2"
  by (induction xs rule: chunks2.induct) auto

lemma decoders_agree:
  assumes "fec \<noteq> []" and "even (length fec)" and "length fec div 2 \<le> length out"
  obtains bs where "length bs = length fec div 2" and "decode_block fec = Ok bs"
    and "decode_block_into_strict fec out = Ok (bs @ drop (length bs) out, length bs)"
proof -
  have "0 < length fec div 2" using assms(1,2) by (cases fec) auto
  then obtain obs where o: "observer_new (length fec div 2) = Ok obs" "budget obs (length fec div 2)"
    by (rule observer_new_budget)
  obtain obs' bs where "length bs = length fec div 2"
    "fold_outcome decode_chunk (obs, []) (chunks2 fec) = Ok (obs', [] @ bs)"
    "fold_outcome decode_chunk_into_strict (obs, out, 0) (chunks2 fec) =
       Ok (obs', take 0 out @ bs @ drop (0 + length bs) out, 0 + length bs)"
    using decode_loops_agree [of obs "chunks2 fec" 0 out "[]"] o(2) assms(3) by (auto simp: length_chunks2)
  then show ?thesis
    using that [of bs] o assms
    by (simp add: decode_block_def decode_block_into_strict_def is_multiple_of_def Let_def mod_2_eq_odd)
qed

text \<open>What the fixed layouts hold, as the structures of the pipeline.\<close>

definition expand_proof :: "compact_proof \<Rightarrow> merkle_proof" where
  "expand_proof p = \<lparr>steps = map (\<lambda>s. \<lparr>sibling = s\<rparr>) (take (unat (step_count p)) (siblings p))\<rparr>"

definition expand_manifest :: "compact_manifest \<Rightarrow> compact_proof list \<Rightarrow> boot_manifest" where
  "expand_manifest m ps =
     \<lparr>bm_merkle_root = cm_merkle_root m, bm_block_size = cm_block_size m, bm_block_count = cm_block_count m,
      bm_fec_backup = take (unat (cm_fec_len m)) (cm_fec_backup m), bm_proofs = map expand_proof ps\<rparr>"

definition compact_proof_ok :: "compact_proof \<Rightarrow> bool" where
  "compact_proof_ok p \<longleftrightarrow> unat (step_count p) \<le> 16 \<and> length (siblings p) = 16"

definition compact_manifest_ok :: "compact_manifest \<Rightarrow> bool" where
  "compact_manifest_ok m \<longleftrightarrow> unat (cm_fec_len m) \<le> 128 \<and> length (cm_fec_backup m) = 128"

lemma compact_climb:
  "foldl (\<lambda>(h, idx) s. (if is_multiple_of idx 2 then parent_hash C h s else parent_hash C s h, idx div 2))
     (h, i) sibs = (climb C h i (map (\<lambda>s. \<lparr>sibling = s\<rparr>) sibs), i div 2 ^ length sibs)"
  by (induction sibs arbitrary: h i) (auto simp: climb_step_def div_mult2_eq)

lemma verify_block_eq:
  assumes "compact_proof_ok p"
  shows "verify_block C p root block i = verify_proof C root block i (expand_proof p)"
  using assms
  by (simp add: verify_block_def compact_proof_ok_def MAX_PROOF_STEPS_def sub_slice_def compact_climb
      verify_proof_climb expand_proof_def leaf_hash_def)

lemma resolve_metadata_compact_eq:
  assumes "compact_manifest_ok m"
  shows "resolve_metadata_compact C m =
     and_then (resolve_metadata C (expand_manifest m ps)) (\<lambda>(root, bs, bc, _). Ok (root, bs, bc))"
proof -
  define fec where "fec = take (unat (cm_fec_len m)) (cm_fec_backup m)"
  have sl: "fec_slice m = Ok fec"
    using assms by (simp add: fec_slice_def compact_manifest_ok_def MAX_FEC_BACKUP_def sub_slice_def fec_def)
  have len: "length fec \<le> 128" using assms by (simp add: compact_manifest_ok_def fec_def)
  show ?thesis
  proof (cases "fec = [] \<or> odd (length fec)")
    case True
    then have "decode_block fec = Err InvalidParameter"
      by (auto simp: decode_block_def is_multiple_of_def mod_2_eq_odd)
    then show ?thesis
      using True
      by (simp add: resolve_metadata_compact_def resolve_metadata_into_def sl resolve_metadata_def
          fec_recover_metadata_def expand_manifest_def is_multiple_of_def mod_2_eq_odd flip: fec_def)
  next
    case False
    have "fec \<noteq> []" "even (length fec)" "length fec div 2 \<le> length (replicate 64 (0 :: u8))"
      using False len by auto
    from decoders_agree [OF this] obtain bs where bs: "length bs = length fec div 2" "decode_block fec = Ok bs"
      "decode_block_into_strict fec (replicate 64 0) = Ok (bs @ drop (length bs) (replicate 64 0), length bs)"
      by blast
    have guard: "(fec = [] \<or> \<not> is_multiple_of (length fec) 2) = False"
      using False by (simp add: is_multiple_of_def mod_2_eq_odd)
    show ?thesis
    proof (cases "length bs < 40")
      case True
      then show ?thesis
        unfolding resolve_metadata_compact_def resolve_metadata_into_def sl and_then.simps guard if_False bs(3) prod.case
        by (simp add: resolve_metadata_def fec_recover_metadata_def expand_manifest_def bs(2) flip: fec_def)
    next
      case False
      then show ?thesis
        unfolding resolve_metadata_compact_def resolve_metadata_into_def sl and_then.simps guard if_False bs(3) prod.case
        by (simp add: resolve_metadata_def fec_recover_metadata_def expand_manifest_def bs(2) SHA256_LEN_def
            sub_slice_def Let_def and_then_assoc flip: fec_def cong: if_cong)
    qed
  qed
qed

lemma fold_enumerate:
  "fold_outcome (\<lambda>_. f) () (enumerate 0 xs) = fold_outcome (\<lambda>_ i. f (i, xs ! i)) () [0..<length xs]"
proof -
  have "enumerate 0 xs = map (\<lambda>i. (i, xs ! i)) [0..<length xs]"
    by (rule nth_equalityI) (simp_all add: nth_enumerate_eq)
  then show ?thesis by (simp add: fold_outcome_map)
qed

lemma compact_loop_eq:
  assumes "\<forall>p \<in> set ps. compact_proof_ok p" and img: "0 < length img" "length img \<le> 262144"
    and "length ps = div_ceil (length img) 4096" and "unat bc = length ps"
  shows "fold_outcome (\<lambda>_ (index, p).
             and_then (assert_block_index index bc) (\<lambda>_.
             and_then (image_block img DFIM_BLOCK_SIZE index) (\<lambda>block.
             validate_block_compact C root block index p)))
           () (take (unat bc) (enumerate 0 ps)) =
         verify_blocks C root (map expand_proof ps) (image_blocks img)"
proof -
  note n = partition_Ok(3,4) [OF img]
  have tk: "take (unat bc) (enumerate 0 ps) = enumerate 0 ps" using assms(5) by simp
  have bc: "validate_block_count bc = Ok ()" using n assms(4,5) by (auto simp: unat_eq_zero [symmetric])
  show ?thesis
    unfolding tk verify_blocks_def fold_enumerate length_image_blocks assms(4)
  proof (rule fold_outcome_cong)
    fix s i
    assume "i \<in> set [0..<div_ceil (length img) 4096]"
    then have i: "i < div_ceil (length img) 4096" by simp
    then have p: "compact_proof_ok (ps ! i)" using assms(1,4) by simp
    have b: "image_blocks img ! i = block_of img i" using i by (simp add: image_blocks_def)
    have "and_then (verify_proof C root (block_of img i) i (expand_proof (ps ! i)))
        (\<lambda>ok. if ok then Ok () else Err IntegrityFailure) =
      and_then (verify_proof C root (block_of img i) i (expand_proof (ps ! i)))
        (\<lambda>ok. if \<not> ok then Err IntegrityFailure else Ok ())"
      by (intro and_then_cong refl) simp
    then show "(case (i, ps ! i) of (index, p) \<Rightarrow>
             and_then (assert_block_index index bc) (\<lambda>_.
             and_then (image_block img DFIM_BLOCK_SIZE index) (\<lambda>block.
             validate_block_compact C root block index p))) =
          (case (i, image_blocks img ! i) of (index, block) \<Rightarrow>
             and_then (index_at (map expand_proof ps) index) (\<lambda>p.
             and_then (verify_proof C root block index p) (\<lambda>ok.
             if \<not> ok then Err IntegrityFailure else Ok ())))"
      using i b assms(4,5) bc
      by (simp add: assert_block_index_def DFIM_BLOCK_SIZE_def image_block_Ok validate_block_compact_def
          verify_block_eq [OF p] index_at_def validate_block_count_valid)
  qed
qed

lemma resolve_metadata_bounds:
  assumes "resolve_metadata C m = Ok (root, bs, bc, corr)"
  shows "unat bs = 4096" and "validate_block_count bc = Ok ()"
  using assms unfolding resolve_metadata_def DFIM_BLOCK_SIZE_def
  by (auto simp: outcome_simps split: if_splits prod.splits)

lemma validate_compact_eq:
  assumes "compact_manifest_ok m" and "\<forall>p \<in> set ps. compact_proof_ok p"
  shows "validate_boot_image_compact C img m ps =
     and_then (validate_boot_image C img (expand_manifest m ps)) (\<lambda>_. Ok ())"
proof (cases "validate_image_byte_len (length img) = Ok ()")
  case False
  then show ?thesis
    by (cases "validate_image_byte_len (length img)") (auto simp: validate_boot_image_compact_def validate_boot_image_def)
next
  case True
  then have img: "0 < length img" "length img \<le> 262144" by simp_all
  have rc: "resolve_metadata_compact C m =
     and_then (resolve_metadata C (expand_manifest m ps)) (\<lambda>(root, bs, bc, _). Ok (root, bs, bc))"
    by (rule resolve_metadata_compact_eq [OF assms(1)])
  show ?thesis
  proof (cases "resolve_metadata C (expand_manifest m ps)")
    case (Ok t)
    obtain root bs bc corr where t: "t = (root, bs, bc, corr)" by (metis prod_cases4)
    note b = resolve_metadata_bounds [OF Ok [unfolded t]]
    have pr: "bm_proofs (expand_manifest m ps) = map expand_proof ps" by (simp add: expand_manifest_def)
    have u: "unat (of_nat (div_ceil (length img) 4096) :: u32) = div_ceil (length img) 4096"
      using partition_Ok(4) [OF img] by (intro unat_of_nat_u32) simp
    show ?thesis
      using compact_loop_eq [OF assms(2) img, of bc C root] of_nat_eq_iff_unat [OF u, of bc] b
      unfolding validate_boot_image_compact_def validate_boot_image_def True and_then.simps rc Ok t prod.case pr
      by (auto simp: partition_Ok(2) [OF img] DFIM_BLOCK_SIZE_def and_then_assoc validate_block_count_valid)
  qed (simp_all add: validate_boot_image_compact_def validate_boot_image_def True rc)
qed

section \<open>The kernel validator agrees with the fixed-buffer one\<close>

definition scratch_ok :: "bpf_validate_scratch \<Rightarrow> bool" where
  "scratch_ok sc \<longleftrightarrow> length (sc_block sc) = 4096 \<and> ws_ok (sc_sha256 sc) \<and>
     length (sc_fec_decoded sc) = 64 \<and> length (sc_root sc) = 32 \<and>
     length (siblings (sc_proof sc)) = 16 \<and> (\<forall>s \<in> set (siblings (sc_proof sc)). length s = 32)"

lemma scratch_climb_loop:
  assumes "ws_ok ws" and "length h = 32" and "\<forall>s \<in> set sibs. length s = 32"
  shows "\<exists>ws' idx. foldl scratch_climb (h, i, ws) sibs =
     (climb bpf_prims h i (map (\<lambda>s. \<lparr>sibling = s\<rparr>) sibs), idx, ws') \<and> ws_ok ws'"
  using assms
proof (induction sibs arbitrary: h i ws)
  case (Cons s sibs)
  have s: "length s = 32" using Cons.prems by simp
  obtain h' ws' where step: "scratch_climb (h, i, ws) s = (h', i div 2, ws')"
    and h': "h' = climb_step bpf_prims h i \<lparr>sibling = s\<rparr>" and ok: "ws_ok ws'"
  proof -
    define r where "r = (if is_multiple_of i 2 then bpf_parent_hash h s ws else bpf_parent_hash s h ws)"
    have "fst r = climb_step bpf_prims h i \<lparr>sibling = s\<rparr>" "ws_ok (snd r)"
      using bpf_parent_hash_fips [OF Cons.prems(1,2) s] bpf_parent_hash_fips [OF Cons.prems(1) s Cons.prems(2)]
        Cons.prems(2) s
      by (auto simp: r_def climb_step_def parent_hash_concat sha256_bpf_prims)
    moreover have "scratch_climb (h, i, ws) s = (fst r, i div 2, snd r)"
      by (simp add: scratch_climb_def r_def split_def)
    ultimately show ?thesis using that by blast
  qed
  have "length h' = 32"
    unfolding h' climb_step_def by (simp add: length_parent_hash kernel_hash.hash_contract_axioms)
  from Cons.IH [OF ok this] Cons.prems(3) show ?case by (simp add: step h')
qed simp

lemma validate_block_from_scratch_eq:
  assumes "scratch_ok sc" and "ct_eq C = ct_eq bpf_prims"
  shows "snd (validate_block_from_scratch C sc) =
      validate_block_compact bpf_prims (sc_root sc) (sc_block sc) (sc_index sc) (sc_proof sc)"
    and "scratch_ok (fst (validate_block_from_scratch C sc))"
proof -
  let ?p = "sc_proof sc"
  note ok = assms(1) [unfolded scratch_ok_def]
  define sibs where "sibs = take (unat (step_count ?p)) (siblings ?p)"
  obtain h ws where d: "bpf_sha256_digest (sc_block sc) (sc_sha256 sc) = (h, ws)" by fastforce
  have h: "h = sha256 bpf_prims (sc_block sc)" and ws: "ws_ok ws"
    using bpf_sha256_digest_fips [of "sc_sha256 sc" "sc_block sc"] ok d by (simp_all add: sha256_bpf_prims)
  have l: "length h = 32" by (simp add: h kernel_hash.sha256_len)
  have "\<forall>s \<in> set sibs. length s = 32" using ok by (auto simp: sibs_def dest: in_set_takeD)
  from scratch_climb_loop [OF ws l this, of "sc_index sc"] obtain ws' idx where
    f: "foldl scratch_climb (h, sc_index sc, ws) sibs =
      (climb bpf_prims h (sc_index sc) (map (\<lambda>s. \<lparr>sibling = s\<rparr>) sibs), idx, ws')" and ws': "ws_ok ws'" by blast
  have sl: "(sub_slice (siblings ?p) 0 (unat (step_count ?p)) :: bytes list dfim_result) = Ok sibs"
    if "\<not> 16 < unat (step_count ?p)"
    using ok that by (simp add: sibs_def)
  show "snd (validate_block_from_scratch C sc) =
      validate_block_compact bpf_prims (sc_root sc) (sc_block sc) (sc_index sc) ?p"
    using ok f assms(2) unfolding h
    by (cases "16 < unat (step_count ?p)")
      (simp_all add: validate_block_from_scratch_def Let_def d validate_block_compact_def verify_block_def
        DFIM_BLOCK_SIZE_def MAX_PROOF_STEPS_def compact_climb constant_time_hash_eq_def h sha256_digest_def sl
        del: sub_slice_eq_Ok)
  show "scratch_ok (fst (validate_block_from_scratch C sc))"
    using ok f ws'
    by (cases "16 < unat (step_count ?p)")
      (simp_all add: validate_block_from_scratch_def Let_def d MAX_PROOF_STEPS_def scratch_ok_def sl
        del: sub_slice_eq_Ok)
qed

lemma resolve_from_scratch_eq:
  assumes "scratch_ok sc" and "compact_manifest_ok m"
  shows "snd (resolve_metadata_from_scratch C sc m) =
      and_then (resolve_metadata_compact C m) (\<lambda>_. Ok ())"
    and "scratch_ok (fst (resolve_metadata_from_scratch C sc m))"
proof -
  note ok = assms(1) [unfolded scratch_ok_def]
  define fec where "fec = take (unat (cm_fec_len m)) (cm_fec_backup m)"
  have sl: "fec_slice m = Ok fec"
    using assms(2) by (simp add: fec_slice_def compact_manifest_ok_def MAX_FEC_BACKUP_def sub_slice_def fec_def)
  have len: "length fec \<le> 128" using assms(2) by (simp add: compact_manifest_ok_def fec_def)
  show "snd (resolve_metadata_from_scratch C sc m) = and_then (resolve_metadata_compact C m) (\<lambda>_. Ok ())"
    and "scratch_ok (fst (resolve_metadata_from_scratch C sc m))"
  proof (atomize (full), cases "fec = [] \<or> odd (length fec)")
    case True
    then show "snd (resolve_metadata_from_scratch C sc m) = and_then (resolve_metadata_compact C m) (\<lambda>_. Ok ()) \<and>
        scratch_ok (fst (resolve_metadata_from_scratch C sc m))"
      using assms(1)
      by (auto simp: resolve_metadata_from_scratch_def resolve_metadata_compact_def resolve_metadata_into_def sl
          is_multiple_of_def mod_2_eq_odd)
  next
    case False
    have g: "fec \<noteq> []" "even (length fec)" "length fec div 2 \<le> length (replicate 64 (0 :: u8))"
      "length fec div 2 \<le> length (sc_fec_decoded sc)"
      using False len ok by auto
    from decoders_agree [OF g(1-3)] obtain bs where bs: "length bs = length fec div 2" "decode_block fec = Ok bs"
      "decode_block_into_strict fec (replicate 64 0) = Ok (bs @ drop (length bs) (replicate 64 0), length bs)"
      by blast
    from decoders_agree [OF g(1,2,4)] obtain bs' where "decode_block fec = Ok bs'"
      "decode_block_into_strict fec (sc_fec_decoded sc) = Ok (bs' @ drop (length bs') (sc_fec_decoded sc), length bs')"
      by blast
    moreover from this bs(2) have "bs' = bs" by simp
    moreover have "length bs \<le> 64" using bs(1) len by simp
    moreover have guard: "(fec = [] \<or> \<not> is_multiple_of (length fec) 2) = False"
      using False by (simp add: is_multiple_of_def mod_2_eq_odd)
    ultimately show "snd (resolve_metadata_from_scratch C sc m) = and_then (resolve_metadata_compact C m) (\<lambda>_. Ok ()) \<and>
        scratch_ok (fst (resolve_metadata_from_scratch C sc m))"
      using ok
      by (cases "length bs < 40")
        (simp_all add: resolve_metadata_from_scratch_def resolve_metadata_compact_def resolve_metadata_into_def sl
          bs(3) Let_def SHA256_LEN_def sub_slice_def and_then_assoc scratch_ok_def validate_block_count_def)
  qed
qed

section \<open>No panics\<close>

lemma decode_block_no_panic: "decode_block fec \<noteq> Panic"
proof (cases "fec \<noteq> [] \<and> even (length fec)")
  case True
  then show ?thesis using decode_block_total [of fec] by auto
qed (auto simp: decode_block_def is_multiple_of_def)

lemma fec_recover_no_panic: "fec_recover_metadata fec \<noteq> Panic"
  by (auto simp: fec_recover_metadata_def outcome_simps decode_block_no_panic SHA256_LEN_def)

lemma resolve_metadata_no_panic: "resolve_metadata C m \<noteq> Panic"
  by (auto simp: resolve_metadata_def fec_recover_no_panic outcome_simps split: prod.splits)

lemma verify_blocks_no_panic:
  assumes "length blocks \<le> length ps"
  shows "verify_blocks C root ps blocks \<noteq> Panic"
  unfolding verify_blocks_def
  by (rule fold_outcome_not_Panic)
    (use assms in \<open>auto simp: in_set_enumerate_eq outcome_simps verify_proof_not_Err\<close>)

lemma validate_boot_image_no_panic: "validate_boot_image C img m \<noteq> Panic"
proof (cases "0 < length img \<and> length img \<le> 262144")
  case True
  then have img: "0 < length img" "length img \<le> 262144" by simp_all
  have part: "partition_blocks img n \<noteq> Panic" for n
    using partition_Ok(2) [OF img] by (cases "n = 4096") (auto simp: partition_blocks_def DFIM_BLOCK_SIZE_def)
  have "length blocks = unat bc" if "of_nat (length blocks) = bc" "length blocks \<le> 64" for blocks :: "bytes list" and bc :: u32
    using that unat_of_nat_u32 [of "length blocks"] by auto
  moreover have "length blocks \<le> 64" if "partition_blocks img n = Ok blocks" for n blocks
    using that partition_Ok [OF img] by (cases "n = 4096") (auto simp: partition_blocks_def DFIM_BLOCK_SIZE_def)
  ultimately show ?thesis
    unfolding validate_boot_image_def
    by (auto simp: outcome_simps resolve_metadata_no_panic part verify_blocks_no_panic split: prod.splits)
qed (auto simp: validate_boot_image_def)

section \<open>Properties\<close>

lemma provisioned_manifest_sound:
  assumes C: "hash_contract C" and img: "0 < length img" "length img \<le> 262144"
    and v: "validate_boot_image C img' (to_boot_manifest (sidecar_manifest C img)) = Ok v"
  shows "case image_collision C img img' (proofs (sidecar_manifest C img)) of
    Some (a, b) \<Rightarrow> a \<noteq> b \<and> sha256 C a = sha256 C b | None \<Rightarrow> pad_image img' = pad_image img"
proof -
  let ?m = "to_boot_manifest (sidecar_manifest C img)"
  have "case image_collision C img img' (bm_proofs ?m) of
      Some (a, b) \<Rightarrow> a \<noteq> b \<and> sha256 C a = sha256 C b | None \<Rightarrow> pad_image img' = pad_image img"
  proof (rule accepted_image_is_original [OF C img _ _ _ v])
    show "bm_merkle_root ?m = tree_root (merkle_spec C (image_blocks img))"
      by (simp add: to_boot_manifest_def sidecar_manifest_def Let_def)
    show "unat (bm_block_count ?m) = length (image_blocks img)"
      using partition_Ok(4) [OF img] by (simp add: to_boot_manifest_def sidecar_manifest_def Let_def unat_of_nat_u32)
    show "\<forall>p \<in> set (bm_proofs ?m). valid_proof p"
      using sidecar_manifest_valid [OF C img] by (simp add: to_boot_manifest_def valid_manifest_def)
  qed
  then show ?thesis by (simp add: to_boot_manifest_def)
qed

lemma built_sidecar_parses:
  assumes "hash_contract C" and "0 < length img" and "length img \<le> MAX_IMAGE_BYTES"
  shows "\<exists>blob. build_boot_sidecar C img = Ok blob \<and>
     parse_boot_manifest blob = Ok (to_boot_manifest (sidecar_manifest C img))"
proof -
  have l: "length img \<le> 262144" using assms(3) by (simp add: boot_limits)
  note v = sidecar_manifest_valid [OF assms(1,2) l]
  obtain blob where b: "serialize_manifest (sidecar_manifest C img) = Ok blob"
    using boot_sidecar.enc_valid [OF v] ..
  then have "parse_block_stream blob = Ok (sidecar_manifest C img)" by (rule boot_sidecar.dec_enc [OF v])
  then show ?thesis
    using b build_boot_sidecar_eq [OF assms(1,2) l] by (simp add: parse_boot_manifest_eq)
qed

text \<open>
  C6. Provisioning and boot validation compose: for every image of 1 to 262144 bytes the sidecar
  is built, parses, and validates that image, with all of its blocks verified; an empty or larger
  image is refused at provisioning with the matching error.
\<close>

theorem provisioned_sidecar_validates_its_image:
  assumes "hash_contract C"
  shows "if 0 < length img \<and> length img \<le> MAX_IMAGE_BYTES
     then \<exists>blob m v. build_boot_sidecar C img = Ok blob \<and> parse_boot_manifest blob = Ok m \<and>
            validate_boot_image C img m = Ok v \<and> vb_payload v = img \<and>
            unat (vb_blocks_verified v) = div_ceil (length img) DFIM_BLOCK_SIZE
     else build_boot_sidecar C img = Err (if img = [] then EmptyInput else BufferTooLong)"
proof (cases "0 < length img \<and> length img \<le> MAX_IMAGE_BYTES")
  case True
  then have img: "0 < length img" "length img \<le> 262144" by (simp_all add: boot_limits)
  obtain blob where b: "build_boot_sidecar C img = Ok blob"
    "parse_boot_manifest blob = Ok (to_boot_manifest (sidecar_manifest C img))"
    using built_sidecar_parses [OF assms] True by blast
  have "(to_boot_manifest (sidecar_manifest C img))\<lparr>bm_fec_backup := fec_backup (sidecar_manifest C img)\<rparr> =
      to_boot_manifest (sidecar_manifest C img)" by (simp add: to_boot_manifest_def)
  then show ?thesis
    using True b provisioned_image_validates [OF assms img received_refl] partition_Ok(4) [OF img]
    by (auto simp: boot_limits unat_of_nat_u32)
qed (auto simp: build_boot_sidecar_def validate_image_byte_len_def)

theorem provisioned_sidecar_validates_its_image_witness:
  "\<exists>blob m v. build_boot_sidecar bpf_prims [1, 2, 3] = Ok blob \<and> parse_boot_manifest blob = Ok m \<and>
     validate_boot_image bpf_prims [1, 2, 3] m = Ok v \<and> vb_payload v = [1, 2, 3]"
  using provisioned_sidecar_validates_its_image [OF kernel_hash.hash_contract_axioms, of "[1, 2, 3]"]
  by (auto simp: boot_limits)

text \<open>
  The error-correcting backup tolerates bit rot: with one flipped bit in any or all bytes of the
  backup of a provisioned manifest, the image still validates.
\<close>

theorem backup_bit_rot_tolerated:
  assumes "hash_contract C" and "build_boot_sidecar C img = Ok blob" and "parse_boot_manifest blob = Ok m"
    and "received_block (bm_fec_backup m) rotten"
  shows "is_ok (validate_boot_image C img (m\<lparr>bm_fec_backup := rotten\<rparr>))"
proof -
  have "0 < length img" "length img \<le> 262144"
    using assms(2) by (auto simp: build_boot_sidecar_def)
  moreover from this have "m = to_boot_manifest (sidecar_manifest C img)"
    using assms(2,3) built_sidecar_parses [OF assms(1), of img] by (auto simp: boot_limits)
  ultimately show ?thesis
    using provisioned_image_validates [OF assms(1), of img rotten] assms(4)
    by (simp add: to_boot_manifest_def)
qed

theorem backup_bit_rot_tolerated_witness:
  "\<exists>blob m. build_boot_sidecar bpf_prims [1, 2, 3] = Ok blob \<and> parse_boot_manifest blob = Ok m \<and>
     is_ok (validate_boot_image bpf_prims [1, 2, 3] (m\<lparr>bm_fec_backup := bm_fec_backup m\<rparr>))"
proof -
  obtain blob where b: "build_boot_sidecar bpf_prims [1, 2, 3] = Ok blob"
    "parse_boot_manifest blob = Ok (to_boot_manifest (sidecar_manifest bpf_prims [1, 2, 3]))"
    using built_sidecar_parses [OF kernel_hash.hash_contract_axioms, of "[1, 2, 3]"] by (auto simp: boot_limits)
  with backup_bit_rot_tolerated [OF kernel_hash.hash_contract_axioms b received_refl] show ?thesis by blast
qed

text \<open>
  C7. Boot validation is sound: if an image is accepted under a parsed manifest that carries the root
  and the block count of a provisioned image, then the two images agree up to their zero-padded
  tails (and are equal when their lengths are), or \<open>image_collision\<close> computes from the
  manifest's proofs two different messages with the same SHA-256 digest.
\<close>

theorem accepted_image_is_the_provisioned_one:
  assumes "hash_contract C" and "0 < length orig" and "length orig \<le> MAX_IMAGE_BYTES"
    and "parse_boot_manifest blob = Ok m"
    and "bm_merkle_root m = tree_root (merkle_spec C (image_blocks orig))"
    and "unat (bm_block_count m) = length (image_blocks orig)"
    and "validate_boot_image C img m = Ok v"
  shows "case image_collision C orig img (bm_proofs m) of
           Some (a, b) \<Rightarrow> a \<noteq> b \<and> sha256 C a = sha256 C b
         | None \<Rightarrow> pad_image img = pad_image orig \<and> (length img = length orig \<longrightarrow> img = orig)"
proof -
  have "\<forall>p \<in> set (bm_proofs m). valid_proof p"
    using assms(4) boot_sidecar.dec_canonical
    by (fastforce simp: parse_boot_manifest_eq to_boot_manifest_def valid_manifest_def)
  then have "case image_collision C orig img (bm_proofs m) of
      Some (a, b) \<Rightarrow> a \<noteq> b \<and> sha256 C a = sha256 C b | None \<Rightarrow> pad_image img = pad_image orig"
    using accepted_image_is_original assms by (simp add: boot_limits)
  moreover have "length img = length orig \<Longrightarrow> pad_image img = pad_image orig \<Longrightarrow> img = orig"
    by (simp add: pad_image_def)
  ultimately show ?thesis by (auto split: option.splits)
qed

theorem accepted_image_is_the_provisioned_one_witness:
  "case image_collision bpf_prims [1, 2, 3] [1, 2, 3] (proofs (sidecar_manifest bpf_prims [1, 2, 3])) of
      Some (a, b) \<Rightarrow> a \<noteq> b \<and> sha256 bpf_prims a = sha256 bpf_prims b
    | None \<Rightarrow> pad_image [1, 2, 3] = pad_image [1, 2, 3]"
proof -
  let ?m = "to_boot_manifest (sidecar_manifest bpf_prims [1, 2, 3])"
  have "?m\<lparr>bm_fec_backup := fec_backup (sidecar_manifest bpf_prims [1, 2, 3])\<rparr> = ?m"
    by (simp add: to_boot_manifest_def)
  then obtain v where v: "validate_boot_image bpf_prims [1, 2, 3] ?m = Ok v"
    using provisioned_image_validates [OF kernel_hash.hash_contract_axioms _ _ received_refl, of "[1, 2, 3]"] by simp
  obtain blob where b: "parse_boot_manifest blob = Ok ?m"
    using built_sidecar_parses [OF kernel_hash.hash_contract_axioms, of "[1, 2, 3]"] by (auto simp: boot_limits)
  have "bm_merkle_root ?m = tree_root (merkle_spec bpf_prims (image_blocks [1, 2, 3]))"
    "unat (bm_block_count ?m) = length (image_blocks [1, 2, 3])"
    by (simp_all add: to_boot_manifest_def sidecar_manifest_def Let_def div_ceil_def)
  from accepted_image_is_the_provisioned_one [OF kernel_hash.hash_contract_axioms _ _ b this v]
  show ?thesis by (auto simp: boot_limits to_boot_manifest_def split: option.splits)
qed



text \<open>
  C28. The kernel validator agrees with the fixed-buffer one on every scratch record: it resolves the
  metadata and verifies a block with the same results, whatever earlier calls left in the hash
  workspace and the decode buffer, and it keeps the record well formed for the next call.
\<close>

theorem kernel_validator_refines_compact:
  assumes "scratch_ok sc" and "compact_manifest_ok m"
  shows "snd (resolve_metadata_from_scratch bpf_prims sc m) =
           and_then (resolve_metadata_compact bpf_prims m) (\<lambda>_. Ok ()) \<and>
         snd (validate_block_from_scratch bpf_prims sc) =
           validate_block_compact bpf_prims (sc_root sc) (sc_block sc) (sc_index sc) (sc_proof sc) \<and>
         scratch_ok (fst (resolve_metadata_from_scratch bpf_prims sc m)) \<and>
         scratch_ok (fst (validate_block_from_scratch bpf_prims sc))"
  using resolve_from_scratch_eq [OF assms] validate_block_from_scratch_eq [OF assms(1) refl] by blast

theorem kernel_validator_refines_compact_witness:
  "snd (validate_block_from_scratch bpf_prims
      \<lparr>sc_block = replicate 4096 0, sc_sha256 = workspace_new, sc_fec_decoded = replicate 64 0,
       sc_fec_len = 0, sc_root = replicate 32 0, sc_index = 0, sc_block_count = 1,
       sc_proof = \<lparr>step_count = 0, siblings = replicate 16 (replicate 32 0)\<rparr>\<rparr>) =
   validate_block_compact bpf_prims (replicate 32 0) (replicate 4096 0) 0
     \<lparr>step_count = 0, siblings = replicate 16 (replicate 32 0)\<rparr>"
  using kernel_validator_refines_compact
    [of "\<lparr>sc_block = replicate 4096 0, sc_sha256 = workspace_new, sc_fec_decoded = replicate 64 0,
       sc_fec_len = 0, sc_root = replicate 32 0, sc_index = 0, sc_block_count = 1,
       sc_proof = \<lparr>step_count = 0, siblings = replicate 16 (replicate 32 0)\<rparr>\<rparr>"
      "\<lparr>cm_merkle_root = replicate 32 0, cm_block_size = 4096, cm_block_count = 1, cm_fec_len = 80,
        cm_fec_backup = replicate 128 0\<rparr>"]
  by (simp add: scratch_ok_def compact_manifest_ok_def workspace_new_ok)

end
