(* ===== verification/Signed_Boot.thy ===== *)
theory Signed_Boot
  imports Boot_Pipeline
begin

text \<open>
  The trusted part of the UEFI boot guard: the authenticated rollback baseline
  (\<^verbatim>\<open>dfim_windows_uefi/src/rollback.rs\<close>) and the signed sidecar of format version 2
  (\<^verbatim>\<open>signed_manifest.rs\<close>).

  ECDSA over P-256 (crate \<^verbatim>\<open>p256\<close>) is the parameter \<open>sig_prims\<close>; the predicate \<open>signature_contract\<close> states
  what the code relies on: the sizes of keys and signatures, and that a signature verifies under the
  public key of its signer. Unforgeability is a hypothesis of the theorems that need it: only messages
  of a given set carry a signature that verifies under the trusted key.

  The version 2 parser is shown to accept exactly the signed encodings of well-formed manifests that
  pass the policy; the proof goes through a refinement of its inlined proof loop to the loop of the
  version 1 parser on the signed part of the file.
\<close>

section \<open>The rollback baseline\<close>

definition ROLLBACK_BASELINE_MAGIC :: bytes where "ROLLBACK_BASELINE_MAGIC = ascii ''DFIMROLL''"

definition ROLLBACK_BASELINE_VERSION :: u32 where "ROLLBACK_BASELINE_VERSION = 1"

definition ROLLBACK_BASELINE_LEN :: nat where "ROLLBACK_BASELINE_LEN = 36"

definition build_rollback_baseline :: "bytes \<Rightarrow> u64 \<Rightarrow> bytes dfim_result" where
  "build_rollback_baseline key_id minimum_release =
     (if minimum_release = 0 then Err InvalidParameter
      else
        let payload = replicate ROLLBACK_BASELINE_LEN 0;
            payload = put payload 0 ROLLBACK_BASELINE_MAGIC;
            payload = put payload 8 (to_le_bytes 4 ROLLBACK_BASELINE_VERSION);
            payload = put payload 12 (to_le_bytes 8 minimum_release);
            payload = put payload 20 key_id
        in Ok payload)"

text \<open>
  The loop that ors the differences of two keys; the expected key is an array of 16 bytes, the indices
  into the data are those the source writes.
\<close>

definition key_difference :: "bytes \<Rightarrow> nat \<Rightarrow> bytes \<Rightarrow> u8 dfim_result" where
  "key_difference data off expected_key_id =
     fold_outcome (\<lambda>difference index.
         and_then (index_at data (off + index)) (\<lambda>l.
         and_then (index_at expected_key_id index) (\<lambda>r.
         Ok (difference OR (l XOR r)))))
       0 [0..<16]"

definition parse_rollback_baseline :: "bytes \<Rightarrow> bytes \<Rightarrow> u64 dfim_result" where
  "parse_rollback_baseline data expected_key_id =
     (if length data \<noteq> ROLLBACK_BASELINE_LEN then Err InvalidParameter
      else
        and_then (sub_slice data 0 8) (\<lambda>magic.
        if magic \<noteq> ROLLBACK_BASELINE_MAGIC then Err IntegrityFailure
        else
          and_then (sub_slice data 8 12) (\<lambda>version.
          if from_le_bytes version \<noteq> ROLLBACK_BASELINE_VERSION then Err InvalidParameter
          else
            and_then (sub_slice data 12 20) (\<lambda>release.
            let minimum_release = from_le_bytes release in
            if minimum_release = 0 then Err IntegrityFailure
            else
              and_then (key_difference data 20 expected_key_id) (\<lambda>difference.
              if difference \<noteq> 0 then Err IntegrityFailure else Ok minimum_release)))))"

definition effective_minimum_release :: "u64 \<Rightarrow> u64 \<Rightarrow> u64 dfim_result" where
  "effective_minimum_release compiled persisted =
     (if compiled = 0 \<or> persisted = 0 then Err InvalidParameter else Ok (max compiled persisted))"

section \<open>The signed sidecar\<close>

definition SIGNED_MANIFEST_VERSION :: u32 where "SIGNED_MANIFEST_VERSION = 2"
definition V2_SIGNATURE_LEN :: nat where "V2_SIGNATURE_LEN = 64"
definition V2_PUBLIC_KEY_LEN :: nat where "V2_PUBLIC_KEY_LEN = 33"
definition V2_KEY_ID_LEN :: nat where "V2_KEY_ID_LEN = 16"
definition V2_SIGNATURE_ALGORITHM :: u32 where "V2_SIGNATURE_ALGORITHM = 1"
definition V2_HEADER_LEN :: nat where "V2_HEADER_LEN = 92"
definition V2_MERKLE_ROOT_OFFSET :: nat where "V2_MERKLE_ROOT_OFFSET = 56"
definition V2_RELEASE_OFFSET :: nat where "V2_RELEASE_OFFSET = 24"
definition V2_KEY_ID_OFFSET :: nat where "V2_KEY_ID_OFFSET = 32"
definition V2_ALGORITHM_OFFSET :: nat where "V2_ALGORITHM_OFFSET = 48"
definition V2_SIGNATURE_LEN_OFFSET :: nat where "V2_SIGNATURE_LEN_OFFSET = 52"
definition V2_FEC_LEN_OFFSET :: nat where "V2_FEC_LEN_OFFSET = 88"

lemmas v2_layout =
  SIGNED_MANIFEST_VERSION_def V2_SIGNATURE_LEN_def V2_PUBLIC_KEY_LEN_def V2_KEY_ID_LEN_def
  V2_SIGNATURE_ALGORITHM_def V2_HEADER_LEN_def V2_MERKLE_ROOT_OFFSET_def V2_RELEASE_OFFSET_def
  V2_KEY_ID_OFFSET_def V2_ALGORITHM_OFFSET_def V2_SIGNATURE_LEN_OFFSET_def V2_FEC_LEN_OFFSET_def

text \<open>
  Crate \<^verbatim>\<open>p256\<close>: \<^verbatim>\<open>SigningKey::from_bytes\<close> accepts a private key, \<^verbatim>\<open>sign\<close> gives a signature in its
  fixed-size encoding, \<^verbatim>\<open>to_sec1_point(true)\<close> the compressed public key; \<^verbatim>\<open>VerifyingKey::from_sec1_bytes\<close>
  and \<^verbatim>\<open>Signature::from_slice\<close> accept an encoding; \<^verbatim>\<open>verify\<close> checks.
\<close>

record sig_prims =
  signing_key_ok :: "bytes \<Rightarrow> bool"
  sign :: "bytes \<Rightarrow> bytes \<Rightarrow> bytes"
  sec1_point :: "bytes \<Rightarrow> bytes"
  verifying_key_ok :: "bytes \<Rightarrow> bool"
  signature_ok :: "bytes \<Rightarrow> bool"
  verify_sig :: "bytes \<Rightarrow> bytes \<Rightarrow> bytes \<Rightarrow> bool"

definition signature_contract :: "sig_prims \<Rightarrow> bool" where
  "signature_contract S \<longleftrightarrow>
     (\<forall>sk m. signing_key_ok S sk \<longrightarrow>
        length (sign S sk m) = 64 \<and> length (sec1_point S sk) = 33 \<and> verifying_key_ok S (sec1_point S sk) \<and>
        signature_ok S (sign S sk m) \<and> verify_sig S (sec1_point S sk) m (sign S sk m)) \<and>
     (\<forall>s. signature_ok S s \<longrightarrow> length s = 64)"

record trusted_manifest_policy =
  public_key_sec1 :: bytes
  expected_key_id :: bytes
  minimum_release :: u64

record verified_boot_manifest =
  vm_manifest :: boot_manifest
  vm_release_counter :: u64
  vm_key_id :: bytes

record validated_signed_boot_image =
  vs_boot :: validated_boot_image
  vs_release_counter :: u64
  vs_key_id :: bytes

definition public_key_sec1_from_private :: "sig_prims \<Rightarrow> bytes \<Rightarrow> bytes dfim_result" where
  "public_key_sec1_from_private S private_key =
     (if \<not> signing_key_ok S private_key then Err InvalidParameter
      else
        let bs = sec1_point S private_key in
        if length bs \<noteq> V2_PUBLIC_KEY_LEN then Err IntegrityFailure
        else Ok (put (replicate V2_PUBLIC_KEY_LEN 0) 0 bs))"

text \<open>The loop over the blocks that appends their proofs to the blob.\<close>

definition append_proof_v2 :: "merkle_tree \<Rightarrow> bytes \<Rightarrow> nat \<Rightarrow> bytes dfim_result" where
  "append_proof_v2 tree blob index =
     and_then (prove tree index) (\<lambda>p.
     if length (steps p) > MAX_PROOF_STEPS then Err InvalidParameter
     else Ok (foldl (\<lambda>blob st. blob @ sibling st) (blob @ [of_nat (length (steps p))]) (steps p)))"

definition build_signed_boot_sidecar_v2 ::
  "hash_prims \<Rightarrow> sig_prims \<Rightarrow> bytes \<Rightarrow> bytes \<Rightarrow> bytes \<Rightarrow> u64 \<Rightarrow> bytes dfim_result" where
  "build_signed_boot_sidecar_v2 C S img private_key key_id release_counter =
     and_then (validate_image_byte_len (length img)) (\<lambda>_.
     if release_counter = 0 then Err InvalidParameter
     else
       and_then (partition_image_blocks img DFIM_BLOCK_SIZE) (\<lambda>blocks.
       let bcount = of_nat (length blocks) :: u32 in
       and_then (build C blocks) (\<lambda>tree.
       let root = tree_root tree in
       and_then (encode_block (metadata_bytes root bcount)) (\<lambda>fec.
       let blob = [];
           blob = blob @ MANIFEST_MAGIC;
           blob = blob @ to_le_bytes 4 SIGNED_MANIFEST_VERSION;
           blob = blob @ to_le_bytes 4 (of_nat V2_HEADER_LEN :: u32);
           blob = blob @ to_le_bytes 4 (of_nat DFIM_BLOCK_SIZE :: u32);
           blob = blob @ to_le_bytes 4 bcount;
           blob = blob @ to_le_bytes 8 release_counter;
           blob = blob @ key_id;
           blob = blob @ to_le_bytes 4 V2_SIGNATURE_ALGORITHM;
           blob = blob @ to_le_bytes 4 (of_nat V2_SIGNATURE_LEN :: u32);
           blob = blob @ root;
           blob = blob @ to_le_bytes 4 (of_nat (length fec) :: u32);
           blob = blob @ fec
       in
       and_then (fold_outcome (append_proof_v2 tree) blob [0..<length blocks]) (\<lambda>blob.
       if \<not> signing_key_ok S private_key then Err InvalidParameter
       else Ok (blob @ sign S private_key blob))))))"

definition constant_time_key_id_eq :: "bytes \<Rightarrow> bytes \<Rightarrow> bool dfim_result" where
  "constant_time_key_id_eq l r =
     and_then (fold_outcome (\<lambda>difference index.
         and_then (index_at l index) (\<lambda>a. and_then (index_at r index) (\<lambda>b. Ok (difference OR (a XOR b)))))
       (0 :: u8) [0..<V2_KEY_ID_LEN]) (\<lambda>difference. Ok (difference = 0))"

definition read_u64 :: "bytes \<Rightarrow> u64 dfim_result" where
  "read_u64 bs = (if length bs < 8 then Err BufferTooShort else Ok (from_le_bytes (take 8 bs)))"

text \<open>The inlined loops over the proofs and over the steps of a proof.\<close>

definition parse_step_v2 ::
  "bytes \<Rightarrow> nat \<Rightarrow> nat \<times> proof_step list \<Rightarrow> nat \<Rightarrow> (nat \<times> proof_step list) dfim_result" where
  "parse_step_v2 data signed_end = (\<lambda>(offset, sts) _.
     and_then (ok_or ParameterOverflow (checked_add offset SHA256_LEN)) (\<lambda>stop.
     if stop > signed_end then Err BufferTooShort
     else and_then (sub_slice data offset stop) (\<lambda>s. Ok (stop, sts @ [\<lparr>sibling = s\<rparr>]))))"

definition parse_proof_v2 ::
  "bytes \<Rightarrow> nat \<Rightarrow> nat \<times> merkle_proof list \<Rightarrow> nat \<Rightarrow> (nat \<times> merkle_proof list) dfim_result" where
  "parse_proof_v2 data signed_end = (\<lambda>(offset, ps) _.
     if offset \<ge> signed_end then Err BufferTooShort
     else
       and_then (index_at data offset) (\<lambda>b.
       let step_count = unat b in
       and_then (ok_or ParameterOverflow (checked_add offset 1)) (\<lambda>offset.
       if step_count > MAX_PROOF_STEPS then Err InvalidParameter
       else
         and_then (fold_outcome (parse_step_v2 data signed_end) (offset, []) [0..<step_count]) (\<lambda>(offset, sts).
         Ok (offset, ps @ [\<lparr>steps = sts\<rparr>])))))"

text \<open>The checks of the header, before the signature is looked at, in the order of the code.\<close>

definition check_header_v2 ::
  "bytes \<Rightarrow> trusted_manifest_policy \<Rightarrow> (u32 \<times> u32 \<times> u64 \<times> bytes) dfim_result" where
  "check_header_v2 data policy =
     and_then (sub_slice data 0 8) (\<lambda>magic.
     if magic \<noteq> MANIFEST_MAGIC then Err IntegrityFailure
     else
       and_then (and_then (sub_slice data 8 12) read_u32) (\<lambda>version.
       and_then (and_then (sub_slice data 12 16) read_u32) (\<lambda>header_len.
       if version \<noteq> SIGNED_MANIFEST_VERSION \<or> unat header_len \<noteq> V2_HEADER_LEN then Err InvalidParameter
       else
         and_then (and_then (sub_slice data 16 20) read_u32) (\<lambda>bsize.
         and_then (and_then (sub_slice data 20 24) read_u32) (\<lambda>bcount.
         if unat bsize \<noteq> DFIM_BLOCK_SIZE \<or> bcount = 0 then Err InvalidParameter
         else
           and_then (validate_block_count bcount) (\<lambda>_.
           and_then (and_then (sub_slice data V2_RELEASE_OFFSET V2_KEY_ID_OFFSET) read_u64) (\<lambda>release.
           if release < minimum_release policy \<or> release = 0 then Err IntegrityFailure
           else
             and_then (sub_slice data V2_KEY_ID_OFFSET V2_ALGORITHM_OFFSET) (\<lambda>key_id.
             and_then (constant_time_key_id_eq key_id (expected_key_id policy)) (\<lambda>eq.
             if \<not> eq then Err IntegrityFailure
             else
               and_then (and_then (sub_slice data V2_ALGORITHM_OFFSET V2_SIGNATURE_LEN_OFFSET) read_u32) (\<lambda>alg.
               and_then (and_then (sub_slice data V2_SIGNATURE_LEN_OFFSET V2_MERKLE_ROOT_OFFSET) read_u32) (\<lambda>sig_len.
               if alg \<noteq> V2_SIGNATURE_ALGORITHM \<or> unat sig_len \<noteq> V2_SIGNATURE_LEN then Err InvalidParameter
               else Ok (bsize, bcount, release, key_id))))))))))))"

definition check_signature_v2 ::
  "sig_prims \<Rightarrow> bytes \<Rightarrow> nat \<Rightarrow> trusted_manifest_policy \<Rightarrow> unit dfim_result" where
  "check_signature_v2 S data signed_end policy =
     (if \<not> verifying_key_ok S (public_key_sec1 policy) then Err InvalidParameter
      else
        and_then (sub_slice data signed_end (length data)) (\<lambda>signature.
        if \<not> signature_ok S signature then Err IntegrityFailure
        else
          and_then (sub_slice data 0 signed_end) (\<lambda>msg.
          if \<not> verify_sig S (public_key_sec1 policy) msg signature then Err IntegrityFailure
          else Ok ())))"

definition parse_body_v2 ::
  "bytes \<Rightarrow> nat \<Rightarrow> u32 \<Rightarrow> u32 \<Rightarrow> boot_manifest dfim_result" where
  "parse_body_v2 data signed_end bsize bcount =
     and_then (sub_slice data V2_MERKLE_ROOT_OFFSET V2_FEC_LEN_OFFSET) (\<lambda>root.
     and_then (and_then (sub_slice data V2_FEC_LEN_OFFSET V2_HEADER_LEN) read_u32) (\<lambda>fec_len.
     and_then (ok_or ParameterOverflow (checked_add V2_HEADER_LEN (unat fec_len))) (\<lambda>fec_end.
     if fec_end > signed_end \<or> fec_len = 0 \<or> \<not> is_multiple_of (unat fec_len) 2 then Err BufferTooShort
     else
       and_then (sub_slice data V2_HEADER_LEN fec_end) (\<lambda>fec.
       and_then (fold_outcome (parse_proof_v2 data signed_end) (fec_end, []) [0..<unat bcount]) (\<lambda>(offset, ps).
       if offset \<noteq> signed_end then Err IntegrityFailure
       else Ok \<lparr>bm_merkle_root = root, bm_block_size = bsize, bm_block_count = bcount,
                bm_fec_backup = fec, bm_proofs = ps\<rparr>)))))"

definition check_backup_v2 :: "hash_prims \<Rightarrow> boot_manifest \<Rightarrow> unit dfim_result" where
  "check_backup_v2 C m =
     and_then (decode_block (bm_fec_backup m)) (\<lambda>decoded.
     if length decoded < 40 then Err CorruptMetadata
     else
       and_then (sub_slice decoded 0 SHA256_LEN) (\<lambda>decoded_root.
       if \<not> constant_time_hash_eq C (bm_merkle_root m) decoded_root then Err CorruptMetadata else Ok ()))"

definition parse_and_verify_boot_sidecar_v2 ::
  "hash_prims \<Rightarrow> sig_prims \<Rightarrow> bytes \<Rightarrow> trusted_manifest_policy \<Rightarrow> verified_boot_manifest dfim_result" where
  "parse_and_verify_boot_sidecar_v2 C S data policy =
     and_then (ok_or ParameterOverflow (checked_add V2_HEADER_LEN V2_SIGNATURE_LEN)) (\<lambda>minimum_len.
     if length data < minimum_len then Err BufferTooShort
     else
       and_then (check_header_v2 data policy) (\<lambda>(bsize, bcount, release, key_id).
       and_then (ok_or BufferTooShort (checked_sub (length data) V2_SIGNATURE_LEN)) (\<lambda>signed_end.
       and_then (check_signature_v2 S data signed_end policy) (\<lambda>_.
       and_then (parse_body_v2 data signed_end bsize bcount) (\<lambda>m.
       and_then (check_backup_v2 C m) (\<lambda>_.
       Ok \<lparr>vm_manifest = m, vm_release_counter = release, vm_key_id = key_id\<rparr>))))))"

definition validate_signed_boot_image_v2 ::
  "hash_prims \<Rightarrow> sig_prims \<Rightarrow> bytes \<Rightarrow> bytes \<Rightarrow> trusted_manifest_policy \<Rightarrow>
   validated_signed_boot_image dfim_result" where
  "validate_signed_boot_image_v2 C S img sidecar policy =
     and_then (parse_and_verify_boot_sidecar_v2 C S sidecar policy) (\<lambda>verified.
     and_then (validate_boot_image C img (vm_manifest verified)) (\<lambda>boot.
     Ok \<lparr>vs_boot = boot, vs_release_counter = vm_release_counter verified,
         vs_key_id = vm_key_id verified\<rparr>))"

section \<open>Signatures\<close>

lemma signature_contractD:
  assumes "signature_contract S" and "signing_key_ok S sk"
  shows "length (sign S sk m) = 64" and "length (sec1_point S sk) = 33"
    and "verifying_key_ok S (sec1_point S sk)" and "signature_ok S (sign S sk m)"
    and "verify_sig S (sec1_point S sk) m (sign S sk m)"
  using assms by (simp_all add: signature_contract_def)

lemma signature_len: "signature_contract S \<Longrightarrow> signature_ok S s \<Longrightarrow> length s = 64"
  by (simp add: signature_contract_def)

section \<open>The comparison loop\<close>

lemma difference_loop:
  assumes "off + n \<le> length l" and "n \<le> length r"
  shows "\<exists>d. fold_outcome (\<lambda>difference index.
         and_then (index_at l (off + index)) (\<lambda>a. and_then (index_at r index) (\<lambda>b. Ok (difference OR (a XOR b)))))
       (0 :: u8) [0..<n] = (Ok d :: u8 dfim_result) \<and> (d = 0 \<longleftrightarrow> take n (drop off l) = take n r)"
  using assms
proof (induction n)
  case (Suc n)
  then obtain d where "fold_outcome (\<lambda>difference index.
         and_then (index_at l (off + index)) (\<lambda>a. and_then (index_at r index) (\<lambda>b. Ok (difference OR (a XOR b)))))
       (0 :: u8) [0..<n] = (Ok d :: u8 dfim_result)" "d = 0 \<longleftrightarrow> take n (drop off l) = take n r" by auto
  then show ?case
    using Suc.prems
    by (simp add: fold_outcome_append index_at_def or_zero_iff xor_zero_iff take_Suc_conv_app_nth)
qed simp

lemma key_difference_zero:
  assumes "off + 16 \<le> length data" and "length key = 16"
  shows "\<exists>d. key_difference data off key = Ok d \<and> (d = 0 \<longleftrightarrow> take 16 (drop off data) = key)"
  using difference_loop [of off 16 data key] assms unfolding key_difference_def by simp

lemma constant_time_key_id_eq_iff:
  assumes "length a = 16" and "length b = 16"
  shows "constant_time_key_id_eq a b = Ok (a = b)"
proof -
  from difference_loop [of 0 16 a b] assms obtain d
    where "fold_outcome (\<lambda>difference index.
         and_then (index_at a (0 + index)) (\<lambda>x. and_then (index_at b index) (\<lambda>y. Ok (difference OR (x XOR y)))))
       (0 :: u8) [0..<16] = (Ok d :: u8 dfim_result)" and "d = 0 \<longleftrightarrow> take 16 (drop 0 a) = take 16 b" by auto
  then show ?thesis
    using assms unfolding constant_time_key_id_eq_def V2_KEY_ID_LEN_def by simp
qed

section \<open>The rollback baseline\<close>

definition baseline_bytes :: "bytes \<Rightarrow> u64 \<Rightarrow> bytes" where
  "baseline_bytes key_id release =
     ROLLBACK_BASELINE_MAGIC @ to_le_bytes 4 ROLLBACK_BASELINE_VERSION @ to_le_bytes 8 release @ key_id"

lemma build_rollback_baseline_eq:
  assumes "length key_id = 16"
  shows "build_rollback_baseline key_id release =
     (if release = 0 then Err InvalidParameter else Ok (baseline_bytes key_id release))"
  using assms
  by (simp add: build_rollback_baseline_def baseline_bytes_def put_def ROLLBACK_BASELINE_LEN_def
      ROLLBACK_BASELINE_MAGIC_def Let_def)

lemma split_baseline:
  assumes "length data = 36"
  shows "data = take 8 data @ take 4 (drop 8 data) @ take 8 (drop 12 data) @ take 16 (drop 20 data)"
proof -
  have "data = take 8 data @ drop 8 data" by simp
  also have "drop 8 data = take 4 (drop 8 data) @ drop 12 data" using drop_split [of 8 data 4] by simp
  also have "drop 12 data = take 8 (drop 12 data) @ drop 20 data" using drop_split [of 12 data 8] by simp
  also have "drop 20 data = take 16 (drop 20 data)" using assms by simp
  finally show ?thesis .
qed

lemma parse_rollback_baseline_iff:
  assumes key: "length key_id = 16"
  shows "parse_rollback_baseline data key_id = Ok release \<longleftrightarrow>
     release \<noteq> 0 \<and> data = baseline_bytes key_id release"
    (is "?L \<longleftrightarrow> ?R")
proof
  assume L: ?L
  then have len: "length data = 36"
    by (auto simp: parse_rollback_baseline_def ROLLBACK_BASELINE_LEN_def split: if_splits)
  from key_difference_zero [of 20 data key_id] len key obtain d
    where d: "key_difference data 20 key_id = Ok d" "d = 0 \<longleftrightarrow> take 16 (drop 20 data) = key_id" by auto
  have f: "take 8 data = ROLLBACK_BASELINE_MAGIC"
    "from_le_bytes (take 4 (drop 8 data)) = ROLLBACK_BASELINE_VERSION"
    "release = from_le_bytes (take 8 (drop 12 data))" "release \<noteq> 0" "take 16 (drop 20 data) = key_id"
    using L len d unfolding parse_rollback_baseline_def ROLLBACK_BASELINE_LEN_def
    by (auto simp: outcome_simps Let_def split: if_splits)
  then show ?R
    using split_baseline [OF len] len key
    by (simp add: baseline_bytes_def f(2) [symmetric] f(3))
next
  assume R: ?R
  then have len: "length data = 36"
    using key by (simp add: baseline_bytes_def ROLLBACK_BASELINE_MAGIC_def)
  from key_difference_zero [of 20 data key_id] len key obtain d
    where d: "key_difference data 20 key_id = Ok d" "d = 0 \<longleftrightarrow> take 16 (drop 20 data) = key_id" by auto
  have m: "length ROLLBACK_BASELINE_MAGIC = 8" by (simp add: ROLLBACK_BASELINE_MAGIC_def)
  have "take 16 (drop 20 data) = key_id" "take 8 data = ROLLBACK_BASELINE_MAGIC"
    "take 4 (drop 8 data) = to_le_bytes 4 ROLLBACK_BASELINE_VERSION"
    "take 8 (drop 12 data) = to_le_bytes 8 release"
    using R key m by (simp_all add: baseline_bytes_def)
  then show ?L
    using R len d by (simp add: parse_rollback_baseline_def ROLLBACK_BASELINE_LEN_def sub_slice_def Let_def)
qed

lemma parse_rollback_baseline_no_panic:
  assumes "length key_id = 16"
  shows "parse_rollback_baseline data key_id \<noteq> Panic"
proof (cases "length data = 36")
  case True
  with key_difference_zero [of 20 data key_id] assms obtain d where "key_difference data 20 key_id = Ok d" by auto
  with True show ?thesis
    by (simp add: parse_rollback_baseline_def ROLLBACK_BASELINE_LEN_def sub_slice_def Let_def)
qed (simp add: parse_rollback_baseline_def ROLLBACK_BASELINE_LEN_def)

section \<open>The proofs of a signed sidecar\<close>

lemma parse_steps_v2:
  assumes "off \<le> signed_end" and "signed_end \<le> length data" and "off \<le> USIZE_MAX"
  shows "fold_outcome (parse_step_v2 data signed_end) (off, []) [0..<n] =
     (if off + n * 32 \<le> signed_end \<and> off + n * 32 \<le> USIZE_MAX
      then Ok (off + n * 32, map (\<lambda>i. \<lparr>sibling = take 32 (drop (off + i * 32) data)\<rparr>) [0..<n])
      else fold_outcome (parse_step_v2 data signed_end) (off, []) [0..<n])"
    and "fold_outcome (parse_step_v2 data signed_end) (off, []) [0..<n] = Ok r \<Longrightarrow>
      off + n * 32 \<le> signed_end \<and> off + n * 32 \<le> USIZE_MAX"
    and "fold_outcome (parse_step_v2 data signed_end) (off, []) [0..<n] \<noteq> Panic"
proof -
  show eq: "fold_outcome (parse_step_v2 data signed_end) (off, []) [0..<n] =
     (if off + n * 32 \<le> signed_end \<and> off + n * 32 \<le> USIZE_MAX
      then Ok (off + n * 32, map (\<lambda>i. \<lparr>sibling = take 32 (drop (off + i * 32) data)\<rparr>) [0..<n])
      else fold_outcome (parse_step_v2 data signed_end) (off, []) [0..<n])" for n
  proof (induction n)
    case (Suc n)
    then show ?case
      using assms by (simp add: fold_outcome_append parse_step_v2_def SHA256_LEN_def checked_add_def
          sub_slice_def add.commute)
  qed simp
  show bound: "off + n * 32 \<le> signed_end \<and> off + n * 32 \<le> USIZE_MAX"
    if "fold_outcome (parse_step_v2 data signed_end) (off, []) [0..<n] = Ok r" for n r
    using that
  proof (induction n arbitrary: r)
    case (Suc n)
    then obtain q where q: "fold_outcome (parse_step_v2 data signed_end) (off, []) [0..<n] = Ok q"
      and last: "parse_step_v2 data signed_end q n = Ok r" by (auto simp: fold_outcome_append)
    have "fst q = off + n * 32" using eq [of n] q Suc.IH [OF q] by simp
    then show ?case using last by (auto simp: parse_step_v2_def SHA256_LEN_def split: prod.splits if_splits)
  qed (use assms in simp)
  show "fold_outcome (parse_step_v2 data signed_end) (off, []) [0..<n] \<noteq> Panic"
  proof (induction n)
    case (Suc n)
    have "parse_step_v2 data signed_end q n \<noteq> Panic"
      if q: "fold_outcome (parse_step_v2 data signed_end) (off, []) [0..<n] = Ok q" for q
      using assms by (auto simp: parse_step_v2_def SHA256_LEN_def split: prod.splits)
    then show ?case using Suc by (auto simp: fold_outcome_append)
  qed simp
qed

text \<open>On the signed part of the file the inlined loop reads what the version 1 parser reads.\<close>

lemma parse_proof_v2_iff:
  assumes "signed_end \<le> length data"
  shows "parse_proof_v2 data signed_end (off, ps) i = Ok (off', qs) \<longleftrightarrow>
     (\<exists>p. parse_proof (take signed_end data) off = Ok (off', p) \<and> qs = ps @ [p])"
proof (cases "off < signed_end \<and> off + 1 \<le> USIZE_MAX \<and> unat (data ! off) \<le> 16")
  case True
  let ?n = "unat (data ! off)"
  have chunk: "take 32 (drop (Suc off + j * 32) (take signed_end data)) = take 32 (drop (Suc off + j * 32) data)"
    if "j < ?n" "Suc off + ?n * 32 \<le> signed_end" for j
  proof -
    have "Suc off + j * 32 + 32 \<le> Suc off + ?n * 32" using that(1) by simp
    then have "32 \<le> signed_end - (Suc off + j * 32)" using that(2) by linarith
    then show ?thesis by (simp add: drop_take min_def)
  qed
  then have "map (\<lambda>i. \<lparr>sibling = take 32 (drop (Suc off + i * 32) (take signed_end data))\<rparr>) [0..<?n] =
      map (\<lambda>i. \<lparr>sibling = take 32 (drop (Suc off + i * 32) data)\<rparr>) [0..<?n]"
    if "Suc off + ?n * 32 \<le> signed_end" using that by simp
  then show ?thesis
    using True assms parse_steps_v2(1,2) [of "Suc off" signed_end data "?n"]
    by (cases "Suc off + ?n * 32 \<le> signed_end \<and> Suc off + ?n * 32 \<le> USIZE_MAX")
      (auto simp: parse_proof_v2_def parse_proof_eq index_at_def checked_add_def MAX_PROOF_STEPS_def Let_def)
next
  case False
  then show ?thesis
    using assms by (auto simp: parse_proof_v2_def parse_proof_eq index_at_def checked_add_def
        MAX_PROOF_STEPS_def Let_def)
qed

lemma parse_proofs_v2_iff:
  assumes "signed_end \<le> length data"
  shows "fold_outcome (parse_proof_v2 data signed_end) (off, []) [0..<n] = Ok (off', ps) \<longleftrightarrow>
     parse_proofs (take signed_end data) off n = Ok (off', ps)"
proof (induction n arbitrary: off' ps)
  case (Suc n)
  have "fold_outcome (parse_proof_v2 data signed_end) (off, []) [0..<Suc n] = Ok (off', ps) \<longleftrightarrow>
      (\<exists>o1 qs. parse_proofs (take signed_end data) off n = Ok (o1, qs) \<and>
         parse_proof_v2 data signed_end (o1, qs) n = Ok (off', ps))"
    by (simp add: fold_outcome_append Suc.IH)
  also have "\<dots> \<longleftrightarrow> parse_proofs (take signed_end data) off (Suc n) = Ok (off', ps)"
    by (auto simp: parse_proof_v2_iff [OF assms] parse_proofs_Suc)
  finally show ?case .
qed (simp add: parse_proofs_def)

section \<open>The signed encoding\<close>

definition header_v2 :: "block_stream_manifest \<Rightarrow> u64 \<Rightarrow> bytes \<Rightarrow> bytes" where
  "header_v2 m release key_id =
     MANIFEST_MAGIC @ to_le_bytes 4 SIGNED_MANIFEST_VERSION @ to_le_bytes 4 (of_nat V2_HEADER_LEN :: u32) @
     to_le_bytes 4 (block_size m) @ to_le_bytes 4 (block_count m) @ to_le_bytes 8 release @ key_id @
     to_le_bytes 4 V2_SIGNATURE_ALGORITHM @ to_le_bytes 4 (of_nat V2_SIGNATURE_LEN :: u32) @
     merkle_root m @ to_le_bytes 4 (of_nat (length (fec_backup m)) :: u32)"

definition signed_bytes :: "block_stream_manifest \<Rightarrow> u64 \<Rightarrow> bytes \<Rightarrow> bytes" where
  "signed_bytes m release key_id =
     header_v2 m release key_id @ fec_backup m @ concat (map proof_bytes (proofs m))"

lemma length_header_v2:
  "length (merkle_root m) = 32 \<Longrightarrow> length key_id = 16 \<Longrightarrow> length (header_v2 m release key_id) = 92"
  by (simp add: header_v2_def MANIFEST_MAGIC_def)

lemma split_header_v2:
  assumes "92 \<le> length data"
  shows "data = take 8 data @ take 4 (drop 8 data) @ take 4 (drop 12 data) @ take 4 (drop 16 data) @
     take 4 (drop 20 data) @ take 8 (drop 24 data) @ take 16 (drop 32 data) @ take 4 (drop 48 data) @
     take 4 (drop 52 data) @ take 32 (drop 56 data) @ take 4 (drop 88 data) @ drop 92 data"
proof -
  have "data = take 8 data @ drop 8 data" by simp
  also have "drop 8 data = take 4 (drop 8 data) @ drop 12 data" using drop_split [of 8 data 4] by simp
  also have "drop 12 data = take 4 (drop 12 data) @ drop 16 data" using drop_split [of 12 data 4] by simp
  also have "drop 16 data = take 4 (drop 16 data) @ drop 20 data" using drop_split [of 16 data 4] by simp
  also have "drop 20 data = take 4 (drop 20 data) @ drop 24 data" using drop_split [of 20 data 4] by simp
  also have "drop 24 data = take 8 (drop 24 data) @ drop 32 data" using drop_split [of 24 data 8] by simp
  also have "drop 32 data = take 16 (drop 32 data) @ drop 48 data" using drop_split [of 32 data 16] by simp
  also have "drop 48 data = take 4 (drop 48 data) @ drop 52 data" using drop_split [of 48 data 4] by simp
  also have "drop 52 data = take 4 (drop 52 data) @ drop 56 data" using drop_split [of 52 data 4] by simp
  also have "drop 56 data = take 32 (drop 56 data) @ drop 88 data" using drop_split [of 56 data 32] by simp
  also have "drop 88 data = take 4 (drop 88 data) @ drop 92 data" using drop_split [of 88 data 4] by simp
  finally show ?thesis by simp
qed

text \<open>What the header checks establish.\<close>

definition header_fields_v2 ::
  "bytes \<Rightarrow> trusted_manifest_policy \<Rightarrow> u32 \<Rightarrow> u32 \<Rightarrow> u64 \<Rightarrow> bytes \<Rightarrow> bool" where
  "header_fields_v2 data policy bsize bcount release key_id \<longleftrightarrow>
     take 8 data = MANIFEST_MAGIC \<and>
     take 4 (drop 8 data) = to_le_bytes 4 SIGNED_MANIFEST_VERSION \<and>
     take 4 (drop 12 data) = to_le_bytes 4 (of_nat V2_HEADER_LEN :: u32) \<and>
     take 4 (drop 16 data) = to_le_bytes 4 bsize \<and> take 4 (drop 20 data) = to_le_bytes 4 bcount \<and>
     take 8 (drop 24 data) = to_le_bytes 8 release \<and> take 16 (drop 32 data) = key_id \<and>
     take 4 (drop 48 data) = to_le_bytes 4 V2_SIGNATURE_ALGORITHM \<and>
     take 4 (drop 52 data) = to_le_bytes 4 (of_nat V2_SIGNATURE_LEN :: u32) \<and>
     unat bsize = 4096 \<and> bcount \<noteq> 0 \<and> unat bcount \<le> 64 \<and> minimum_release policy \<le> release \<and>
     release \<noteq> 0 \<and> key_id = expected_key_id policy"

lemma le_bytes_eq_iff:
  "length bs = 4 \<Longrightarrow> (bs = to_le_bytes 4 (w :: u32)) = (from_le_bytes bs = w)"
  "length cs = 8 \<Longrightarrow> (cs = to_le_bytes 8 (v :: u64)) = (from_le_bytes cs = v)"
  by auto

lemma unat_eq_numeral_u32: "(unat (w :: u32) = numeral n) = (w = numeral n)" if "(numeral n :: nat) < 2 ^ 32"
proof
  assume "unat w = numeral n"
  then have "of_nat (unat w) = (numeral n :: u32)" by simp
  then show "w = numeral n" by simp
next
  assume w: "w = numeral n"
  have "unat (of_nat (numeral n) :: u32) = numeral n" using that by (rule unat_of_nat_u32)
  then show "unat w = numeral n" by (simp add: w)
qed

lemma check_header_v2_iff:
  assumes len: "156 \<le> length data" and key: "length (expected_key_id policy) = 16"
  shows "check_header_v2 data policy = Ok (bsize, bcount, release, key_id) \<longleftrightarrow>
     header_fields_v2 data policy bsize bcount release key_id"
proof -
  have k: "constant_time_key_id_eq (take 16 (drop 32 data)) (expected_key_id policy) =
      Ok (take 16 (drop 32 data) = expected_key_id policy)"
    using len key by (intro constant_time_key_id_eq_iff) simp_all
  have l: "length (take 4 (drop i data)) = 4" if "i \<le> 152" for i using that len by simp
  have l8: "length (take 8 (drop 24 data)) = 8" using len by simp
  have nat: "(unat (w :: u32) = 92) = (w = 92)" "(unat (w :: u32) = 64) = (w = 64)" for w
    by (rule unat_eq_numeral_u32; simp)+
  have eight: "read_u64 bs = Ok w \<longleftrightarrow> 8 \<le> length bs \<and> w = from_le_bytes (take 8 bs)" for bs w
    by (auto simp: read_u64_def)
  show ?thesis
    unfolding check_header_v2_def v2_layout outcome_simps eight
    using len by (auto simp: header_fields_v2_def v2_layout k le_bytes_eq_iff l l8 nat
        DFIM_BLOCK_SIZE_def not_less)
qed

lemma parse_body_v2_sound:
  assumes e: "92 \<le> signed_end" "signed_end \<le> length data"
    and body: "parse_body_v2 data signed_end bsize bcount = Ok bm"
  obtains fec ps where "take 4 (drop 88 data) = to_le_bytes 4 (of_nat (length fec) :: u32)"
    and "fec \<noteq> []" and "even (length fec)" and "length fec < 2 ^ 32"
    and "drop 92 (take signed_end data) = fec @ concat (map proof_bytes ps)"
    and "length ps = unat bcount" and "\<forall>p \<in> set ps. valid_proof p"
    and "bm = \<lparr>bm_merkle_root = take 32 (drop 56 data), bm_block_size = bsize, bm_block_count = bcount,
                bm_fec_backup = fec, bm_proofs = ps\<rparr>"
proof -
  let ?msg = "take signed_end data"
  define fl where "fl = (from_le_bytes (take 4 (drop 88 data)) :: u32)"
  have f: "92 + unat fl \<le> signed_end" "fl \<noteq> 0" "even (unat fl)"
    and ex: "\<exists>ps. fold_outcome (parse_proof_v2 data signed_end) (92 + unat fl, []) [0..<unat bcount] = Ok (signed_end, ps) \<and>
      bm = \<lparr>bm_merkle_root = take 32 (drop 56 data), bm_block_size = bsize, bm_block_count = bcount,
                bm_fec_backup = take (unat fl) (drop 92 data), bm_proofs = ps\<rparr>"
    using body unfolding parse_body_v2_def v2_layout outcome_simps
    by (auto simp: fl_def is_multiple_of_def mod_2_eq_odd outcome_simps split: if_splits)
  from ex obtain ps where l: "fold_outcome (parse_proof_v2 data signed_end) (92 + unat fl, []) [0..<unat bcount] = Ok (signed_end, ps)"
    and bm: "bm = \<lparr>bm_merkle_root = take 32 (drop 56 data), bm_block_size = bsize, bm_block_count = bcount,
                bm_fec_backup = take (unat fl) (drop 92 data), bm_proofs = ps\<rparr>" by blast
  let ?fec = "take (unat fl) (drop 92 data)"
  have lf: "length ?fec = unat fl" using f e by simp
  from l have pp: "parse_proofs ?msg (92 + unat fl) (unat bcount) = Ok (signed_end, ps)"
    using parse_proofs_v2_iff [OF e(2)] by blast
  have lm: "length ?msg = signed_end" using e by simp
  note c = parse_proofs_canonical [OF pp, unfolded lm, OF f(1)]
  have "length (drop (92 + unat fl) ?msg) = length (concat (map proof_bytes ps))"
    using c e by simp
  then have "drop (92 + unat fl) ?msg = concat (map proof_bytes ps)"
    using c by (metis take_all order_refl)
  moreover have "take (unat fl) (drop 92 ?msg) = ?fec"
    using f(1) by (simp add: drop_take min_def)
  ultimately have d: "drop 92 ?msg = ?fec @ concat (map proof_bytes ps)"
    using drop_split [of 92 ?msg "unat fl"] by simp
  have "take 4 (drop 88 data) = to_le_bytes 4 (of_nat (length ?fec) :: u32)"
    unfolding lf using e by (simp add: fl_def)
  moreover have "?fec \<noteq> []" using lf f(2) by (metis list.size(3) unat_eq_zero)
  moreover have "unat fl < 2 ^ 32" by (rule unat_u32_bound)
  ultimately show ?thesis
    using that [of ?fec ps] d c f(3) bm unfolding lf by blast
qed

lemma parse_body_v2_complete:
  assumes e: "92 \<le> signed_end" "signed_end \<le> length data"
    and fl: "take 4 (drop 88 data) = to_le_bytes 4 (of_nat (length fec) :: u32)"
    and fec: "fec \<noteq> []" "even (length fec)" "length fec < 2 ^ 32"
    and d: "drop 92 (take signed_end data) = fec @ concat (map proof_bytes ps)"
    and ps: "length ps = unat bcount" "\<forall>p \<in> set ps. valid_proof p" and bc: "unat bcount \<le> 64"
  shows "parse_body_v2 data signed_end bsize bcount =
     Ok \<lparr>bm_merkle_root = take 32 (drop 56 data), bm_block_size = bsize, bm_block_count = bcount,
                bm_fec_backup = fec, bm_proofs = ps\<rparr>"
proof -
  let ?msg = "take signed_end data"
  have lm: "length ?msg = signed_end" using e by simp
  have len: "signed_end = 92 + length fec + length (concat (map proof_bytes ps))"
    using arg_cong [OF d, of length] e by simp
  have usz: "length ?msg \<le> USIZE_MAX"
    using length_proofs_bytes [OF ps(2)] ps(1) bc fec(3) unfolding lm len by (simp add: USIZE_MAX_def)
  have dr: "drop (92 + length fec) ?msg = concat (map proof_bytes ps) @ []"
    using arg_cong [OF d, of "drop (length fec)"] by (simp add: add.commute)
  have pp: "parse_proofs ?msg (92 + length fec) (unat bcount) = Ok (signed_end, ps)"
    using parse_proofs_complete [OF dr ps(2) usz] unfolding ps(1) len by simp
  then have pv: "fold_outcome (parse_proof_v2 data signed_end) (92 + length fec, []) [0..<unat bcount] = Ok (signed_end, ps)"
    using parse_proofs_v2_iff [OF e(2)] by blast
  have u: "unat (of_nat (length fec) :: u32) = length fec" using fec(3) by (rule unat_of_nat_u32)
  have fs: "take (length fec) (drop 92 data) = fec"
  proof -
    have "take (length fec) (drop 92 ?msg) = take (length fec) (drop 92 data)"
      using len by (simp add: drop_take min_def)
    then show ?thesis unfolding d by simp
  qed
  have "from_le_bytes (take 4 (drop 88 data)) = (of_nat (length fec) :: u32)" unfolding fl by simp
  then have rd: "and_then (sub_slice data 88 92) read_u32 = Ok (of_nat (length fec) :: u32)"
    using e by (subst read_u32_slice) simp_all
  have "(of_nat (length fec) :: u32) \<noteq> 0" using u fec(1) by (metis length_0_conv unat_0)
  then show ?thesis
    using e len usz pv fs u fec(2) unfolding parse_body_v2_def v2_layout rd
    by (simp add: sub_slice_def checked_add_def is_multiple_of_def even_iff_mod_2_eq_zero)
qed

definition backup_carries_root :: "block_stream_manifest \<Rightarrow> bool" where
  "backup_carries_root m \<longleftrightarrow>
     (case decode_block (fec_backup m) of
        Ok decoded \<Rightarrow> 40 \<le> length decoded \<and> take 32 decoded = merkle_root m | _ \<Rightarrow> False)"

lemma check_backup_v2_iff:
  assumes C: "hash_contract C" and "length (merkle_root m) = 32"
  shows "check_backup_v2 C (to_boot_manifest m) = Ok () \<longleftrightarrow> backup_carries_root m"
proof (cases "decode_block (fec_backup m)")
  case (Ok decoded)
  show ?thesis
  proof (cases "40 \<le> length decoded")
    case True
    then have "constant_time_hash_eq C (merkle_root m) (take 32 decoded) \<longleftrightarrow> merkle_root m = take 32 decoded"
      using constant_time_hash_eq_iff [OF C assms(2)] by simp
    then show ?thesis
      using True Ok by (auto simp: check_backup_v2_def backup_carries_root_def to_boot_manifest_def
          SHA256_LEN_def sub_slice_def)
  qed (use Ok in \<open>simp add: check_backup_v2_def backup_carries_root_def to_boot_manifest_def\<close>)
qed (simp_all add: check_backup_v2_def backup_carries_root_def to_boot_manifest_def)

lemma check_signature_v2_iff:
  assumes "signed_end \<le> length data"
  shows "check_signature_v2 S data signed_end policy = Ok () \<longleftrightarrow>
     verifying_key_ok S (public_key_sec1 policy) \<and> signature_ok S (drop signed_end data) \<and>
     verify_sig S (public_key_sec1 policy) (take signed_end data) (drop signed_end data)"
  using assms by (auto simp: check_signature_v2_def sub_slice_def)

text \<open>The manifests the version 2 parser returns, as a predicate on the bytes of the file.\<close>

definition accepted_v2 ::
  "sig_prims \<Rightarrow> trusted_manifest_policy \<Rightarrow> bytes \<Rightarrow> block_stream_manifest \<Rightarrow> u64 \<Rightarrow> bytes \<Rightarrow> bool" where
  "accepted_v2 S policy data m release sg \<longleftrightarrow>
     data = signed_bytes m release (expected_key_id policy) @ sg \<and> valid_manifest m \<and> backup_carries_root m \<and>
     release \<noteq> 0 \<and> minimum_release policy \<le> release \<and>
     verifying_key_ok S (public_key_sec1 policy) \<and> signature_ok S sg \<and>
     verify_sig S (public_key_sec1 policy) (signed_bytes m release (expected_key_id policy)) sg"

lemma parse_v2_sound:
  assumes C: "hash_contract C" and S: "signature_contract S" and key: "length (expected_key_id policy) = 16"
    and p: "parse_and_verify_boot_sidecar_v2 C S data policy = Ok v"
  obtains m sg where "accepted_v2 S policy data m (vm_release_counter v) sg"
    and "v = \<lparr>vm_manifest = to_boot_manifest m, vm_release_counter = vm_release_counter v,
             vm_key_id = expected_key_id policy\<rparr>"
proof -
  let ?e = "length data - 64"
  have len: "156 \<le> length data"
    using p by (auto simp: parse_and_verify_boot_sidecar_v2_def v2_layout checked_add_def split: if_splits)
  from p obtain bsize bcount release key_id bm where
    h: "check_header_v2 data policy = Ok (bsize, bcount, release, key_id)"
    and s: "check_signature_v2 S data ?e policy = Ok ()"
    and b: "parse_body_v2 data ?e bsize bcount = Ok bm" and k: "check_backup_v2 C bm = Ok ()"
    and v: "v = \<lparr>vm_manifest = bm, vm_release_counter = release, vm_key_id = key_id\<rparr>"
    unfolding parse_and_verify_boot_sidecar_v2_def v2_layout outcome_simps by auto
  note f = h [unfolded check_header_v2_iff [OF len key] header_fields_v2_def]
  have e: "92 \<le> ?e" "?e \<le> length data" using len by simp_all
  from parse_body_v2_sound [OF e b] obtain fec ps
    where fl: "take 4 (drop 88 data) = to_le_bytes 4 (of_nat (length fec) :: u32)"
      and fec: "fec \<noteq> []" "even (length fec)" "length fec < 2 ^ 32"
      and d: "drop 92 (take ?e data) = fec @ concat (map proof_bytes ps)"
      and ps: "length ps = unat bcount" "\<forall>p \<in> set ps. valid_proof p"
      and bm: "bm = \<lparr>bm_merkle_root = take 32 (drop 56 data), bm_block_size = bsize, bm_block_count = bcount,
                bm_fec_backup = fec, bm_proofs = ps\<rparr>" by blast
  let ?m = "\<lparr>merkle_root = take 32 (drop 56 data), block_size = bsize, block_count = bcount,
             fec_backup = fec, proofs = ps\<rparr>"
  have bm': "bm = to_boot_manifest ?m" by (simp add: bm to_boot_manifest_def)
  have valid: "valid_manifest ?m" using f fec ps len by (simp add: valid_manifest_def)
  have "backup_carries_root ?m"
    using k check_backup_v2_iff [OF C, of ?m] len unfolding bm' by simp
  moreover have msg: "take ?e data = signed_bytes ?m release (expected_key_id policy)"
  proof -
    have m92: "92 \<le> length (take ?e data)" using len by simp
    have "take k (drop i (take ?e data)) = take k (drop i data)" if "i + k \<le> 92" for i k
      using that e by (simp add: drop_take min_def)
    note t = this
    have t0: "min 8 ?e = 8" using e by simp
    show ?thesis
      by (subst split_header_v2 [OF m92])
        (use f fl in \<open>simp add: t0 t d signed_bytes_def header_v2_def\<close>)
  qed
  moreover have "data = take ?e data @ drop ?e data" by simp
  ultimately have "accepted_v2 S policy data ?m release (drop ?e data)"
    using s valid f unfolding check_signature_v2_iff [OF e(2)] accepted_v2_def by (metis (no_types))
  then show ?thesis using that [of ?m "drop ?e data"] f by (simp add: v bm')
qed

lemma parse_v2_complete:
  assumes C: "hash_contract C" and S: "signature_contract S" and key: "length (expected_key_id policy) = 16"
    and acc: "accepted_v2 S policy data m release sg"
  shows "parse_and_verify_boot_sidecar_v2 C S data policy =
     Ok \<lparr>vm_manifest = to_boot_manifest m, vm_release_counter = release, vm_key_id = expected_key_id policy\<rparr>"
proof -
  let ?msg = "signed_bytes m release (expected_key_id policy)"
  let ?body = "concat (map proof_bytes (proofs m))"
  note a = acc [unfolded accepted_v2_def] and vm = acc [unfolded accepted_v2_def valid_manifest_def]
  have sg: "length sg = 64" using a signature_len [OF S] by blast
  have h: "length (header_v2 m release (expected_key_id policy)) = 92"
    using vm key by (intro length_header_v2) simp_all
  have data: "data = ?msg @ sg" using a by simp
  have e: "length data - 64 = length ?msg" using sg by (simp add: data)
  have m92: "92 \<le> length ?msg" using h by (simp add: signed_bytes_def)
  have len: "156 \<le> length data" using m92 sg by (simp add: data)
  have mm: "length MANIFEST_MAGIC = 8" by (simp add: MANIFEST_MAGIC_def)
  have r: "length (merkle_root m) = 32" using vm by simp
  have f: "header_fields_v2 data policy (block_size m) (block_count m) release (expected_key_id policy)"
    using vm key r mm by (simp add: header_fields_v2_def data signed_bytes_def header_v2_def)
  have root: "take 32 (drop 56 data) = merkle_root m"
    and fl: "take 4 (drop 88 data) = to_le_bytes 4 (of_nat (length (fec_backup m)) :: u32)"
    using key r mm by (simp_all add: data signed_bytes_def header_v2_def)
  have d: "drop 92 (take (length ?msg) data) = fec_backup m @ ?body"
    using h by (simp add: data signed_bytes_def)
  have "parse_body_v2 data (length ?msg) (block_size m) (block_count m) = Ok (to_boot_manifest m)"
    using parse_body_v2_complete [OF m92 _ fl _ _ _ d] vm data root by (simp add: to_boot_manifest_def)
  moreover have "check_signature_v2 S data (length ?msg) policy = Ok ()"
    using a by (subst check_signature_v2_iff) (simp_all add: data)
  moreover have "check_backup_v2 C (to_boot_manifest m) = Ok ()"
    using a check_backup_v2_iff [OF C r] by simp
  moreover have "check_header_v2 data policy = Ok (block_size m, block_count m, release, expected_key_id policy)"
    using f check_header_v2_iff [OF len key] by blast
  ultimately show ?thesis
    using len sg by (simp add: parse_and_verify_boot_sidecar_v2_def v2_layout checked_add_def checked_sub_def
        USIZE_MAX_def e)
qed

lemma build_signed_eq:
  assumes C: "hash_contract C" and img: "0 < length img" "length img \<le> 262144"
    and rel: "release \<noteq> 0" and sk: "signing_key_ok S sk"
  shows "build_signed_boot_sidecar_v2 C S img sk key_id release =
     (let msg = signed_bytes (sidecar_manifest C img) release key_id in Ok (msg @ sign S sk msg))"
proof -
  let ?bl = "image_blocks img" and ?root = "tree_root (merkle_spec C (image_blocks img))"
  let ?ps = "map (\<lambda>i. \<lparr>steps = honest_path C (map (sha256 C) ?bl) i 0\<rparr>)"
  note n = partition_Ok(3,4) [OF img]
  have ne: "?bl \<noteq> []" using n by (simp add: image_blocks_def)
  have r: "length ?root = 32" by (rule length_tree_root [OF C ne])
  have "append_proof_v2 (merkle_spec C ?bl) blob i =
      Ok (blob @ proof_bytes \<lparr>steps = honest_path C (map (sha256 C) ?bl) i 0\<rparr>)" if "i < length ?bl" for blob i
    using that honest_path_valid [OF C that] n
      foldl_append_concat [of "blob @ [of_nat (length (honest_path C (map (sha256 C) ?bl) i 0))]"
        "map sibling (honest_path C (map (sha256 C) ?bl) i 0)"]
    by (simp add: append_proof_v2_def prove_merkle_spec valid_proof_def MAX_PROOF_STEPS_def proof_bytes_def foldl_map)
  then have prv: "fold_outcome (append_proof_v2 (merkle_spec C ?bl)) blob [0..<k] =
      Ok (blob @ concat (map proof_bytes (?ps [0..<k])))" if "k \<le> length ?bl" for k blob
    using that by (induction k) (simp_all add: fold_outcome_append)
  have enc: "encode_block (metadata_bytes ?root w) =
      Ok (concat (map code_pair (?root @ to_le_bytes 4 (4096 :: u32) @ to_le_bytes 4 w)))" for w
    unfolding metadata_bytes_concat [OF r] using r by (intro encode_block_pairs) auto
  have len: "validate_image_byte_len (length img) = Ok ()" using img by simp
  show ?thesis
    unfolding build_signed_boot_sidecar_v2_def len and_then.simps DFIM_BLOCK_SIZE_def partition_Ok(1) [OF img]
      build_eq_merkle_spec [OF C ne] Let_def enc prv [OF order_refl]
    using rel sk by (simp add: signed_bytes_def header_v2_def sidecar_manifest_def Let_def)
qed

lemma provisioned_backup_carries_root:
  assumes C: "hash_contract C" and img: "0 < length img" "length img \<le> 262144"
  shows "backup_carries_root (sidecar_manifest C img)"
proof -
  let ?root = "tree_root (merkle_spec C (image_blocks img))"
  have "image_blocks img \<noteq> []" using partition_Ok(3) [OF img] by (simp add: image_blocks_def)
  then have r: "length ?root = 32" by (rule length_tree_root [OF C])
  let ?meta = "?root @ to_le_bytes 4 (4096 :: u32) @ to_le_bytes 4 (of_nat (div_ceil (length img) 4096) :: u32)"
  have "decode_block (fec_backup (sidecar_manifest C img)) = Ok ?meta"
    using received_refl [of "fec_backup (sidecar_manifest C img)"] r
    by (intro decode_block_received) (auto simp: sidecar_manifest_def Let_def)
  then show ?thesis using r by (simp add: backup_carries_root_def sidecar_manifest_def Let_def)
qed

lemma built_signed_accepted:
  assumes C: "hash_contract C" and S: "signature_contract S" and img: "0 < length img" "length img \<le> 262144"
    and sk: "signing_key_ok S sk" and key: "length key_id = 16"
    and rel: "release \<noteq> 0" "floor \<le> release"
  shows "accepted_v2 S \<lparr>public_key_sec1 = sec1_point S sk, expected_key_id = key_id, minimum_release = floor\<rparr>
     (let msg = signed_bytes (sidecar_manifest C img) release key_id in msg @ sign S sk msg)
     (sidecar_manifest C img) release (sign S sk (signed_bytes (sidecar_manifest C img) release key_id))"
  using assms sidecar_manifest_valid [OF C img] provisioned_backup_carries_root [OF C img]
  by (simp add: accepted_v2_def Let_def signature_contractD)

text \<open>The encoding determines the manifest, the release counter and the signature.\<close>

lemma signed_bytes_inj:
  assumes "signed_bytes m release key = signed_bytes m' release' key'"
    and "valid_manifest m" and "valid_manifest m'" and "length key = 16" and "length key' = 16"
  shows "m = m'" and "release = release'" and "key = key'"
proof -
  let ?pol = "\<lambda>k. \<lparr>public_key_sec1 = [], expected_key_id = k, minimum_release = 0\<rparr>"
  have v: "length (merkle_root m) = 32" "length (merkle_root m') = 32"
    using assms(2,3) by (simp_all add: valid_manifest_def)
  have h: "length (header_v2 m release key) = length (header_v2 m' release' key')"
    using v assms(4,5) by (simp add: length_header_v2)
  then have hd: "header_v2 m release key = header_v2 m' release' key'"
    and body: "fec_backup m @ concat (map proof_bytes (proofs m)) = fec_backup m' @ concat (map proof_bytes (proofs m'))"
    using assms(1) by (simp_all add: signed_bytes_def)
  have "to_le_bytes 8 release = to_le_bytes 8 release'" and key: "key = key'"
    and bs: "to_le_bytes 4 (block_size m) = to_le_bytes 4 (block_size m')"
    and bc: "to_le_bytes 4 (block_count m) = to_le_bytes 4 (block_count m')"
    and mr: "merkle_root m = merkle_root m'"
    using hd v assms(4,5) by (simp_all add: header_v2_def)
  then show "release = release'" and "key = key'" by (metis word_bytes_roundtrip(3))+
  have fec: "to_le_bytes 4 (of_nat (length (fec_backup m)) :: u32) = to_le_bytes 4 (of_nat (length (fec_backup m')) :: u32)"
    using hd v assms(4,5) by (simp add: header_v2_def)
  have "header_bytes m = header_bytes m'"
    unfolding header_bytes_def using bs bc mr fec by simp
  then have "header_bytes m @ fec_backup m @ concat (map proof_bytes (proofs m)) =
      header_bytes m' @ fec_backup m' @ concat (map proof_bytes (proofs m'))" using body by simp
  then have "serialize_manifest m = serialize_manifest m'"
    using serialize_manifest_valid assms(2,3) by simp
  then show "m = m'" using boot_sidecar.enc_inj assms(2,3) by blast
qed

lemma signed_image_validates:
  assumes "hash_contract C" and "signature_contract S" and "signing_key_ok S sk"
    and "public_key_sec1_from_private S sk = Ok pk"
    and "0 < length img" and "length img \<le> MAX_IMAGE_BYTES" and "length key_id = 16" and "release \<noteq> 0"
  shows "\<exists>blob. build_signed_boot_sidecar_v2 C S img sk key_id release = Ok blob \<and>
     (let r = validate_signed_boot_image_v2 C S img blob
                \<lparr>public_key_sec1 = pk, expected_key_id = key_id, minimum_release = floor\<rparr>
      in if floor \<le> release
         then \<exists>v. r = Ok v \<and> vb_payload (vs_boot v) = img \<and> vs_release_counter v = release \<and> vs_key_id v = key_id
         else \<not> is_ok r)"
proof -
  let ?m = "sidecar_manifest C img"
  let ?msg = "signed_bytes ?m release key_id"
  let ?pol = "\<lparr>public_key_sec1 = pk, expected_key_id = key_id, minimum_release = floor\<rparr>"
  have img: "0 < length img" "length img \<le> 262144" using assms(5,6) by (simp_all add: boot_limits)
  have pk: "pk = sec1_point S sk"
    using assms(4) by (auto simp: public_key_sec1_from_private_def V2_PUBLIC_KEY_LEN_def put_def Let_def split: if_splits)
  let ?blob = "?msg @ sign S sk ?msg"
  have b: "build_signed_boot_sidecar_v2 C S img sk key_id release = Ok ?blob"
    using build_signed_eq [OF assms(1) img assms(8,3)] by (simp add: Let_def)
  show ?thesis
  proof (cases "floor \<le> release")
    case True
    have "parse_and_verify_boot_sidecar_v2 C S ?blob ?pol =
        Ok \<lparr>vm_manifest = to_boot_manifest ?m, vm_release_counter = release, vm_key_id = key_id\<rparr>"
      using parse_v2_complete [OF assms(1,2) _ built_signed_accepted [OF assms(1,2) img assms(3,7,8) True]] assms(7)
      by (simp add: pk Let_def)
    moreover have "(to_boot_manifest ?m)\<lparr>bm_fec_backup := fec_backup ?m\<rparr> = to_boot_manifest ?m"
      by (simp add: to_boot_manifest_def)
    ultimately show ?thesis
      using b True provisioned_image_validates [OF assms(1) img received_refl]
      by (simp add: validate_signed_boot_image_v2_def Let_def)
  next
    case False
    have "\<not> is_ok (validate_signed_boot_image_v2 C S img ?blob ?pol)"
    proof
      assume "is_ok (validate_signed_boot_image_v2 C S img ?blob ?pol)"
      then obtain v where "parse_and_verify_boot_sidecar_v2 C S ?blob ?pol = Ok v"
        by (auto simp: validate_signed_boot_image_v2_def is_ok_iff)
      moreover have "length (expected_key_id ?pol) = 16" using assms(7) by simp
      ultimately obtain m r sg where acc: "accepted_v2 S ?pol ?blob m r sg"
        using parse_v2_sound [OF assms(1,2)] by metis
      note a = acc [unfolded accepted_v2_def, simplified]
      have "length sg = 64" "length (sign S sk ?msg) = 64"
        using a signature_len [OF assms(2)] signature_contractD(1) [OF assms(2,3)] by auto
      then have "?msg = signed_bytes m r key_id" using a by simp
      then have "r = release"
        using signed_bytes_inj(2) [of ?m release key_id m r key_id] sidecar_manifest_valid [OF assms(1) img] a assms(7)
        by simp
      then show False using a False by simp
    qed
    then show ?thesis using b False by (simp add: Let_def)
  qed
qed

section \<open>Properties\<close>

text \<open>
  The rollback baseline is canonical: for a 16-byte key, the parser accepts exactly the payload
  that \<open>build_rollback_baseline\<close> makes for the release it returns, and it never panics.
\<close>

theorem rollback_baseline_canonical:
  assumes "length key_id = 16"
  shows "parse_rollback_baseline data key_id \<noteq> Panic \<and>
     (parse_rollback_baseline data key_id = Ok release \<longleftrightarrow> build_rollback_baseline key_id release = Ok data)"
  using parse_rollback_baseline_iff [OF assms] parse_rollback_baseline_no_panic [OF assms]
    build_rollback_baseline_eq [OF assms] by auto

theorem rollback_baseline_canonical_witness:
  "\<exists>data. build_rollback_baseline (ascii ''DFIM-ROLLBACK-01'') 42 = Ok data \<and>
     parse_rollback_baseline data (ascii ''DFIM-ROLLBACK-01'') = Ok 42"
proof -
  have "build_rollback_baseline (ascii ''DFIM-ROLLBACK-01'') 42 = Ok (baseline_bytes (ascii ''DFIM-ROLLBACK-01'') 42)"
    by (subst build_rollback_baseline_eq) simp_all
  then show ?thesis
    using rollback_baseline_canonical [of "ascii ''DFIM-ROLLBACK-01''" _ 42] by auto
qed

text \<open>
  Signed provisioning and trusted validation compose: for every image of 1 to 262144 bytes, every
  accepted private key, 16-byte key identifier and non-zero release, the signed sidecar is built, and
  under a policy with the signer's public key, that identifier and a floor up to the release it
  validates the image and reports the release; under a higher floor it is refused.
\<close>

theorem signed_sidecar_validates_its_image:
  assumes "hash_contract C" and "signature_contract S" and "signing_key_ok S sk"
    and "public_key_sec1_from_private S sk = Ok pk"
    and "0 < length img" and "length img \<le> MAX_IMAGE_BYTES" and "length key_id = 16" and "release \<noteq> 0"
  shows "\<exists>blob. build_signed_boot_sidecar_v2 C S img sk key_id release = Ok blob \<and>
     (let r = validate_signed_boot_image_v2 C S img blob
                \<lparr>public_key_sec1 = pk, expected_key_id = key_id, minimum_release = floor\<rparr>
      in if floor \<le> release
         then \<exists>v. r = Ok v \<and> vb_payload (vs_boot v) = img \<and> vs_release_counter v = release \<and> vs_key_id v = key_id
         else \<not> is_ok r)"
  by (rule signed_image_validates [OF assms])

text \<open>A concrete signature scheme for the witnesses: a tag computed from the key with the kernel's SHA-256.\<close>

definition sample_tag :: "bytes \<Rightarrow> bytes \<Rightarrow> bytes" where
  "sample_tag sk m = sha256 bpf_prims (sk @ m) @ sha256 bpf_prims (m @ sk)"

definition sample_sig :: sig_prims where
  "sample_sig = \<lparr>signing_key_ok = (\<lambda>sk. length sk = 32), sign = sample_tag, sec1_point = (\<lambda>sk. 2 # sk),
     verifying_key_ok = (\<lambda>pk. length pk = 33), signature_ok = (\<lambda>s. length s = 64),
     verify_sig = (\<lambda>pk m s. s = sample_tag (tl pk) m)\<rparr>"

lemma sample_sig_contract: "signature_contract sample_sig"
  by (simp add: signature_contract_def sample_sig_def sample_tag_def kernel_hash.sha256_len)

lemma sample_key: "signing_key_ok sample_sig (replicate 32 0x11)"
  "public_key_sec1_from_private sample_sig (replicate 32 0x11) = Ok (2 # replicate 32 0x11)"
  by (simp_all add: sample_sig_def public_key_sec1_from_private_def V2_PUBLIC_KEY_LEN_def put_def)

theorem signed_sidecar_validates_its_image_witness:
  "\<exists>blob v. build_signed_boot_sidecar_v2 bpf_prims sample_sig [1, 2, 3] (replicate 32 0x11) (replicate 16 7) 9 = Ok blob \<and>
     validate_signed_boot_image_v2 bpf_prims sample_sig [1, 2, 3] blob
       \<lparr>public_key_sec1 = 2 # replicate 32 0x11, expected_key_id = replicate 16 7, minimum_release = 9\<rparr> = Ok v \<and>
     vs_release_counter v = 9"
  using signed_sidecar_validates_its_image [OF kernel_hash.hash_contract_axioms sample_sig_contract sample_key,
      of "[1, 2, 3]" "replicate 16 7" 9 9]
  by (auto simp: boot_limits Let_def)

text \<open>
  C1. Trusted boot is authentic and cannot be rolled back: if the trusted pipeline accepts an image,
  and the file it was accepted with is not a forgery (its signed part, if the signature verifies, is
  one that the holder of the key produced with \<open>build_signed_boot_sidecar_v2\<close> for an issued pair of
  an image and a release), then the reported release is that of an issued image and not below the floor
  of the policy, and the accepted image is that issued image up to zero padding or yields an explicit
  SHA-256 collision.
\<close>

theorem trusted_boot_authentic:
  assumes "hash_contract C" and "signature_contract S" and "length (expected_key_id policy) = 16"
    and "signing_key_ok S sk"
    and "validate_signed_boot_image_v2 C S img sidecar policy = Ok v"
    and not_forged: "\<And>msg sg. sidecar = msg @ sg \<Longrightarrow> length sg = V2_SIGNATURE_LEN \<Longrightarrow>
       verify_sig S (public_key_sec1 policy) msg sg \<Longrightarrow>
       \<exists>(orig, release) \<in> issued. build_signed_boot_sidecar_v2 C S orig sk (expected_key_id policy) release =
         Ok (msg @ sign S sk msg)"
  shows "minimum_release policy \<le> vs_release_counter v \<and>
     (\<exists>orig vm. (orig, vs_release_counter v) \<in> issued \<and>
        parse_and_verify_boot_sidecar_v2 C S sidecar policy = Ok vm \<and>
        (case image_collision C orig img (bm_proofs (vm_manifest vm)) of
           Some (a, b) \<Rightarrow> a \<noteq> b \<and> sha256 C a = sha256 C b
         | None \<Rightarrow> pad_image img = pad_image orig \<and> (length img = length orig \<longrightarrow> img = orig)))"
proof -
  from assms(5) obtain vm b where p: "parse_and_verify_boot_sidecar_v2 C S sidecar policy = Ok vm"
    and b: "validate_boot_image C img (vm_manifest vm) = Ok b" and v: "vs_release_counter v = vm_release_counter vm"
    by (auto simp: validate_signed_boot_image_v2_def)
  from parse_v2_sound [OF assms(1-3) p] obtain m sg
    where acc: "accepted_v2 S policy sidecar m (vm_release_counter vm) sg"
      and vm: "vm_manifest vm = to_boot_manifest m" by (metis verified_boot_manifest.select_convs(1))
  note a = acc [unfolded accepted_v2_def]
  let ?msg = "signed_bytes m (vm_release_counter vm) (expected_key_id policy)"
  have "length sg = V2_SIGNATURE_LEN" using a signature_len [OF assms(2)] by (simp add: V2_SIGNATURE_LEN_def)
  with not_forged a obtain orig release where iss: "(orig, release) \<in> issued"
    and bld: "build_signed_boot_sidecar_v2 C S orig sk (expected_key_id policy) release = Ok (?msg @ sign S sk ?msg)"
    by blast
  from bld have orig: "0 < length orig" "length orig \<le> 262144" and rel: "release \<noteq> 0"
    by (auto simp: build_signed_boot_sidecar_v2_def split: if_splits)
  let ?o = "sidecar_manifest C orig"
  have "length (sign S sk x) = 64" for x by (rule signature_contractD(1) [OF assms(2,4)])
  then have same: "signed_bytes ?o release (expected_key_id policy) = ?msg"
    using bld build_signed_eq [OF assms(1) orig rel assms(4)] by (simp add: Let_def)
  note inj = signed_bytes_inj [OF same sidecar_manifest_valid [OF assms(1) orig] _ assms(3) assms(3)]
  have m: "m = ?o" and r: "release = vm_release_counter vm" using inj a by auto
  have cnt: "unat (block_count ?o) = length (image_blocks orig)"
    using partition_Ok(4) [OF orig] by (simp add: sidecar_manifest_def Let_def unat_of_nat_u32)
  have "case image_collision C orig img (bm_proofs (vm_manifest vm)) of
      Some (a, b) \<Rightarrow> a \<noteq> b \<and> sha256 C a = sha256 C b | None \<Rightarrow> pad_image img = pad_image orig"
  proof (rule accepted_image_is_original [OF assms(1) orig _ _ _ b])
    show "bm_merkle_root (vm_manifest vm) = tree_root (merkle_spec C (image_blocks orig))"
      by (simp add: vm m to_boot_manifest_def sidecar_manifest_def Let_def)
    show "unat (bm_block_count (vm_manifest vm)) = length (image_blocks orig)"
      using cnt by (simp add: vm m to_boot_manifest_def)
    show "\<forall>p \<in> set (bm_proofs (vm_manifest vm)). valid_proof p"
      using a by (simp add: vm to_boot_manifest_def valid_manifest_def)
  qed
  moreover have "length img = length orig \<Longrightarrow> pad_image img = pad_image orig \<Longrightarrow> img = orig"
    by (simp add: pad_image_def)
  ultimately have "case image_collision C orig img (bm_proofs (vm_manifest vm)) of
      Some (a, b) \<Rightarrow> a \<noteq> b \<and> sha256 C a = sha256 C b
    | None \<Rightarrow> pad_image img = pad_image orig \<and> (length img = length orig \<longrightarrow> img = orig)"
    by (auto split: option.splits)
  moreover have "(orig, vs_release_counter v) \<in> issued" using iss r v by simp
  moreover have "minimum_release policy \<le> vs_release_counter v" using a v by simp
  ultimately show ?thesis using p by blast
qed

theorem trusted_boot_authentic_witness:
  "\<exists>blob v. validate_signed_boot_image_v2 bpf_prims sample_sig [1, 2, 3] blob
       \<lparr>public_key_sec1 = 2 # replicate 32 0x11, expected_key_id = replicate 16 7, minimum_release = 9\<rparr> = Ok v \<and>
     9 \<le> vs_release_counter v \<and> (\<exists>orig. (orig, vs_release_counter v) \<in> {([1, 2, 3 :: u8], 9 :: u64)})"
proof -
  let ?pol = "\<lparr>public_key_sec1 = 2 # replicate 32 0x11, expected_key_id = replicate 16 7, minimum_release = 9\<rparr>"
  let ?msg = "signed_bytes (sidecar_manifest bpf_prims [1, 2, 3]) 9 (replicate 16 7)"
  let ?sg = "sign sample_sig (replicate 32 0x11) ?msg"
  note c = kernel_hash.hash_contract_axioms
  have b: "build_signed_boot_sidecar_v2 bpf_prims sample_sig [1, 2, 3] (replicate 32 0x11) (replicate 16 7) 9 = Ok (?msg @ ?sg)"
    using build_signed_eq [OF c, of "[1, 2, 3]" 9 sample_sig] sample_key(1) by (simp add: Let_def)
  have l: "length ?sg = 64" by (rule signature_contractD(1) [OF sample_sig_contract sample_key(1)])
  have acc: "accepted_v2 sample_sig ?pol (?msg @ ?sg) (sidecar_manifest bpf_prims [1, 2, 3]) 9 ?sg"
    using built_signed_accepted [OF c sample_sig_contract, of "[1, 2, 3]" "replicate 32 0x11" "replicate 16 7" 9 9] sample_key(1)
    by (simp add: Let_def sample_sig_def)
  have "(to_boot_manifest m)\<lparr>bm_fec_backup := fec_backup m\<rparr> = to_boot_manifest m" for m
    by (simp add: to_boot_manifest_def)
  then obtain v where v: "validate_signed_boot_image_v2 bpf_prims sample_sig [1, 2, 3] (?msg @ ?sg) ?pol = Ok v"
    using parse_v2_complete [OF c sample_sig_contract _ acc]
      provisioned_image_validates [OF c _ _ received_refl, of "[1, 2, 3]"]
    by (simp add: validate_signed_boot_image_v2_def)
  have f: "\<exists>(orig, release) \<in> {([1, 2, 3], 9)}.
      build_signed_boot_sidecar_v2 bpf_prims sample_sig orig (replicate 32 0x11) (expected_key_id ?pol) release =
        Ok (msg @ sign sample_sig (replicate 32 0x11) msg)"
    if "?msg @ ?sg = msg @ sg" "length sg = V2_SIGNATURE_LEN" for msg sg
    using that l b by (simp add: V2_SIGNATURE_LEN_def)
  show ?thesis
    using trusted_boot_authentic [OF c sample_sig_contract _ sample_key(1) v, of "{([1, 2, 3], 9)}"] f v by auto
qed

end
