(* ===== verification/Boot_Guard.thy ===== *)
theory Boot_Guard
  imports Signed_Boot
begin

text \<open>
  The UEFI boot guard (\<^verbatim>\<open>dfim_windows_uefi/src/main.rs\<close>): it reads the boot manager and its sidecar from
  the volume, the release floor from an authenticated variable, validates, and hands over to the image,
  or resets the machine. The build script that fixes the deployment's trust anchor
  (\<^verbatim>\<open>dfim_windows_uefi/build.rs\<close>) is modelled too.

  The firmware is the parameter \<open>firmware\<close>: what its calls return. A run of the guard is the list of
  its effects (log lines, calls to \<^verbatim>\<open>load_image\<close>, \<^verbatim>\<open>start_image\<close> and \<^verbatim>\<open>reset\<close>) with the way it ends. Values the
  firmware crate formats itself (the \<^verbatim>\<open>{:?}\<close> of a status or of an error) stay structured in the log
  events.

  The theorems say that the guard fails closed: every run either hands over exactly the bytes that the
  trusted pipeline accepted under the effective floor, or ends in a cold reset without having loaded
  anything; and no input makes it panic.
\<close>

section \<open>Texts\<close>

text \<open>The accessors of \<^verbatim>\<open>dfim_core_engine/src/secrets.rs\<close> that the guard uses; the dash is UTF-8.\<close>

definition phase_bootmgfw_read :: string where "phase_bootmgfw_read = ''BOOTMGFW_READ''"
definition phase_manifest_read :: string where "phase_manifest_read = ''MANIFEST_READ''"
definition phase_manifest_parse :: string where "phase_manifest_parse = ''MANIFEST_PARSE''"
definition phase_integrity_pipeline :: string where "phase_integrity_pipeline = ''INTEGRITY_PIPELINE''"
definition phase_load_image :: string where "phase_load_image = ''LOAD_IMAGE''"
definition phase_start_image :: string where "phase_start_image = ''START_IMAGE''"
definition log_fec_corrected :: string where
  "log_fec_corrected = ''Hamming FEC corrected manifest bit-rot; blocks=''"
definition log_merkle_passed :: string where
  "log_merkle_passed = ''Merkle O(log N) validation passed; blocks=''"
definition log_handoff :: string where
  "log_handoff = ''Handoff to verified bootmgfw.efi via LoadImage/StartImage''"
definition log_gate :: string where
  "log_gate = ''DFIM Windows UEFI Boot Guard '' @ [CHR 0xE2, CHR 0x80, CHR 0x94] @
     '' Layer-0 integrity gate''"
definition log_dfim_fatal_prefix :: string where "log_dfim_fatal_prefix = ''DFIM FATAL phase=''"
definition log_load_image_failed :: string where "log_load_image_failed = ''LoadImage failed:''"
definition log_start_image_failed :: string where "log_start_image_failed = ''StartImage failed:''"
definition log_hw_log_line_prefix :: string where
  "log_hw_log_line_prefix = [CHR 0x0D, CHR 0x0A] @ ''[DFIM-HW-LOG] phase=''"
definition log_hw_log_error_suffix :: string where "log_hw_log_error_suffix = '' error=''"
definition log_halt_line_prefix :: string where
  "log_halt_line_prefix = [CHR 0x0D, CHR 0x0A] @ ''[DFIM] Boot sequence halted '' @
     [CHR 0xE2, CHR 0x80, CHR 0x94] @ '' status=''"
definition log_halt_line_suffix :: string where "log_halt_line_suffix = [CHR 0x0D, CHR 0x0A]"

section \<open>The firmware\<close>

datatype status = ABORTED | SECURITY_VIOLATION | LOAD_ERROR

datatype var_attribute =
    NON_VOLATILE | BOOTSERVICE_ACCESS | TIME_BASED_AUTHENTICATED_WRITE_ACCESS | Other_attribute nat

datatype file_type = Regular | Dir

text \<open>
  An opened file: the type the handle converts to, the size its information gives, and what reading
  into a buffer of a given length returns, the number of bytes read and the buffer.
\<close>

record fw_file =
  into_type :: "file_type option"
  file_size :: "u64 option"
  file_read :: "nat \<Rightarrow> (nat \<times> bytes) option"

record firmware =
  fw_init :: bool
  get_image_file_system :: bool
  open_volume :: bool
  fw_open :: "string \<Rightarrow> fw_file option"
  get_variable :: "string \<Rightarrow> (bytes \<times> var_attribute list) option"
  load_image :: "bytes \<Rightarrow> nat option"
  start_image :: "nat \<Rightarrow> bool"

record deployment_trust =
  BOOT_PUBLIC_KEY :: bytes
  BOOT_KEY_ID :: bytes
  BOOT_MIN_RELEASE :: u64

definition BOOTMGFW_PATH :: string where
  "BOOTMGFW_PATH = [CHR 0x5C] @ ''EFI'' @ [CHR 0x5C] @ ''Microsoft'' @ [CHR 0x5C] @ ''Boot'' @ [CHR 0x5C] @
     ''bootmgfw.efi''"

definition BOOTMGFW_MANIFEST_PATH :: string where
  "BOOTMGFW_MANIFEST_PATH = [CHR 0x5C] @ ''EFI'' @ [CHR 0x5C] @ ''Microsoft'' @ [CHR 0x5C] @ ''Boot'' @
     [CHR 0x5C] @ ''bootmgfw.efi.dfim''"

definition ROLLBACK_VARIABLE_NAME :: string where "ROLLBACK_VARIABLE_NAME = ''DFIMMinRelease''"

section \<open>The build script\<close>

text \<open>A failed assertion or \<^verbatim>\<open>expect\<close> stops the build: \<open>Panic\<close>.\<close>

definition decode_nibble :: "u8 \<Rightarrow> (unit, u8) outcome" where
  "decode_nibble b =
     (if 0x30 \<le> b \<and> b \<le> 0x39 then Ok (b - 0x30)
      else if 0x61 \<le> b \<and> b \<le> 0x66 then Ok (b - 0x61 + 10)
      else if 0x41 \<le> b \<and> b \<le> 0x46 then Ok (b - 0x41 + 10)
      else Panic)"

definition decode_hex_exact :: "nat \<Rightarrow> bytes option \<Rightarrow> (unit, bytes) outcome" where
  "decode_hex_exact n var =
     (case var of None \<Rightarrow> Panic
      | Some text \<Rightarrow>
          if length text \<noteq> n * 2 then Panic
          else fold_outcome (\<lambda>output index.
                 and_then (and_then (index_at text (index * 2)) decode_nibble) (\<lambda>hi.
                 and_then (and_then (index_at text (index * 2 + 1)) decode_nibble) (\<lambda>lo.
                 Ok (output[index := (push_bit 4 hi) OR lo]))))
               (replicate n 0) [0..<n])"

text \<open>\<^verbatim>\<open>str::parse::<u64>\<close>: an optional plus sign and at least one digit, within the type's range.\<close>

definition parse_digits :: "bytes \<Rightarrow> nat option" where
  "parse_digits ds =
     (if ds = [] then None
      else foldl (\<lambda>acc d. case acc of None \<Rightarrow> None
             | Some n \<Rightarrow> if 0x30 \<le> d \<and> d \<le> 0x39 \<and> n * 10 + unat (d - 0x30) < 2 ^ 64
                         then Some (n * 10 + unat (d - 0x30)) else None) (Some 0) ds)"

definition parse_u64 :: "bytes \<Rightarrow> u64 option" where
  "parse_u64 text =
     map_option of_nat (parse_digits (case text of c # cs \<Rightarrow> if c = 0x2B then cs else text | [] \<Rightarrow> []))"

record build_env =
  CARGO_FEATURE_UEFI_APP :: bool
  DFIM_BOOT_PUBLIC_KEY_HEX :: "bytes option"
  DFIM_BOOT_KEY_ID_HEX :: "bytes option"
  DFIM_BOOT_MIN_RELEASE :: "bytes option"

definition uefi_build_script :: "build_env \<Rightarrow> (unit, deployment_trust) outcome" where
  "uefi_build_script env =
     (if CARGO_FEATURE_UEFI_APP env
      then
        and_then (decode_hex_exact 33 (DFIM_BOOT_PUBLIC_KEY_HEX env)) (\<lambda>public_key.
        and_then (index_at public_key 0) (\<lambda>tag.
        if \<not> (tag = 2 \<or> tag = 3) then Panic
        else
          and_then (decode_hex_exact 16 (DFIM_BOOT_KEY_ID_HEX env)) (\<lambda>key_id.
          case DFIM_BOOT_MIN_RELEASE env of None \<Rightarrow> Panic
          | Some text \<Rightarrow>
              (case parse_u64 text of None \<Rightarrow> Panic
               | Some release \<Rightarrow>
                   if \<not> release > 0 then Panic
                   else Ok \<lparr>BOOT_PUBLIC_KEY = public_key, BOOT_KEY_ID = key_id, BOOT_MIN_RELEASE = release\<rparr>))))
      else Ok \<lparr>BOOT_PUBLIC_KEY = replicate 33 0, BOOT_KEY_ID = replicate 16 0, BOOT_MIN_RELEASE = 0\<rparr>)"

section \<open>Reading\<close>

definition required_attributes :: "var_attribute list" where
  "required_attributes = [NON_VOLATILE, BOOTSERVICE_ACCESS, TIME_BASED_AUTHENTICATED_WRITE_ACCESS]"

definition read_authenticated_rollback_floor :: "firmware \<Rightarrow> deployment_trust \<Rightarrow> u64 dfim_result" where
  "read_authenticated_rollback_floor fw trust =
     (case get_variable fw ROLLBACK_VARIABLE_NAME of
        None \<Rightarrow> Err IntegrityFailure
      | Some (data, attributes) \<Rightarrow>
          if \<not> set required_attributes \<subseteq> set attributes then Err IntegrityFailure
          else parse_rollback_baseline data (BOOT_KEY_ID trust))"

definition read_volume_file :: "firmware \<Rightarrow> string \<Rightarrow> bytes dfim_result" where
  "read_volume_file fw path =
     (if \<not> get_image_file_system fw then Err IntegrityFailure
      else if \<not> open_volume fw then Err IntegrityFailure
      else
        case fw_open fw path of None \<Rightarrow> Err IntegrityFailure
        | Some file \<Rightarrow>
            (case into_type file of None \<Rightarrow> Err IntegrityFailure
             | Some Dir \<Rightarrow> Err InvalidParameter
             | Some Regular \<Rightarrow>
                 (case file_size file of None \<Rightarrow> Err IntegrityFailure
                  | Some fsize \<Rightarrow>
                      if fsize = 0 then Err EmptyInput
                      else if unat fsize > USIZE_MAX then Err ParameterOverflow
                      else if unat fsize > MAX_IMAGE_BYTES then Err BufferTooLong
                      else
                        (case file_read file (unat fsize) of None \<Rightarrow> Err IntegrityFailure
                         | Some (n, buffer) \<Rightarrow>
                             if n \<noteq> unat fsize then Err BufferTooShort else Ok buffer))))"

section \<open>The run\<close>

datatype event =
    Info string
  | Info_blocks string u32
  | Warn_blocks string u32
  | Error_line string
  | Error_firmware string
  | Stdout string
  | Halt_line string status string
  | Load_image bytes
  | Start_image nat
  | Unload_image nat
  | Stall nat
  | Cold_reset status

datatype guard_exit = Returned | Returned_err status | Reset | Panicked

definition emit_hardware_log :: "string \<Rightarrow> dfim_error \<Rightarrow> event list" where
  "emit_hardware_log phase err =
     [Error_line (log_dfim_fatal_prefix @ phase @ '' code='' @ as_str err),
      Stdout (log_hw_log_line_prefix @ phase @ phase @ log_hw_log_error_suffix @ as_str err @
        [CHR 0x0D, CHR 0x0A])]"

definition halt_system :: "status \<Rightarrow> event list \<times> guard_exit" where
  "halt_system status =
     ([Halt_line log_halt_line_prefix status log_halt_line_suffix, Stall 5, Cold_reset status], Reset)"

text \<open>\<open>effects\<close> prepends what the run did before.\<close>

definition effects :: "event list \<Rightarrow> event list \<times> guard_exit \<Rightarrow> event list \<times> guard_exit" where
  "effects evs r = (evs @ fst r, snd r)"

definition fatal_halt :: "string \<Rightarrow> dfim_error \<Rightarrow> event list \<times> guard_exit" where
  "fatal_halt phase err = effects (emit_hardware_log phase err) (halt_system SECURITY_VIOLATION)"

text \<open>\<^verbatim>\<open>match r { Ok(x) => x, Err(e) => fatal_halt(phase, e) }\<close> with the rest of the function.\<close>

definition or_halt ::
  "'a dfim_result \<Rightarrow> string \<Rightarrow> ('a \<Rightarrow> event list \<times> guard_exit) \<Rightarrow> event list \<times> guard_exit" where
  "or_halt r phase k = (case r of Ok x \<Rightarrow> k x | Err e \<Rightarrow> fatal_halt phase e | Panic \<Rightarrow> ([], Panicked))"

definition handoff :: "firmware \<Rightarrow> bytes \<Rightarrow> event list \<times> guard_exit" where
  "handoff fw payload =
     effects [Info log_handoff, Load_image payload]
       (case load_image fw payload of
          None \<Rightarrow>
            effects (emit_hardware_log phase_load_image IntegrityFailure @ [Error_firmware log_load_image_failed])
              (halt_system LOAD_ERROR)
        | Some loaded \<Rightarrow>
            effects [Start_image loaded]
              (if start_image fw loaded then ([], Returned)
               else
                 effects (emit_hardware_log phase_start_image IntegrityFailure @
                          [Error_firmware log_start_image_failed, Unload_image loaded])
                   (halt_system LOAD_ERROR)))"

definition run_boot_guard ::
  "hash_prims \<Rightarrow> sig_prims \<Rightarrow> deployment_trust \<Rightarrow> firmware \<Rightarrow> event list \<times> guard_exit" where
  "run_boot_guard C S trust fw =
     (if \<not> fw_init fw then ([], Returned_err ABORTED)
      else
        effects [Info log_gate]
          (or_halt (read_volume_file fw BOOTMGFW_PATH) phase_bootmgfw_read (\<lambda>boot_image.
           or_halt (read_volume_file fw BOOTMGFW_MANIFEST_PATH) phase_manifest_read (\<lambda>manifest_bytes.
           or_halt (read_authenticated_rollback_floor fw trust) phase_manifest_parse (\<lambda>persisted_floor.
           or_halt (effective_minimum_release (BOOT_MIN_RELEASE trust) persisted_floor) phase_manifest_parse (\<lambda>floor.
           or_halt (validate_signed_boot_image_v2 C S boot_image manifest_bytes
                      \<lparr>public_key_sec1 = BOOT_PUBLIC_KEY trust, expected_key_id = BOOT_KEY_ID trust,
                       minimum_release = floor\<rparr>) phase_integrity_pipeline (\<lambda>validated.
           effects [if vb_fec_corrected (vs_boot validated)
                    then Warn_blocks log_fec_corrected (vb_blocks_verified (vs_boot validated))
                    else Info_blocks log_merkle_passed (vb_blocks_verified (vs_boot validated))]
             (handoff fw (vb_payload (vs_boot validated))))))))))"

text \<open>\<open>main\<close> returns a status, \<open>None\<close> for success, unless the machine was reset.\<close>

definition guard_main ::
  "hash_prims \<Rightarrow> sig_prims \<Rightarrow> deployment_trust \<Rightarrow> firmware \<Rightarrow> status option option" where
  "guard_main C S trust fw =
     (case snd (run_boot_guard C S trust fw) of
        Returned \<Rightarrow> Some None | Returned_err s \<Rightarrow> Some (Some s) | Reset \<Rightarrow> None | Panicked \<Rightarrow> None)"

section \<open>No panics\<close>

lemma check_header_v2_no_panic:
  assumes len: "156 \<le> length data" and key: "length (expected_key_id policy) = 16"
  shows "check_header_v2 data policy \<noteq> Panic"
proof -
  have k: "constant_time_key_id_eq (take 16 (drop 32 data)) (expected_key_id policy) =
      Ok (take 16 (drop 32 data) = expected_key_id policy)"
    using len key by (intro constant_time_key_id_eq_iff) simp_all
  have eight: "read_u64 bs \<noteq> Panic" for bs by (simp add: read_u64_def)
  show ?thesis
    unfolding check_header_v2_def v2_layout outcome_simps
    using len by (auto simp: k eight outcome_simps)
qed

lemma parse_proof_v2_no_panic:
  assumes "signed_end \<le> length data" and "fst s \<le> signed_end"
  shows "parse_proof_v2 data signed_end s i \<noteq> Panic"
    and "parse_proof_v2 data signed_end s i = Ok s' \<Longrightarrow> fst s' \<le> signed_end"
proof -
  show "parse_proof_v2 data signed_end s i \<noteq> Panic"
    using assms parse_steps_v2(3) [of "Suc (fst s)" signed_end data]
    by (cases s) (auto simp: parse_proof_v2_def outcome_simps Let_def split: prod.splits)
  show "fst s' \<le> signed_end" if "parse_proof_v2 data signed_end s i = Ok s'"
    using that parse_proof_v2_iff [OF assms(1), of "fst s" "snd s" i "fst s'" "snd s'"] assms(1)
      parse_proof_canonical(3) [of "take signed_end data" "fst s" "fst s'"]
    by auto
qed

lemma parse_body_v2_no_panic:
  assumes "92 \<le> signed_end" and "signed_end \<le> length data"
  shows "parse_body_v2 data signed_end bsize bcount \<noteq> Panic"
proof -
  have loop: "fold_outcome (parse_proof_v2 data signed_end) s [0..<n] \<noteq> Panic \<and>
      (\<forall>s'. fold_outcome (parse_proof_v2 data signed_end) s [0..<n] = Ok s' \<longrightarrow> fst s' \<le> signed_end)"
    if "fst s \<le> signed_end" for s n
    using that by (induction n)
      (auto simp: fold_outcome_append parse_proof_v2_no_panic(1) [OF assms(2)]
        dest!: parse_proof_v2_no_panic(2) [OF assms(2), rotated])
  show ?thesis
    unfolding parse_body_v2_def v2_layout outcome_simps
    using assms loop by (auto simp: outcome_simps)
qed

lemma parse_v2_no_panic:
  assumes "length (expected_key_id policy) = 16"
  shows "parse_and_verify_boot_sidecar_v2 C S data policy \<noteq> Panic"
proof (cases "156 \<le> length data")
  case True
  have "check_backup_v2 C m \<noteq> Panic" for m
    by (auto simp: check_backup_v2_def decode_block_no_panic SHA256_LEN_def outcome_simps)
  moreover have "check_signature_v2 S data (length data - 64) policy \<noteq> Panic"
    by (auto simp: check_signature_v2_def outcome_simps)
  ultimately show ?thesis
    using True check_header_v2_no_panic [OF True assms] parse_body_v2_no_panic [of "length data - 64" data]
    by (auto simp: parse_and_verify_boot_sidecar_v2_def v2_layout checked_add_def checked_sub_def outcome_simps
        split: prod.splits)
qed (auto simp: parse_and_verify_boot_sidecar_v2_def v2_layout checked_add_def USIZE_MAX_def)

lemma validate_signed_no_panic:
  "length (expected_key_id policy) = 16 \<Longrightarrow> validate_signed_boot_image_v2 C S img sidecar policy \<noteq> Panic"
  by (auto simp: validate_signed_boot_image_v2_def parse_v2_no_panic validate_boot_image_no_panic)

lemma read_volume_file_no_panic: "read_volume_file fw path \<noteq> Panic"
  by (auto simp: read_volume_file_def split: option.splits file_type.splits)

lemma read_floor_no_panic:
  "length (BOOT_KEY_ID trust) = 16 \<Longrightarrow> read_authenticated_rollback_floor fw trust \<noteq> Panic"
  by (auto simp: read_authenticated_rollback_floor_def parse_rollback_baseline_no_panic split: option.splits)

section \<open>Handing over\<close>

text \<open>Everything the guard requires before it hands an image over, as one computation.\<close>

definition trusted_payload ::
  "hash_prims \<Rightarrow> sig_prims \<Rightarrow> deployment_trust \<Rightarrow> firmware \<Rightarrow> validated_signed_boot_image dfim_result" where
  "trusted_payload C S trust fw =
     and_then (read_volume_file fw BOOTMGFW_PATH) (\<lambda>boot_image.
     and_then (read_volume_file fw BOOTMGFW_MANIFEST_PATH) (\<lambda>manifest_bytes.
     and_then (read_authenticated_rollback_floor fw trust) (\<lambda>persisted_floor.
     and_then (effective_minimum_release (BOOT_MIN_RELEASE trust) persisted_floor) (\<lambda>floor.
     validate_signed_boot_image_v2 C S boot_image manifest_bytes
       \<lparr>public_key_sec1 = BOOT_PUBLIC_KEY trust, expected_key_id = BOOT_KEY_ID trust,
        minimum_release = floor\<rparr>))))"

lemma effective_minimum_release_eq_Ok:
  "effective_minimum_release a b = Ok f \<longleftrightarrow> a \<noteq> 0 \<and> b \<noteq> 0 \<and> f = max a b"
  by (auto simp: effective_minimum_release_def)

lemma effective_minimum_release_no_panic: "effective_minimum_release a b \<noteq> Panic"
  by (simp add: effective_minimum_release_def)

lemma trusted_payload_no_panic: "length (BOOT_KEY_ID trust) = 16 \<Longrightarrow> trusted_payload C S trust fw \<noteq> Panic"
  by (auto simp: trusted_payload_def read_volume_file_no_panic read_floor_no_panic
      effective_minimum_release_no_panic validate_signed_no_panic)

lemmas run_simps = effects_def fatal_halt_def halt_system_def emit_hardware_log_def

lemma run_accepted:
  assumes "fw_init fw" and "trusted_payload C S trust fw = Ok v"
  shows "run_boot_guard C S trust fw =
     effects [Info log_gate, if vb_fec_corrected (vs_boot v)
                    then Warn_blocks log_fec_corrected (vb_blocks_verified (vs_boot v))
                    else Info_blocks log_merkle_passed (vb_blocks_verified (vs_boot v))]
       (handoff fw (vb_payload (vs_boot v)))"
  using assms by (auto simp: trusted_payload_def run_boot_guard_def or_halt_def effects_def)

lemma run_refused:
  assumes "fw_init fw" and "trusted_payload C S trust fw = Err e"
  shows "\<exists>phase. run_boot_guard C S trust fw = effects [Info log_gate] (fatal_halt phase e)"
  using assms unfolding trusted_payload_def run_boot_guard_def or_halt_def
  by (auto simp: and_then_eq_Err)


lemma handoff_events:
  "Load_image p \<in> set (fst (handoff fw payload)) \<longleftrightarrow> p = payload"
  "Start_image h \<in> set (fst (handoff fw payload)) \<longleftrightarrow> load_image fw payload = Some h"
  "snd (handoff fw payload) = Returned \<longleftrightarrow> (\<exists>h. load_image fw payload = Some h \<and> start_image fw h)"
  "snd (handoff fw payload) = Reset \<longleftrightarrow> \<not> (\<exists>h. load_image fw payload = Some h \<and> start_image fw h)"
  by (auto simp: handoff_def run_simps split: option.splits)

lemma refused_events:
  "Load_image p \<notin> set (fst (fatal_halt phase e))" "Start_image h \<notin> set (fst (fatal_halt phase e))"
  "snd (fatal_halt phase e) = Reset" "last (fst (fatal_halt phase e)) = Cold_reset SECURITY_VIOLATION"
  by (simp_all add: run_simps)

lemma boot_guard_cases:
  assumes "length (BOOT_KEY_ID trust) = 16" and "fw_init fw"
  shows "(\<exists>v. trusted_payload C S trust fw = Ok v \<and>
            (\<forall>p. Load_image p \<in> set (fst (run_boot_guard C S trust fw)) \<longleftrightarrow> p = vb_payload (vs_boot v)) \<and>
            (\<forall>h. Start_image h \<in> set (fst (run_boot_guard C S trust fw)) \<longleftrightarrow>
                 load_image fw (vb_payload (vs_boot v)) = Some h) \<and>
            snd (run_boot_guard C S trust fw) =
              (if \<exists>h. load_image fw (vb_payload (vs_boot v)) = Some h \<and> start_image fw h then Returned else Reset)) \<or>
         (\<exists>e. trusted_payload C S trust fw = Err e \<and>
            (\<forall>p. Load_image p \<notin> set (fst (run_boot_guard C S trust fw))) \<and>
            (\<forall>h. Start_image h \<notin> set (fst (run_boot_guard C S trust fw))) \<and>
            last (fst (run_boot_guard C S trust fw)) = Cold_reset SECURITY_VIOLATION \<and>
            snd (run_boot_guard C S trust fw) = Reset)"
proof (cases "trusted_payload C S trust fw")
  case (Ok v)
  note r = run_accepted [OF assms(2) Ok]
  have "Load_image p \<in> set (fst (run_boot_guard C S trust fw)) \<longleftrightarrow> p = vb_payload (vs_boot v)" for p
    unfolding r by (simp add: effects_def handoff_events)
  moreover have "Start_image h \<in> set (fst (run_boot_guard C S trust fw)) \<longleftrightarrow>
      load_image fw (vb_payload (vs_boot v)) = Some h" for h
    unfolding r by (simp add: effects_def handoff_events)
  moreover have "snd (run_boot_guard C S trust fw) =
      (if \<exists>h. load_image fw (vb_payload (vs_boot v)) = Some h \<and> start_image fw h then Returned else Reset)"
    unfolding r by (simp add: effects_def handoff_events)
  ultimately show ?thesis using Ok by blast
next
  case (Err e)
  obtain phase where r: "run_boot_guard C S trust fw = effects [Info log_gate] (fatal_halt phase e)"
    using run_refused [OF assms(2) Err] by blast
  show ?thesis unfolding r using Err by (simp add: effects_def refused_events) (simp add: run_simps)
qed (simp add: trusted_payload_no_panic [OF assms(1)])

lemma validate_signed_floor:
  assumes "hash_contract C" and "signature_contract S" and "length (expected_key_id policy) = 16"
    and "validate_signed_boot_image_v2 C S img sidecar policy = Ok v"
  shows "minimum_release policy \<le> vs_release_counter v"
proof -
  from assms(4) obtain vm where p: "parse_and_verify_boot_sidecar_v2 C S sidecar policy = Ok vm"
    and v: "vs_release_counter v = vm_release_counter vm"
    by (auto simp: validate_signed_boot_image_v2_def)
  from parse_v2_sound [OF assms(1-3) p] obtain m sg
    where "accepted_v2 S policy sidecar m (vm_release_counter vm) sg" by blast
  then show ?thesis by (simp add: v accepted_v2_def)
qed

section \<open>Properties\<close>


text \<open>A machine without a rollback variable, for the witness.\<close>

definition sample_firmware :: firmware where
  "sample_firmware = \<lparr>fw_init = True, get_image_file_system = True, open_volume = True,
     fw_open = (\<lambda>_. Some \<lparr>into_type = Some Regular, file_size = Some 1, file_read = (\<lambda>n. Some (n, [7]))\<rparr>),
     get_variable = (\<lambda>_. None), load_image = (\<lambda>_. Some 1), start_image = (\<lambda>_. True)\<rparr>"

definition sample_trust :: deployment_trust where
  "sample_trust = \<lparr>BOOT_PUBLIC_KEY = 2 # replicate 32 0x11, BOOT_KEY_ID = replicate 16 7, BOOT_MIN_RELEASE = 3\<rparr>"


text \<open>
  C9. No downgrade through the boot guard: whenever an image is loaded, its sidecar carries a release
  counter that is at least the floor compiled into the guard and at least the floor in the authenticated
  variable, and the variable had all three required attributes.
\<close>

theorem boot_guard_no_downgrade:
  assumes "hash_contract C" and "signature_contract S" and "length (BOOT_KEY_ID trust) = 16"
    and "Load_image p \<in> set (fst (run_boot_guard C S trust fw))"
  shows "\<exists>v data attributes floor.
     trusted_payload C S trust fw = Ok v \<and> p = vb_payload (vs_boot v) \<and>
     get_variable fw ROLLBACK_VARIABLE_NAME = Some (data, attributes) \<and>
     {NON_VOLATILE, BOOTSERVICE_ACCESS, TIME_BASED_AUTHENTICATED_WRITE_ACCESS} \<subseteq> set attributes \<and>
     build_rollback_baseline (BOOT_KEY_ID trust) floor = Ok data \<and>
     BOOT_MIN_RELEASE trust \<le> vs_release_counter v \<and> floor \<le> vs_release_counter v"
proof -
  have i: "fw_init fw" using assms(4) by (auto simp: run_boot_guard_def split: if_splits)
  note fc = boot_guard_cases [OF assms(3) i, of C S]
  obtain v where v: "trusted_payload C S trust fw = Ok v" and p: "p = vb_payload (vs_boot v)"
    using fc assms(4) by blast
  from v obtain img sc persisted floor where
    fl: "read_authenticated_rollback_floor fw trust = Ok persisted"
    and eff: "effective_minimum_release (BOOT_MIN_RELEASE trust) persisted = Ok floor"
    and val: "validate_signed_boot_image_v2 C S img sc \<lparr>public_key_sec1 = BOOT_PUBLIC_KEY trust,
        expected_key_id = BOOT_KEY_ID trust, minimum_release = floor\<rparr> = Ok v"
    by (auto simp: trusted_payload_def)
  have fl2: "floor = max (BOOT_MIN_RELEASE trust) persisted"
    using eff by (simp add: effective_minimum_release_eq_Ok)
  have "floor \<le> vs_release_counter v"
    using validate_signed_floor [OF assms(1,2) _ val] assms(3) by simp
  then have ge: "BOOT_MIN_RELEASE trust \<le> vs_release_counter v" "persisted \<le> vs_release_counter v"
    unfolding fl2 by (simp_all add: max_def split: if_splits)
  obtain data attributes where var: "get_variable fw ROLLBACK_VARIABLE_NAME = Some (data, attributes)"
    "set required_attributes \<subseteq> set attributes" "parse_rollback_baseline data (BOOT_KEY_ID trust) = Ok persisted"
    using fl by (auto simp: read_authenticated_rollback_floor_def split: option.splits if_splits)
  then have "build_rollback_baseline (BOOT_KEY_ID trust) persisted = Ok data"
    using parse_rollback_baseline_iff [OF assms(3)] build_rollback_baseline_eq [OF assms(3)] by simp
  with var ge v p show ?thesis by (auto simp: required_attributes_def)
qed

text \<open>A machine with a signed sidecar and a rollback variable, for the witness.\<close>

definition booting_firmware :: "bytes \<Rightarrow> bytes \<Rightarrow> firmware" where
  "booting_firmware img sidecar = \<lparr>fw_init = True, get_image_file_system = True, open_volume = True,
     fw_open = (\<lambda>path. let data = (if path = BOOTMGFW_PATH then img else sidecar) in
        Some \<lparr>into_type = Some Regular, file_size = Some (of_nat (length data)), file_read = (\<lambda>n. Some (n, data))\<rparr>),
     get_variable = (\<lambda>_. Some (baseline_bytes (replicate 16 7) 5, required_attributes)),
     load_image = (\<lambda>_. Some 1), start_image = (\<lambda>_. True)\<rparr>"

lemma read_booting:
  assumes "0 < length img" and "length img \<le> MAX_IMAGE_BYTES"
    and "0 < length sidecar" and "length sidecar \<le> MAX_IMAGE_BYTES"
  shows "read_volume_file (booting_firmware img sidecar) BOOTMGFW_PATH = Ok img"
    and "read_volume_file (booting_firmware img sidecar) BOOTMGFW_MANIFEST_PATH = Ok sidecar"
proof -
  have u: "unat (of_nat n :: u64) = n" "(of_nat n :: u64) \<noteq> 0" if "0 < n" "n \<le> MAX_IMAGE_BYTES" for n
  proof -
    show "unat (of_nat n :: u64) = n" using that by (intro unat_of_nat_u64) (simp add: boot_limits)
    then show "(of_nat n :: u64) \<noteq> 0" using that by auto
  qed
  note i = u [OF assms(1,2)] and s = u [OF assms(3,4)]
  have b: "length img \<le> USIZE_MAX" "length sidecar \<le> USIZE_MAX"
    using assms by (simp_all add: boot_limits USIZE_MAX_def)
  show "read_volume_file (booting_firmware img sidecar) BOOTMGFW_PATH = Ok img"
    using i assms(2) b by (simp add: read_volume_file_def booting_firmware_def Let_def)
  show "read_volume_file (booting_firmware img sidecar) BOOTMGFW_MANIFEST_PATH = Ok sidecar"
    using s assms(4) b
    by (simp add: read_volume_file_def booting_firmware_def Let_def BOOTMGFW_PATH_def BOOTMGFW_MANIFEST_PATH_def)
qed

lemma length_signed_bytes:
  assumes C: "hash_contract C" and img: "0 < length img" "length img \<le> 262144" and "length key_id = 16"
  shows "length (signed_bytes (sidecar_manifest C img) release key_id) \<le> 92 + 80 + 64 * 513"
proof -
  note v = sidecar_manifest_valid [OF C img, unfolded valid_manifest_def]
  have fl: "length (concat (map code_pair bs)) = 2 * length bs" for bs
    by (induction bs) (auto simp: code_pair_def)
  have "length (fec_backup (sidecar_manifest C img)) = 80"
    using v by (simp add: sidecar_manifest_def Let_def fl)
  moreover have "length (concat (map proof_bytes (proofs (sidecar_manifest C img)))) \<le> 64 * 513"
    using length_proofs_bytes [of "proofs (sidecar_manifest C img)"] v by simp
  ultimately show ?thesis using v assms(4) by (simp add: signed_bytes_def length_header_v2)
qed

theorem boot_guard_no_downgrade_witness:
  "\<exists>sidecar v. trusted_payload bpf_prims sample_sig sample_trust (booting_firmware [1, 2, 3] sidecar) = Ok v \<and>
     3 \<le> vs_release_counter v \<and> 5 \<le> vs_release_counter v"
proof -
  note c = kernel_hash.hash_contract_axioms
  let ?key = "replicate 16 7" and ?sk = "replicate 32 0x11"
  obtain sidecar v where b: "build_signed_boot_sidecar_v2 bpf_prims sample_sig [1, 2, 3] ?sk ?key 9 = Ok sidecar"
    and v: "validate_signed_boot_image_v2 bpf_prims sample_sig [1, 2, 3] sidecar
       \<lparr>public_key_sec1 = 2 # ?sk, expected_key_id = ?key, minimum_release = 5\<rparr> = Ok v"
    and p: "vb_payload (vs_boot v) = [1, 2, 3]"
    using signed_image_validates [OF c sample_sig_contract sample_key, of "[1, 2, 3]" ?key 9 5]
    by (auto simp: boot_limits)
  let ?fw = "booting_firmware [1, 2, 3] sidecar"
  have "length sidecar = length (signed_bytes (sidecar_manifest bpf_prims [1, 2, 3]) 9 ?key) + 64"
    using b build_signed_eq [OF c, of "[1, 2, 3]" 9 sample_sig ?sk ?key] sample_key(1)
      signature_contractD(1) [OF sample_sig_contract sample_key(1)] by (auto simp: Let_def)
  then have "length sidecar \<le> MAX_IMAGE_BYTES" "0 < length sidecar"
    using length_signed_bytes [OF c, of "[1, 2, 3]" ?key 9] by (simp_all add: boot_limits)
  then have rd: "read_volume_file ?fw BOOTMGFW_PATH = Ok [1, 2, 3]" "read_volume_file ?fw BOOTMGFW_MANIFEST_PATH = Ok sidecar"
    using read_booting [of "[1, 2, 3]" sidecar] by (simp_all add: boot_limits)
  have five: "parse_rollback_baseline (baseline_bytes ?key 5) ?key = Ok 5"
    using parse_rollback_baseline_iff [of ?key "baseline_bytes ?key 5" 5] by simp
  have fl: "read_authenticated_rollback_floor ?fw sample_trust = Ok 5"
    using five by (simp add: read_authenticated_rollback_floor_def booting_firmware_def sample_trust_def)
  have tp: "trusted_payload bpf_prims sample_sig sample_trust ?fw = Ok v"
    using v by (simp add: trusted_payload_def rd fl) (simp add: effective_minimum_release_def sample_trust_def)
  have k: "length (BOOT_KEY_ID sample_trust) = 16" by (simp add: sample_trust_def)
  have "Load_image [1, 2, 3] \<in> set (fst (run_boot_guard bpf_prims sample_sig sample_trust ?fw))"
    using boot_guard_cases [OF k, of ?fw bpf_prims sample_sig] tp p by (auto simp: booting_firmware_def)
  from boot_guard_no_downgrade [OF c sample_sig_contract k this] obtain w floor
    where "trusted_payload bpf_prims sample_sig sample_trust ?fw = Ok w"
      and bl: "build_rollback_baseline (BOOT_KEY_ID sample_trust) floor = Ok (baseline_bytes ?key 5)"
      and "BOOT_MIN_RELEASE sample_trust \<le> vs_release_counter w" "floor \<le> vs_release_counter w"
    by (auto simp: booting_firmware_def)
  moreover have "parse_rollback_baseline (baseline_bytes ?key 5) ?key = Ok floor"
    using bl parse_rollback_baseline_iff [of ?key "baseline_bytes ?key 5" floor] build_rollback_baseline_eq [of ?key floor]
    by (auto simp: sample_trust_def split: if_splits)
  then have "floor = 5" using five by simp
  ultimately show ?thesis using tp by (auto simp: sample_trust_def)
qed

subsection \<open>The build script\<close>

lemma decode_nibble_hex:
  assumes "n < 16"
  shows "decode_nibble (HEX ! n) = Ok (of_nat n)"
proof -
  have "n \<in> {0, 1, 2, 3, 4, 5, 6, 7, 8, 9, 10, 11, 12, 13, 14, 15}"
    using assms by (simp only: insert_iff empty_iff) presburger
  then show ?thesis by (auto simp: decode_nibble_def HEX_def)
qed

lemma nibbles_join: "push_bit 4 (of_nat (unat (drop_bit 4 b)) :: u8) OR of_nat (unat (b AND 0x0F)) = b"
proof -
  have m: "(0x0F :: u8) = mask 4" by (simp add: mask_eq_exp_minus_1)
  have "push_bit 4 (drop_bit 4 b) OR (b AND mask 4) = b"
    by (rule bit_word_eqI) (auto simp: bit_simps)
  then show ?thesis by (simp add: m)
qed

lemma decode_pair:
  fixes b :: u8
  shows "decode_nibble (HEX ! unat (drop_bit 4 b)) = Ok (of_nat (unat (drop_bit 4 b)))"
    and "decode_nibble (HEX ! unat (b AND 0x0F)) = Ok (of_nat (unat (b AND 0x0F)))"
proof -
  have "unat (b AND 0x0F) \<le> unat (0x0F :: u8)" using word_and_le1 [of b "0x0F"] by (simp add: word_le_nat_alt)
  then show "decode_nibble (HEX ! unat (b AND 0x0F)) = Ok (of_nat (unat (b AND 0x0F)))"
    by (intro decode_nibble_hex) simp
  have lt: "unat b < 256" using unsigned_less [of b] by simp
  then have d: "unat (drop_bit 4 b) = drop_bit 4 (unat b)"
    by (simp add: unsigned_drop_bit_eq take_bit_nat_eq_self)
  show "decode_nibble (HEX ! unat (drop_bit 4 b)) = Ok (of_nat (unat (drop_bit 4 b)))"
    by (intro decode_nibble_hex) (use lt in \<open>simp only: d, simp add: drop_bit_eq_div\<close>)
qed

lemma nth_hex_pairs:
  "i < length bs \<Longrightarrow> concat (map hex_pair bs) ! (i * 2) = HEX ! unat (drop_bit 4 (bs ! i))"
  "i < length bs \<Longrightarrow> concat (map hex_pair bs) ! (i * 2 + 1) = HEX ! unat (bs ! i AND 0x0F)"
proof (induction bs arbitrary: i)
  case (Cons b bs)
  { case 1 then show ?case using Cons(1) by (cases i) (simp_all add: hex_pair_def) }
  { case 2 then show ?case using Cons(2) by (cases i) (simp_all add: hex_pair_def) }
qed simp_all

lemma length_hex_pairs: "length (concat (map hex_pair bs)) = length bs * 2"
  by (induction bs) (simp_all add: hex_pair_def)

lemma decode_hex_pairs: "decode_hex_exact (length bs) (Some (concat (map hex_pair bs))) = Ok bs"
proof -
  let ?t = "concat (map hex_pair bs)"
  have "fold_outcome (\<lambda>output index.
       and_then (and_then (index_at ?t (index * 2)) decode_nibble) (\<lambda>hi.
       and_then (and_then (index_at ?t (index * 2 + 1)) decode_nibble) (\<lambda>lo.
       Ok (output[index := (push_bit 4 hi) OR lo])))) (replicate (length bs) 0) [0..<k] =
     (Ok (take k bs @ replicate (length bs - k) 0) :: (unit, bytes) outcome)" if "k \<le> length bs" for k
    using that
  proof (induction k)
    case (Suc k)
    then have "(take k bs @ replicate (length bs - k) 0)[k := bs ! k] = take (Suc k) bs @ replicate (length bs - Suc k) 0"
      by (simp add: list_update_append take_Suc_conv_app_nth Suc_diff_Suc [symmetric])
    then show ?case
      using Suc nth_hex_pairs [of k bs] decode_pair [of "bs ! k"] nibbles_join [of "bs ! k"]
      by (simp add: fold_outcome_append index_at_def length_hex_pairs)
  qed simp
  from this [of "length bs"] show ?thesis by (simp add: decode_hex_exact_def length_hex_pairs)
qed

lemma decode_hex_length: "decode_hex_exact n var = Ok bs \<Longrightarrow> length bs = n"
proof -
  have "length out' = length out" if "fold_outcome (\<lambda>output index.
       and_then (and_then (index_at t (index * 2)) decode_nibble) (\<lambda>hi.
       and_then (and_then (index_at t (index * 2 + 1)) decode_nibble) (\<lambda>lo.
       Ok (output[index := (push_bit 4 hi) OR lo])))) out idxs = (Ok out' :: (unit, bytes) outcome)" for out out' idxs t
    using that by (induction idxs arbitrary: out) auto
  then show "decode_hex_exact n var = Ok bs \<Longrightarrow> length bs = n"
    by (fastforce simp: decode_hex_exact_def split: option.splits if_splits)
qed

text \<open>
  C33. The trust anchor of a build is well formed: when the build script succeeds, the key has 33 bytes and
  the key identifier 16, and with the boot application enabled the key is a compressed point and the release
  floor is not zero; and the lowercase hexadecimal of such a key and identifier with the decimal of
  a non-zero release is accepted and yields exactly these values.
\<close>

theorem deployment_trust_wellformed:
  "(uefi_build_script env = Ok trust \<longrightarrow>
      length (BOOT_PUBLIC_KEY trust) = 33 \<and> length (BOOT_KEY_ID trust) = 16 \<and>
      (CARGO_FEATURE_UEFI_APP env \<longrightarrow> hd (BOOT_PUBLIC_KEY trust) \<in> {2, 3} \<and> BOOT_MIN_RELEASE trust \<noteq> 0)) \<and>
   (length pk = 33 \<and> hd pk \<in> {2, 3} \<and> length key_id = 16 \<and> parse_u64 text = Some release \<and> release \<noteq> 0 \<longrightarrow>
      uefi_build_script \<lparr>CARGO_FEATURE_UEFI_APP = True,
        DFIM_BOOT_PUBLIC_KEY_HEX = Some (concat (map hex_pair pk)),
        DFIM_BOOT_KEY_ID_HEX = Some (concat (map hex_pair key_id)), DFIM_BOOT_MIN_RELEASE = Some text\<rparr> =
      Ok \<lparr>BOOT_PUBLIC_KEY = pk, BOOT_KEY_ID = key_id, BOOT_MIN_RELEASE = release\<rparr>)"
    (is "?A \<and> ?B")
proof
  show ?A
    by (auto simp: uefi_build_script_def hd_conv_nth dest!: decode_hex_length split: if_split_asm option.split_asm)
  show ?B
    using decode_hex_pairs [of pk] decode_hex_pairs [of key_id]
    by (cases pk) (auto simp: uefi_build_script_def word_gt_0 index_at_def simp del: and_then_eq_Ok)
qed

theorem deployment_trust_wellformed_witness:
  "uefi_build_script \<lparr>CARGO_FEATURE_UEFI_APP = True,
        DFIM_BOOT_PUBLIC_KEY_HEX = Some (concat (map hex_pair (2 # replicate 32 0x11))),
        DFIM_BOOT_KEY_ID_HEX = Some (concat (map hex_pair (replicate 16 7))), DFIM_BOOT_MIN_RELEASE = Some [0x33]\<rparr> =
      Ok sample_trust"
proof -
  have "parse_u64 [0x33] = Some 3" by (simp add: parse_u64_def parse_digits_def)
  then show ?thesis
    using deployment_trust_wellformed [of _ _ "2 # replicate 32 0x11" "replicate 16 7" "[0x33]" 3]
    by (simp add: sample_trust_def)
qed

end
