(* ===== verification/Enforcement.thy ===== *)
theory Enforcement
  imports Bpf_Sha256
begin

text \<open>
  The Linux enforcement point: the protected-scope policy shared by kernel and user space
  (\<^verbatim>\<open>dfim_core_engine/src/enforcement_policy.rs\<close>), the LSM probe that applies it
  (\<^verbatim>\<open>dfim_linux_kernel/dfim-ebpf/src/main.rs\<close> and \<^verbatim>\<open>vmlinux.rs\<close>), the record it puts into the deny ring, and the
  standalone appraisal of \<^verbatim>\<open>appraisal.rs\<close>.

  Kernel memory, the BTF offsets generated at build time and the room in the ring buffer are
  parameters. The maps are part of the state, so that the probe and the loader's updates can
  interleave: the loader's three map updates and its two attachments are the operations of a step
  relation in which the hooks may fire between any two of them.
\<close>

section \<open>The policy\<close>

definition DFIM_CONFIG_MAGIC :: u32 where "DFIM_CONFIG_MAGIC = from_le_bytes (ascii ''DFIM'')"
definition DFIM_CONFIG_SCHEMA_V1 :: u32 where "DFIM_CONFIG_SCHEMA_V1 = 1"
definition DFIM_PROFILE_PROTECTED_SCOPE :: u32 where "DFIM_PROFILE_PROTECTED_SCOPE = 1"
definition DFIM_CONFIG_FLAG_ENFORCEMENT_READY :: u32 where "DFIM_CONFIG_FLAG_ENFORCEMENT_READY = 1"
definition DFIM_SCOPE_PENDING :: u32 where "DFIM_SCOPE_PENDING = 0"
definition DFIM_SCOPE_ACTIVE :: u32 where "DFIM_SCOPE_ACTIVE = 1"

record dfim_config_v1 =
  cfg_magic :: u32
  cfg_schema_version :: u32
  cfg_struct_size :: u32
  cfg_deployment_profile :: u32
  cfg_policy_generation :: u64
  cfg_flags :: u32
  cfg_reserved :: u32

text \<open>\<^verbatim>\<open>size_of::<DfimConfigV1>()\<close>: six 32-bit fields and one 64-bit field, without padding.\<close>

definition CONFIG_SIZE :: u32 where "CONFIG_SIZE = 32"

definition production :: "u64 \<Rightarrow> dfim_config_v1" where
  "production generation =
     \<lparr>cfg_magic = DFIM_CONFIG_MAGIC, cfg_schema_version = DFIM_CONFIG_SCHEMA_V1, cfg_struct_size = CONFIG_SIZE,
      cfg_deployment_profile = DFIM_PROFILE_PROTECTED_SCOPE, cfg_policy_generation = generation,
      cfg_flags = DFIM_CONFIG_FLAG_ENFORCEMENT_READY, cfg_reserved = 0\<rparr>"

definition config_is_production_ready :: "dfim_config_v1 \<Rightarrow> bool" where
  "config_is_production_ready c \<longleftrightarrow>
     cfg_magic c = DFIM_CONFIG_MAGIC \<and> cfg_schema_version c = DFIM_CONFIG_SCHEMA_V1 \<and>
     cfg_struct_size c = CONFIG_SIZE \<and> cfg_deployment_profile c = DFIM_PROFILE_PROTECTED_SCOPE \<and>
     cfg_policy_generation c \<noteq> 0 \<and> cfg_flags c AND DFIM_CONFIG_FLAG_ENFORCEMENT_READY \<noteq> 0 \<and>
     cfg_reserved c = 0"

record scope_key =
  sk_device_id :: u64
  sk_inode :: u64

record scope_entry_v1 =
  se_policy_generation :: u64
  se_state :: u32
  se_reserved :: u32
  se_expected_merkle_root :: bytes

definition pending_entry :: "u64 \<Rightarrow> bytes \<Rightarrow> scope_entry_v1" where
  "pending_entry generation root =
     \<lparr>se_policy_generation = generation, se_state = DFIM_SCOPE_PENDING, se_reserved = 0,
      se_expected_merkle_root = root\<rparr>"

definition active_entry :: "u64 \<Rightarrow> bytes \<Rightarrow> scope_entry_v1" where
  "active_entry generation root =
     \<lparr>se_policy_generation = generation, se_state = DFIM_SCOPE_ACTIVE, se_reserved = 0,
      se_expected_merkle_root = root\<rparr>"

datatype enforcement_decision =
    AllowUnprotected
  | AllowPendingEnrollment
  | AllowProtectedToIma
  | DenyInvalidScope
  | DenyInvalidConfig
  | DenyStaleGeneration

primrec decision_code :: "enforcement_decision \<Rightarrow> u32" where
  "decision_code AllowUnprotected = 0"
| "decision_code AllowPendingEnrollment = 1"
| "decision_code AllowProtectedToIma = 2"
| "decision_code DenyInvalidScope = 3"
| "decision_code DenyInvalidConfig = 4"
| "decision_code DenyStaleGeneration = 5"

record deny_event_v1 =
  de_device_id :: u64
  de_inode :: u64
  de_reason :: u32
  de_policy_generation :: u64

definition from_decision :: "u64 \<Rightarrow> u64 \<Rightarrow> enforcement_decision \<Rightarrow> u64 \<Rightarrow> deny_event_v1" where
  "from_decision device_id ino decision generation =
     \<lparr>de_device_id = device_id, de_inode = ino, de_reason = decision_code decision,
      de_policy_generation = generation\<rparr>"

definition evaluate_enforcement ::
  "scope_entry_v1 option \<Rightarrow> dfim_config_v1 option \<Rightarrow> enforcement_decision" where
  "evaluate_enforcement scope config =
     (case scope of None \<Rightarrow> AllowUnprotected
      | Some s \<Rightarrow>
          if se_reserved s \<noteq> 0 \<or> se_policy_generation s = 0 then DenyInvalidScope
          else if se_state s = DFIM_SCOPE_PENDING then AllowPendingEnrollment
          else if se_state s \<noteq> DFIM_SCOPE_ACTIVE then DenyInvalidScope
          else
            (case config of None \<Rightarrow> DenyInvalidConfig
             | Some c \<Rightarrow>
                 if \<not> config_is_production_ready c then DenyInvalidConfig
                 else if cfg_policy_generation c \<noteq> se_policy_generation s then DenyStaleGeneration
                 else AllowProtectedToIma))"

section \<open>The probe\<close>

text \<open>
  \<^verbatim>\<open>bpf_probe_read_kernel\<close> at the three types the probe reads, and the offsets of
  \<^verbatim>\<open>vmlinux_offsets.rs\<close>.
\<close>

record kernel_memory =
  read_ptr :: "u64 \<Rightarrow> u64 option"
  read_word64 :: "u64 \<Rightarrow> u64 option"
  read_word32 :: "u64 \<Rightarrow> u32 option"

record btf_offsets =
  LINUX_BINPRM_FILE :: u64
  FILE_F_INODE :: u64
  INODE_I_INO :: u64
  INODE_I_SB :: u64
  SUPER_BLOCK_S_DEV :: u64

definition bpf_core_read_at :: "(u64 \<Rightarrow> 'a option) \<Rightarrow> u64 \<Rightarrow> u64 \<Rightarrow> 'a option" where
  "bpf_core_read_at rd base off = (if base = 0 then None else rd (base + off))"

definition scope_key_from_file :: "kernel_memory \<Rightarrow> btf_offsets \<Rightarrow> u64 \<Rightarrow> scope_key option" where
  "scope_key_from_file mem offs file =
     Option.bind (bpf_core_read_at (read_ptr mem) file (FILE_F_INODE offs)) (\<lambda>ino.
     if ino = 0 then None
     else
       Option.bind (bpf_core_read_at (read_word64 mem) ino (INODE_I_INO offs)) (\<lambda>inode_number.
       Option.bind (bpf_core_read_at (read_ptr mem) ino (INODE_I_SB offs)) (\<lambda>super_block.
       if super_block = 0 then None
       else
         Option.bind (bpf_core_read_at (read_word32 mem) super_block (SUPER_BLOCK_S_DEV offs)) (\<lambda>dev.
         Some \<lparr>sk_device_id = ucast dev, sk_inode = inode_number\<rparr>))))"

definition scope_key_from_bprm :: "kernel_memory \<Rightarrow> btf_offsets \<Rightarrow> u64 \<Rightarrow> scope_key option" where
  "scope_key_from_bprm mem offs bprm =
     Option.bind (bpf_core_read_at (read_ptr mem) bprm (LINUX_BINPRM_FILE offs)) (\<lambda>file.
     scope_key_from_file mem offs file)"

definition DFIM_DENY :: int where "DFIM_DENY = - 1"

text \<open>The maps the probe shares with user space.\<close>

record lsm_maps =
  dfim_scope :: "scope_key \<rightharpoonup> scope_entry_v1"
  dfim_config :: "dfim_config_v1 option"
  deny_ring :: "deny_event_v1 list"

definition record_deny_event ::
  "bool \<Rightarrow> scope_key \<Rightarrow> scope_entry_v1 option \<Rightarrow> dfim_config_v1 option \<Rightarrow> enforcement_decision \<Rightarrow> lsm_maps \<Rightarrow>
   lsm_maps" where
  "record_deny_event room key scope config decision st =
     (let generation =
        (case (case map_option se_policy_generation scope of Some g \<Rightarrow> Some g
               | None \<Rightarrow> map_option cfg_policy_generation config) of
           Some g \<Rightarrow> g | None \<Rightarrow> 0);
          event = from_decision (sk_device_id key) (sk_inode key) decision generation
      in if room then st\<lparr>deny_ring := deny_ring st @ [event]\<rparr> else st)"

text \<open>\<^verbatim>\<open>Result<i32, i32>\<close>: \<open>Inr\<close> is \<^verbatim>\<open>Ok\<close>, \<open>Inl\<close> is \<^verbatim>\<open>Err\<close>. \<open>room\<close> says whether the ring has room for a record.\<close>

definition enforce_dfim_policy :: "bool \<Rightarrow> scope_key \<Rightarrow> lsm_maps \<Rightarrow> lsm_maps \<times> (int + int)" where
  "enforce_dfim_policy room key st =
     (let scope = dfim_scope st key; config = dfim_config st; decision = evaluate_enforcement scope config in
      case decision of
        AllowUnprotected \<Rightarrow> (st, Inr 0)
      | AllowPendingEnrollment \<Rightarrow> (st, Inr 0)
      | AllowProtectedToIma \<Rightarrow> (st, Inr 0)
      | _ \<Rightarrow> (record_deny_event room key scope config decision st, Inl DFIM_DENY))"

definition try_bprm_check_security ::
  "kernel_memory \<Rightarrow> btf_offsets \<Rightarrow> bool \<Rightarrow> u64 \<Rightarrow> lsm_maps \<Rightarrow> lsm_maps \<times> (int + int)" where
  "try_bprm_check_security mem offs room bprm st =
     (case scope_key_from_bprm mem offs bprm of None \<Rightarrow> (st, Inr 0)
      | Some key \<Rightarrow> enforce_dfim_policy room key st)"

definition try_kernel_module_from_file ::
  "kernel_memory \<Rightarrow> btf_offsets \<Rightarrow> bool \<Rightarrow> u64 \<Rightarrow> lsm_maps \<Rightarrow> lsm_maps \<times> (int + int)" where
  "try_kernel_module_from_file mem offs room file st =
     (case scope_key_from_file mem offs file of None \<Rightarrow> (st, Inr 0)
      | Some key \<Rightarrow> enforce_dfim_policy room key st)"

definition hook_code :: "int + int \<Rightarrow> int" where
  "hook_code r = (case r of Inr code \<Rightarrow> code | Inl code \<Rightarrow> code)"

definition bprm_check_security ::
  "kernel_memory \<Rightarrow> btf_offsets \<Rightarrow> bool \<Rightarrow> u64 \<Rightarrow> lsm_maps \<Rightarrow> lsm_maps \<times> int" where
  "bprm_check_security mem offs room bprm st = apsnd hook_code (try_bprm_check_security mem offs room bprm st)"

definition kernel_module_from_file ::
  "kernel_memory \<Rightarrow> btf_offsets \<Rightarrow> bool \<Rightarrow> u64 \<Rightarrow> lsm_maps \<Rightarrow> lsm_maps \<times> int" where
  "kernel_module_from_file mem offs room file st = apsnd hook_code (try_kernel_module_from_file mem offs room file st)"

section \<open>The deny record\<close>

text \<open>
  The bytes of a record in the ring (\<^verbatim>\<open>repr(C)\<close> on a little-endian target): four bytes of padding follow the
  reason, whose values are unspecified. \<^verbatim>\<open>deny_monitor.rs\<close> copies the first 32 bytes back into the structure.
\<close>

definition DENY_EVENT_SIZE :: nat where "DENY_EVENT_SIZE = 32"

definition deny_event_bytes :: "bytes \<Rightarrow> deny_event_v1 \<Rightarrow> bytes" where
  "deny_event_bytes padding e =
     to_le_bytes 8 (de_device_id e) @ to_le_bytes 8 (de_inode e) @ to_le_bytes 4 (de_reason e) @ padding @
     to_le_bytes 8 (de_policy_generation e)"

definition bytemuck_must_read :: "bytes \<Rightarrow> deny_event_v1" where
  "bytemuck_must_read raw =
     \<lparr>de_device_id = from_le_bytes (take 8 raw), de_inode = from_le_bytes (take 8 (drop 8 raw)),
      de_reason = from_le_bytes (take 4 (drop 16 raw)),
      de_policy_generation = from_le_bytes (take 8 (drop 24 raw))\<rparr>"

text \<open>\<^verbatim>\<open>parse_deny_event\<close> up to the construction of the SIEM event.\<close>

definition decode_deny_record :: "bytes \<Rightarrow> (u64 \<times> u64 \<times> enforcement_decision \<times> u64) option" where
  "decode_deny_record bs =
     (if length bs < DENY_EVENT_SIZE then None
      else
        let rec = bytemuck_must_read (take DENY_EVENT_SIZE bs) in
        Option.bind
          (if de_reason rec = 3 then Some DenyInvalidScope
           else if de_reason rec = 4 then Some DenyInvalidConfig
           else if de_reason rec = 5 then Some DenyStaleGeneration
           else None)
          (\<lambda>decision. Some (de_device_id rec, de_inode rec, decision, de_policy_generation rec)))"

section \<open>Standalone appraisal\<close>

text \<open>
  \<^verbatim>\<open>appraisal.rs\<close> keeps its own maps, keyed by inode and device. The deny record's time stamp and process are
  values of BPF helpers, the argument \<open>now\<close>.
\<close>

record image_integrity_entry =
  ie_expected_digest :: bytes
  ie_merkle_root :: bytes
  ie_block_count :: u16
  ie_policy_id :: u32
  ie_flags :: u8

datatype deny_reason =
    NotInScope | IntegrityPassed | DigestMismatch | MerkleFailure | MissingEntry | AttestationMissing
  | RollbackViolation | ConfigError

primrec deny_reason_code :: "deny_reason \<Rightarrow> u32" where
  "deny_reason_code NotInScope = 0"
| "deny_reason_code IntegrityPassed = 1"
| "deny_reason_code DigestMismatch = 2"
| "deny_reason_code MerkleFailure = 3"
| "deny_reason_code MissingEntry = 4"
| "deny_reason_code AttestationMissing = 5"
| "deny_reason_code RollbackViolation = 6"
| "deny_reason_code ConfigError = 7"

record appraisal_event =
  ae_timestamp_ns :: u64
  ae_inode :: u64
  ae_device :: u32
  ae_reason :: u32
  ae_expected_prefix :: bytes
  ae_actual_prefix :: bytes
  ae_pid :: u32

record appraisal_maps =
  ap_scope :: "u64 \<times> u32 \<rightharpoonup> scope_entry_v1"
  ap_images :: "u64 \<times> u32 \<rightharpoonup> image_integrity_entry"
  ap_config :: "dfim_config_v1 option"
  ap_events :: "appraisal_event list"

definition emit_deny_event :: "u64 \<times> u64 \<Rightarrow> u64 \<Rightarrow> u32 \<Rightarrow> u32 \<Rightarrow> appraisal_maps \<Rightarrow> appraisal_maps" where
  "emit_deny_event now ino device reason st =
     st\<lparr>ap_events := ap_events st @
        [\<lparr>ae_timestamp_ns = fst now, ae_inode = ino, ae_device = device, ae_reason = reason,
          ae_expected_prefix = replicate 8 0, ae_actual_prefix = replicate 8 0, ae_pid = ucast (snd now)\<rparr>]\<rparr>"

definition verify_merkle_leaf :: "hash_prims \<Rightarrow> bytes \<Rightarrow> bytes \<Rightarrow> nat \<Rightarrow> bool" where
  "verify_merkle_leaf C leaf_digest root block_count =
     (let zero = replicate SHA256_LEN 0 in
      if constant_time_hash_eq C root zero then True
      else \<not> constant_time_hash_eq C leaf_digest zero)"

definition appraise_file ::
  "hash_prims \<Rightarrow> u64 \<times> u64 \<Rightarrow> u64 \<Rightarrow> u32 \<Rightarrow> bytes \<Rightarrow> appraisal_maps \<Rightarrow> appraisal_maps \<times> int" where
  "appraise_file C now ino device file_digest st =
     (let key = (ino, device) in
      case ap_scope st key of None \<Rightarrow> (st, 0)
      | Some _ \<Rightarrow>
          (case ap_images st key of
             None \<Rightarrow> (emit_deny_event now ino device (deny_reason_code MissingEntry) st, - 1)
           | Some integrity \<Rightarrow>
               if ie_flags integrity AND 1 \<noteq> 0
               then (emit_deny_event now ino device (deny_reason_code AttestationMissing) st, - 1)
               else if ie_block_count integrity = 0
               then
                 (if \<not> constant_time_hash_eq C file_digest (ie_expected_digest integrity)
                  then (emit_deny_event now ino device (deny_reason_code DigestMismatch) st, - 1)
                  else (st, 0))
               else if \<not> verify_merkle_leaf C file_digest (ie_merkle_root integrity) (unat (ie_block_count integrity))
               then (emit_deny_event now ino device (deny_reason_code MerkleFailure) st, - 1)
               else (st, 0)))"

text \<open>The hooks of that file, which do not call it.\<close>

definition dfim_bprm_check :: "appraisal_maps \<Rightarrow> appraisal_maps \<times> int" where "dfim_bprm_check st = (st, 0)"
definition dfim_file_mmap :: "appraisal_maps \<Rightarrow> appraisal_maps \<times> int" where "dfim_file_mmap st = (st, 0)"
definition dfim_inode_permission :: "appraisal_maps \<Rightarrow> appraisal_maps \<times> int" where "dfim_inode_permission st = (st, 0)"
definition dfim_file_open :: "appraisal_maps \<Rightarrow> appraisal_maps \<times> int" where "dfim_file_open st = (st, 0)"
definition dfim_kernel_module :: "appraisal_maps \<Rightarrow> appraisal_maps \<times> int" where "dfim_kernel_module st = (st, 0)"

definition insert_scope_entry :: "u64 \<Rightarrow> u32 \<Rightarrow> scope_entry_v1 \<Rightarrow> appraisal_maps \<Rightarrow> appraisal_maps" where
  "insert_scope_entry ino device entry st = st\<lparr>ap_scope := (ap_scope st)((ino, device) \<mapsto> entry)\<rparr>"

definition insert_integrity_entry ::
  "u64 \<Rightarrow> u32 \<Rightarrow> bytes \<Rightarrow> bytes \<Rightarrow> u16 \<Rightarrow> u32 \<Rightarrow> appraisal_maps \<Rightarrow> appraisal_maps" where
  "insert_integrity_entry ino device digest root block_count policy_id st =
     st\<lparr>ap_images := (ap_images st)((ino, device) \<mapsto>
        \<lparr>ie_expected_digest = digest, ie_merkle_root = root, ie_block_count = block_count,
         ie_policy_id = policy_id, ie_flags = 0\<rparr>)\<rparr>"

definition set_config :: "dfim_config_v1 \<Rightarrow> appraisal_maps \<Rightarrow> appraisal_maps" where
  "set_config config st = st\<lparr>ap_config := Some config\<rparr>"

section \<open>Enrolment\<close>

text \<open>The loader's updates of the maps and the attachment of a hook.\<close>

datatype loader_op = Prepare | Publish | Commit | Attach string

record lsm_system =
  sys_maps :: lsm_maps
  sys_attached :: "string list"

definition prepare_scope_entry :: "scope_key \<Rightarrow> u64 \<Rightarrow> bytes \<Rightarrow> lsm_maps \<Rightarrow> lsm_maps" where
  "prepare_scope_entry key generation root st =
     st\<lparr>dfim_scope := (dfim_scope st)(key \<mapsto> pending_entry generation root)\<rparr>"

definition publish_production_config :: "u64 \<Rightarrow> lsm_maps \<Rightarrow> lsm_maps" where
  "publish_production_config generation st = st\<lparr>dfim_config := Some (production generation)\<rparr>"

definition commit_scope_entry :: "scope_key \<Rightarrow> u64 \<Rightarrow> bytes \<Rightarrow> lsm_maps \<Rightarrow> lsm_maps" where
  "commit_scope_entry key generation root st =
     st\<lparr>dfim_scope := (dfim_scope st)(key \<mapsto> active_entry generation root)\<rparr>"

primrec apply_op :: "scope_key \<Rightarrow> u64 \<Rightarrow> bytes \<Rightarrow> loader_op \<Rightarrow> lsm_system \<Rightarrow> lsm_system" where
  "apply_op key g root Prepare s = s\<lparr>sys_maps := prepare_scope_entry key g root (sys_maps s)\<rparr>"
| "apply_op key g root Publish s = s\<lparr>sys_maps := publish_production_config g (sys_maps s)\<rparr>"
| "apply_op key g root Commit s = s\<lparr>sys_maps := commit_scope_entry key g root (sys_maps s)\<rparr>"
| "apply_op key g root (Attach h) s = s\<lparr>sys_attached := sys_attached s @ [h]\<rparr>"

definition enrolment_script :: "loader_op list" where
  "enrolment_script =
     [Prepare, Publish, Commit, Attach ''bprm_check_security'', Attach ''kernel_module_from_file'']"

text \<open>
  The maps of a freshly loaded object: the scope is empty; \<open>c0\<close> is what the configuration array holds then
  (the kernel fills it with zeros).
\<close>

definition fresh_system :: "dfim_config_v1 option \<Rightarrow> lsm_system" where
  "fresh_system c0 = \<lparr>sys_maps = \<lparr>dfim_scope = Map.empty, dfim_config = c0, deny_ring = []\<rparr>, sys_attached = []\<rparr>"

text \<open>
  What can happen while an asset is being enrolled: the loader does its next operation, or some task
  executes a file, for which the hooks ask the policy (also before they are attached, which
  only adds behaviours).
\<close>

inductive enrol_step ::
  "scope_key \<Rightarrow> u64 \<Rightarrow> bytes \<Rightarrow> loader_op list \<times> lsm_system \<Rightarrow> loader_op list \<times> lsm_system \<Rightarrow> bool"
  for key :: scope_key and g :: u64 and root :: bytes where
  loader: "enrol_step key g root (op # ops, s) (ops, apply_op key g root op s)"
| exec: "enrol_step key g root (ops, s) (ops, s\<lparr>sys_maps := fst (enforce_dfim_policy room k (sys_maps s))\<rparr>)"

inductive enrol_reachable ::
  "dfim_config_v1 option \<Rightarrow> scope_key \<Rightarrow> u64 \<Rightarrow> bytes \<Rightarrow> loader_op list \<times> lsm_system \<Rightarrow> bool"
  for c0 :: "dfim_config_v1 option" and key :: scope_key and g :: u64 and root :: bytes where
  start: "enrol_reachable c0 key g root (enrolment_script, fresh_system c0)"
| step: "enrol_reachable c0 key g root x \<Longrightarrow> enrol_step key g root x y \<Longrightarrow> enrol_reachable c0 key g root y"

inductive_cases enrol_stepE: "enrol_step key g root (ops, s) y"

section \<open>Decisions\<close>

definition is_deny :: "enforcement_decision \<Rightarrow> bool" where
  "is_deny d \<longleftrightarrow> d \<in> {DenyInvalidScope, DenyInvalidConfig, DenyStaleGeneration}"

lemma production_ready: "config_is_production_ready (production g) \<longleftrightarrow> g \<noteq> 0"
  by (simp add: config_is_production_ready_def production_def DFIM_CONFIG_FLAG_ENFORCEMENT_READY_def)

lemma evaluate_pending: "g \<noteq> 0 \<Longrightarrow> evaluate_enforcement (Some (pending_entry g root)) c = AllowPendingEnrollment"
  by (simp add: evaluate_enforcement_def pending_entry_def)

lemma evaluate_active:
  "g \<noteq> 0 \<Longrightarrow> evaluate_enforcement (Some (active_entry g root)) c =
     (case c of None \<Rightarrow> DenyInvalidConfig
      | Some c \<Rightarrow> if \<not> config_is_production_ready c then DenyInvalidConfig
                  else if cfg_policy_generation c \<noteq> g then DenyStaleGeneration else AllowProtectedToIma)"
  by (simp add: evaluate_enforcement_def active_entry_def DFIM_SCOPE_ACTIVE_def DFIM_SCOPE_PENDING_def split: option.split)

lemma enforce_allow:
  "\<not> is_deny (evaluate_enforcement (dfim_scope st k) (dfim_config st)) \<Longrightarrow> enforce_dfim_policy room k st = (st, Inr 0)"
  by (cases "evaluate_enforcement (dfim_scope st k) (dfim_config st)")
    (simp_all add: enforce_dfim_policy_def is_deny_def)

lemma enforce_deny:
  "is_deny (evaluate_enforcement (dfim_scope st k) (dfim_config st)) \<Longrightarrow>
   enforce_dfim_policy room k st =
     (record_deny_event room k (dfim_scope st k) (dfim_config st)
        (evaluate_enforcement (dfim_scope st k) (dfim_config st)) st, Inl DFIM_DENY)"
  by (cases "evaluate_enforcement (dfim_scope st k) (dfim_config st)")
    (simp_all add: enforce_dfim_policy_def is_deny_def)

lemma denied_scope: "is_deny (evaluate_enforcement scope c) \<Longrightarrow> \<exists>s. scope = Some s"
  by (cases scope) (simp_all add: evaluate_enforcement_def is_deny_def)

lemma evaluate_allow_iff:
  "evaluate_enforcement (Some s) c = AllowProtectedToIma \<longleftrightarrow>
     se_state s = DFIM_SCOPE_ACTIVE \<and> se_reserved s = 0 \<and> se_policy_generation s \<noteq> 0 \<and>
     (\<exists>cfg. c = Some cfg \<and> config_is_production_ready cfg \<and> cfg_policy_generation cfg = se_policy_generation s)"
  by (auto simp: evaluate_enforcement_def DFIM_SCOPE_ACTIVE_def DFIM_SCOPE_PENDING_def split: option.splits)

lemma evaluate_unprotected_iff: "evaluate_enforcement scope c = AllowUnprotected \<longleftrightarrow> scope = None"
  by (auto simp: evaluate_enforcement_def split: option.splits)

lemma evaluate_pending_iff:
  "evaluate_enforcement (Some s) c = AllowPendingEnrollment \<longleftrightarrow>
     se_state s = DFIM_SCOPE_PENDING \<and> se_reserved s = 0 \<and> se_policy_generation s \<noteq> 0"
  by (auto simp: evaluate_enforcement_def split: option.splits)

section \<open>Records\<close>

lemma bytemuck_roundtrip:
  assumes "length padding = 4"
  shows "bytemuck_must_read (deny_event_bytes padding e) = e"
  using assms by (simp add: bytemuck_must_read_def deny_event_bytes_def)

lemma decode_deny_bytes:
  assumes "length padding = 4" and "is_deny d"
  shows "decode_deny_record (deny_event_bytes padding (from_decision dev ino d g) @ rest) = Some (dev, ino, d, g)"
proof -
  have len: "length (deny_event_bytes padding (from_decision dev ino d g)) = 32"
    using assms(1) by (simp add: deny_event_bytes_def)
  then have "take 32 (deny_event_bytes padding (from_decision dev ino d g) @ rest) =
      deny_event_bytes padding (from_decision dev ino d g)" by simp
  then show ?thesis
    using bytemuck_roundtrip [OF assms(1)] assms(2) len
    by (auto simp: decode_deny_record_def DENY_EVENT_SIZE_def Let_def is_deny_def from_decision_def)
qed

section \<open>Enrolment\<close>

text \<open>The invariant: what the maps hold is determined by the operations that are left.\<close>

definition enrol_inv ::
  "dfim_config_v1 option \<Rightarrow> scope_key \<Rightarrow> u64 \<Rightarrow> bytes \<Rightarrow> loader_op list \<times> lsm_system \<Rightarrow> bool" where
  "enrol_inv c0 key g root x \<longleftrightarrow>
     (case x of (ops, s) \<Rightarrow>
        \<exists>done. enrolment_script = done @ ops \<and>
          dfim_scope (sys_maps s) =
            (if Commit \<in> set done then [key \<mapsto> active_entry g root]
             else if Prepare \<in> set done then [key \<mapsto> pending_entry g root] else Map.empty) \<and>
          dfim_config (sys_maps s) = (if Publish \<in> set done then Some (production g) else c0) \<and>
          sys_attached s = concat (map (\<lambda>op. case op of Attach h \<Rightarrow> [h] | _ \<Rightarrow> []) done) \<and>
          deny_ring (sys_maps s) = [])"

lemma script_splits:
  assumes "enrolment_script = done @ ops"
  shows "(done, ops) \<in>
    {([], [Prepare, Publish, Commit, Attach ''bprm_check_security'', Attach ''kernel_module_from_file'']),
     ([Prepare], [Publish, Commit, Attach ''bprm_check_security'', Attach ''kernel_module_from_file'']),
     ([Prepare, Publish], [Commit, Attach ''bprm_check_security'', Attach ''kernel_module_from_file'']),
     ([Prepare, Publish, Commit], [Attach ''bprm_check_security'', Attach ''kernel_module_from_file'']),
     ([Prepare, Publish, Commit, Attach ''bprm_check_security''], [Attach ''kernel_module_from_file'']),
     ([Prepare, Publish, Commit, Attach ''bprm_check_security'', Attach ''kernel_module_from_file''], [])}"
  using assms by (auto simp: enrolment_script_def Cons_eq_append_conv)

lemma enrol_inv_allows:
  assumes "g \<noteq> 0" and "enrol_inv c0 key g root (ops, s)"
  shows "\<not> is_deny (evaluate_enforcement (dfim_scope (sys_maps s) k) (dfim_config (sys_maps s)))"
proof -
  from assms(2) obtain don where d: "enrolment_script = don @ ops"
    and sc: "dfim_scope (sys_maps s) =
            (if Commit \<in> set don then [key \<mapsto> active_entry g root]
             else if Prepare \<in> set don then [key \<mapsto> pending_entry g root] else Map.empty)"
    and cf: "dfim_config (sys_maps s) = (if Publish \<in> set don then Some (production g) else c0)"
    by (auto simp: enrol_inv_def)
  have "Commit \<in> set don \<Longrightarrow> Publish \<in> set don" using script_splits [OF d] by auto
  then show ?thesis
    unfolding sc cf using assms(1) production_ready [of g]
    by (auto simp: evaluate_pending evaluate_active is_deny_def evaluate_unprotected_iff production_def)
      (simp_all add: evaluate_enforcement_def)
qed

lemma enrol_inv_step:
  assumes g: "g \<noteq> 0" and inv: "enrol_inv c0 key g root x" and "enrol_step key g root x y"
  shows "enrol_inv c0 key g root y"
  using assms(3) inv
proof (cases rule: enrol_step.cases)
  case (loader op ops s)
  from inv obtain don where d: "enrolment_script = don @ op # ops"
    and sc: "dfim_scope (sys_maps s) =
            (if Commit \<in> set don then [key \<mapsto> active_entry g root]
             else if Prepare \<in> set don then [key \<mapsto> pending_entry g root] else Map.empty)"
    and cf: "dfim_config (sys_maps s) = (if Publish \<in> set don then Some (production g) else c0)"
    and at: "sys_attached s = concat (map (\<lambda>op. case op of Attach h \<Rightarrow> [h] | _ \<Rightarrow> []) don)"
    and ring: "deny_ring (sys_maps s) = []"
    by (auto simp: enrol_inv_def loader)
  have split: "enrolment_script = (don @ [op]) @ ops" using d by simp
  have "op = Prepare \<Longrightarrow> Commit \<notin> set don" using script_splits [OF d] by auto
  then show ?thesis
    unfolding enrol_inv_def loader prod.case
    by (intro exI [of _ "don @ [op]"]) (cases op; simp add: split sc cf at ring prepare_scope_entry_def
        publish_production_config_def commit_scope_entry_def)
next
  case (exec ops s room k)
  then have "enforce_dfim_policy room k (sys_maps s) = (sys_maps s, Inr 0)"
    using enrol_inv_allows [OF g] inv by (intro enforce_allow) simp
  then show ?thesis using inv by (simp add: exec)
qed

lemma enrol_inv_reachable:
  assumes "g \<noteq> 0" and "enrol_reachable c0 key g root x"
  shows "enrol_inv c0 key g root x"
  using assms(2)
proof (induction rule: enrol_reachable.induct)
  case start
  show ?case by (auto simp: enrol_inv_def fresh_system_def)
next
  case (step x y)
  then show ?case using enrol_inv_step [OF assms(1)] by blast
qed

text \<open>Every run of the loader reaches the end of the script.\<close>

lemma enrol_finishes:
  assumes "enrol_reachable c0 key g root (ops, s)"
  shows "enrol_reachable c0 key g root ([], fold (apply_op key g root) ops s)"
  using assms
proof (induction ops arbitrary: s)
  case (Cons op ops)
  then have "enrol_reachable c0 key g root (ops, apply_op key g root op s)"
    by (blast intro: enrol_reachable.step enrol_step.loader)
  then show ?case using Cons.IH by simp
qed simp

section \<open>Properties\<close>

text \<open>
  C14. Enrolment is safe at every interleaving: with a non-zero generation, whatever files are executed
  between the loader's operations, the hooks allow every one of them and record no denial, whatever the
  configuration array held before; the target's entry is active only when the published configuration has its
  generation; and once the loader is done the target is enforced and both hooks are attached.
\<close>

theorem enrolment_never_denies:
  assumes "g \<noteq> 0" and "enrol_reachable c0 key g root (ops, s)"
  shows "(\<forall>room k. enforce_dfim_policy room k (sys_maps s) = (sys_maps s, Inr 0)) \<and> deny_ring (sys_maps s) = [] \<and>
     (dfim_scope (sys_maps s) key = Some (active_entry g root) \<longrightarrow> dfim_config (sys_maps s) = Some (production g)) \<and>
     (ops = [] \<longrightarrow>
        evaluate_enforcement (dfim_scope (sys_maps s) key) (dfim_config (sys_maps s)) = AllowProtectedToIma \<and>
        sys_attached s = [''bprm_check_security'', ''kernel_module_from_file''])"
proof -
  note inv = enrol_inv_reachable [OF assms]
  have a: "enforce_dfim_policy room k (sys_maps s) = (sys_maps s, Inr 0)" for room k
    using enrol_inv_allows [OF assms(1) inv] by (rule enforce_allow)
  from inv obtain don where d: "enrolment_script = don @ ops"
    and sc: "dfim_scope (sys_maps s) =
            (if Commit \<in> set don then [key \<mapsto> active_entry g root]
             else if Prepare \<in> set don then [key \<mapsto> pending_entry g root] else Map.empty)"
    and cf: "dfim_config (sys_maps s) = (if Publish \<in> set don then Some (production g) else c0)"
    and at: "sys_attached s = concat (map (\<lambda>op. case op of Attach h \<Rightarrow> [h] | _ \<Rightarrow> []) don)"
    and ring: "deny_ring (sys_maps s) = []"
    by (auto simp: enrol_inv_def)
  have pend: "pending_entry g root \<noteq> active_entry g root"
    by (simp add: pending_entry_def active_entry_def DFIM_SCOPE_PENDING_def DFIM_SCOPE_ACTIVE_def)
  have c: "dfim_scope (sys_maps s) key = Some (active_entry g root) \<longrightarrow> dfim_config (sys_maps s) = Some (production g)"
    unfolding sc cf using script_splits [OF d] pend by auto
  have e: "ops = [] \<longrightarrow>
        evaluate_enforcement (dfim_scope (sys_maps s) key) (dfim_config (sys_maps s)) = AllowProtectedToIma \<and>
        sys_attached s = [''bprm_check_security'', ''kernel_module_from_file'']"
    using d at assms(1) production_ready [of g] unfolding sc cf
    by (auto simp: enrolment_script_def evaluate_active production_def)
  show ?thesis using a ring c e by blast
qed

theorem enrolment_never_denies_witness:
  "\<exists>s. enrol_reachable None \<lparr>sk_device_id = 1, sk_inode = 2\<rparr> 7 [] ([], s) \<and> deny_ring (sys_maps s) = [] \<and>
     sys_attached s = [''bprm_check_security'', ''kernel_module_from_file'']"
proof -
  let ?key = "\<lparr>sk_device_id = 1, sk_inode = 2\<rparr>"
  let ?s = "fold (apply_op ?key 7 []) enrolment_script (fresh_system None)"
  have r: "enrol_reachable None ?key 7 [] ([], ?s)" by (rule enrol_finishes [OF enrol_reachable.start])
  from enrolment_never_denies [OF _ r] have "deny_ring (sys_maps ?s) = []"
    "sys_attached ?s = [''bprm_check_security'', ''kernel_module_from_file'']" by simp_all
  with r show ?thesis by blast
qed

text \<open>
  C15. A committed asset fails closed: the probe lets a file whose scope entry is not pending run only
  if the entry is well formed and active and the configuration is production-ready with the entry's generation;
  in every other case it answers \<open>-EPERM\<close> and changes nothing but the ring, to which it appends, if there is
  room, one record of this file, decision and generation.
\<close>

theorem committed_asset_fails_closed:
  assumes "dfim_scope st key = Some s" and "se_state s \<noteq> DFIM_SCOPE_PENDING"
  shows "case enforce_dfim_policy room key st of (st', r) \<Rightarrow>
     if se_state s = DFIM_SCOPE_ACTIVE \<and> se_reserved s = 0 \<and> se_policy_generation s \<noteq> 0 \<and>
        (\<exists>cfg. dfim_config st = Some cfg \<and> config_is_production_ready cfg \<and>
               cfg_policy_generation cfg = se_policy_generation s)
     then st' = st \<and> hook_code r = 0
     else hook_code r = -1 \<and>
          st' = (if room
                 then st\<lparr>deny_ring := deny_ring st @
                     [from_decision (sk_device_id key) (sk_inode key)
                        (evaluate_enforcement (Some s) (dfim_config st)) (se_policy_generation s)]\<rparr>
                 else st)"
proof -
  let ?d = "evaluate_enforcement (dfim_scope st key) (dfim_config st)"
  have cases: "?d = AllowProtectedToIma \<or> is_deny ?d"
    using evaluate_unprotected_iff [of "dfim_scope st key" "dfim_config st"] evaluate_pending_iff [of s "dfim_config st"] assms
    by (cases ?d) (auto simp: is_deny_def)
  show ?thesis
  proof (cases "?d = AllowProtectedToIma")
    case True
    then have "enforce_dfim_policy room key st = (st, Inr 0)" by (intro enforce_allow) (simp add: is_deny_def)
    then show ?thesis using True evaluate_allow_iff [of s "dfim_config st"] assms(1) by (simp add: hook_code_def)
  next
    case False
    then have "is_deny ?d" using cases by blast
    from enforce_deny [OF this, of room] False evaluate_allow_iff [of s "dfim_config st"] assms(1) show ?thesis
      by (auto simp: hook_code_def DFIM_DENY_def record_deny_event_def Let_def)
  qed
qed

theorem committed_asset_fails_closed_witness:
  "let key = \<lparr>sk_device_id = 1, sk_inode = 2\<rparr>;
       st = \<lparr>dfim_scope = [key \<mapsto> active_entry 8 []], dfim_config = Some (production 7), deny_ring = []\<rparr>
   in hook_code (snd (enforce_dfim_policy True key st)) = -1 \<and>
      length (deny_ring (fst (enforce_dfim_policy True key st))) = 1"
  using committed_asset_fails_closed [of
      "\<lparr>dfim_scope = [\<lparr>sk_device_id = 1, sk_inode = 2\<rparr> \<mapsto> active_entry 8 []], dfim_config = Some (production 7), deny_ring = []\<rparr>"
      "\<lparr>sk_device_id = 1, sk_inode = 2\<rparr>" "active_entry 8 []" True]
  by (auto simp: active_entry_def DFIM_SCOPE_ACTIVE_def DFIM_SCOPE_PENDING_def production_def split: prod.splits)

text \<open>
  Denials reach user space intact: for a denied file, the record that the probe appends to the ring,
  laid out in memory with any padding and followed by any bytes, is decoded by the deny monitor to the device, the
  inode, the decision and the generation of the denial.
\<close>

theorem deny_record_roundtrip:
  assumes "enforce_dfim_policy True key st = (st', Inl code)" and "length padding = 4"
  shows "\<exists>s. dfim_scope st key = Some s \<and>
     decode_deny_record (deny_event_bytes padding (last (deny_ring st')) @ rest) =
       Some (sk_device_id key, sk_inode key, evaluate_enforcement (Some s) (dfim_config st), se_policy_generation s)"
proof -
  have d: "is_deny (evaluate_enforcement (dfim_scope st key) (dfim_config st))"
    using assms(1) enforce_allow [of st key True] by auto
  then obtain s where s: "dfim_scope st key = Some s" using denied_scope by blast
  have "last (deny_ring st') = from_decision (sk_device_id key) (sk_inode key)
      (evaluate_enforcement (Some s) (dfim_config st)) (se_policy_generation s)"
    using assms(1) enforce_deny [OF d, of True] by (auto simp: s record_deny_event_def Let_def)
  then show ?thesis using decode_deny_bytes [OF assms(2)] d s by simp
qed

theorem deny_record_roundtrip_witness:
  "\<exists>st'. enforce_dfim_policy True \<lparr>sk_device_id = 1, sk_inode = 2\<rparr>
       \<lparr>dfim_scope = [\<lparr>sk_device_id = 1, sk_inode = 2\<rparr> \<mapsto> active_entry 8 []], dfim_config = None, deny_ring = []\<rparr> = (st', Inl (-1)) \<and>
     decode_deny_record (deny_event_bytes [1, 2, 3, 4] (last (deny_ring st')) @ [5]) = Some (1, 2, DenyInvalidConfig, 8)"
proof -
  let ?key = "\<lparr>sk_device_id = 1, sk_inode = 2\<rparr>"
  let ?st = "\<lparr>dfim_scope = [?key \<mapsto> active_entry 8 []], dfim_config = None, deny_ring = []\<rparr>"
  have d: "evaluate_enforcement (dfim_scope ?st ?key) (dfim_config ?st) = DenyInvalidConfig"
    by (simp add: evaluate_active)
  obtain st' where st': "enforce_dfim_policy True ?key ?st = (st', Inl (-1))"
    using enforce_deny [of ?st ?key True] d by (simp add: is_deny_def DFIM_DENY_def)
  then show ?thesis
    using deny_record_roundtrip [OF st', of "[1, 2, 3, 4]" "[5]"] d by (auto simp: active_entry_def)
qed

text \<open>
  The standalone appraisal: a file without a scope entry is allowed; an enrolled file without integrity data,
  or with the attestation flag, is denied; in direct mode the file is allowed exactly if its digest is
  the enrolled one. With a block count, however, any digest that is not zero is accepted, whatever root was enrolled.
  Every denial, and nothing else, appends one event.
\<close>

theorem appraisal_decision:
  assumes "hash_contract C" and "length digest = 32"
    and "\<forall>e. ap_images st (ino, device) = Some e \<longrightarrow> length (ie_expected_digest e) = 32 \<and> length (ie_merkle_root e) = 32"
  shows "case appraise_file C now ino device digest st of (st', r) \<Rightarrow>
     (r = 0 \<longleftrightarrow>
        (case ap_scope st (ino, device) of None \<Rightarrow> True
         | Some _ \<Rightarrow>
             (case ap_images st (ino, device) of None \<Rightarrow> False
              | Some e \<Rightarrow> ie_flags e AND 1 = 0 \<and>
                  (if ie_block_count e = 0 then digest = ie_expected_digest e
                   else ie_merkle_root e = replicate 32 0 \<or> digest \<noteq> replicate 32 0)))) \<and>
     (if r = 0 then st' = st else r = -1 \<and> length (ap_events st') = Suc (length (ap_events st)))"
  using assms
  by (auto simp: appraise_file_def Let_def emit_deny_event_def verify_merkle_leaf_def SHA256_LEN_def
      constant_time_hash_eq_iff split: option.splits)

theorem appraisal_decision_witness:
  "snd (appraise_file bpf_prims (0, 0) 1 2 (replicate 32 1)
     \<lparr>ap_scope = [(1, 2) \<mapsto> active_entry 8 []],
      ap_images = [(1, 2) \<mapsto> \<lparr>ie_expected_digest = replicate 32 9, ie_merkle_root = replicate 32 5, ie_block_count = 4,
                            ie_policy_id = 0, ie_flags = 0\<rparr>], ap_config = None, ap_events = []\<rparr>) = 0"
  using appraisal_decision [OF kernel_hash.hash_contract_axioms, of "replicate 32 1"
      "\<lparr>ap_scope = [(1, 2) \<mapsto> active_entry 8 []],
       ap_images = [(1, 2) \<mapsto> \<lparr>ie_expected_digest = replicate 32 9, ie_merkle_root = replicate 32 5, ie_block_count = 4,
                            ie_policy_id = 0, ie_flags = 0\<rparr>], ap_config = None, ap_events = []\<rparr>" 1 2 "(0, 0)"]
  by (auto split: prod.splits)

end
