(* ===== verification/Text_Format.thy ===== *)
theory Text_Format
  imports Core_Base
begin

text \<open>
  Texts the host programs write: decimal and hexadecimal numbers, and the JSON string escaping that
  \<^verbatim>\<open>dfim_linux_kernel/dfim-ebpf-user/src/siem_sink.rs\<close> and \<^verbatim>\<open>dfim_cli_provisioner/src/telemetry_sink.rs\<close>
  each implement. A reference decoder for JSON string bodies states what escaping has to achieve: the
  decoder reads the original text back, and the escaped text contains no quote that would end the string
  and no control character.
\<close>

section \<open>Numbers\<close>

text \<open>The decimal and lowercase hexadecimal notation that \<^verbatim>\<open>format!\<close> gives to an unsigned integer.\<close>

definition HEX_CHARS :: string where "HEX_CHARS = ''0123456789abcdef''"

fun decimal :: "nat \<Rightarrow> string" where
  "decimal n = (if n < 10 then [HEX_CHARS ! n] else decimal (n div 10) @ [HEX_CHARS ! (n mod 10)])"

fun hexadecimal :: "nat \<Rightarrow> string" where
  "hexadecimal n = (if n < 16 then [HEX_CHARS ! n] else hexadecimal (n div 16) @ [HEX_CHARS ! (n mod 16)])"

declare decimal.simps [simp del] hexadecimal.simps [simp del]

text \<open>\<^verbatim>\<open>hex_encode\<close> of the host programs: two characters per byte are pushed.\<close>

definition hex_encode :: "bytes \<Rightarrow> string" where
  "hex_encode bs =
     foldl (\<lambda>output byte. (output @ [HEX_CHARS ! unat (drop_bit 4 byte)]) @ [HEX_CHARS ! unat (byte AND 0x0F)])
       [] bs"

definition digit_value :: "char \<Rightarrow> nat option" where
  "digit_value c =
     (let n = of_char c in
      if 0x30 \<le> n \<and> n \<le> 0x39 then Some (n - 0x30)
      else if 0x61 \<le> n \<and> n \<le> 0x66 then Some (n - 0x61 + 10)
      else None)"

section \<open>JSON strings\<close>

text \<open>The two escaping loops; the second has short forms for backspace and form feed.\<close>

definition escape_control :: "char \<Rightarrow> string" where
  "escape_control c =
     [CHR 0x5C, CHR ''u'', CHR ''0'', CHR ''0'', HEX_CHARS ! (of_char c div 16), HEX_CHARS ! (of_char c mod 16)]"

definition siem_escape_char :: "char \<Rightarrow> string" where
  "siem_escape_char c =
     (if c = CHR 0x22 then [CHR 0x5C, CHR 0x22]
      else if c = CHR 0x5C then [CHR 0x5C, CHR 0x5C]
      else if c = CHR 0x0A then [CHR 0x5C, CHR ''n'']
      else if c = CHR 0x0D then [CHR 0x5C, CHR ''r'']
      else if c = CHR 0x09 then [CHR 0x5C, CHR ''t'']
      else if of_char c \<le> (0x1F :: nat) then escape_control c
      else [c])"

definition siem_json_escape :: "string \<Rightarrow> string" where
  "siem_json_escape s = foldl (\<lambda>output c. output @ siem_escape_char c) [] s"

definition escape_char :: "char \<Rightarrow> string" where
  "escape_char c =
     (if c = CHR 0x22 then [CHR 0x5C, CHR 0x22]
      else if c = CHR 0x5C then [CHR 0x5C, CHR 0x5C]
      else if c = CHR 0x08 then [CHR 0x5C, CHR ''b'']
      else if c = CHR 0x0C then [CHR 0x5C, CHR ''f'']
      else if c = CHR 0x0A then [CHR 0x5C, CHR ''n'']
      else if c = CHR 0x0D then [CHR 0x5C, CHR ''r'']
      else if c = CHR 0x09 then [CHR 0x5C, CHR ''t'']
      else if of_char c \<le> (0x1F :: nat) then escape_control c
      else [c])"

definition json_escape :: "string \<Rightarrow> string" where
  "json_escape s = foldl (\<lambda>output c. output @ escape_char c) [] s"

text \<open>The reference: the body of a JSON string (RFC 8259) and the text it stands for.\<close>

definition simple_escape :: "char \<Rightarrow> char option" where
  "simple_escape e =
     (if e = CHR 0x22 then Some (CHR 0x22)
      else if e = CHR 0x5C then Some (CHR 0x5C)
      else if e = CHR 0x2F then Some (CHR 0x2F)
      else if e = CHR ''b'' then Some (CHR 0x08)
      else if e = CHR ''f'' then Some (CHR 0x0C)
      else if e = CHR ''n'' then Some (CHR 0x0A)
      else if e = CHR ''r'' then Some (CHR 0x0D)
      else if e = CHR ''t'' then Some (CHR 0x09)
      else None)"

definition unicode_escape :: "char \<Rightarrow> char \<Rightarrow> char \<Rightarrow> char \<Rightarrow> char option" where
  "unicode_escape a b h l =
     (case (digit_value a, digit_value b, digit_value h, digit_value l) of
        (Some 0, Some 0, Some m, Some n) \<Rightarrow> Some (char_of (16 * m + n)) | _ \<Rightarrow> None)"

fun json_decode :: "string \<Rightarrow> string option" where
  "json_decode [] = Some []"
| "json_decode (c # cs) =
     (if c = CHR 0x5C then
        (case cs of [] \<Rightarrow> None
         | e # rest \<Rightarrow>
             if e = CHR ''u'' then
               (case rest of a # b # h # l # rest' \<Rightarrow>
                  (case unicode_escape a b h l of None \<Rightarrow> None
                   | Some x \<Rightarrow> map_option (Cons x) (json_decode rest'))
                | _ \<Rightarrow> None)
             else
               (case simple_escape e of None \<Rightarrow> None | Some x \<Rightarrow> map_option (Cons x) (json_decode rest)))
      else if c = CHR 0x22 \<or> of_char c \<le> (0x1F :: nat) then None
      else map_option (Cons c) (json_decode cs))"

section \<open>Properties of numbers\<close>

lemma HEX_CHARS_digit:
  assumes "n < 16"
  shows "digit_value (HEX_CHARS ! n) = Some n"
proof -
  have "n \<in> {0, 1, 2, 3, 4, 5, 6, 7, 8, 9, 10, 11, 12, 13, 14, 15}"
    using assms by (simp only: insert_iff empty_iff) presburger
  then show ?thesis by (auto simp: digit_value_def HEX_CHARS_def)
qed

text \<open>The value of a numeral, most significant digit first.\<close>

definition numeral_value :: "nat \<Rightarrow> string \<Rightarrow> nat option" where
  "numeral_value base s =
     foldl (\<lambda>acc c. case acc of None \<Rightarrow> None
            | Some n \<Rightarrow> (case digit_value c of None \<Rightarrow> None
                | Some d \<Rightarrow> if d < base then Some (base * n + d) else None)) (Some 0) s"

lemma numeral_value_snoc:
  "numeral_value base (s @ [c]) =
     (case numeral_value base s of None \<Rightarrow> None
      | Some n \<Rightarrow> (case digit_value c of None \<Rightarrow> None
          | Some d \<Rightarrow> if d < base then Some (base * n + d) else None))"
  by (simp add: numeral_value_def)

lemma decimal_value: "numeral_value 10 (decimal n) = Some n"
proof (induction n rule: decimal.induct)
  case (1 n)
  show ?case
  proof (cases "n < 10")
    case True
    then show ?thesis by (simp add: decimal.simps [of n] numeral_value_def HEX_CHARS_digit)
  next
    case False
    then show ?thesis using 1 by (simp add: decimal.simps [of n] numeral_value_snoc HEX_CHARS_digit)
  qed
qed

lemma decimal_inj: "decimal m = decimal n \<Longrightarrow> m = n"
  using decimal_value [of m] decimal_value [of n] by (metis option.inject)

lemma hexadecimal_value: "numeral_value 16 (hexadecimal n) = Some n"
proof (induction n rule: hexadecimal.induct)
  case (1 n)
  show ?case
  proof (cases "n < 16")
    case True
    then show ?thesis by (simp add: hexadecimal.simps [of n] numeral_value_def HEX_CHARS_digit)
  next
    case False
    then show ?thesis using 1 by (simp add: hexadecimal.simps [of n] numeral_value_snoc HEX_CHARS_digit)
  qed
qed

text \<open>Characters that stand for themselves in a JSON string.\<close>

definition plain_char :: "char \<Rightarrow> bool" where
  "plain_char c \<longleftrightarrow> c \<noteq> CHR 0x22 \<and> c \<noteq> CHR 0x5C \<and> (0x20 :: nat) \<le> of_char c"

definition digit_char :: "char \<Rightarrow> bool" where
  "digit_char c \<longleftrightarrow> c \<in> set HEX_CHARS"

lemma digit_char_plain: "digit_char c \<Longrightarrow> plain_char c"
  by (auto simp: digit_char_def plain_char_def HEX_CHARS_def)

lemma length_HEX_CHARS: "length HEX_CHARS = 16"
  by (simp add: HEX_CHARS_def)

lemma HEX_CHARS_digit_char: "n < 16 \<Longrightarrow> digit_char (HEX_CHARS ! n)"
  by (simp add: digit_char_def length_HEX_CHARS)

lemma decimal_chars: "c \<in> set (decimal n) \<Longrightarrow> digit_char c"
proof (induction n rule: decimal.induct)
  case (1 n)
  then show ?case
    by (cases "n < 10") (auto simp: decimal.simps [of n] intro: HEX_CHARS_digit_char)
qed

lemma hexadecimal_chars: "c \<in> set (hexadecimal n) \<Longrightarrow> digit_char c"
proof (induction n rule: hexadecimal.induct)
  case (1 n)
  then show ?case
    by (cases "n < 16") (auto simp: hexadecimal.simps [of n] intro: HEX_CHARS_digit_char)
qed

lemma nibble_bounds: "unat (drop_bit 4 (b :: u8)) < 16" "unat (b AND 0x0F) < 16"
proof -
  have "unat (b AND 0x0F) \<le> unat (0x0F :: u8)" using word_and_le1 [of b "0x0F"] by (simp add: word_le_nat_alt)
  then show "unat (b AND 0x0F) < 16" by simp
  have lt: "unat b < 256" using unsigned_less [of b] by simp
  then have "unat (drop_bit 4 b) = drop_bit 4 (unat b)"
    by (simp add: unsigned_drop_bit_eq take_bit_nat_eq_self)
  then show "unat (drop_bit 4 b) < 16" using lt by (simp only:) (simp add: drop_bit_eq_div)
qed

lemma hex_encode_concat:
  "hex_encode bs = concat (map (\<lambda>b. [HEX_CHARS ! unat (drop_bit 4 b), HEX_CHARS ! unat (b AND 0x0F)]) bs)"
proof -
  have "foldl (\<lambda>output byte. (output @ [HEX_CHARS ! unat (drop_bit 4 byte)]) @ [HEX_CHARS ! unat (byte AND 0x0F)]) acc bs =
      acc @ concat (map (\<lambda>b. [HEX_CHARS ! unat (drop_bit 4 b), HEX_CHARS ! unat (b AND 0x0F)]) bs)" for acc
    by (induction bs arbitrary: acc) simp_all
  then show ?thesis by (simp add: hex_encode_def)
qed

lemma length_hex_encode: "length (hex_encode bs) = 2 * length bs"
  by (induction bs) (simp_all add: hex_encode_concat)

lemma hex_encode_chars: "c \<in> set (hex_encode bs) \<Longrightarrow> digit_char c"
  by (auto simp: hex_encode_concat nibble_bounds intro!: HEX_CHARS_digit_char)

lemma HEX_CHARS_inj: "m < 16 \<Longrightarrow> n < 16 \<Longrightarrow> HEX_CHARS ! m = HEX_CHARS ! n \<Longrightarrow> m = n"
  using HEX_CHARS_digit [of m] HEX_CHARS_digit [of n] by (metis option.inject)

lemma byte_nibbles_inj:
  assumes "unat (drop_bit 4 (a :: u8)) = unat (drop_bit 4 b)" and "unat (a AND 0x0F) = unat (b AND 0x0F)"
  shows "a = b"
proof -
  have m: "(0x0F :: u8) = mask 4" by (simp add: mask_eq_exp_minus_1)
  have join: "push_bit 4 (drop_bit 4 c) OR (c AND mask 4) = c" for c :: u8
    by (rule bit_word_eqI) (auto simp: bit_simps)
  have "drop_bit 4 a = drop_bit 4 b" "a AND mask 4 = b AND mask 4"
    using assms [THEN unsigned_word_eqI] by (simp_all add: m)
  then show ?thesis using join [of a] join [of b] by metis
qed

lemma hex_encode_inj: "hex_encode a = hex_encode b \<Longrightarrow> a = b"
proof (induction a arbitrary: b)
  case Nil
  then show ?case by (cases b) (simp_all add: hex_encode_concat)
next
  case (Cons x a)
  then obtain y b' where b: "b = y # b'" by (cases b) (auto simp: hex_encode_concat)
  have "x = y"
    using Cons.prems nibble_bounds [of x] nibble_bounds [of y]
    by (intro byte_nibbles_inj HEX_CHARS_inj) (simp_all add: b hex_encode_concat)
  then show ?case using Cons by (simp add: b hex_encode_concat)
qed

section \<open>Escaping\<close>

lemma json_decode_plain: "plain_char c \<Longrightarrow> json_decode (c # cs) = map_option (Cons c) (json_decode cs)"
  by (simp add: plain_char_def)

lemma json_decode_control:
  assumes "of_char c \<le> (0x1F :: nat)"
  shows "json_decode (escape_control c @ rest) = map_option (Cons c) (json_decode rest)"
proof -
  have d: "of_char c div 16 < (16 :: nat)" "of_char c mod 16 < (16 :: nat)" using assms by simp_all
  have z: "digit_value (CHR ''0'') = Some 0" by (simp add: digit_value_def)
  have "unicode_escape (CHR ''0'') (CHR ''0'') (HEX_CHARS ! (of_char c div 16)) (HEX_CHARS ! (of_char c mod 16)) = Some c"
    using HEX_CHARS_digit [OF d(1)] HEX_CHARS_digit [OF d(2)] by (simp add: unicode_escape_def z)
  then show ?thesis by (simp add: escape_control_def)
qed

lemma json_decode_siem_char:
  "json_decode (siem_escape_char c @ rest) = map_option (Cons c) (json_decode rest)"
proof (cases "c \<in> {CHR 0x22, CHR 0x5C, CHR 0x0A, CHR 0x0D, CHR 0x09}")
  case True
  then show ?thesis by (auto simp: siem_escape_char_def simple_escape_def)
next
  case False
  then show ?thesis
    using json_decode_control [of c rest] json_decode_plain [of c rest]
    by (auto simp: siem_escape_char_def plain_char_def simp del: json_decode.simps)
qed

lemma json_decode_char:
  "json_decode (escape_char c @ rest) = map_option (Cons c) (json_decode rest)"
proof (cases "c \<in> {CHR 0x22, CHR 0x5C, CHR 0x08, CHR 0x0C, CHR 0x0A, CHR 0x0D, CHR 0x09}")
  case True
  then show ?thesis by (auto simp: escape_char_def simple_escape_def)
next
  case False
  then show ?thesis
    using json_decode_control [of c rest] json_decode_plain [of c rest]
    by (auto simp: escape_char_def plain_char_def simp del: json_decode.simps)
qed

lemma foldl_append_map: "foldl (\<lambda>output c. output @ f c) acc s = acc @ concat (map f s)"
  by (induction s arbitrary: acc) simp_all

lemma siem_json_escape_concat: "siem_json_escape s = concat (map siem_escape_char s)"
  by (simp add: siem_json_escape_def foldl_append_map)

lemma json_escape_concat: "json_escape s = concat (map escape_char s)"
  by (simp add: json_escape_def foldl_append_map)

text \<open>What the two sinks rely on, as an interface of an escaping function.\<close>

locale json_escaper =
  fixes esc :: "string \<Rightarrow> string"
  assumes decode_esc: "json_decode (esc s) = Some s"
    and esc_printable: "c \<in> set (esc s) \<Longrightarrow> (0x20 :: nat) \<le> of_char c"
    and esc_plain: "(\<forall>c \<in> set s. plain_char c) \<Longrightarrow> esc s = s"
begin

lemma esc_inj: "esc s = esc t \<Longrightarrow> s = t"
  using decode_esc [of s] decode_esc [of t] by (metis option.inject)

lemma esc_no_newline: "CHR 0x0A \<notin> set (esc s)"
  using esc_printable [of "CHR 0x0A" s] by auto

end

lemma digit_char_printable: "digit_char c \<Longrightarrow> (0x20 :: nat) \<le> of_char c"
  using digit_char_plain [of c] by (simp add: plain_char_def)

lemma escape_control_chars:
  assumes "of_char c \<le> (0x1F :: nat)" and "x \<in> set (escape_control c)"
  shows "(0x20 :: nat) \<le> of_char x"
proof -
  have h: "digit_char (HEX_CHARS ! (of_char c div 16))" and l: "digit_char (HEX_CHARS ! (of_char c mod 16))"
    using assms(1) by (intro HEX_CHARS_digit_char; simp)+
  have "x \<in> {CHR 0x5C, CHR ''u'', CHR ''0'', HEX_CHARS ! (of_char c div 16), HEX_CHARS ! (of_char c mod 16)}"
    using assms(2) unfolding escape_control_def by (simp only: set_simps insert_iff empty_iff) blast
  then consider "x = CHR 0x5C" | "x = CHR ''u''" | "x = CHR ''0''" | "digit_char x" using h l by auto
  then show ?thesis by cases (simp_all add: digit_char_printable)
qed

lemma siem_escape_char_printable: "x \<in> set (siem_escape_char c) \<Longrightarrow> (0x20 :: nat) \<le> of_char x"
  by (cases "of_char c \<le> (0x1F :: nat)")
    (auto simp: siem_escape_char_def split: if_splits dest: escape_control_chars)

lemma escape_char_printable: "x \<in> set (escape_char c) \<Longrightarrow> (0x20 :: nat) \<le> of_char x"
  by (cases "of_char c \<le> (0x1F :: nat)")
    (auto simp: escape_char_def split: if_splits dest: escape_control_chars)

lemma siem_escape_plain: "plain_char c \<Longrightarrow> siem_escape_char c = [c]"
  by (auto simp: plain_char_def siem_escape_char_def)

lemma escape_plain: "plain_char c \<Longrightarrow> escape_char c = [c]"
  by (auto simp: plain_char_def escape_char_def)

lemma concat_map_singleton: "(\<And>x. x \<in> set xs \<Longrightarrow> f x = [x]) \<Longrightarrow> concat (map f xs) = xs"
  by (induction xs) simp_all

lemma decode_concat:
  assumes "\<And>c rest. json_decode (f c @ rest) = map_option (Cons c) (json_decode rest)"
  shows "json_decode (concat (map f s)) = Some s"
proof (induction s)
  case (Cons c s)
  show ?case unfolding list.map concat.simps assms Cons.IH by simp
qed simp

interpretation siem_text: json_escaper siem_json_escape
proof (unfold_locales, goal_cases)
  case (1 s)
  show ?case unfolding siem_json_escape_concat by (rule decode_concat) (rule json_decode_siem_char)
next
  case (2 c s)
  then show ?case by (auto simp: siem_json_escape_concat intro: siem_escape_char_printable)
next
  case (3 s)
  then show ?case unfolding siem_json_escape_concat by (intro concat_map_singleton siem_escape_plain) blast
qed

interpretation telemetry_text: json_escaper json_escape
proof (unfold_locales, goal_cases)
  case (1 s)
  show ?case unfolding json_escape_concat by (rule decode_concat) (rule json_decode_char)
next
  case (2 c s)
  then show ?case by (auto simp: json_escape_concat intro: escape_char_printable)
next
  case (3 s)
  then show ?case unfolding json_escape_concat by (intro concat_map_singleton escape_plain) blast
qed

section \<open>Records of one line\<close>

text \<open>\<^verbatim>\<open>if let Some(a) = x { line.push_str(...) }\<close>, and texts without control characters.\<close>

definition push_opt :: "string \<Rightarrow> 'a option \<Rightarrow> ('a \<Rightarrow> string) \<Rightarrow> string" where
  "push_opt line x f = (case x of None \<Rightarrow> line | Some a \<Rightarrow> line @ f a)"

definition printable :: "string \<Rightarrow> bool" where
  "printable s \<longleftrightarrow> (\<forall>c \<in> set s. (0x20 :: nat) \<le> of_char c)"

lemma printable_simps [simp]:
  "printable []" "printable (c # s) \<longleftrightarrow> (0x20 :: nat) \<le> of_char c \<and> printable s"
  "printable (a @ b) \<longleftrightarrow> printable a \<and> printable b"
  by (auto simp: printable_def)

lemma printable_push_opt [simp]:
  "printable (push_opt line x f) \<longleftrightarrow> printable line \<and> (\<forall>a. x = Some a \<longrightarrow> printable (f a))"
  by (cases x) (simp_all add: push_opt_def)

lemma printable_digits: "printable (decimal n)" "printable (hexadecimal n)" "printable (hex_encode bs)"
  using decimal_chars hexadecimal_chars hex_encode_chars digit_char_printable by (fastforce simp: printable_def)+

end
