(* ===== verification/Rust_Text.thy ===== *)
theory Rust_Text
  imports Dfim_Prelude
begin

text \<open>
  Operations of Rust's \<^verbatim>\<open>str\<close> that the host programs use, on texts as sequences of bytes.
\<close>

text \<open>\<^verbatim>\<open>str::split\<close> on the characters with a property: the pieces have no separator.\<close>

fun split_on :: "(char \<Rightarrow> bool) \<Rightarrow> string \<Rightarrow> string list" where
  "split_on p [] = [[]]"
| "split_on p (c # cs) =
     (if p c then [] # split_on p cs
      else case split_on p cs of w # ws \<Rightarrow> (c # w) # ws | [] \<Rightarrow> [[c]])"

lemma split_on_ne [simp]: "split_on p s \<noteq> []"
  by (cases s) (simp_all split: list.splits)

lemma split_on_pieces: "w \<in> set (split_on p s) \<Longrightarrow> c \<in> set w \<Longrightarrow> \<not> p c"
proof (induction s arbitrary: w)
  case (Cons x s)
  obtain v vs where v: "split_on p s = v # vs" by (cases "split_on p s") auto
  show ?case
  proof (cases "p x")
    case True
    then show ?thesis using Cons by auto
  next
    case False
    then have "w \<in> set ((x # v) # vs)" using Cons.prems(1) v by simp
    then show ?thesis using Cons.IH [of v] Cons.IH [of w] Cons.prems(2) False v by auto
  qed
qed simp

lemma split_on_none:
  assumes "\<And>c. c \<in> set w \<Longrightarrow> \<not> p c"
  shows "split_on p w = [w]"
  using assms by (induction w) auto

lemma split_on_append:
  assumes "\<And>c. c \<in> set w \<Longrightarrow> \<not> p c" and "p x"
  shows "split_on p (w @ x # s) = w # split_on p s"
  using assms by (induction w) auto

text \<open>
  \<^verbatim>\<open>str::from_utf8\<close> and \<^verbatim>\<open>str::trim\<close> on bytes: the length of the well-formed character at the front
  (0 if there is none), the characters of a text, and the ones with property \<^verbatim>\<open>White_Space\<close>.
\<close>

definition utf8_front :: "bytes \<Rightarrow> nat" where
  "utf8_front bs =
     (let within = (\<lambda>i lo hi. i < length bs \<and> lo \<le> bs ! i \<and> bs ! i \<le> hi);
          cont = (\<lambda>i. within i 0x80 0xBF)
      in if within 0 0x00 0x7F then 1
         else if within 0 0xC2 0xDF \<and> cont 1 then 2
         else if (within 0 0xE0 0xE0 \<and> within 1 0xA0 0xBF \<or> within 0 0xE1 0xEC \<and> cont 1 \<or>
                  within 0 0xED 0xED \<and> within 1 0x80 0x9F \<or> within 0 0xEE 0xEF \<and> cont 1) \<and> cont 2 then 3
         else if (within 0 0xF0 0xF0 \<and> within 1 0x90 0xBF \<or> within 0 0xF1 0xF3 \<and> cont 1 \<or>
                  within 0 0xF4 0xF4 \<and> within 1 0x80 0x8F) \<and> cont 2 \<and> cont 3 then 4
         else 0)"

function utf8_chars :: "bytes \<Rightarrow> bytes list option" where
  "utf8_chars bs =
     (if bs = [] then Some []
      else if utf8_front bs = 0 then None
      else map_option (Cons (take (utf8_front bs) bs)) (utf8_chars (drop (utf8_front bs) bs)))"
  by pat_completeness auto

termination
  by (relation "measure length") auto

definition white_space :: "bytes \<Rightarrow> bool" where
  "white_space c \<longleftrightarrow>
     c \<in> {[0x09], [0x0A], [0x0B], [0x0C], [0x0D], [0x20], [0xC2, 0x85], [0xC2, 0xA0], [0xE1, 0x9A, 0x80],
          [0xE2, 0x80, 0xA8], [0xE2, 0x80, 0xA9], [0xE2, 0x80, 0xAF], [0xE2, 0x81, 0x9F], [0xE3, 0x80, 0x80]} \<or>
     (\<exists>b \<in> {0x80, 0x81, 0x82, 0x83, 0x84, 0x85, 0x86, 0x87, 0x88, 0x89, 0x8A}. c = [0xE2, 0x80, b])"

definition str_trim :: "bytes list \<Rightarrow> bytes list" where
  "str_trim cs = rev (dropWhile white_space (rev (dropWhile white_space cs)))"

text \<open>\<^verbatim>\<open>str::trim_start_matches\<close> with a text, and \<^verbatim>\<open>str::replace\<close> of a character.\<close>

function trim_start_matches :: "string \<Rightarrow> string \<Rightarrow> string" where
  "trim_start_matches p s = (if p \<noteq> [] \<and> starts_with s p then trim_start_matches p (drop (length p) s) else s)"
  by pat_completeness auto

termination
proof (relation "measure (\<lambda>(p, s). length s)", simp)
  fix p s :: string
  assume "p \<noteq> [] \<and> starts_with s p"
  then have "s \<noteq> []" "p \<noteq> []" by (auto simp: starts_with_def)
  then show "((p, drop (length p) s), p, s) \<in> measure (\<lambda>(p, s). length s)" by (simp add: diff_less)
qed

declare trim_start_matches.simps [simp del] utf8_chars.simps [simp del]

definition replace_char :: "char \<Rightarrow> string \<Rightarrow> string \<Rightarrow> string" where
  "replace_char x by_text s = concat (map (\<lambda>c. if c = x then by_text else [c]) s)"

lemma replace_char_simps [simp]:
  "replace_char x y [] = []" "replace_char x y (c # s) = (if c = x then y else [c]) @ replace_char x y s"
  "replace_char x y (s @ t) = replace_char x y s @ replace_char x y t"
  by (simp_all add: replace_char_def)

lemma of_char_word_inj: "(of_nat (of_char c) :: 8 word) = of_nat (of_char d) \<longleftrightarrow> c = d"
proof
  assume a: "(of_nat (of_char c) :: 8 word) = of_nat (of_char d)"
  have n: "(of_char x :: nat) < 256" for x :: char by simp
  have "unat (of_nat (of_char x) :: 8 word) = of_char x" for x :: char using n [of x] by (simp add: unat_of_nat)
  then have "(of_char c :: nat) = of_char d" using a by metis
  then show "c = d" by simp
qed simp

lemma ascii_eq_iff [simp]: "ascii a = ascii b \<longleftrightarrow> a = b"
  unfolding ascii_def by (rule inj_map_eq_map) (simp add: inj_def of_char_word_inj)

text \<open>A prefix with a character the text does not have is not removed.\<close>

lemma trim_start_matches_other:
  assumes "x \<in> set p" and "x \<notin> set s"
  shows "trim_start_matches p (p @ s) = s" "trim_start_matches p s = s"
proof -
  have "\<not> starts_with s p" using assms unfolding starts_with_def by (metis in_set_takeD)
  then show t: "trim_start_matches p s = s" by (subst trim_start_matches.simps) simp
  have "p \<noteq> []" using assms(1) by auto
  then show "trim_start_matches p (p @ s) = s" by (subst trim_start_matches.simps) (simp add: starts_with_def t)
qed

end
