(* ===== verification/Btf_Offsets.thy ===== *)
theory Btf_Offsets
  imports Enforcement Text_Format Rust_Text "HOL-Library.AList"
begin

text \<open>
  The build script of the probe (\<^verbatim>\<open>dfim_linux_kernel/dfim-ebpf/build.rs\<close>): it reads the type information of the target
  kernel, finds the five fields the probe follows, and generates the constants that \<^verbatim>\<open>vmlinux.rs\<close> includes.

  The loop over the type records advances by the step that \<open>parse_type\<close> returns, which nothing in its syntax bounds; it is a
  \<open>partial_function\<close>, so that a run that does not end is \<open>None\<close>, and that it ends on every input is a theorem. The format of the
  input is the one the kernel documents: a header, type records of a length that depends on their kind, and a table of strings.
\<close>

section \<open>The script\<close>

datatype btf_error =
    Read_btf
  | Btf_too_small
  | Bad_btf_magic u16
  | Truncated_type_header
  | Truncated_struct_members
  | String_offset_out_of_range u32
  | Unterminated_string nat
  | Invalid_utf8
  | Incomplete_offsets nat nat
  | Missing_offset

definition BTF_MAGIC :: u16 where "BTF_MAGIC = 0xEB9F"

definition TARGETS :: "(bytes \<times> bytes) list" where
  "TARGETS =
     [(ascii ''linux_binprm'', ascii ''file''), (ascii ''file'', ascii ''f_inode''), (ascii ''inode'', ascii ''i_ino''),
      (ascii ''inode'', ascii ''i_sb''), (ascii ''super_block'', ascii ''s_dev'')]"

definition UNVERIFIED_DEVELOPMENT_FALLBACK :: "(bytes \<times> bytes \<times> u32) list" where
  "UNVERIFIED_DEVELOPMENT_FALLBACK =
     [(ascii ''linux_binprm'', ascii ''file'', 64), (ascii ''file'', ascii ''f_inode'', 168), (ascii ''inode'', ascii ''i_ino'', 80),
      (ascii ''inode'', ascii ''i_sb'', 0), (ascii ''super_block'', ascii ''s_dev'', 0)]"

definition btf_read_u32 :: "bytes \<Rightarrow> (btf_error, u32) outcome" where
  "btf_read_u32 bs = and_then (sub_slice bs 0 4) (\<lambda>b. Ok (from_le_bytes b))"

primrec iter_position :: "('a \<Rightarrow> bool) \<Rightarrow> 'a list \<Rightarrow> nat option" where
  "iter_position p [] = None"
| "iter_position p (x # xs) = (if p x then Some 0 else map_option Suc (iter_position p xs))"

definition read_cstr :: "bytes \<Rightarrow> nat \<Rightarrow> u32 \<Rightarrow> (btf_error, bytes) outcome" where
  "read_cstr data str_base off =
     (if off = 0 then Ok []
      else
        let start = str_base + unat off in
        if length data \<le> start then Err (String_offset_out_of_range off)
        else
          and_then (sub_slice data start (length data)) (\<lambda>tail.
          and_then (ok_or (Unterminated_string start) (map_option (\<lambda>p. start + p) (iter_position (\<lambda>b. b = 0) tail))) (\<lambda>stop.
          and_then (sub_slice data start stop) (\<lambda>text.
          if utf8_chars text = None then Err Invalid_utf8 else Ok text))))"

definition read_u32_at :: "bytes \<Rightarrow> nat \<Rightarrow> (btf_error, u32) outcome" where
  "read_u32_at data pos = and_then (sub_slice data pos (length data)) btf_read_u32"

definition parse_member :: "bytes \<Rightarrow> nat \<Rightarrow> nat \<Rightarrow> (bytes \<times> u32) list \<Rightarrow> nat \<Rightarrow> (btf_error, (bytes \<times> u32) list) outcome" where
  "parse_member data base str_base members i =
     (let pos = base + 12 + i * 12 in
      and_then (read_u32_at data pos) (\<lambda>mname_off.
      and_then (read_u32_at data (pos + 8)) (\<lambda>moff.
      and_then (read_cstr data str_base mname_off) (\<lambda>mname.
      Ok (members @ [(mname, (moff AND 0xFFFFFF) div 8)])))))"

definition parse_type ::
  "bytes \<Rightarrow> nat \<Rightarrow> nat \<Rightarrow> (btf_error, nat \<times> bytes option \<times> (bytes \<times> u32) list) outcome" where
  "parse_type data base str_base =
     (if length data < base + 8 then Err Truncated_type_header
      else
        and_then (read_u32_at data base) (\<lambda>name_off.
        and_then (read_u32_at data (base + 4)) (\<lambda>info.
        let kind = drop_bit 24 info AND 0x1f; vlen = unat (info AND 0xFFFF) in
        and_then (read_cstr data str_base name_off) (\<lambda>name.
        if kind = 4 \<or> kind = 5 then
          if length data < base + 12 + vlen * 12 then Err Truncated_struct_members
          else
            and_then (fold_outcome (parse_member data base str_base) [] [0..<vlen]) (\<lambda>members.
            Ok (12 + vlen * 12, Some name, members))
        else if kind = 1 \<or> kind = 16 then Ok (16, None, [])
        else if kind = 3 then Ok (24, None, [])
        else if kind = 6 then Ok (12 + vlen * 8, None, [])
        else if kind = 19 then Ok (12 + vlen * 12, None, [])
        else if kind = 12 then Ok (12, None, [])
        else if kind = 13 then Ok (12 + vlen * 8, None, [])
        else if kind = 14 \<or> kind = 17 then Ok (16, None, [])
        else if kind = 15 then Ok (12 + vlen * 16, None, [])
        else Ok (12, None, [])))))"

text \<open>What one record adds to the fields found so far, a hash map from targets to offsets.\<close>

type_synonym found = "((bytes \<times> bytes) \<times> u32) list"

definition record_struct :: "bytes option \<Rightarrow> (bytes \<times> u32) list \<Rightarrow> found \<Rightarrow> found" where
  "record_struct struct_name members found =
     (case struct_name of None \<Rightarrow> found
      | Some name \<Rightarrow>
          foldl (\<lambda>found (target_struct, target_field).
            if name = target_struct
            then foldl (\<lambda>found (member, byte_offset).
                   if member = target_field then AList.update (target_struct, target_field) byte_offset found else found)
                 found members
            else found) found TARGETS)"

partial_function (option) btf_loop ::
  "bytes \<Rightarrow> nat \<Rightarrow> nat \<Rightarrow> nat \<Rightarrow> nat \<Rightarrow> found \<Rightarrow> (btf_error, nat \<times> found) outcome option" where
  "btf_loop data type_base str_base type_len off found =
     (if off < type_len then
        (case parse_type data (type_base + off) str_base of
           Panic \<Rightarrow> Some Panic
         | Err e \<Rightarrow> Some (Err e)
         | Ok (step, struct_name, members) \<Rightarrow>
             (let found' = record_struct struct_name members found; off' = off + step in
              if length found' = length TARGETS then Some (Ok (off', found'))
              else btf_loop data type_base str_base type_len off' found'))
      else Some (Ok (off, found)))"

declare btf_loop.simps [code]

definition collect_offsets :: "nat \<Rightarrow> found \<Rightarrow> (btf_error, (bytes \<times> bytes \<times> u32) list) outcome" where
  "collect_offsets off found =
     (if length found \<noteq> length TARGETS then Err (Incomplete_offsets (length found) off)
      else fold_outcome (\<lambda>out (struct_name, field).
             and_then (ok_or Missing_offset (map_of found (struct_name, field))) (\<lambda>offset.
             Ok (out @ [(struct_name, field, offset)]))) [] TARGETS)"

definition header_u32 :: "bytes \<Rightarrow> nat \<Rightarrow> (btf_error, nat) outcome" where
  "header_u32 data i = and_then (sub_slice data i (i + 4)) (\<lambda>b. Ok (unat (from_le_bytes b :: u32)))"

text \<open>\<open>None\<close> is a run that does not end; the argument is what reading the file gives.\<close>

definition parse_btf :: "bytes option \<Rightarrow> (btf_error, (bytes \<times> bytes \<times> u32) list) outcome option" where
  "parse_btf btf =
     (case btf of None \<Rightarrow> Some (Err Read_btf)
      | Some data \<Rightarrow>
          if length data < 24 then Some (Err Btf_too_small)
          else
            let magic = from_le_bytes (take 2 data) :: u16 in
            if magic \<noteq> BTF_MAGIC then Some (Err (Bad_btf_magic magic))
            else
              (case and_then (header_u32 data 4) (\<lambda>hdr_len. and_then (header_u32 data 8) (\<lambda>type_off.
                    and_then (header_u32 data 12) (\<lambda>type_len. and_then (header_u32 data 16) (\<lambda>str_off.
                    Ok (hdr_len + type_off, hdr_len + str_off, type_len))))) of
                 Ok (type_base, str_base, type_len) \<Rightarrow>
                   map_option (\<lambda>r. and_then r (\<lambda>(off, found). collect_offsets off found))
                     (btf_loop data type_base str_base type_len 0 [])
               | Err e \<Rightarrow> Some (Err e)
               | Panic \<Rightarrow> Some Panic))"

text \<open>\<^verbatim>\<open>to_uppercase\<close> on the names of the table, which are ASCII, and the generated file.\<close>

definition byte_upper :: "u8 \<Rightarrow> u8" where
  "byte_upper b = (if 0x61 \<le> b \<and> b \<le> 0x7A then b - 0x20 else b)"

definition const_name :: "bytes \<Rightarrow> bytes \<Rightarrow> bytes" where
  "const_name struct_name field = map byte_upper struct_name @ ascii ''_'' @ map byte_upper field"

definition generated_body :: "(bytes \<times> bytes \<times> u32) list \<Rightarrow> bytes" where
  "generated_body offsets =
     foldl (\<lambda>body (struct_name, field, offset).
       body @ ascii ''pub const '' @ const_name struct_name field @ ascii '': usize = '' @ ascii (decimal (unat offset)) @ ascii '';'' @ [0x0A])
     (ascii ''// @generated by build.rs '' @ [0xE2, 0x80, 0x94] @ ascii '' do not edit'' @ [0x0A, 0x0A]) offsets"

definition DEFAULT_BTF_PATH :: string where "DEFAULT_BTF_PATH = ''/sys/kernel/btf/vmlinux''"

record probe_build_env =
  pb_out_dir :: bool
  pb_btf_path :: "string option"
  pb_read :: "string \<Rightarrow> bytes option"
  pb_allow_fallback :: bool
  pb_write_ok :: bool

definition resolve_offsets :: "probe_build_env \<Rightarrow> (unit, (bytes \<times> bytes \<times> u32) list) outcome option" where
  "resolve_offsets env =
     (let btf_path = (case pb_btf_path env of Some p \<Rightarrow> p | None \<Rightarrow> DEFAULT_BTF_PATH) in
      map_option (\<lambda>r. case r of
          Ok offsets \<Rightarrow> Ok offsets
        | Err e \<Rightarrow> if \<not> pb_allow_fallback env then Panic else Ok UNVERIFIED_DEVELOPMENT_FALLBACK
        | Panic \<Rightarrow> Panic) (parse_btf (pb_read env btf_path)))"

text \<open>The content of \<^verbatim>\<open>vmlinux_offsets.rs\<close>; a failed assertion or \<^verbatim>\<open>expect\<close> stops the build.\<close>

definition probe_build_main :: "probe_build_env \<Rightarrow> (unit, bytes) outcome option" where
  "probe_build_main env =
     (if \<not> pb_out_dir env then Some Panic
      else map_option (\<lambda>r. and_then r (\<lambda>offsets.
             if \<not> pb_write_ok env then Panic else Ok (generated_body offsets))) (resolve_offsets env))"

text \<open>The constants that \<^verbatim>\<open>vmlinux.rs\<close> reads from that file by name; without one of them it does not compile.\<close>

definition included_const :: "(bytes \<times> bytes \<times> u32) list \<Rightarrow> string \<Rightarrow> u64 option" where
  "included_const offsets name =
     map_option ucast (map_of (map (\<lambda>(s, f, off). (const_name s f, off)) offsets) (ascii name))"

definition vmlinux_offsets :: "(bytes \<times> bytes \<times> u32) list \<Rightarrow> btf_offsets option" where
  "vmlinux_offsets offsets =
     Option.bind (included_const offsets ''LINUX_BINPRM_FILE'') (\<lambda>a.
     Option.bind (included_const offsets ''FILE_F_INODE'') (\<lambda>b.
     Option.bind (included_const offsets ''INODE_I_INO'') (\<lambda>c.
     Option.bind (included_const offsets ''INODE_I_SB'') (\<lambda>d.
     Option.bind (included_const offsets ''SUPER_BLOCK_S_DEV'') (\<lambda>e.
     Some \<lparr>LINUX_BINPRM_FILE = a, FILE_F_INODE = b, INODE_I_INO = c, INODE_I_SB = d, SUPER_BLOCK_S_DEV = e\<rparr>)))))"

section \<open>Every input is decided\<close>

lemma read_u32_at_Ok: "pos + 4 \<le> length data \<Longrightarrow> read_u32_at data pos = Ok (from_le_bytes (take 4 (drop pos data)))"
  by (simp add: read_u32_at_def btf_read_u32_def sub_slice_def)

lemma iter_position_Some: "iter_position p xs = Some i \<Longrightarrow> i < length xs"
  by (induction xs arbitrary: i) (auto split: if_splits)

lemma read_cstr_no_panic: "read_cstr data str_base off \<noteq> Panic"
  by (auto simp: read_cstr_def Let_def outcome_simps dest!: iter_position_Some)

lemma parse_member_no_panic:
  "base + 12 + vlen * 12 \<le> length data \<Longrightarrow> i < vlen \<Longrightarrow> parse_member data base str_base ms i \<noteq> Panic"
  by (auto simp: parse_member_def Let_def outcome_simps read_u32_at_Ok read_cstr_no_panic)

lemma parse_type_no_panic: "parse_type data base str_base \<noteq> Panic"
proof -
  have "fold_outcome (parse_member data base str_base) ms [0..<vlen] \<noteq> Panic" if "base + 12 + vlen * 12 \<le> length data" for ms vlen
    using that by (intro fold_outcome_not_Panic) (auto simp: parse_member_no_panic)
  then show ?thesis
    by (cases "length data < base + 8") (auto simp: parse_type_def read_u32_at_Ok Let_def outcome_simps read_cstr_no_panic)
qed

lemma parse_type_step: "parse_type data base str_base = Ok (step, n, ms) \<Longrightarrow> 12 \<le> step"
  by (auto simp: parse_type_def Let_def outcome_simps split: if_splits)

definition found_ok :: "found \<Rightarrow> bool" where
  "found_ok found \<longleftrightarrow> distinct (map fst found) \<and> fst ` set found \<subseteq> set TARGETS"

lemma found_ok_update: "found_ok found \<Longrightarrow> k \<in> set TARGETS \<Longrightarrow> found_ok (AList.update k v found)"
  by (auto simp: found_ok_def distinct_update dom_update)

lemma record_struct_ok: "found_ok found \<Longrightarrow> found_ok (record_struct n ms found)"
proof -
  have inner: "found_ok (foldl (\<lambda>found (m, v). if m = f then AList.update k v found else found) found ms)"
    if "found_ok found" "k \<in> set TARGETS" for found f k
    using that by (induction ms arbitrary: found) (auto simp: found_ok_update)
  have "found_ok (foldl (\<lambda>found (s, f). if name = s
      then foldl (\<lambda>found (m, v). if m = f then AList.update (s, f) v found else found) found ms else found) found ts)"
    if "found_ok found" "set ts \<subseteq> set TARGETS" for name found ts
    using that by (induction ts arbitrary: found) (auto simp: inner)
  then show "found_ok found \<Longrightarrow> found_ok (record_struct n ms found)"
    by (auto simp: record_struct_def split: option.split)
qed

text \<open>The loop ends on every input: each record advances by at least twelve bytes.\<close>

lemma btf_loop_returns:
  assumes "found_ok found"
  shows "\<exists>r. btf_loop data type_base str_base type_len off found = Some r \<and> r \<noteq> Panic \<and> (\<forall>o' f. r = Ok (o', f) \<longrightarrow> found_ok f)"
  using assms
proof (induction "type_len - off" arbitrary: off found rule: less_induct)
  case less
  show ?case
  proof (cases "off < type_len")
    case True
    show ?thesis
    proof (cases "parse_type data (type_base + off) str_base")
      case (Ok x)
      obtain step n ms where x: "x = (step, n, ms)" by (cases x)
      have "12 \<le> step" using Ok x parse_type_step by blast
      then have "type_len - (off + step) < type_len - off" using True by simp
      from less.hyps [OF this record_struct_ok [OF less.prems]] show ?thesis
        using True Ok x record_struct_ok [OF less.prems] by (subst btf_loop.simps) (auto simp: Let_def)
    next
      case (Err e)
      then show ?thesis using True by (subst btf_loop.simps) simp
    next
      case Panic
      then show ?thesis using parse_type_no_panic by blast
    qed
  next
    case False
    then show ?thesis using less.prems by (subst btf_loop.simps) simp
  qed
qed

lemma distinct_TARGETS: "distinct TARGETS"
  by (simp add: TARGETS_def)

lemma found_all:
  assumes "found_ok found" and "length found = length TARGETS"
  shows "fst ` set found = set TARGETS"
proof (rule card_subset_eq)
  show "card (fst ` set found) = card (set TARGETS)"
    using assms distinct_TARGETS by (metis distinct_card found_ok_def length_map list.set_map)
qed (use assms in \<open>simp_all add: found_ok_def\<close>)

lemma collect_loop:
  assumes "\<And>s f. (s, f) \<in> set ts \<Longrightarrow> map_of found (s, f) = Some (v s f)"
  shows "fold_outcome (\<lambda>out (s, f). and_then (ok_or Missing_offset (map_of found (s, f))) (\<lambda>offset. Ok (out @ [(s, f, offset)]))) out ts =
    Ok (out @ map (\<lambda>(s, f). (s, f, v s f)) ts)"
  using assms by (induction ts arbitrary: out) auto

lemma collect_found:
  assumes "found_ok found" and "length found = length TARGETS"
  shows "collect_offsets off found = Ok (map (\<lambda>(s, f). (s, f, the (map_of found (s, f)))) TARGETS)"
proof -
  have "map_of found (s, f) = Some (the (map_of found (s, f)))" if "(s, f) \<in> set TARGETS" for s f
    using that found_all [OF assms] by (metis domIff dom_map_of_conv_image_fst option.collapse)
  then show ?thesis using collect_loop [of TARGETS found "\<lambda>s f. the (map_of found (s, f))" "[]"] assms(2)
    by (simp add: collect_offsets_def)
qed

lemma const_names:
  "map (\<lambda>(s, f). const_name s f) TARGETS =
     map ascii [''LINUX_BINPRM_FILE'', ''FILE_F_INODE'', ''INODE_I_INO'', ''INODE_I_SB'', ''SUPER_BLOCK_S_DEV'']"
  by (simp add: TARGETS_def const_name_def byte_upper_def ascii_def)

text \<open>The constants of the five fields.\<close>

definition target_offsets :: "(bytes \<Rightarrow> bytes \<Rightarrow> u32) \<Rightarrow> btf_offsets" where
  "target_offsets v = \<lparr>LINUX_BINPRM_FILE = ucast (v (ascii ''linux_binprm'') (ascii ''file'')),
     FILE_F_INODE = ucast (v (ascii ''file'') (ascii ''f_inode'')), INODE_I_INO = ucast (v (ascii ''inode'') (ascii ''i_ino'')),
     INODE_I_SB = ucast (v (ascii ''inode'') (ascii ''i_sb'')), SUPER_BLOCK_S_DEV = ucast (v (ascii ''super_block'') (ascii ''s_dev''))\<rparr>"

lemma vmlinux_offsets_targets: "vmlinux_offsets (map (\<lambda>(s, f). (s, f, v s f)) TARGETS) = Some (target_offsets v)"
proof -
  have c: "map (\<lambda>(s, f, off). (const_name s f, off)) (map (\<lambda>(s, f). (s, f, v s f)) TARGETS) =
      zip (map (\<lambda>(s, f). const_name s f) TARGETS) (map (\<lambda>(s, f). v s f) TARGETS)"
    by (simp add: TARGETS_def)
  show ?thesis
    unfolding vmlinux_offsets_def included_const_def c const_names
    by (simp add: TARGETS_def target_offsets_def)
qed

lemma parse_btf_returns:
  "\<exists>r. parse_btf btf = Some r \<and>
     (case r of Panic \<Rightarrow> False | Err e \<Rightarrow> True
      | Ok offsets \<Rightarrow> map (\<lambda>(s, f, off). (s, f)) offsets = TARGETS \<and> (\<exists>offs. vmlinux_offsets offsets = Some offs))"
proof -
  have l: "\<exists>r. map_option (\<lambda>r. and_then r (\<lambda>(off, found). collect_offsets off found)) (btf_loop data tb sb tl 0 []) = Some r \<and>
     (case r of Panic \<Rightarrow> False | Err e \<Rightarrow> True
      | Ok offsets \<Rightarrow> map (\<lambda>(s, f, off). (s, f)) offsets = TARGETS \<and> (\<exists>offs. vmlinux_offsets offsets = Some offs))" for data tb sb tl
  proof -
    obtain r where r: "btf_loop data tb sb tl 0 [] = Some r" "r \<noteq> Panic" "\<forall>o' f. r = Ok (o', f) \<longrightarrow> found_ok f"
      using btf_loop_returns [of "[]" data tb sb tl 0] by (auto simp: found_ok_def)
    have m: "map (\<lambda>(s, f, off). (s, f)) (map (\<lambda>(s, f). (s, f, v s f)) ts) = ts" for v :: "bytes \<Rightarrow> bytes \<Rightarrow> u32" and ts
      by (induction ts) auto
    show ?thesis
    proof (cases r)
      case (Ok x)
      obtain o' f where x: "x = (o', f)" by (cases x)
      show ?thesis
      proof (cases "length f = length TARGETS")
        case True
        then show ?thesis
          using r Ok x collect_found [of f o'] m [of "\<lambda>s g. the (map_of f (s, g))" TARGETS] vmlinux_offsets_targets by simp
      next
        case False
        then show ?thesis using r Ok x by (simp add: collect_offsets_def)
      qed
    qed (use r in simp_all)
  qed
  have "header_u32 data i = Ok (unat (from_le_bytes (take 4 (drop i data)) :: u32))" if "i + 4 \<le> length data" for data i
    using that by (simp add: header_u32_def sub_slice_def)
  then show ?thesis using l by (cases btf) (simp_all add: parse_btf_def Let_def)
qed

text \<open>
  C22. The parser of the kernel's type information ends on every input and never panics; success means exactly the five fields in
  the order of the table, so that the constants generated from them are all defined.
\<close>

theorem btf_parser_returns:
  "\<exists>r. parse_btf btf = Some r \<and>
     (case r of Panic \<Rightarrow> False | Err e \<Rightarrow> True
      | Ok offsets \<Rightarrow> map (\<lambda>(s, f, off). (s, f)) offsets = TARGETS \<and> (\<exists>offs. vmlinux_offsets offsets = Some offs))"
  by (rule parse_btf_returns)

section \<open>The documented format\<close>

text \<open>
  A type record: a name, an information word with the kind, a flag and a count, a third word, and data of a length that depends on kind
  and count. Structures and unions carry their members, each with a name, a type and the position in bits.
\<close>

datatype btf_entry =
    Composite u32 bool bool u32 "(u32 \<times> u32 \<times> u32) list"
  | Plain u32 u32 bool u32 u32 bytes

definition info_word :: "u32 \<Rightarrow> bool \<Rightarrow> u32 \<Rightarrow> u32" where
  "info_word kind flag vlen = push_bit 24 kind OR vlen OR (if flag then push_bit 31 1 else 0)"

definition member_bytes :: "u32 \<times> u32 \<times> u32 \<Rightarrow> bytes" where
  "member_bytes m = (case m of (name, ty, pos) \<Rightarrow> to_le_bytes 4 name @ to_le_bytes 4 ty @ to_le_bytes 4 pos)"

fun entry_bytes :: "btf_entry \<Rightarrow> bytes" where
  "entry_bytes (Composite name is_union flag sz ms) =
     to_le_bytes 4 name @ to_le_bytes 4 (info_word (if is_union then 5 else 4) flag (of_nat (length ms))) @ to_le_bytes 4 sz @
     concat (map member_bytes ms)"
| "entry_bytes (Plain name kind flag vlen third extra) =
     to_le_bytes 4 name @ to_le_bytes 4 (info_word kind flag vlen) @ to_le_bytes 4 third @ extra"

text \<open>The lengths of the data behind the three words, by kind.\<close>

definition btf_extra :: "u32 \<Rightarrow> nat \<Rightarrow> nat" where
  "btf_extra kind vlen =
     (if kind = 1 then 4 else if kind = 3 then 12 else if kind = 6 then 8 * vlen else if kind = 13 then 8 * vlen
      else if kind = 14 then 4 else if kind = 15 then 12 * vlen else if kind = 17 then 4 else if kind = 19 then 12 * vlen else 0)"

definition btf_name :: "bytes \<Rightarrow> u32 \<Rightarrow> bytes" where
  "btf_name strs off = (if off = 0 then [] else takeWhile (\<lambda>b. b \<noteq> 0) (drop (unat off) strs))"

definition valid_name :: "bytes \<Rightarrow> u32 \<Rightarrow> bool" where
  "valid_name strs off \<longleftrightarrow>
     off = 0 \<or> unat off < length strs \<and> 0 \<in> set (drop (unat off) strs) \<and> utf8_chars (btf_name strs off) \<noteq> None"

text \<open>
  Well-formed entries, with two restrictions of the parser: structures whose members have no bit fields are below 2 MiB, and the kinds 15 (with
  sections) and 16, whose lengths it gets wrong, are left out.
\<close>

fun valid_entry :: "bytes \<Rightarrow> btf_entry \<Rightarrow> bool" where
  "valid_entry strs (Composite name is_union flag sz ms) \<longleftrightarrow>
     valid_name strs name \<and> length ms < 2 ^ 16 \<and>
     list_all (\<lambda>(n, ty, pos). valid_name strs n \<and> (flag \<or> take_bit 24 pos = pos)) ms"
| "valid_entry strs (Plain name kind flag vlen third extra) \<longleftrightarrow>
     valid_name strs name \<and> take_bit 5 kind = kind \<and> take_bit 16 vlen = vlen \<and> kind \<notin> {4, 5} \<and>
     length extra = btf_extra kind (unat vlen) \<and> kind \<noteq> 16 \<and> (kind = 15 \<longrightarrow> vlen = 0)"

definition btf_document :: "btf_entry list \<Rightarrow> bytes \<Rightarrow> bytes" where
  "btf_document es strs =
     (let types = concat (map entry_bytes es); n = of_nat (length types) :: u32 in
      to_le_bytes 2 BTF_MAGIC @ [1, 0] @ to_le_bytes 4 (24 :: u32) @ to_le_bytes 4 (0 :: u32) @ to_le_bytes 4 n @ to_le_bytes 4 n @
      to_le_bytes 4 (of_nat (length strs) :: u32) @ types @ strs)"

text \<open>The byte offsets of the members of a name in the structures of a name, in the order of the document.\<close>

definition member_offset :: "bool \<Rightarrow> u32 \<Rightarrow> u32" where
  "member_offset flag pos = (if flag then take_bit 24 pos else pos) div 8"

fun entry_offsets :: "bytes \<Rightarrow> bytes \<Rightarrow> bytes \<Rightarrow> btf_entry \<Rightarrow> u32 list" where
  "entry_offsets strs s f (Composite name is_union flag sz ms) =
     (if btf_name strs name = s
      then map (\<lambda>(n, ty, pos). member_offset flag pos) (filter (\<lambda>(n, ty, pos). btf_name strs n = f) ms) else [])"
| "entry_offsets strs s f (Plain name kind flag vlen third extra) = []"

definition field_offsets :: "bytes \<Rightarrow> btf_entry list \<Rightarrow> bytes \<Rightarrow> bytes \<Rightarrow> u32 list" where
  "field_offsets strs es s f = concat (map (entry_offsets strs s f) es)"

section \<open>Parsing of one record\<close>

lemma info_fields:
  assumes "take_bit 5 kind = kind" and "take_bit 16 vlen = vlen"
  shows "drop_bit 24 (info_word kind flag vlen) AND 0x1f = kind" and "info_word kind flag vlen AND 0xFFFF = vlen"
proof -
  have m: "(0x1f :: u32) = mask 5" "(0xFFFF :: u32) = mask 16" by (simp_all add: mask_eq_exp_minus_1)
  have k: "bit kind i \<Longrightarrow> i < 5" for i using assms(1) by (metis bit_take_bit_iff)
  have v: "bit vlen i \<Longrightarrow> i < 16" for i using assms(2) by (metis bit_take_bit_iff)
  define w :: u32 where "w = (if flag then push_bit 31 1 else 0)"
  have f: "bit (push_bit 31 1 :: u32) i \<longleftrightarrow> i = 31" for i by (subst bit_push_bit_iff) (auto simp: bit_1_iff)
  have w: "bit w i \<Longrightarrow> i = 31" for i unfolding w_def by (cases flag) (simp_all only: f if_True if_False bit_0_eq bot_apply bot_bool_def)
  have i: "info_word kind flag vlen = push_bit 24 kind OR vlen OR w" by (simp add: info_word_def w_def)
  show "drop_bit 24 (info_word kind flag vlen) AND 0x1f = kind"
    unfolding m i by (rule bit_word_eqI) (auto simp: bit_simps dest: k v w)
  show "info_word kind flag vlen AND 0xFFFF = vlen"
    unfolding m i by (rule bit_word_eqI) (auto simp: bit_simps dest: k v w)
qed

lemma sub_slice_rest: "a \<le> length xs \<Longrightarrow> sub_slice xs a (length xs) = Ok (drop a xs)"
  by (simp add: sub_slice_def)

lemma read_u32_at_field:
  assumes "data = pre @ to_le_bytes 4 w @ post" and "pos = length pre"
  shows "read_u32_at data pos = Ok w"
  using assms by (simp add: read_u32_at_Ok)

lemma iter_position_takeWhile:
  "x \<in> set xs \<Longrightarrow> iter_position (\<lambda>b. b = x) xs = Some (length (takeWhile (\<lambda>b. b \<noteq> x) xs))"
  by (induction xs) auto

lemma read_cstr_name:
  assumes "drop str_base data = strs" and "valid_name strs off"
  shows "read_cstr data str_base off = Ok (btf_name strs off)"
proof (cases "off = 0")
  case False
  let ?tail = "drop (unat off) strs" and ?start = "str_base + unat off"
  have t: "drop ?start data = ?tail" using assms(1) by (metis add.commute drop_drop)
  have v: "unat off < length strs" "0 \<in> set ?tail" "utf8_chars (btf_name strs off) \<noteq> None"
    using assms(2) False by (simp_all add: valid_name_def)
  have l: "?start < length data" using v(1) assms(1) by (auto simp: less_diff_conv)
  let ?n = "length (btf_name strs off)"
  have n: "iter_position (\<lambda>b. b = 0) ?tail = Some ?n" "take ?n ?tail = btf_name strs off" "?n \<le> length ?tail"
    using iter_position_takeWhile [OF v(2)] False length_takeWhile_le [of "\<lambda>b. b \<noteq> 0" ?tail]
    by (simp_all add: btf_name_def takeWhile_eq_take [symmetric] length_takeWhile_le)
  have "sub_slice data ?start (length data) = Ok ?tail" using l t by (simp add: sub_slice_rest)
  moreover have "sub_slice data ?start (?start + ?n) = Ok (btf_name strs off)"
  proof -
    have "length (drop ?start data) = length ?tail" using t by simp
    then have "?start + ?n \<le> length data" using n(3) l by simp
    then show ?thesis using n(2) t by (simp add: sub_slice_def)
  qed
  ultimately show ?thesis using False l n(1) v(3) by (simp add: read_cstr_def Let_def)
qed (simp add: read_cstr_def btf_name_def)

lemma length_member_bytes: "length (member_bytes m) = 12"
  by (cases m) (simp add: member_bytes_def)

lemma length_members: "length (concat (map member_bytes ms)) = length ms * 12"
  by (induction ms) (simp_all add: length_member_bytes)

fun parsed_member :: "bytes \<Rightarrow> u32 \<times> u32 \<times> u32 \<Rightarrow> bytes \<times> u32" where
  "parsed_member strs (n, ty, pos) = (btf_name strs n, (pos AND 0xFFFFFF) div 8)"

lemma parse_members:
  assumes "data = pre @ concat (map member_bytes ms) @ post" and "length pre = base + 12" and "drop str_base data = strs"
    and "\<And>n ty pos. (n, ty, pos) \<in> set ms \<Longrightarrow> valid_name strs n" and "k \<le> length ms"
  shows "fold_outcome (parse_member data base str_base) [] [0..<k] = Ok (map (parsed_member strs) (take k ms))"
  using assms(5)
proof (induction k)
  case (Suc k)
  obtain n ty pos where m: "ms ! k = (n, ty, pos)" by (cases "ms ! k")
  have ms: "ms = take k ms @ (n, ty, pos) # drop (Suc k) ms" using Suc.prems m by (metis Suc_le_eq id_take_nth_drop)
  let ?pre = "pre @ concat (map member_bytes (take k ms))"
  have d: "data = ?pre @ to_le_bytes 4 n @ to_le_bytes 4 ty @ to_le_bytes 4 pos @ concat (map member_bytes (drop (Suc k) ms)) @ post"
    unfolding assms(1) by (subst ms) (simp add: member_bytes_def)
  have l: "length ?pre = base + 12 + k * 12" using assms(2) Suc.prems by (simp add: length_members)
  have "read_u32_at data (base + 12 + k * 12) = Ok n"
    using d l by (intro read_u32_at_field [where pre = ?pre]) simp_all
  moreover have "read_u32_at data (base + 12 + k * 12 + 8) = Ok pos"
    using d l by (intro read_u32_at_field [where pre = "?pre @ to_le_bytes 4 n @ to_le_bytes 4 ty"]) simp_all
  moreover have "read_cstr data str_base n = Ok (btf_name strs n)"
    using assms(4) [of n ty pos] m Suc.prems by (intro read_cstr_name [OF assms(3)]) (metis Suc_le_eq nth_mem)
  ultimately have "parse_member data base str_base acc k = Ok (acc @ [parsed_member strs (ms ! k)])" for acc
    by (simp add: parse_member_def Let_def m)
  then show ?case using Suc by (simp add: fold_outcome_append take_Suc_conv_app_nth)
qed simp

fun parsed_entry :: "bytes \<Rightarrow> btf_entry \<Rightarrow> bytes option \<times> (bytes \<times> u32) list" where
  "parsed_entry strs (Composite name is_union flag sz ms) = (Some (btf_name strs name), map (parsed_member strs) ms)"
| "parsed_entry strs (Plain name kind flag vlen third extra) = (None, [])"

text \<open>The step of the script over a record of another kind.\<close>

definition btf_step :: "u32 \<Rightarrow> nat \<Rightarrow> nat" where
  "btf_step kind vlen =
     (if kind = 1 \<or> kind = 14 \<or> kind = 16 \<or> kind = 17 then 16 else if kind = 3 then 24 else if kind = 6 \<or> kind = 13 then 12 + vlen * 8
      else if kind = 15 then 12 + vlen * 16 else if kind = 19 then 12 + vlen * 12 else 12)"

lemma parse_plain:
  assumes "data = pre @ entry_bytes (Plain name kind flag vlen third extra) @ post" and "drop str_base data = strs"
    and "valid_name strs name" and "take_bit 5 kind = kind" "take_bit 16 vlen = vlen" "kind \<notin> {4, 5}"
  shows "parse_type data (length pre) str_base = Ok (btf_step kind (unat vlen), None, [])"
proof -
  let ?info = "info_word kind flag vlen"
  have d: "data = pre @ to_le_bytes 4 name @ to_le_bytes 4 ?info @ to_le_bytes 4 third @ extra @ post"
    using assms(1) by simp
  have "read_u32_at data (length pre) = Ok name" using d by (intro read_u32_at_field [where pre = pre]) simp_all
  moreover have "read_u32_at data (length pre + 4) = Ok ?info"
    using d by (intro read_u32_at_field [where pre = "pre @ to_le_bytes 4 name"]) simp_all
  moreover have "length pre + 8 \<le> length data" using d by simp
  ultimately show ?thesis
    using assms(6) info_fields [OF assms(4,5), of flag] read_cstr_name [OF assms(2,3)]
    by (auto simp: parse_type_def Let_def btf_step_def)
qed

lemma parse_type_entry:
  assumes "data = pre @ entry_bytes e @ post" and "drop str_base data = strs" and "valid_entry strs e"
  shows "parse_type data (length pre) str_base = Ok (length (entry_bytes e), parsed_entry strs e)"
proof (cases e)
  case (Composite name is_union flag sz ms)
  let ?k = "if is_union then 5 else 4 :: u32" and ?v = "of_nat (length ms) :: u32"
  let ?info = "info_word ?k flag ?v"
  have l: "length ms < 2 ^ 16" "valid_name strs name" and n: "\<And>n ty pos. (n, ty, pos) \<in> set ms \<Longrightarrow> valid_name strs n"
    using assms(3) Composite by (auto simp: list_all_iff)
  have u: "unat ?v = length ms" using l(1) by (intro unat_of_nat_u32) simp
  then have "unat (take_bit 16 ?v) = unat ?v" using l(1) by (simp only: unsigned_take_bit_eq take_bit_nat_eq_self)
  then have "take_bit 16 ?v = ?v" by (rule unsigned_word_eqI)
  then have i: "drop_bit 24 ?info AND 0x1f = ?k" "unat (?info AND 0xFFFF) = length ms"
    using info_fields [of ?k ?v flag] u by simp_all
  have d: "data = pre @ to_le_bytes 4 name @ to_le_bytes 4 ?info @ to_le_bytes 4 sz @ concat (map member_bytes ms) @ post"
    using assms(1) Composite by simp
  have "read_u32_at data (length pre) = Ok name" using d by (intro read_u32_at_field [where pre = pre]) simp_all
  moreover have "read_u32_at data (length pre + 4) = Ok ?info"
    using d by (intro read_u32_at_field [where pre = "pre @ to_le_bytes 4 name"]) simp_all
  moreover have "fold_outcome (parse_member data (length pre) str_base) [] [0..<length ms] = Ok (map (parsed_member strs) ms)"
    using parse_members [of data "pre @ to_le_bytes 4 name @ to_le_bytes 4 ?info @ to_le_bytes 4 sz" ms post "length pre" str_base strs]
      d n assms(2) by simp
  moreover have "length data = length pre + 12 + length ms * 12 + length post" using d by (simp add: length_members)
  ultimately show ?thesis
    using i Composite read_cstr_name [OF assms(2) l(2)] by (simp add: parse_type_def Let_def length_members)
next
  case (Plain name kind flag vlen third extra)
  have v: "valid_name strs name" "take_bit 5 kind = kind" "take_bit 16 vlen = vlen" "kind \<notin> {4, 5}"
      "length extra = btf_extra kind (unat vlen)" "kind \<noteq> 16" "kind = 15 \<longrightarrow> vlen = 0"
    using assms(3) Plain by simp_all
  show ?thesis
    using parse_plain [OF assms(1) [unfolded Plain] assms(2) v(1-4)] v Plain by (auto simp: btf_step_def btf_extra_def)
qed

section \<open>The loop on a document\<close>

definition last_or :: "'a option \<Rightarrow> 'a list \<Rightarrow> 'a option" where
  "last_or d vs = (if vs = [] then d else Some (last vs))"

lemma last_or_simps [simp]:
  "last_or d [] = d" "last_or (last_or d us) vs = last_or d (us @ vs)" "last_or (Some v) vs = last_or d (v # vs)"
  by (simp_all add: last_or_def)

lemma record_members:
  "map_of (foldl (\<lambda>found (m, v). if m = f then AList.update k v found else found) found ms) k' =
     (if k' = k then last_or (map_of found k) (map snd (filter (\<lambda>(m, v). m = f) ms)) else map_of found k')"
proof (induction ms arbitrary: found)
  case (Cons mv ms)
  obtain m v where mv: "mv = (m, v)" by (cases mv)
  show ?case by (cases "m = f") (simp_all add: Cons mv update_conv' last_or_def)
qed simp

lemma record_targets:
  "distinct ts \<Longrightarrow> map_of (foldl (\<lambda>found (s, f). if name = s
      then foldl (\<lambda>found (m, v). if m = f then AList.update (s, f) v found else found) found ms else found) found ts) (s, f) =
   (if (s, f) \<in> set ts \<and> name = s then last_or (map_of found (s, f)) (map snd (filter (\<lambda>(m, v). m = f) ms))
    else map_of found (s, f))"
proof (induction ts arbitrary: found)
  case (Cons t ts)
  obtain s' f' where t: "t = (s', f')" by (cases t)
  show ?case using Cons.prems by (auto simp: t Cons.IH record_members)
qed simp

lemma record_struct_lookup:
  "(s, f) \<in> set TARGETS \<Longrightarrow> map_of (record_struct (Some name) ms found) (s, f) =
     last_or (map_of found (s, f)) (if name = s then map snd (filter (\<lambda>(m, v). m = f) ms) else [])"
  by (simp add: record_struct_def record_targets [OF distinct_TARGETS])

text \<open>A record updates the fields found so far by the offsets the document gives.\<close>

lemma record_entry:
  assumes "valid_entry strs e" and "(s, f) \<in> set TARGETS"
  shows "map_of (record_struct (fst (parsed_entry strs e)) (snd (parsed_entry strs e)) found) (s, f) =
    last_or (map_of found (s, f)) (entry_offsets strs s f e)"
proof (cases e)
  case (Composite name is_union flag sz ms)
  have m: "(0xFFFFFF :: u32) = mask 24" by (simp add: mask_eq_exp_minus_1)
  have o: "(pos AND 0xFFFFFF) div 8 = member_offset flag pos" if "flag \<or> take_bit 24 pos = pos" for pos
    using that by (auto simp: member_offset_def m take_bit_eq_mask [symmetric])
  have "map snd (filter (\<lambda>(m, v). m = f) (map (parsed_member strs) ms)) =
      map (\<lambda>(n, ty, pos). member_offset flag pos) (filter (\<lambda>(n, ty, pos). btf_name strs n = f) ms)"
    using assms(1) unfolding Composite by (induction ms) (auto simp: o)
  then show ?thesis using Composite by (simp add: record_struct_lookup [OF assms(2)])
qed (simp add: record_struct_def)

definition found_upto :: "bytes \<Rightarrow> btf_entry list \<Rightarrow> found \<Rightarrow> bool" where
  "found_upto strs es found \<longleftrightarrow>
     found_ok found \<and> (\<forall>(s, f) \<in> set TARGETS. map_of found (s, f) = last_or None (field_offsets strs es s f))"

lemma found_upto_step:
  assumes "found_upto strs es found" and "valid_entry strs e"
  shows "found_upto strs (es @ [e]) (record_struct (fst (parsed_entry strs e)) (snd (parsed_entry strs e)) found)"
  using assms record_entry [OF assms(2)] by (auto simp: found_upto_def record_struct_ok field_offsets_def)

lemma entry_bytes_nonempty: "0 < length (entry_bytes e)"
  by (cases e) simp_all

lemma btf_loop_document:
  assumes "data = hdr @ concat (map entry_bytes (es @ es')) @ strs" and "list_all (valid_entry strs) es'"
    and "found_upto strs es found" and "n = length (concat (map entry_bytes (es @ es')))"
  shows "\<exists>off us vs found'. btf_loop data (length hdr) (length hdr + n) n (length (concat (map entry_bytes es))) found = Some (Ok (off, found'))
    \<and> es @ es' = us @ vs \<and> found_upto strs us found' \<and> (vs = [] \<or> length found' = length TARGETS)"
  using assms
proof (induction es' arbitrary: es found)
  case Nil
  then show ?case by (subst btf_loop.simps) auto
next
  case (Cons e es')
  let ?pre = "hdr @ concat (map entry_bytes es)" and ?p = "parsed_entry strs e"
  let ?found = "record_struct (fst ?p) (snd ?p) found"
  have v: "valid_entry strs e" using Cons.prems(2) by simp
  have d: "data = ?pre @ entry_bytes e @ concat (map entry_bytes es') @ strs" using Cons.prems(1) by simp
  have "drop (length hdr + n) data = strs" using Cons.prems(1,4) by simp
  from parse_type_entry [OF d this v]
  have p: "parse_type data (length hdr + length (concat (map entry_bytes es))) (length hdr + n) = Ok (length (entry_bytes e), ?p)"
    by simp
  have lt: "length (concat (map entry_bytes es)) < n" using Cons.prems(4) entry_bytes_nonempty [of e] by simp
  have f: "found_upto strs (es @ [e]) ?found" by (rule found_upto_step [OF Cons.prems(3) v])
  show ?case
  proof (cases "length ?found = length TARGETS")
    case True
    then have "btf_loop data (length hdr) (length hdr + n) n (length (concat (map entry_bytes es))) found =
        Some (Ok (length (concat (map entry_bytes es)) + length (entry_bytes e), ?found))"
      using p lt by (subst btf_loop.simps, cases ?p) (simp add: Let_def)
    moreover have "es @ e # es' = (es @ [e]) @ es'" by simp
    ultimately show ?thesis using f True by blast
  next
    case False
    have "btf_loop data (length hdr) (length hdr + n) n (length (concat (map entry_bytes es))) found =
        btf_loop data (length hdr) (length hdr + n) n (length (concat (map entry_bytes (es @ [e])))) ?found"
      using p lt False by (subst btf_loop.simps, cases ?p) (simp add: Let_def)
    then show ?thesis using Cons.IH [of "es @ [e]" ?found] Cons.prems f by simp
  qed
qed

lemma targets_found:
  assumes "found_ok found" and "\<And>s f. (s, f) \<in> set TARGETS \<Longrightarrow> map_of found (s, f) \<noteq> None"
  shows "length found = length TARGETS"
proof -
  have "fst ` set found = set TARGETS"
    using assms by (fastforce simp: found_ok_def dom_map_of_conv_image_fst [symmetric] dom_def)
  then have "card (set (map fst found)) = card (set TARGETS)" by simp
  then show ?thesis using assms(1) distinct_TARGETS by (simp add: found_ok_def distinct_card del: set_map)
qed

lemma collect_document:
  assumes "found_upto strs us found" and "es = us @ vs" and "vs = [] \<or> length found = length TARGETS"
    and "\<And>s f. (s, f) \<in> set TARGETS \<Longrightarrow> field_offsets strs es s f = [v s f]"
  shows "collect_offsets off found = Ok (map (\<lambda>(s, f). (s, f, v s f)) TARGETS)"
proof -
  have ok: "found_ok found" using assms(1) by (simp add: found_upto_def)
  have m: "map_of found (s, f) = last_or None (field_offsets strs us s f)" if "(s, f) \<in> set TARGETS" for s f
    using assms(1) that by (auto simp: found_upto_def)
  have ne: "map_of found (s, f) \<noteq> None" if t: "(s, f) \<in> set TARGETS" for s f
  proof (cases "vs = []")
    case True
    then show ?thesis using m [OF t] assms(2) assms(4) [OF t] by (simp add: last_or_def)
  next
    case False
    then show ?thesis using found_all [OF ok] assms(3) t by (metis map_of_eq_None_iff)
  qed
  have val: "map_of found (s, f) = Some (v s f)" if t: "(s, f) \<in> set TARGETS" for s f
  proof -
    have "field_offsets strs us s f @ field_offsets strs vs s f = [v s f]"
      using assms(2) assms(4) [OF t] by (simp add: field_offsets_def)
    moreover have "field_offsets strs us s f \<noteq> []" using m [OF t] ne [OF t] by (auto simp: last_or_def split: if_splits)
    ultimately show ?thesis using m [OF t] by (auto simp: append_eq_Cons_conv last_or_def)
  qed
  show ?thesis
    using collect_loop [of TARGETS found v "[]"] val targets_found [OF ok ne] by (simp add: collect_offsets_def)
qed

lemma header_u32_field:
  assumes "data = pre @ to_le_bytes 4 (w :: u32) @ post" and "i = length pre"
  shows "header_u32 data i = Ok (unat w)"
  using assms by (simp add: header_u32_def sub_slice_def)

lemma parse_btf_header:
  assumes d: "data = to_le_bytes 2 BTF_MAGIC @ ver @ to_le_bytes 4 (h :: u32) @ to_le_bytes 4 (t :: u32) @ to_le_bytes 4 (n :: u32) @
      to_le_bytes 4 (s :: u32) @ rest"
    and "length ver = 2" and "4 \<le> length rest"
  shows "parse_btf (Some data) = map_option (\<lambda>r. and_then r (\<lambda>(off, found). collect_offsets off found))
    (btf_loop data (unat h + unat t) (unat h + unat s) (unat n) 0 [])"
proof -
  let ?m = "to_le_bytes 2 BTF_MAGIC @ ver"
  have "header_u32 data 4 = Ok (unat h)"
    using assms by (intro header_u32_field [where pre = ?m]) simp_all
  moreover have "header_u32 data 8 = Ok (unat t)"
    using assms by (intro header_u32_field [where pre = "?m @ to_le_bytes 4 h"]) simp_all
  moreover have "header_u32 data 12 = Ok (unat n)"
    using assms by (intro header_u32_field [where pre = "?m @ to_le_bytes 4 h @ to_le_bytes 4 t"]) simp_all
  moreover have "header_u32 data 16 = Ok (unat s)"
    using assms by (intro header_u32_field [where pre = "?m @ to_le_bytes 4 h @ to_le_bytes 4 t @ to_le_bytes 4 n"]) simp_all
  moreover have "\<not> length data < 24" "from_le_bytes (take 2 data) = BTF_MAGIC" using assms by simp_all
  ultimately show ?thesis by (simp add: parse_btf_def Let_def)
qed

lemma parse_btf_document:
  assumes "length (concat (map entry_bytes es)) < 2 ^ 32"
  shows "parse_btf (Some (btf_document es strs)) =
    (let n = length (concat (map entry_bytes es)) in
     map_option (\<lambda>r. and_then r (\<lambda>(off, found). collect_offsets off found)) (btf_loop (btf_document es strs) 24 (24 + n) n 0 []))"
proof -
  let ?t = "concat (map entry_bytes es)"
  let ?n = "of_nat (length ?t) :: u32"
  have n: "unat ?n = length ?t" using assms by (rule unat_of_nat_u32)
  have "parse_btf (Some (btf_document es strs)) = map_option (\<lambda>r. and_then r (\<lambda>(off, found). collect_offsets off found))
    (btf_loop (btf_document es strs) (unat (24 :: u32) + unat (0 :: u32)) (unat (24 :: u32) + unat ?n) (unat ?n) 0 [])"
    by (rule parse_btf_header [where ver = "[1, 0]" and rest = "to_le_bytes 4 (of_nat (length strs) :: u32) @ ?t @ strs"])
      (simp_all only: btf_document_def Let_def append_assoc, simp_all)
  then show ?thesis by (simp add: n Let_def)
qed

lemma parse_document_offsets:
  assumes "list_all (valid_entry strs) es" and "length (concat (map entry_bytes es)) < 2 ^ 32"
    and "\<And>s f. (s, f) \<in> set TARGETS \<Longrightarrow> field_offsets strs es s f = [v s f]"
  shows "parse_btf (Some (btf_document es strs)) = Some (Ok (map (\<lambda>(s, f). (s, f, v s f)) TARGETS))"
proof -
  let ?n = "length (concat (map entry_bytes es))" and ?d = "btf_document es strs"
  define hdr where "hdr = take 24 ?d"
  have d: "?d = hdr @ concat (map entry_bytes ([] @ es)) @ strs" and h: "length hdr = 24"
    by (simp_all add: hdr_def btf_document_def Let_def)
  have "found_upto strs [] []" by (auto simp: found_upto_def found_ok_def field_offsets_def)
  from btf_loop_document [OF d assms(1) this refl]
  have "\<exists>off us vs found. btf_loop ?d 24 (24 + ?n) ?n 0 [] = Some (Ok (off, found)) \<and> es = us @ vs \<and> found_upto strs us found \<and>
      (vs = [] \<or> length found = length TARGETS)"
    by (simp add: h)
  then obtain off us vs found where
    l: "btf_loop ?d 24 (24 + ?n) ?n 0 [] = Some (Ok (off, found))" and
    s: "es = us @ vs" "found_upto strs us found" "vs = [] \<or> length found = length TARGETS"
    by blast
  show ?thesis
    using parse_btf_document [OF assms(2)] l collect_document [OF s(2,1,3) assms(3)]
    by (simp add: Let_def)
qed


definition sample_strings :: bytes where
  "sample_strings =
     concat (map (\<lambda>s. ascii s @ [0])
       [[], ''int'', ''linux_binprm'', ''file'', ''f_inode'', ''inode'', ''i_ino'', ''i_sb'', ''super_block'', ''s_dev''])"

definition sample_entries :: "btf_entry list" where
  "sample_entries =
     [Plain 1 1 False 0 4 [32, 0, 0, 1], Composite 5 False False 64 [(1, 1, 0), (18, 9, 512)], Composite 18 False False 200 [(23, 9, 1344)],
      Plain 0 3 False 0 0 (replicate 12 0), Composite 31 False True 600 [(43, 9, 320), (37, 1, 640)], Composite 48 False False 900 [(60, 1, 128)]]"

lemma sample_strings_eq:
  "sample_strings = [0] @ ascii ''int'' @ [0] @ ascii ''linux_binprm'' @ [0] @ ascii ''file'' @ [0] @ ascii ''f_inode'' @ [0] @ ascii ''inode'' @ [0] @
    ascii ''i_ino'' @ [0] @ ascii ''i_sb'' @ [0] @ ascii ''super_block'' @ [0] @ ascii ''s_dev'' @ [0]"
  by (simp add: sample_strings_def ascii_def)

lemma sample_names:
  "btf_name sample_strings 0 = []" "btf_name sample_strings 1 = ascii ''int''" "btf_name sample_strings 5 = ascii ''linux_binprm''"
  "btf_name sample_strings 18 = ascii ''file''" "btf_name sample_strings 23 = ascii ''f_inode''"
  "btf_name sample_strings 31 = ascii ''inode''" "btf_name sample_strings 37 = ascii ''i_ino''"
  "btf_name sample_strings 43 = ascii ''i_sb''" "btf_name sample_strings 48 = ascii ''super_block''" "btf_name sample_strings 60 = ascii ''s_dev''"
  by (simp_all add: btf_name_def sample_strings_eq ascii_def)

lemma utf8_ascii: "list_all (\<lambda>b. b \<le> 0x7F) bs \<Longrightarrow> utf8_chars bs = Some (map (\<lambda>b. [b]) bs)"
  by (induction bs) (simp_all add: utf8_chars.simps [of "_ # _"] utf8_chars.simps [of "[]"] utf8_front_def)

lemma sample_valid_names: "list_all (valid_name sample_strings) [0, 1, 5, 18, 23, 31, 37, 43, 48, 60]"
  unfolding valid_name_def list.pred_inject sample_names by (simp add: utf8_ascii sample_strings_eq ascii_def)

lemma sample_document:
  "list_all (valid_entry sample_strings) sample_entries"
  "length (concat (map entry_bytes sample_entries)) < 2 ^ 32"
  "list_all (\<lambda>(s, f). field_offsets sample_strings sample_entries s f = [hd (field_offsets sample_strings sample_entries s f)]) TARGETS"
  using sample_valid_names
  by (simp_all add: sample_entries_def btf_extra_def length_member_bytes TARGETS_def field_offsets_def sample_names ascii_def)


text \<open>
  The restriction on two kinds is needed. A floating-point type (kind 16) has no data behind its three words and a section (kind 15) has
  twelve bytes for each variable; the script steps over four bytes more, and over four more for each variable, so it goes on in the middle
  of the next record.
\<close>

lemma float_and_section_records_misread:
  assumes "data = pre @ entry_bytes (Plain name kind flag vlen third extra) @ post" and "drop str_base data = strs"
    and "valid_name strs name" and "take_bit 16 vlen = vlen" and "length extra = btf_extra kind (unat vlen)"
  shows "kind = 16 \<Longrightarrow> parse_type data (length pre) str_base = Ok (length (entry_bytes (Plain name kind flag vlen third extra)) + 4, None, [])"
    and "kind = 15 \<Longrightarrow> parse_type data (length pre) str_base =
      Ok (length (entry_bytes (Plain name kind flag vlen third extra)) + 4 * unat vlen, None, [])"
  proof -
  have "take_bit 5 (16 :: u32) = 16" "take_bit 5 (15 :: u32) = 15" by simp_all
  then show "kind = 16 \<Longrightarrow> parse_type data (length pre) str_base = Ok (length (entry_bytes (Plain name kind flag vlen third extra)) + 4, None, [])"
    and "kind = 15 \<Longrightarrow> parse_type data (length pre) str_base =
      Ok (length (entry_bytes (Plain name kind flag vlen third extra)) + 4 * unat vlen, None, [])"
    using assms parse_plain [OF assms(1-3) _ assms(4)] by (simp_all add: btf_extra_def btf_step_def)
qed

text \<open>
  A generated file rests on the type information of the target, unless the fallback was asked for; both define all the constants.
\<close>

lemma build_refuses_unverified_offsets:
  assumes "probe_build_main env = Some (Ok body)"
  obtains offsets where "body = generated_body offsets" "vmlinux_offsets offsets \<noteq> None"
    "parse_btf (pb_read env (case pb_btf_path env of Some p \<Rightarrow> p | None \<Rightarrow> DEFAULT_BTF_PATH)) = Some (Ok offsets) \<or>
     pb_allow_fallback env \<and> offsets = UNVERIFIED_DEVELOPMENT_FALLBACK"
proof -
  let ?btf = "pb_read env (case pb_btf_path env of Some p \<Rightarrow> p | None \<Rightarrow> DEFAULT_BTF_PATH)"
  obtain r where r: "parse_btf ?btf = Some r"
      "case r of Panic \<Rightarrow> False | Err e \<Rightarrow> True | Ok offsets \<Rightarrow> (\<exists>offs. vmlinux_offsets offsets = Some offs)"
    using parse_btf_returns [of ?btf] by (fastforce split: outcome.splits)
  have "vmlinux_offsets UNVERIFIED_DEVELOPMENT_FALLBACK \<noteq> None" by code_simp
  with assms r that show ?thesis
    by (cases r) (auto simp: probe_build_main_def resolve_offsets_def Let_def split: if_splits)
qed

end
