(* ===== verification/Linux_Loader.thy ===== *)
theory Linux_Loader
  imports Boot_Pipeline Enforcement Text_Format Rust_Text
begin

text \<open>
  User space of the Linux enforcement: the IMA readiness check
  (\<^verbatim>\<open>dfim_core_engine/src/ima_policy.rs\<close>, \<^verbatim>\<open>dfim-ebpf-user/src/ima.rs\<close>), the SIEM sink
  (\<^verbatim>\<open>siem_sink.rs\<close>), the deny monitor (\<^verbatim>\<open>deny_monitor.rs\<close>) and the loader that provisions a target
  (\<^verbatim>\<open>dfim-ebpf-user/src/main.rs\<close>).

  The host is the parameter \<open>linux_host\<close>: what its files hold at each read of the run, so that a file may
  change between two reads, and which of its calls succeed. A run threads the SIEM sink and the maps of
  the loaded object; the operations on the maps are those of theory \<open>Enforcement\<close>, in the order of the script
  whose interleavings are analysed there.
\<close>

section \<open>IMA readiness\<close>

definition ascii_whitespace_char :: "char \<Rightarrow> bool" where
  "ascii_whitespace_char c \<longleftrightarrow> c \<in> {CHR 0x20, CHR 0x09, CHR 0x0A, CHR 0x0C, CHR 0x0D}"

text \<open>\<^verbatim>\<open>str::split_ascii_whitespace\<close> and \<^verbatim>\<open>str::lines\<close>.\<close>

definition split_ascii_whitespace :: "string \<Rightarrow> string list" where
  "split_ascii_whitespace s = filter (\<lambda>w. w \<noteq> []) (split_on ascii_whitespace_char s)"

definition strip_cr :: "string \<Rightarrow> string" where
  "strip_cr l = (if l \<noteq> [] \<and> last l = CHR 0x0D then butlast l else l)"

definition text_lines :: "string \<Rightarrow> string list" where
  "text_lines s =
     (let ls = split_on (\<lambda>c. c = CHR 0x0A) s in
      map strip_cr (butlast ls) @ (if last ls = [] then [] else [strip_cr (last ls)]))"

record ima_policy_evidence =
  enforce_mode :: bool
  signed_exec_appraisal :: bool
  signed_module_appraisal :: bool

definition ima_is_production_ready :: "ima_policy_evidence \<Rightarrow> bool" where
  "ima_is_production_ready e \<longleftrightarrow> enforce_mode e \<and> signed_exec_appraisal e \<and> signed_module_appraisal e"

text \<open>The token loop: three flags, and a token that starts with a hash ends it.\<close>

fun rule_tokens :: "string \<Rightarrow> bool \<times> bool \<times> bool \<Rightarrow> string list \<Rightarrow> bool \<times> bool \<times> bool" where
  "rule_tokens fn flags [] = flags"
| "rule_tokens fn (is_appraise, has_function, has_signature) (token # tokens) =
     (if starts_with token ''#'' then (is_appraise, has_function, has_signature)
      else if token = ''appraise'' then rule_tokens fn (True, has_function, has_signature) tokens
      else if starts_with token ''func='' \<and> drop 5 token = fn then rule_tokens fn (is_appraise, True, has_signature) tokens
      else if token = ''appraise_type=imasig'' then rule_tokens fn (is_appraise, has_function, True) tokens
      else rule_tokens fn (is_appraise, has_function, has_signature) tokens)"

definition is_signed_appraisal_rule :: "string \<Rightarrow> string \<Rightarrow> bool" where
  "is_signed_appraisal_rule line fn =
     (case rule_tokens fn (False, False, False) (split_ascii_whitespace line) of
        (is_appraise, has_function, has_signature) \<Rightarrow> is_appraise \<and> has_function \<and> has_signature)"

definition inspect_ima_policy :: "string \<Rightarrow> string \<Rightarrow> ima_policy_evidence" where
  "inspect_ima_policy cmdline policy =
     \<lparr>enforce_mode = list_ex (\<lambda>token. token = ''ima_appraise=enforce'') (split_ascii_whitespace cmdline),
      signed_exec_appraisal = list_ex (\<lambda>line. is_signed_appraisal_rule line ''BPRM_CHECK'') (text_lines policy),
      signed_module_appraisal = list_ex (\<lambda>line. is_signed_appraisal_rule line ''MODULE_CHECK'') (text_lines policy)\<rparr>"

section \<open>The SIEM sink\<close>

datatype siem_event_type = IntegrityFailureEvent | MetadataCorruptEvent | PolicyDenyEvent

primrec siem_as_str :: "siem_event_type \<Rightarrow> string" where
  "siem_as_str IntegrityFailureEvent = ''dfim.integrity.failure''"
| "siem_as_str MetadataCorruptEvent = ''dfim.metadata.corrupt''"
| "siem_as_str PolicyDenyEvent = ''dfim.policy.deny''"

primrec siem_severity :: "siem_event_type \<Rightarrow> string" where
  "siem_severity IntegrityFailureEvent = ''critical''"
| "siem_severity PolicyDenyEvent = ''critical''"
| "siem_severity MetadataCorruptEvent = ''high''"

record siem_deny_event =
  sd_event_type :: siem_event_type
  sd_asset_id :: string
  sd_enforcement_layer :: string
  sd_action_taken :: string
  sd_reason_code :: "string option"
  sd_policy_generation :: "u64 option"
  sd_device_id :: "u64 option"
  sd_inode :: "u64 option"
  sd_expected_merkle_root :: "bytes option"
  sd_calculated_merkle_root :: "bytes option"

definition ASSET_HASH_DOMAIN :: bytes where "ASSET_HASH_DOMAIN = ascii ''dfim-asset-id-v1'' @ [0]"

definition SIEM_SCHEMA_VERSION :: string where "SIEM_SCHEMA_VERSION = ''1.0''"

text \<open>A path on Linux is its bytes.\<close>

definition siem_asset_id :: "hash_prims \<Rightarrow> string \<Rightarrow> string" where
  "siem_asset_id C path =
     ''sha256:'' @ hex_encode (sha256_digest_chunked C [ASSET_HASH_DOMAIN, ascii path])"

definition asset_id_from_inode :: "hash_prims \<Rightarrow> u64 \<Rightarrow> u64 \<Rightarrow> string" where
  "asset_id_from_inode C device_id ino =
     (let material = to_le_bytes 8 device_id @ to_le_bytes 8 ino
      in ''sha256:'' @ hex_encode (sha256_digest_chunked C [ASSET_HASH_DOMAIN, material]))"

definition decision_reason :: "enforcement_decision \<Rightarrow> string" where
  "decision_reason d =
     (case d of DenyInvalidScope \<Rightarrow> ''DenyInvalidScope'' | DenyInvalidConfig \<Rightarrow> ''DenyInvalidConfig''
      | DenyStaleGeneration \<Rightarrow> ''DenyStaleGeneration'' | _ \<Rightarrow> ''DenyUnknown'')"

definition integrity_mismatch :: "hash_prims \<Rightarrow> string \<Rightarrow> bytes \<Rightarrow> bytes \<Rightarrow> siem_deny_event" where
  "integrity_mismatch C path expected calculated =
     \<lparr>sd_event_type = IntegrityFailureEvent, sd_asset_id = siem_asset_id C path, sd_enforcement_layer = ''ebpf_lsm'',
      sd_action_taken = ''deny'', sd_reason_code = Some ''live_merkle_root_mismatch'', sd_policy_generation = None,
      sd_device_id = None, sd_inode = None, sd_expected_merkle_root = Some expected,
      sd_calculated_merkle_root = Some calculated\<rparr>"

definition from_dfim_error :: "hash_prims \<Rightarrow> string \<Rightarrow> dfim_error \<Rightarrow> siem_deny_event" where
  "from_dfim_error C path err =
     \<lparr>sd_event_type = (case err of CorruptMetadata \<Rightarrow> MetadataCorruptEvent | UncorrectableError \<Rightarrow> MetadataCorruptEvent
                       | IntegrityFailure \<Rightarrow> IntegrityFailureEvent | _ \<Rightarrow> IntegrityFailureEvent),
      sd_asset_id = siem_asset_id C path, sd_enforcement_layer = ''ebpf_lsm'', sd_action_taken = ''deny'',
      sd_reason_code = Some (as_str err), sd_policy_generation = None, sd_device_id = None, sd_inode = None,
      sd_expected_merkle_root = None, sd_calculated_merkle_root = None\<rparr>"

definition from_enforcement_decision ::
  "hash_prims \<Rightarrow> u64 \<Rightarrow> u64 \<Rightarrow> enforcement_decision \<Rightarrow> u64 \<Rightarrow> siem_deny_event" where
  "from_enforcement_decision C device_id ino decision generation =
     \<lparr>sd_event_type = PolicyDenyEvent, sd_asset_id = asset_id_from_inode C device_id ino,
      sd_enforcement_layer = ''ebpf_lsm'', sd_action_taken = ''deny'', sd_reason_code = Some (decision_reason decision),
      sd_policy_generation = Some generation, sd_device_id = Some device_id, sd_inode = Some ino,
      sd_expected_merkle_root = None, sd_calculated_merkle_root = None\<rparr>"

definition siem_to_json_line :: "nat \<Rightarrow> siem_deny_event \<Rightarrow> string" where
  "siem_to_json_line timestamp_ms e =
     (let correlation_id = ''dfim-'' @ hexadecimal timestamp_ms;
          line = ''{\"schema_version\":\"'';
          line = line @ SIEM_SCHEMA_VERSION;
          line = line @ ''\",\"event_type\":\"'';
          line = line @ siem_as_str (sd_event_type e);
          line = line @ ''\",\"severity\":\"'';
          line = line @ siem_severity (sd_event_type e);
          line = line @ ''\",\"timestamp_unix_ms\":'';
          line = line @ decimal timestamp_ms;
          line = line @ '',\"asset_id\":\"'';
          line = line @ siem_json_escape (sd_asset_id e);
          line = line @ ''\",\"enforcement_layer\":\"'';
          line = line @ sd_enforcement_layer e;
          line = line @ ''\",\"action_taken\":\"'';
          line = line @ sd_action_taken e;
          line = line @ [CHR 0x22];
          line = push_opt line (sd_reason_code e) (\<lambda>reason. '',\"reason_code\":\"'' @ siem_json_escape reason @ [CHR 0x22]);
          line = push_opt line (sd_policy_generation e) (\<lambda>g. '',\"policy_generation\":'' @ decimal (unat g));
          line = push_opt line (sd_device_id e) (\<lambda>d. '',\"device_id\":'' @ decimal (unat d));
          line = push_opt line (sd_inode e) (\<lambda>i. '',\"inode\":'' @ decimal (unat i));
          line = push_opt line (sd_expected_merkle_root e)
                   (\<lambda>r. '',\"expected_merkle_root\":\"'' @ hex_encode r @ [CHR 0x22]);
          line = push_opt line (sd_calculated_merkle_root e)
                   (\<lambda>r. '',\"calculated_merkle_root\":\"'' @ hex_encode r @ [CHR 0x22]);
          line = line @ '',\"correlation_id\":\"'';
          line = line @ siem_json_escape correlation_id
      in line @ [CHR 0x22, CHR ''}'', CHR 0x0A])"

text \<open>
  The sink: the path of \<^verbatim>\<open>DFIM_TELEMETRY_OUT\<close>, the clock, what the calls on the file answer, and its content.
\<close>

record siem_sink =
  telemetry_out :: "string option"
  clock_ms :: nat
  open_ok :: bool
  write_ok :: bool
  sync_ok :: bool
  sink_content :: string

definition append_event :: "siem_sink \<Rightarrow> siem_deny_event \<Rightarrow> siem_sink \<times> bool" where
  "append_event sink e =
     (if \<not> open_ok sink then (sink, False)
      else if \<not> write_ok sink then (sink, False)
      else (sink\<lparr>sink_content := sink_content sink @ siem_to_json_line (clock_ms sink) e\<rparr>, sync_ok sink))"

definition emit_configured :: "siem_sink \<Rightarrow> siem_deny_event \<Rightarrow> siem_sink \<times> bool" where
  "emit_configured sink e = (case telemetry_out sink of None \<Rightarrow> (sink, True) | Some path \<Rightarrow> append_event sink e)"

section \<open>The deny monitor\<close>

definition parse_deny_event :: "hash_prims \<Rightarrow> bytes \<Rightarrow> siem_deny_event option" where
  "parse_deny_event C bs =
     (case decode_deny_record bs of None \<Rightarrow> None
      | Some (device_id, ino, decision, generation) \<Rightarrow>
          Some (from_enforcement_decision C device_id ino decision generation))"

text \<open>
  The inner loop drains the records that are in the ring; the outer loop checks the flag first. A run is
  given by the flag and the records each iteration finds.
\<close>

primrec drain_ring :: "hash_prims \<Rightarrow> siem_sink \<Rightarrow> bytes list \<Rightarrow> siem_sink" where
  "drain_ring C sink [] = sink"
| "drain_ring C sink (bs # rest) =
     drain_ring C (case parse_deny_event C bs of None \<Rightarrow> sink | Some e \<Rightarrow> fst (emit_configured sink e)) rest"

primrec monitor_loop :: "hash_prims \<Rightarrow> siem_sink \<Rightarrow> (bool \<times> bytes list) list \<Rightarrow> siem_sink" where
  "monitor_loop C sink [] = sink"
| "monitor_loop C sink (x # rest) =
     (if fst x then sink else monitor_loop C (drain_ring C sink (snd x)) rest)"

section \<open>The loader\<close>

datatype loader_error =
    Zero_generation
  | Cannot_resolve
  | Read_failed string
  | Dfim dfim_error
  | Root_mismatch
  | Ima_unreadable string
  | Ima_not_ready ima_policy_evidence
  | Stat_failed
  | Load_failed
  | Map_failed loader_op
  | No_btf
  | Program_failed string
  | Ring_missing

record linux_host =
  canonicalize :: "string \<Rightarrow> string option"
  read_at :: "nat \<Rightarrow> string \<Rightarrow> bytes option"
  read_to_string :: "string \<Rightarrow> string option"
  stat_of :: "string \<Rightarrow> (u64 \<times> u64) option"
  load_ok :: bool
  config_after_load :: "dfim_config_v1 option"
  update_ok :: "loader_op \<Rightarrow> bool"
  btf_ok :: bool
  program_ok :: "string \<Rightarrow> bool"
  ring_ok :: bool

definition PROC_CMDLINE :: string where "PROC_CMDLINE = ''/proc/cmdline''"
definition IMA_POLICY :: string where "IMA_POLICY = ''/sys/kernel/security/ima/policy''"

definition require_ima_appraisal :: "linux_host \<Rightarrow> (loader_error, ima_policy_evidence) outcome" where
  "require_ima_appraisal host =
     (case read_to_string host PROC_CMDLINE of None \<Rightarrow> Err (Ima_unreadable PROC_CMDLINE)
      | Some cmdline \<Rightarrow>
          (case read_to_string host IMA_POLICY of None \<Rightarrow> Err (Ima_unreadable IMA_POLICY)
           | Some policy \<Rightarrow>
               let evidence = inspect_ima_policy cmdline policy in
               if \<not> ima_is_production_ready evidence then Err (Ima_not_ready evidence) else Ok evidence))"

definition preflight_target_read :: "linux_host \<Rightarrow> string \<Rightarrow> (loader_error, unit) outcome" where
  "preflight_target_read host target =
     (case read_at host 3 target of None \<Rightarrow> Err (Read_failed target) | Some _ \<Rightarrow> Ok ())"

text \<open>\<^verbatim>\<open>r.map_err(|e| siem_dfim_error(target, e))?\<close> with the rest: the sink gets the error's event.\<close>

definition or_siem ::
  "hash_prims \<Rightarrow> string \<Rightarrow> siem_sink \<Rightarrow> 'a dfim_result \<Rightarrow> ('a \<Rightarrow> siem_sink \<times> (loader_error, 'b) outcome) \<Rightarrow>
   siem_sink \<times> (loader_error, 'b) outcome" where
  "or_siem C target sink r k =
     (case r of Ok x \<Rightarrow> k x
      | Err e \<Rightarrow> (fst (emit_configured sink (from_dfim_error C target e)), Err (Dfim e))
      | Panic \<Rightarrow> (sink, Panic))"

text \<open>The target is read at times 0 and 2, the sidecar at time 1.\<close>

definition verify_live_image_against_sidecar ::
  "hash_prims \<Rightarrow> linux_host \<Rightarrow> siem_sink \<Rightarrow> string \<Rightarrow> string \<Rightarrow>
   siem_sink \<times> (loader_error, boot_manifest \<times> boot_manifest) outcome" where
  "verify_live_image_against_sidecar C host sink target sidecar =
     (case read_at host 0 target of None \<Rightarrow> (sink, Err (Read_failed target))
      | Some img \<Rightarrow>
          (case read_at host 1 sidecar of None \<Rightarrow> (sink, Err (Read_failed sidecar))
           | Some sidecar_bytes \<Rightarrow>
               or_siem C target sink (build_boot_sidecar C img) (\<lambda>live_sidecar.
               or_siem C target sink (parse_boot_manifest live_sidecar) (\<lambda>live_manifest.
               or_siem C target sink (parse_boot_manifest sidecar_bytes) (\<lambda>disk_manifest.
               or_siem C target sink (validate_boot_image C img disk_manifest) (\<lambda>_.
               if \<not> constant_time_hash_eq C (bm_merkle_root live_manifest) (bm_merkle_root disk_manifest)
               then (fst (emit_configured sink (integrity_mismatch C target (bm_merkle_root disk_manifest)
                                                  (bm_merkle_root live_manifest))), Err Root_mismatch)
               else
                 (case read_at host 2 target of None \<Rightarrow> (sink, Err (Read_failed target))
                  | Some img2 \<Rightarrow>
                      or_siem C target sink (validate_boot_image C img2 live_manifest) (\<lambda>_.
                      (sink, Ok (live_manifest, disk_manifest))))))))))"

definition attach_lsm_programs :: "linux_host \<Rightarrow> lsm_system \<Rightarrow> lsm_system \<times> (loader_error, unit) outcome" where
  "attach_lsm_programs host s =
     (if \<not> btf_ok host then (s, Err No_btf)
      else if \<not> program_ok host ''bprm_check_security'' then (s, Err (Program_failed ''bprm_check_security''))
      else
        let s = s\<lparr>sys_attached := sys_attached s @ [''bprm_check_security'']\<rparr> in
        if \<not> program_ok host ''kernel_module_from_file'' then (s, Err (Program_failed ''kernel_module_from_file''))
        else (s\<lparr>sys_attached := sys_attached s @ [''kernel_module_from_file'']\<rparr>, Ok ()))"

text \<open>The maps are updated in the order pending entry, configuration, active entry; then the hooks are attached.\<close>

definition update_maps ::
  "linux_host \<Rightarrow> scope_key \<Rightarrow> u64 \<Rightarrow> bytes \<Rightarrow> lsm_system \<Rightarrow> lsm_system \<times> (loader_error, unit) outcome" where
  "update_maps host key generation root s =
     (if \<not> update_ok host Prepare then (s, Err (Map_failed Prepare))
      else
        let s = s\<lparr>sys_maps := prepare_scope_entry key generation root (sys_maps s)\<rparr> in
        if \<not> update_ok host Publish then (s, Err (Map_failed Publish))
        else
          let s = s\<lparr>sys_maps := publish_production_config generation (sys_maps s)\<rparr> in
          if \<not> update_ok host Commit then (s, Err (Map_failed Commit))
          else
            let s = s\<lparr>sys_maps := commit_scope_entry key generation root (sys_maps s)\<rparr> in
            attach_lsm_programs host s)"

definition default_sidecar :: "string \<Rightarrow> string" where "default_sidecar target = target @ ''.dfim''"

text \<open>
  The run up to the point where the process waits for Ctrl-C: the sink, the loaded object if there is one, and
  the result.
\<close>

definition provision_target ::
  "hash_prims \<Rightarrow> linux_host \<Rightarrow> siem_sink \<Rightarrow> string \<Rightarrow> string option \<Rightarrow> u64 \<Rightarrow>
   siem_sink \<times> lsm_system option \<times> (loader_error, unit) outcome" where
  "provision_target C host sink target sidecar generation =
     (if generation = 0 then (sink, None, Err Zero_generation)
      else
        case canonicalize host target of None \<Rightarrow> (sink, None, Err Cannot_resolve)
        | Some target \<Rightarrow>
            let sidecar = (case sidecar of Some p \<Rightarrow> p | None \<Rightarrow> default_sidecar target) in
            (case verify_live_image_against_sidecar C host sink target sidecar of
               (sink, Err e) \<Rightarrow> (sink, None, Err e)
             | (sink, Panic) \<Rightarrow> (sink, None, Panic)
             | (sink, Ok (live_manifest, disk_manifest)) \<Rightarrow>
                 (case and_then (require_ima_appraisal host) (\<lambda>evidence.
                       and_then (preflight_target_read host target) (\<lambda>_. Ok evidence)) of
                    Err e \<Rightarrow> (sink, None, Err e)
                  | Panic \<Rightarrow> (sink, None, Panic)
                  | Ok evidence \<Rightarrow>
                      (case stat_of host target of None \<Rightarrow> (sink, None, Err Stat_failed)
                       | Some (dev, ino) \<Rightarrow>
                           if \<not> load_ok host then (sink, None, Err Load_failed)
                           else
                             let key = \<lparr>sk_device_id = dev, sk_inode = ino\<rparr>;
                                 (s, r) = update_maps host key generation (bm_merkle_root live_manifest)
                                            (fresh_system (config_after_load host))
                             in (case r of
                                   Ok _ \<Rightarrow> if ring_ok host then (sink, Some s, Ok ()) else (sink, Some s, Err Ring_missing)
                                 | Err e \<Rightarrow> (sink, Some s, Err e)
                                 | Panic \<Rightarrow> (sink, Some s, Panic))))))"

text \<open>
  The command \<^verbatim>\<open>load\<close> and the dispatch. A failure of the log of the object is only a warning. The processes then wait for Ctrl-C: each
  poll of the flag is an element of the list, and the wait ends at the first that is false.
\<close>

definition load_ebpf :: "linux_host \<Rightarrow> (loader_error, lsm_system) outcome" where
  "load_ebpf host = (if load_ok host then Ok (fresh_system (config_after_load host)) else Err Load_failed)"

definition load_program :: "linux_host \<Rightarrow> lsm_system option \<times> (loader_error, unit) outcome" where
  "load_program host = (case load_ebpf host of Ok s \<Rightarrow> (Some s, Ok ()) | Err e \<Rightarrow> (None, Err e) | Panic \<Rightarrow> (None, Panic))"

primrec run_until_shutdown :: "bool list \<Rightarrow> nat option" where
  "run_until_shutdown [] = None"
| "run_until_shutdown (running # polls) = (if running then map_option Suc (run_until_shutdown polls) else Some 0)"

datatype loader_command = Load | Provision_target string "string option" u64

definition loader_main ::
  "hash_prims \<Rightarrow> linux_host \<Rightarrow> siem_sink \<Rightarrow> loader_command \<Rightarrow> siem_sink \<times> lsm_system option \<times> (loader_error, unit) outcome" where
  "loader_main C host sink command =
     (case command of
        Load \<Rightarrow> (sink, load_program host)
      | Provision_target target sidecar generation \<Rightarrow> provision_target C host sink target sidecar generation)"

text \<open>Loading alone attaches no hook and enrols nothing.\<close>

lemma load_does_not_enforce:
  assumes "loader_main C host sink Load = (sink', Some s, r)"
  shows "sink' = sink \<and> sys_attached s = [] \<and> dfim_scope (sys_maps s) = Map.empty"
  using assms by (auto simp: loader_main_def load_program_def load_ebpf_def fresh_system_def split: if_splits)

section \<open>IMA rules\<close>

lemma strip_prefix_iff: "starts_with t p \<and> drop (length p) t = x \<longleftrightarrow> t = p @ x"
  unfolding starts_with_def by (metis append_eq_conv_conj)

lemma rule_tokens_flags:
  "rule_tokens fn (a, f, s) toks =
     (let seen = takeWhile (\<lambda>t. \<not> starts_with t ''#'') toks in
      (a \<or> ''appraise'' \<in> set seen, f \<or> (''func='' @ fn) \<in> set seen, s \<or> ''appraise_type=imasig'' \<in> set seen))"
proof (induction toks arbitrary: a f s)
  case (Cons t toks)
  have fn: "starts_with t ''func='' \<and> drop 5 t = fn \<longleftrightarrow> t = ''func='' @ fn"
    using strip_prefix_iff [of t "''func=''" fn] by (simp add: numeral_eq_Suc)
  show ?case
  proof (cases "starts_with t ''#''")
    case False
    note step = rule_tokens.simps(2) [of fn a f s t toks, unfolded fn]
    consider "t = ''appraise''" | "t = ''func='' @ fn" | "t = ''appraise_type=imasig''"
      | "t \<noteq> ''appraise''" "t \<noteq> ''func='' @ fn" "t \<noteq> ''appraise_type=imasig''" by blast
    then show ?thesis
      unfolding step by cases (use False in \<open>simp_all add: Cons.IH Let_def\<close>)
  qed (simp add: Let_def)
qed (simp add: Let_def)

lemma is_signed_appraisal_rule_iff:
  "is_signed_appraisal_rule line fn \<longleftrightarrow>
     {''appraise'', ''func='' @ fn, ''appraise_type=imasig''} \<subseteq>
       set (takeWhile (\<lambda>t. \<not> starts_with t ''#'') (split_ascii_whitespace line))"
  by (simp add: is_signed_appraisal_rule_def rule_tokens_flags Let_def)

text \<open>The splitting functions: pieces have no separator and, rejoined, give the text.\<close>

lemma tokens_no_whitespace:
  "t \<in> set (split_ascii_whitespace s) \<Longrightarrow> t \<noteq> [] \<and> (\<forall>c \<in> set t. \<not> ascii_whitespace_char c)"
  using split_on_pieces [of t ascii_whitespace_char s] by (auto simp: split_ascii_whitespace_def)

section \<open>JSON lines\<close>

lemma printable_escape: "printable (siem_json_escape s)"
  using siem_text.esc_printable by (simp add: printable_def)

lemma printable_event: "printable (siem_as_str t)" "printable (siem_severity t)" "printable SIEM_SCHEMA_VERSION"
  by (cases t; simp add: printable_def SIEM_SCHEMA_VERSION_def)+

definition siem_body :: "nat \<Rightarrow> siem_deny_event \<Rightarrow> string" where
  "siem_body ts e = butlast (siem_to_json_line ts e)"

lemma siem_line_split: "siem_to_json_line ts e = siem_body ts e @ [CHR 0x0A]"
  unfolding siem_body_def siem_to_json_line_def Let_def by (simp add: butlast_append)

lemma siem_body_printable:
  assumes "printable (sd_enforcement_layer e)" and "printable (sd_action_taken e)"
  shows "printable (siem_body ts e)"
proof -
  have b: "siem_body ts e = butlast (siem_to_json_line ts e)" by (simp add: siem_body_def)
  show ?thesis
    unfolding b siem_to_json_line_def Let_def butlast_append
    by (simp add: assms printable_event printable_digits printable_escape)
qed

section \<open>The monitor\<close>

lemma drain_ring_append: "drain_ring C sink (xs @ ys) = drain_ring C (drain_ring C sink xs) ys"
  by (induction xs arbitrary: sink) simp_all

lemma monitor_loop_drains:
  "monitor_loop C sink xs = drain_ring C sink (concat (map snd (takeWhile (\<lambda>x. \<not> fst x) xs)))"
  by (induction xs arbitrary: sink) (simp_all add: drain_ring_append)

section \<open>Provisioning\<close>

lemma or_siem_eq_Ok [simp]:
  "or_siem C target sink r k = (sink', Ok x) \<longleftrightarrow> (\<exists>a. r = Ok a \<and> k a = (sink', Ok x))"
  by (cases r) (auto simp: or_siem_def)

lemma verify_live_Ok:
  assumes "verify_live_image_against_sidecar C host sink target sidecar = (sink', Ok (live, disk))"
  obtains img img2 live_sidecar sidecar_bytes v v2 where "sink' = sink"
    and "read_at host 0 target = Some img" and "read_at host 1 sidecar = Some sidecar_bytes"
    and "build_boot_sidecar C img = Ok live_sidecar" and "parse_boot_manifest live_sidecar = Ok live"
    and "parse_boot_manifest sidecar_bytes = Ok disk" and "validate_boot_image C img disk = Ok v"
    and "constant_time_hash_eq C (bm_merkle_root live) (bm_merkle_root disk)"
    and "read_at host 2 target = Some img2" and "validate_boot_image C img2 live = Ok v2"
  using assms
  by (auto simp: verify_live_image_against_sidecar_def split: option.splits if_splits)

lemma update_maps_Ok:
  assumes "update_maps host key g root s = (s', Ok ())"
  shows "s' = fold (apply_op key g root) enrolment_script s"
  using assms
  by (auto simp: update_maps_def attach_lsm_programs_def Let_def enrolment_script_def split: if_splits)

lemma update_maps_attached:
  assumes "update_maps host key g root s = (s', r)" and "r \<noteq> Ok ()" and "sys_attached s = []"
  shows "''kernel_module_from_file'' \<notin> set (sys_attached s')"
  using assms by (auto simp: update_maps_def attach_lsm_programs_def Let_def split: if_splits)

lemma provision_Ok:
  assumes "provision_target C host sink target sidecar g = (sink', os, Ok ())"
  obtains path live disk evidence dev ino s where "g \<noteq> 0" and "canonicalize host target = Some path"
    and "verify_live_image_against_sidecar C host sink path
           (case sidecar of Some p \<Rightarrow> p | None \<Rightarrow> default_sidecar path) = (sink', Ok (live, disk))"
    and "require_ima_appraisal host = Ok evidence" and "stat_of host path = Some (dev, ino)"
    and "os = Some s"
    and "s = fold (apply_op \<lparr>sk_device_id = dev, sk_inode = ino\<rparr> g (bm_merkle_root live)) enrolment_script
               (fresh_system (config_after_load host))"
proof -
  from assms have g: "g \<noteq> 0" by (auto simp: provision_target_def split: if_splits)
  from assms g obtain path where path: "canonicalize host target = Some path"
    by (auto simp: provision_target_def split: option.splits)
  let ?sc = "case sidecar of Some p \<Rightarrow> p | None \<Rightarrow> default_sidecar path"
  obtain sk r where v: "verify_live_image_against_sidecar C host sink path ?sc = (sk, r)" by fastforce
  from assms g path v obtain live disk where r: "r = Ok (live, disk)"
    by (cases r) (auto simp: provision_target_def Let_def)
  let ?ima = "and_then (require_ima_appraisal host) (\<lambda>evidence.
                       and_then (preflight_target_read host path) (\<lambda>_. Ok evidence))"
  from assms g path v r obtain evidence where e: "?ima = Ok evidence"
    by (cases ?ima) (auto simp: provision_target_def Let_def)
  from assms g path v r e obtain dev ino where st: "stat_of host path = Some (dev, ino)"
    by (cases "stat_of host path") (auto simp: provision_target_def Let_def)
  let ?key = "\<lparr>sk_device_id = dev, sk_inode = ino\<rparr>"
  obtain s u where um: "update_maps host ?key g (bm_merkle_root live) (fresh_system (config_after_load host)) = (s, u)"
    by fastforce
  from assms g path v r e st um have res: "sk = sink'" "os = Some s" "u = Ok ()"
    by (cases u; auto simp: provision_target_def Let_def split: if_splits)+
  show ?thesis
    using that [OF g path _ _ st res(2)] v r e um res update_maps_Ok by auto
qed

lemma parsed_root_length: "parse_boot_manifest b = Ok m \<Longrightarrow> length (bm_merkle_root m) = 32"
proof -
  assume "parse_boot_manifest b = Ok m"
  then obtain p where "parse_block_stream b = Ok p" "m = to_boot_manifest p" by (auto simp: parse_boot_manifest_eq)
  then show ?thesis using boot_sidecar.dec_canonical by (auto simp: valid_manifest_def to_boot_manifest_def)
qed

section \<open>Properties\<close>

text \<open>
  C20. Provisioning enforces only what it verified. If the loader succeeds, the generation is not zero, the
  target and its sidecar were read, the sidecar parses and validates the image that was read, IMA is ready, no event
  went to the sink, and the maps and hooks of the loaded object are those the complete enrolment script makes
  for the target's device and inode with the Merkle root of the image. The image read again before the maps were
  loaded is the same up to zero padding, or the two reads yield an explicit SHA-256 collision.
\<close>

theorem provisioned_target_is_verified:
  assumes "hash_contract C" and "provision_target C host sink target sidecar g = (sink', os, Ok ())"
  shows "\<exists>path img img2 disk v dev ino s evidence.
     g \<noteq> 0 \<and> canonicalize host target = Some path \<and> stat_of host path = Some (dev, ino) \<and>
     read_at host 0 path = Some img \<and> read_at host 2 path = Some img2 \<and>
     Option.bind (read_at host 1 (case sidecar of Some p \<Rightarrow> p | None \<Rightarrow> default_sidecar path))
       (\<lambda>b. Some (parse_boot_manifest b)) = Some (Ok disk) \<and>
     validate_boot_image C img disk = Ok v \<and>
     bm_merkle_root disk = tree_root (merkle_spec C (image_blocks img)) \<and>
     require_ima_appraisal host = Ok evidence \<and> ima_is_production_ready evidence \<and> sink' = sink \<and> os = Some s \<and>
     enrol_reachable (config_after_load host) \<lparr>sk_device_id = dev, sk_inode = ino\<rparr> g
       (tree_root (merkle_spec C (image_blocks img))) ([], s) \<and>
     (case image_collision C img img2 (proofs (sidecar_manifest C img)) of
        Some (a, b) \<Rightarrow> a \<noteq> b \<and> sha256 C a = sha256 C b
      | None \<Rightarrow> pad_image img2 = pad_image img)"
proof -
  obtain path live disk evidence dev ino s where g: "g \<noteq> 0"
    and path: "canonicalize host target = Some path"
    and v: "verify_live_image_against_sidecar C host sink path
           (case sidecar of Some p \<Rightarrow> p | None \<Rightarrow> default_sidecar path) = (sink', Ok (live, disk))"
    and ima: "require_ima_appraisal host = Ok evidence" and st: "stat_of host path = Some (dev, ino)"
    and os: "os = Some s"
    and s: "s = fold (apply_op \<lparr>sk_device_id = dev, sk_inode = ino\<rparr> g (bm_merkle_root live)) enrolment_script
               (fresh_system (config_after_load host))" by (rule provision_Ok [OF assms(2)])
  obtain img img2 live_sidecar sidecar_bytes w w2 where sk: "sink' = sink"
    and r: "read_at host 0 path = Some img"
      "read_at host 1 (case sidecar of Some p \<Rightarrow> p | None \<Rightarrow> default_sidecar path) = Some sidecar_bytes"
    and b: "build_boot_sidecar C img = Ok live_sidecar" and p: "parse_boot_manifest live_sidecar = Ok live"
    and d: "parse_boot_manifest sidecar_bytes = Ok disk" and vd: "validate_boot_image C img disk = Ok w"
    and eq: "constant_time_hash_eq C (bm_merkle_root live) (bm_merkle_root disk)"
    and r2: "read_at host 2 path = Some img2" and v2: "validate_boot_image C img2 live = Ok w2"
    by (rule verify_live_Ok [OF v])
  have img: "0 < length img" "length img \<le> 262144" using b by (auto simp: build_boot_sidecar_def)
  have live: "live = to_boot_manifest (sidecar_manifest C img)"
  proof -
    obtain blob where "build_boot_sidecar C img = Ok blob" "parse_boot_manifest blob = Ok (to_boot_manifest (sidecar_manifest C img))"
      using built_sidecar_parses [OF assms(1) img(1)] img(2) by (auto simp: boot_limits)
    then show ?thesis using b p by simp
  qed
  have root: "bm_merkle_root live = tree_root (merkle_spec C (image_blocks img))"
    by (simp add: live to_boot_manifest_def sidecar_manifest_def Let_def)
  have lens: "length (bm_merkle_root live) = 32" "length (bm_merkle_root disk) = 32"
    using sidecar_manifest_valid [OF assms(1) img] parsed_root_length [OF d]
    by (simp_all add: live to_boot_manifest_def valid_manifest_def)
  have droot: "bm_merkle_root disk = tree_root (merkle_spec C (image_blocks img))"
    using eq root constant_time_hash_eq_iff [OF assms(1) lens] by simp
  have reach: "enrol_reachable (config_after_load host) \<lparr>sk_device_id = dev, sk_inode = ino\<rparr> g
      (tree_root (merkle_spec C (image_blocks img))) ([], s)"
    unfolding s root by (rule enrol_finishes [OF enrol_reachable.start])
  have coll: "case image_collision C img img2 (proofs (sidecar_manifest C img)) of
      Some (a, b) \<Rightarrow> a \<noteq> b \<and> sha256 C a = sha256 C b | None \<Rightarrow> pad_image img2 = pad_image img"
    by (rule provisioned_manifest_sound [OF assms(1) img v2 [unfolded live]])
  have ready: "ima_is_production_ready evidence"
    using ima by (auto simp: require_ima_appraisal_def Let_def split: option.splits if_splits)
  have "Option.bind (read_at host 1 (case sidecar of Some p \<Rightarrow> p | None \<Rightarrow> default_sidecar path))
       (\<lambda>b. Some (parse_boot_manifest b)) = Some (Ok disk)" using r(2) d by simp
  with g path st r(1) r2 vd droot ima ready sk os reach coll show ?thesis
    by (intro exI [of _ path] exI [of _ img] exI [of _ img2] exI [of _ disk] exI [of _ w] exI [of _ dev] exI [of _ ino]
        exI [of _ s] exI [of _ evidence] conjI)
qed

text \<open>A host on which everything succeeds, for the witness.\<close>

definition sample_host :: "bytes \<Rightarrow> bytes \<Rightarrow> linux_host" where
  "sample_host img sidecar =
     \<lparr>canonicalize = Some, read_at = (\<lambda>n p. Some (if n = 1 then sidecar else img)),
      read_to_string = (\<lambda>p. Some (if p = PROC_CMDLINE then ''ima_appraise=enforce''
        else ''appraise func=BPRM_CHECK appraise_type=imasig'' @ [CHR 0x0A] @
             ''appraise func=MODULE_CHECK appraise_type=imasig'')),
      stat_of = (\<lambda>_. Some (1, 2)), load_ok = True, config_after_load = None, update_ok = (\<lambda>_. True), btf_ok = True,
      program_ok = (\<lambda>_. True), ring_ok = True\<rparr>"

definition sample_sink :: siem_sink where
  "sample_sink = \<lparr>telemetry_out = None, clock_ms = 0, open_ok = True, write_ok = True, sync_ok = True, sink_content = []\<rparr>"

lemma sample_host_ima:
  "require_ima_appraisal (sample_host img sc) =
     Ok \<lparr>enforce_mode = True, signed_exec_appraisal = True, signed_module_appraisal = True\<rparr>"
  by (simp add: require_ima_appraisal_def sample_host_def PROC_CMDLINE_def IMA_POLICY_def inspect_ima_policy_def
      split_ascii_whitespace_def ascii_whitespace_char_def text_lines_def strip_cr_def is_signed_appraisal_rule_def
      starts_with_def ima_is_production_ready_def Let_def)

text \<open>A host on which nothing stands against the loader, and one where the target has the given sidecar beside it.\<close>

definition loader_ready :: "linux_host \<Rightarrow> string \<Rightarrow> string \<Rightarrow> bool" where
  "loader_ready host target path \<longleftrightarrow>
     canonicalize host target = Some path \<and> is_ok (require_ima_appraisal host) \<and> stat_of host path \<noteq> None \<and>
     load_ok host \<and> (\<forall>op. update_ok host op) \<and> btf_ok host \<and> (\<forall>name. program_ok host name) \<and> ring_ok host"

definition serves_target :: "linux_host \<Rightarrow> string \<Rightarrow> string \<Rightarrow> bytes \<Rightarrow> bytes \<Rightarrow> bool" where
  "serves_target host target path img sidecar \<longleftrightarrow>
     loader_ready host target path \<and> list_all (\<lambda>n. read_at host n path = Some img) [0, 2, 3] \<and>
     read_at host 1 (default_sidecar path) = Some sidecar"

lemma loader_accepts:
  assumes "hash_contract C" and "0 < length img" and "length img \<le> MAX_IMAGE_BYTES"
    and "build_boot_sidecar C img = Ok blob" and h: "serves_target host target path img blob" and "g \<noteq> 0"
  shows "\<exists>s. provision_target C host sink target None g = (sink, Some s, Ok ())"
proof -
  let ?m = "to_boot_manifest (sidecar_manifest C img)"
  have l: "length img \<le> 262144" using assms(3) by (simp add: boot_limits)
  have p: "parse_boot_manifest blob = Ok ?m" using built_sidecar_parses [OF assms(1-3)] assms(4) by auto
  have "?m\<lparr>bm_fec_backup := fec_backup (sidecar_manifest C img)\<rparr> = ?m" by (simp add: to_boot_manifest_def)
  then obtain w where w: "validate_boot_image C img ?m = Ok w"
    using provisioned_image_validates [OF assms(1,2) l received_refl] by simp
  have "length (bm_merkle_root ?m) = 32"
    using sidecar_manifest_valid [OF assms(1,2) l] by (simp add: to_boot_manifest_def valid_manifest_def)
  then have "constant_time_hash_eq C (bm_merkle_root ?m) (bm_merkle_root ?m)"
    by (simp add: constant_time_hash_eq_iff [OF assms(1)])
  then have v: "verify_live_image_against_sidecar C host sink path (default_sidecar path) = (sink, Ok (?m, ?m))"
    using assms(4) p w h by (simp add: verify_live_image_against_sidecar_def or_siem_def serves_target_def loader_ready_def)
  have ok: "canonicalize host target = Some path" "load_ok host" "ring_ok host" "preflight_target_read host path = Ok ()"
    using h by (simp_all add: serves_target_def loader_ready_def preflight_target_read_def)
  obtain e where ima: "require_ima_appraisal host = Ok e" using h by (auto simp: serves_target_def loader_ready_def is_ok_iff)
  obtain dev ino where st: "stat_of host path = Some (dev, ino)" using h by (auto simp: serves_target_def loader_ready_def)
  have "\<exists>s. update_maps host \<lparr>sk_device_id = dev, sk_inode = ino\<rparr> g (bm_merkle_root ?m) (fresh_system (config_after_load host)) = (s, Ok ())"
    using h by (simp add: update_maps_def attach_lsm_programs_def serves_target_def loader_ready_def Let_def)
  then show ?thesis using assms(6) by (auto simp: provision_target_def v ok ima st Let_def)
qed

lemma sample_serves: "serves_target (sample_host img blob) path path img blob"
  by (simp add: serves_target_def loader_ready_def sample_host_ima) (simp add: sample_host_def)

theorem provisioned_target_is_verified_witness:
  "\<exists>blob s. provision_target bpf_prims (sample_host [1, 2, 3] blob) sample_sink ''/t'' None 7 = (sample_sink, Some s, Ok ()) \<and>
     enrol_reachable None \<lparr>sk_device_id = 1, sk_inode = 2\<rparr> 7 (tree_root (merkle_spec bpf_prims (image_blocks [1, 2, 3]))) ([], s)"
proof -
  note c = kernel_hash.hash_contract_axioms
  obtain blob where b: "build_boot_sidecar bpf_prims [1, 2, 3] = Ok blob"
    using built_sidecar_parses [OF c, of "[1, 2, 3]"] by (auto simp: boot_limits)
  then obtain s where s: "provision_target bpf_prims (sample_host [1, 2, 3] blob) sample_sink ''/t'' None 7 = (sample_sink, Some s, Ok ())"
    using loader_accepts [OF c _ _ b sample_serves, of 7 sample_sink "''/t''"] by (auto simp: boot_limits)
  from provisioned_target_is_verified [OF c s]
  have "enrol_reachable None \<lparr>sk_device_id = 1, sk_inode = 2\<rparr> 7 (tree_root (merkle_spec bpf_prims (image_blocks [1, 2, 3]))) ([], s)"
    by (auto simp: sample_host_def)
  with s show ?thesis by blast
qed

text \<open>
  C34. The IMA gate recognises exactly the required evidence: it passes if and only if the command line has
  the token \<^verbatim>\<open>ima_appraise=enforce\<close> and, for executables and for modules, some line of the policy has, before any
  token that starts a comment, the tokens \<^verbatim>\<open>appraise\<close>, the function and the signature type; tokens never contain
  white space.
\<close>

theorem ima_gate_exact:
  "is_ok (require_ima_appraisal host) \<longleftrightarrow>
     (\<exists>cmdline policy. read_to_string host PROC_CMDLINE = Some cmdline \<and> read_to_string host IMA_POLICY = Some policy \<and>
        ''ima_appraise=enforce'' \<in> set (split_ascii_whitespace cmdline) \<and>
        (\<forall>fn \<in> {''BPRM_CHECK'', ''MODULE_CHECK''}. \<exists>line \<in> set (text_lines policy).
           {''appraise'', ''func='' @ fn, ''appraise_type=imasig''} \<subseteq>
             set (takeWhile (\<lambda>t. \<not> starts_with t ''#'') (split_ascii_whitespace line))))"
  by (auto simp: require_ima_appraisal_def inspect_ima_policy_def ima_is_production_ready_def Let_def list_ex_iff
      is_signed_appraisal_rule_iff simp del: append_Cons split: option.splits)

theorem ima_gate_exact_witness:
  "\<exists>policy. \<forall>fn \<in> {''BPRM_CHECK'', ''MODULE_CHECK''}. \<exists>line \<in> set (text_lines policy).
     {''appraise'', ''func='' @ fn, ''appraise_type=imasig''} \<subseteq>
       set (takeWhile (\<lambda>t. \<not> starts_with t ''#'') (split_ascii_whitespace line))"
  using ima_gate_exact [of "sample_host [] []"] unfolding sample_host_ima is_ok.simps by blast

text \<open>
  One event is one line: the JSON line of an event, whatever its asset identifier and reason, ends with
  a newline and has no other control character, so that no field can break the record apart; the escaped fields decode
  to their values. The identifier of an asset is a prefix and 64 hexadecimal digits, for every path.
\<close>

theorem siem_event_is_one_line:
  assumes "hash_contract C"
    and "e \<in> {integrity_mismatch C path expected calculated, from_dfim_error C path err,
              from_enforcement_decision C dev ino decision g}"
  shows "\<exists>body. siem_to_json_line ts (e\<lparr>sd_reason_code := reason\<rparr>) = body @ [CHR 0x0A] \<and>
       (\<forall>c \<in> set body. (0x20 :: nat) \<le> of_char c) \<and>
       json_decode (siem_json_escape (sd_asset_id e)) = Some (sd_asset_id e) \<and>
       take 7 (sd_asset_id e) = ''sha256:'' \<and> length (sd_asset_id e) = 71 \<and>
       set (drop 7 (sd_asset_id e)) \<subseteq> set HEX_CHARS"
proof -
  have ids: "length (siem_asset_id C path) = 71" "length (asset_id_from_inode C dev ino) = 71"
    "take 7 (siem_asset_id C path) = ''sha256:''" "take 7 (asset_id_from_inode C dev ino) = ''sha256:''"
    "set (drop 7 (siem_asset_id C path)) \<subseteq> set HEX_CHARS" "set (drop 7 (asset_id_from_inode C dev ino)) \<subseteq> set HEX_CHARS"
    using hash_contract.sha256_len [OF assms(1)] hex_encode_chars
    by (auto simp: siem_asset_id_def asset_id_from_inode_def length_hex_encode sha256_digest_chunked_concat
        sha256_digest_def Let_def digit_char_def numeral_eq_Suc)
  have layer: "printable (sd_enforcement_layer (e\<lparr>sd_reason_code := reason\<rparr>))"
    "printable (sd_action_taken (e\<lparr>sd_reason_code := reason\<rparr>))"
    using assms(2) by (auto simp: integrity_mismatch_def from_dfim_error_def from_enforcement_decision_def)
  have id: "sd_asset_id e \<in> {siem_asset_id C path, asset_id_from_inode C dev ino}"
    using assms(2) by (auto simp: integrity_mismatch_def from_dfim_error_def from_enforcement_decision_def)
  show ?thesis
  proof (intro exI conjI)
    show "siem_to_json_line ts (e\<lparr>sd_reason_code := reason\<rparr>) = siem_body ts (e\<lparr>sd_reason_code := reason\<rparr>) @ [CHR 0x0A]"
      by (rule siem_line_split)
    show "\<forall>c \<in> set (siem_body ts (e\<lparr>sd_reason_code := reason\<rparr>)). (0x20 :: nat) \<le> of_char c"
      using siem_body_printable [OF layer] by (simp add: printable_def)
    show "json_decode (siem_json_escape (sd_asset_id e)) = Some (sd_asset_id e)" by (rule siem_text.decode_esc)
  qed (use id ids in auto)
qed

theorem siem_event_is_one_line_witness:
  "\<exists>body. siem_to_json_line 5 ((from_dfim_error bpf_prims ''/boot/m.ko'' CorruptMetadata)
       \<lparr>sd_reason_code := Some [CHR 0x22, CHR 0x0A]\<rparr>) = body @ [CHR 0x0A] \<and> (\<forall>c \<in> set body. (0x20 :: nat) \<le> of_char c)"
  using siem_event_is_one_line [OF kernel_hash.hash_contract_axioms,
      of "from_dfim_error bpf_prims ''/boot/m.ko'' CorruptMetadata" "''/boot/m.ko''" "[]" "[]" CorruptMetadata 0 0
        DenyInvalidScope 0 5 "Some [CHR 0x22, CHR 0x0A]"]
  by blast



end
