(* ===== verification/Host_Fs.thy ===== *)
theory Host_Fs
  imports Text_Format
begin

text \<open>
  The host on which the command-line programs run: paths, files with their permissions, and the operations of
  \<^verbatim>\<open>std::fs\<close> that the code uses.

  A path is its components, with distinct paths for distinct files (no links). Every operation may fail: the
  host carries the script of the faults to come, where an operation can be reported as failed after part of its
  effect, or the process can be killed there, after which nothing more happens. Other processes
  may change the disk before a file is read (\<open>rivals\<close>). A theorem that quantifies over the host
  therefore covers every sequence of faults.

  Programs are state transformers with errors; \<open>hoare\<close> is the triple for them, with one postcondition for success
  and one for every other end.
\<close>

section \<open>Paths\<close>

record host_path =
  absolute :: bool
  names :: "string list"

definition path_text :: "host_path \<Rightarrow> string" where
  "path_text p = (if absolute p then ''/'' else []) @
     concat (case names p of [] \<Rightarrow> [] | n # ns \<Rightarrow> n # map (\<lambda>m. CHR ''/'' # m) ns)"

definition path_parent :: "host_path \<Rightarrow> host_path option" where
  "path_parent p = (if names p = [] then None else Some (p\<lparr>names := butlast (names p)\<rparr>))"

definition path_file_name :: "host_path \<Rightarrow> string option" where
  "path_file_name p = (if names p = [] \<or> last (names p) = ''..'' then None else Some (last (names p)))"

definition path_is_empty :: "host_path \<Rightarrow> bool" where
  "path_is_empty p \<longleftrightarrow> \<not> absolute p \<and> names p = []"

definition path_child :: "host_path \<Rightarrow> string \<Rightarrow> host_path" where
  "path_child p name = p\<lparr>names := names p @ [name]\<rparr>"

text \<open>Text appended to the spelling of a path.\<close>

definition path_push :: "host_path \<Rightarrow> string \<Rightarrow> host_path" where
  "path_push p suffix = p\<lparr>names := (if names p = [] then [suffix] else butlast (names p) @ [last (names p) @ suffix])\<rparr>"

section \<open>The host\<close>

record disk =
  contents :: "host_path \<Rightarrow> bytes option"
  modes :: "host_path \<Rightarrow> nat"

datatype io_fault = Failed nat | Killed nat

record host =
  disk_of :: disk
  script :: "io_fault option list"
  rivals :: "(disk \<Rightarrow> disk) list"
  alive :: bool
  temp_sequence :: u64
  process_id :: nat
  canonical :: "host_path \<Rightarrow> host_path option"
  now_ms :: nat
  telemetry_path :: "host_path option"
  stdout :: string

text \<open>The errors of the programs; their texts are not modelled beyond the label.\<close>

datatype cli_error =
    Read_failed string
  | Empty_file string
  | Create_failed
  | Write_failed
  | Permissions_failed
  | Sync_failed
  | Rename_failed
  | Remove_failed
  | No_parent
  | No_file_name
  | Core_error string dfim_error
  | Message string

type_synonym 'a io = "host \<Rightarrow> (cli_error, 'a) outcome \<times> host"

definition io_return :: "'a \<Rightarrow> 'a io" where "io_return a h = (Ok a, h)"
definition io_fail :: "cli_error \<Rightarrow> 'a io" where "io_fail e h = (Err e, h)"

definition io_bind :: "'a io \<Rightarrow> ('a \<Rightarrow> 'b io) \<Rightarrow> 'b io" where
  "io_bind m f h = (case m h of (Ok a, h') \<Rightarrow> f a h' | (Err e, h') \<Rightarrow> (Err e, h') | (Panic, h') \<Rightarrow> (Panic, h'))"

definition io_of :: "('e \<Rightarrow> cli_error) \<Rightarrow> ('e, 'a) outcome \<Rightarrow> 'a io" where
  "io_of g r h = (map_err g r, h)"

text \<open>\<^verbatim>\<open>if let Ok(a) = ...\<close>, or a result that is dropped: the error is not passed on.\<close>

definition io_ok :: "'a io \<Rightarrow> 'a option io" where
  "io_ok m h = (case m h of (Ok a, h') \<Rightarrow> (Ok (Some a), h') | (Err e, h') \<Rightarrow> (Ok None, h') | (Panic, h') \<Rightarrow> (Panic, h'))"

text \<open>An operation on the disk: its effect, if the system permits it, and what a fault after \<open>n\<close> units leaves.\<close>

definition io_op :: "(disk \<Rightarrow> ('a \<times> disk) option) \<Rightarrow> (nat \<Rightarrow> disk \<Rightarrow> disk) \<Rightarrow> cli_error \<Rightarrow> 'a io" where
  "io_op eff part e h =
     (if \<not> alive h then (Err e, h)
      else
        let fault = (case script h of [] \<Rightarrow> None | f # _ \<Rightarrow> f);
            h = h\<lparr>script := (case script h of [] \<Rightarrow> [] | _ # fs \<Rightarrow> fs)\<rparr>
        in case fault of
             None \<Rightarrow>
               (case eff (disk_of h) of None \<Rightarrow> (Err e, h) | Some (a, d) \<Rightarrow> (Ok a, h\<lparr>disk_of := d\<rparr>))
           | Some (Failed n) \<Rightarrow> (Err e, h\<lparr>disk_of := part n (disk_of h)\<rparr>)
           | Some (Killed n) \<Rightarrow> (Err e, h\<lparr>disk_of := part n (disk_of h), alive := False\<rparr>))"

definition rival_turn :: "host \<Rightarrow> host" where
  "rival_turn h = (if \<not> alive h then h
     else case rivals h of [] \<Rightarrow> h | f # fs \<Rightarrow> h\<lparr>disk_of := f (disk_of h), rivals := fs\<rparr>)"

definition set_file :: "host_path \<Rightarrow> bytes option \<Rightarrow> disk \<Rightarrow> disk" where
  "set_file p c d = d\<lparr>contents := (contents d)(p := c)\<rparr>"

definition no_part :: "nat \<Rightarrow> disk \<Rightarrow> disk" where "no_part n d = d"

definition fs_read :: "host_path \<Rightarrow> cli_error \<Rightarrow> bytes io" where
  "fs_read p e h = io_op (\<lambda>d. map_option (\<lambda>bs. (bs, d)) (contents d p)) no_part e (rival_turn h)"

definition fs_is_file :: "host_path \<Rightarrow> host \<Rightarrow> bool" where
  "fs_is_file p h \<longleftrightarrow> contents (disk_of h) p \<noteq> None"

text \<open>\<^verbatim>\<open>create_new\<close>: the file must not exist.\<close>

definition fs_create_new :: "host_path \<Rightarrow> cli_error \<Rightarrow> unit io" where
  "fs_create_new p = io_op (\<lambda>d. if contents d p \<noteq> None then None else Some ((), set_file p (Some []) d)) no_part"

definition fs_create_new_mode :: "host_path \<Rightarrow> nat \<Rightarrow> cli_error \<Rightarrow> unit io" where
  "fs_create_new_mode p m = io_op (\<lambda>d. if contents d p \<noteq> None then None
     else Some ((), (set_file p (Some []) d)\<lparr>modes := (modes d)(p := m)\<rparr>)) no_part"

text \<open>\<^verbatim>\<open>write_all\<close> on an open file that is at the given path.\<close>

definition fs_write_all :: "host_path \<Rightarrow> bytes \<Rightarrow> cli_error \<Rightarrow> unit io" where
  "fs_write_all p bs = io_op
     (\<lambda>d. map_option (\<lambda>old. ((), set_file p (Some (old @ bs)) d)) (contents d p))
     (\<lambda>n d. case contents d p of None \<Rightarrow> d | Some old \<Rightarrow> set_file p (Some (old @ take n bs)) d)"

text \<open>\<^verbatim>\<open>std::fs::write\<close>: create or truncate, then write; a fault of 0 units leaves the former file.\<close>

definition fs_write :: "host_path \<Rightarrow> bytes \<Rightarrow> cli_error \<Rightarrow> unit io" where
  "fs_write p bs = io_op (\<lambda>d. Some ((), set_file p (Some bs) d))
     (\<lambda>n d. if n = 0 then d else set_file p (Some (take (n - 1) bs)) d)"

definition fs_metadata :: "host_path \<Rightarrow> cli_error \<Rightarrow> nat io" where
  "fs_metadata p = io_op (\<lambda>d. if contents d p = None then None else Some (modes d p, d)) no_part"

definition fs_set_permissions :: "host_path \<Rightarrow> nat \<Rightarrow> cli_error \<Rightarrow> unit io" where
  "fs_set_permissions p m = io_op (\<lambda>d. Some ((), d\<lparr>modes := (modes d)(p := m)\<rparr>)) no_part"

definition fs_sync :: "cli_error \<Rightarrow> unit io" where
  "fs_sync = io_op (\<lambda>d. Some ((), d)) no_part"

text \<open>\<^verbatim>\<open>rename\<close> replaces its target as a whole.\<close>

definition fs_rename :: "host_path \<Rightarrow> host_path \<Rightarrow> cli_error \<Rightarrow> unit io" where
  "fs_rename p q = io_op (\<lambda>d. case contents d p of None \<Rightarrow> None
     | Some bs \<Rightarrow> Some ((), (set_file q (Some bs) (set_file p None d))\<lparr>modes := (modes d)(q := modes d p)\<rparr>)) no_part"

definition fs_open :: "host_path \<Rightarrow> cli_error \<Rightarrow> unit io" where
  "fs_open p = io_op (\<lambda>d. if contents d p = None then None else Some ((), d)) no_part"

definition fs_remove_file :: "host_path \<Rightarrow> unit io" where
  "fs_remove_file p = io_op (\<lambda>d. if contents d p = None then None else Some ((), set_file p None d)) no_part Remove_failed"

text \<open>Open for appending, creating the file: \<^verbatim>\<open>create(true).append(true)\<close>.\<close>

definition fs_open_append :: "host_path \<Rightarrow> cli_error \<Rightarrow> unit io" where
  "fs_open_append p = io_op (\<lambda>d. Some ((), case contents d p of None \<Rightarrow> set_file p (Some []) d | Some _ \<Rightarrow> d)) no_part"

text \<open>Directories are not part of the disk.\<close>

definition fs_create_dir_all :: "host_path \<Rightarrow> cli_error \<Rightarrow> unit io" where
  "fs_create_dir_all p = io_op (\<lambda>d. Some ((), d)) no_part"

lemma io_bind_eq_Ok:
  "io_bind m f h = (Ok b, h') \<longleftrightarrow> (\<exists>a h1. m h = (Ok a, h1) \<and> f a h1 = (Ok b, h'))"
  by (auto simp: io_bind_def split: prod.split outcome.split)

lemma io_of_eq_Ok: "io_of g r h = (Ok a, h') \<longleftrightarrow> r = Ok a \<and> h' = h"
  by (auto simp: io_of_def)

text \<open>A host on which nothing goes wrong.\<close>

definition fault_free :: "host \<Rightarrow> bool" where
  "fault_free h \<longleftrightarrow> alive h \<and> script h = [] \<and> rivals h = []"

lemma clean_op:
  assumes "alive h" "script h = []"
  shows "io_op eff part e h = (case eff (disk_of h) of None \<Rightarrow> (Err e, h) | Some (a, d) \<Rightarrow> (Ok a, h\<lparr>disk_of := d\<rparr>))"
  using assms by (cases h) (simp add: io_op_def split: option.split)

lemma clean_op_free: "fault_free h \<Longrightarrow> io_op eff part e h =
    (case eff (disk_of h) of None \<Rightarrow> (Err e, h) | Some (a, d) \<Rightarrow> (Ok a, h\<lparr>disk_of := d\<rparr>))"
  by (simp add: fault_free_def clean_op)

lemma clean_fs_read:
  "fault_free h \<Longrightarrow> fs_read p e h = (case contents (disk_of h) p of None \<Rightarrow> (Err e, h) | Some bs \<Rightarrow> (Ok bs, h))"
  by (cases h) (simp add: fs_read_def rival_turn_def fault_free_def clean_op split: option.split)

section \<open>Triples\<close>

definition hoare :: "(disk \<Rightarrow> bool) \<Rightarrow> 'a io \<Rightarrow> ('a \<Rightarrow> disk \<Rightarrow> bool) \<Rightarrow> (disk \<Rightarrow> bool) \<Rightarrow> bool" where
  "hoare P m Q E \<longleftrightarrow> (\<forall>h. rivals h = [] \<and> P (disk_of h) \<longrightarrow>
     (case m h of (Ok a, h') \<Rightarrow> rivals h' = [] \<and> Q a (disk_of h') | (_, h') \<Rightarrow> rivals h' = [] \<and> E (disk_of h')))"

named_theorems triples

lemma hoareI:
  assumes "\<And>h. rivals h = [] \<Longrightarrow> P (disk_of h) \<Longrightarrow>
    rivals (snd (m h)) = [] \<and> (case fst (m h) of Ok a \<Rightarrow> Q a (disk_of (snd (m h))) | _ \<Rightarrow> E (disk_of (snd (m h))))"
  shows "hoare P m Q E"
  using assms unfolding hoare_def by (fastforce split: prod.split outcome.split)

lemma hoareD:
  assumes "hoare P m Q E" "rivals h = []" "P (disk_of h)" "m h = (r, h')"
  shows "rivals h' = []" and "r = Ok a \<Longrightarrow> Q a (disk_of h')" and "\<forall>a. r \<noteq> Ok a \<Longrightarrow> E (disk_of h')"
  using assms unfolding hoare_def by (cases r; force)+

lemma hoare_conseq:
  assumes "hoare P m Q E" "\<And>d. P' d \<Longrightarrow> P d" "\<And>a d. Q a d \<Longrightarrow> Q' a d" "\<And>d. E d \<Longrightarrow> E' d"
  shows "hoare P' m Q' E'"
proof (rule hoareI, goal_cases)
  case (1 h)
  obtain r h' where r: "m h = (r, h')" by force
  show ?case
    using hoareD [OF assms(1) 1(1) assms(2) [OF 1(2)] r] assms(3,4) by (cases r) (auto simp: r)
qed

lemma hoare_bind:
  assumes m: "hoare P m R E" and f: "\<And>a. hoare (R a) (f a) Q E"
  shows "hoare P (io_bind m f) Q E"
proof (rule hoareI, goal_cases)
  case (1 h)
  obtain r h' where r: "m h = (r, h')" by force
  note d = hoareD [OF m 1 r]
  show ?case
  proof (cases r)
    case (Ok a)
    obtain s h'' where "f a h' = (s, h'')" by force
    then show ?thesis
      using hoareD [OF f d(1) d(2) [OF Ok]] by (cases s) (auto simp: io_bind_def r Ok)
  qed (use d in \<open>auto simp: io_bind_def r\<close>)
qed

lemma hoare_return [triples]: "(\<And>d. P d \<Longrightarrow> Q a d) \<Longrightarrow> hoare P (io_return a) Q E"
  by (rule hoareI) (simp add: io_return_def)

lemma hoare_fail [triples]: "(\<And>d. P d \<Longrightarrow> E d) \<Longrightarrow> hoare P (io_fail e) Q E"
  by (rule hoareI) (simp add: io_fail_def)

lemma hoare_of:
  "(\<And>a d. r = Ok a \<Longrightarrow> P d \<Longrightarrow> Q a d) \<Longrightarrow> (\<And>d. P d \<Longrightarrow> E d) \<Longrightarrow> hoare P (io_of g r) Q E"
  by (rule hoareI) (cases r; simp add: io_of_def)

lemma hoare_op:
  assumes "\<And>d. P d \<Longrightarrow> E d" and "\<And>n d. P d \<Longrightarrow> E (part n d)"
    and "\<And>d a d'. P d \<Longrightarrow> eff d = Some (a, d') \<Longrightarrow> Q a d'"
  shows "hoare P (io_op eff part e) Q E"
  by (rule hoareI) (use assms in \<open>auto simp: io_op_def Let_def split: option.split io_fault.split\<close>)

lemma hoare_read:
  assumes "\<And>d. P d \<Longrightarrow> E d" and "\<And>d bs. P d \<Longrightarrow> contents d p = Some bs \<Longrightarrow> Q bs d"
  shows "hoare P (fs_read p e) Q E"
proof -
  have "hoare P (io_op (\<lambda>d. map_option (\<lambda>bs. (bs, d)) (contents d p)) no_part e) Q E"
    by (rule hoare_op) (use assms in \<open>auto simp: no_part_def\<close>)
  moreover have "rivals h = [] \<Longrightarrow> rival_turn h = h" for h by (simp add: rival_turn_def)
  ultimately show ?thesis by (simp add: hoare_def fs_read_def)
qed

lemma hoare_ok:
  assumes "hoare P m (\<lambda>a. Q (Some a)) E'" "\<And>d. E' d \<Longrightarrow> Q None d" "\<And>d. E' d \<Longrightarrow> E d"
  shows "hoare P (io_ok m) Q E"
proof (rule hoareI, goal_cases)
  case (1 h)
  obtain r h' where r: "m h = (r, h')" by force
  show ?case using hoareD [OF assms(1) 1 r] assms(2,3) by (cases r) (auto simp: io_ok_def r)
qed

lemma hoare_contents:
  assumes "\<And>c. R c \<Longrightarrow> hoare (\<lambda>d. contents d = c) m Q E"
  shows "hoare (\<lambda>d. R (contents d)) m Q E"
proof (rule hoareI, goal_cases)
  case (1 h)
  obtain r h' where r: "m h = (r, h')" by force
  show ?case using hoareD [OF assms [OF 1(2)] 1(1) refl r] by (cases r) (auto simp: r)
qed

lemma contents_set_file [simp]: "contents (set_file p c d) = (contents d)(p := c)"
  by (simp add: set_file_def)

lemmas fs_ops = fs_create_new_def fs_write_all_def fs_write_def fs_metadata_def fs_set_permissions_def fs_sync_def
  fs_rename_def fs_open_def fs_remove_file_def fs_open_append_def fs_create_dir_all_def no_part_def

end
