(* ===== verification/Cli_Audit.thy ===== *)
theory Cli_Audit
  imports Host_Fs
begin

text \<open>
  What the command-line program reports: the telemetry sink (\<^verbatim>\<open>telemetry_sink.rs\<close>) and the JSON records on
  standard output (\<^verbatim>\<open>cli_output.rs\<close>) of \<^verbatim>\<open>dfim_cli_provisioner\<close>.

  A record is one printable line; a configured sink is appended to and its answer decides whether the command
  goes on. Texts for the operator on standard error are not modelled.
\<close>

section \<open>Telemetry\<close>

definition CLI_SCHEMA_VERSION :: u8 where "CLI_SCHEMA_VERSION = 1"
definition CLI_ASSET_HASH_DOMAIN :: bytes where "CLI_ASSET_HASH_DOMAIN = ascii ''dfim-asset-id-v1'' @ [0]"

datatype cli_event_type = VerifyV1 | VerifyV2 | ProvisionV1 | ProvisionV2 | RecoveryV2

primrec event_as_str :: "cli_event_type \<Rightarrow> string" where
  "event_as_str VerifyV1 = ''verify_v1''"
| "event_as_str VerifyV2 = ''verify_v2''"
| "event_as_str ProvisionV1 = ''provision_v1''"
| "event_as_str ProvisionV2 = ''provision_v2''"
| "event_as_str RecoveryV2 = ''recovery_v2''"

datatype cli_outcome = Success | Failure

primrec outcome_as_str :: "cli_outcome \<Rightarrow> string" where
  "outcome_as_str Success = ''success''"
| "outcome_as_str Failure = ''failure''"

primrec outcome_severity :: "cli_outcome \<Rightarrow> string" where
  "outcome_severity Success = ''info''"
| "outcome_severity Failure = ''error''"

record telemetry_event =
  te_event_type :: cli_event_type
  te_outcome :: cli_outcome
  te_timestamp_unix_ms :: nat
  te_asset_id :: string
  te_release_counter :: "u64 option"
  te_merkle_root :: "bytes option"
  te_dry_run :: bool

text \<open>On unix the bytes of the path are hashed.\<close>

definition telemetry_asset_id :: "hash_prims \<Rightarrow> host_path \<Rightarrow> string" where
  "telemetry_asset_id C path =
     (let digest = sha256_digest_chunked C [CLI_ASSET_HASH_DOMAIN, ascii (path_text path)]
      in ''sha256:'' @ hex_encode digest)"

definition telemetry_provision ::
  "hash_prims \<Rightarrow> host \<Rightarrow> cli_event_type \<Rightarrow> cli_outcome \<Rightarrow> host_path \<Rightarrow> u64 option \<Rightarrow> bytes option \<Rightarrow> bool \<Rightarrow>
   telemetry_event" where
  "telemetry_provision C h event_type outcome asset_path release_counter merkle_root dry_run =
     \<lparr>te_event_type = event_type, te_outcome = outcome, te_timestamp_unix_ms = now_ms h,
      te_asset_id = telemetry_asset_id C asset_path, te_release_counter = release_counter,
      te_merkle_root = merkle_root, te_dry_run = dry_run\<rparr>"

definition telemetry_security ::
  "hash_prims \<Rightarrow> host \<Rightarrow> cli_event_type \<Rightarrow> cli_outcome \<Rightarrow> host_path \<Rightarrow> u64 option \<Rightarrow> bytes option \<Rightarrow> telemetry_event" where
  "telemetry_security C h event_type outcome asset_path release_counter merkle_root =
     \<lparr>te_event_type = event_type, te_outcome = outcome, te_timestamp_unix_ms = now_ms h,
      te_asset_id = telemetry_asset_id C asset_path, te_release_counter = release_counter,
      te_merkle_root = merkle_root, te_dry_run = False\<rparr>"

definition telemetry_to_json_line :: "telemetry_event \<Rightarrow> string" where
  "telemetry_to_json_line e =
     (let output = ''{\"schema_version\":'';
          output = output @ decimal (unat CLI_SCHEMA_VERSION);
          output = output @ '',\"event_type\":\"'';
          output = output @ event_as_str (te_event_type e);
          output = output @ ''\",\"severity\":\"'';
          output = output @ outcome_severity (te_outcome e);
          output = output @ ''\",\"outcome\":\"'';
          output = output @ outcome_as_str (te_outcome e);
          output = output @ ''\",\"timestamp_unix_ms\":'';
          output = output @ decimal (te_timestamp_unix_ms e);
          output = output @ '',\"asset_id\":\"'';
          output = output @ json_escape (te_asset_id e);
          output = output @ [CHR 0x22];
          output = push_opt output (te_release_counter e) (\<lambda>r. '',\"release_counter\":'' @ decimal (unat r));
          output = push_opt output (te_merkle_root e) (\<lambda>r. '',\"merkle_root\":\"'' @ hex_encode r @ [CHR 0x22]);
          output = (if te_dry_run e then output @ '',\"dry_run\":true'' else output)
      in output @ [CHR ''}'', CHR 0x0A])"

definition cli_append_event :: "host_path \<Rightarrow> telemetry_event \<Rightarrow> unit io" where
  "cli_append_event path e =
     io_bind (fs_open_append path (Message ''cannot open telemetry sink'')) (\<lambda>_.
     io_bind (fs_write_all path (ascii (telemetry_to_json_line e)) (Message ''cannot append telemetry event'')) (\<lambda>_.
     fs_sync (Message ''cannot synchronize telemetry sink'')))"

definition cli_emit_configured :: "telemetry_event \<Rightarrow> unit io" where
  "cli_emit_configured e h =
     (case telemetry_path h of None \<Rightarrow> (Ok (), h) | Some path \<Rightarrow> cli_append_event path e h)"

section \<open>Standard output\<close>

datatype output_format = Text_output | Json_output

definition output_format_parse :: "string \<Rightarrow> (cli_error, output_format) outcome" where
  "output_format_parse text =
     (if text = ''text'' then Ok Text_output
      else if text = ''json'' then Ok Json_output
      else Err (Message (''unsupported output format: '' @ text)))"

record command_json_report =
  cj_command :: string
  cj_outcome :: string
  cj_asset_id :: string
  cj_merkle_root :: "bytes option"
  cj_release_counter :: "u64 option"
  cj_blocks :: "nat option"
  cj_bytes :: "nat option"
  cj_dry_run :: bool

text \<open>The escaping loop of this file is that of the Linux sink.\<close>

definition cli_json_escape :: "string \<Rightarrow> string" where
  "cli_json_escape s = siem_json_escape s"

definition cli_asset_id :: "hash_prims \<Rightarrow> host_path \<Rightarrow> string" where
  "cli_asset_id C path =
     ''sha256:'' @ hex_encode (sha256_digest_chunked C [CLI_ASSET_HASH_DOMAIN, ascii (path_text path)])"

definition command_json_line :: "command_json_report \<Rightarrow> string" where
  "command_json_line r =
     (let line = ''{\"schema_version\":1,\"command\":\"'';
          line = line @ cj_command r;
          line = line @ ''\",\"outcome\":\"'';
          line = line @ cj_outcome r;
          line = line @ ''\",\"asset_id\":\"'';
          line = line @ cli_json_escape (cj_asset_id r);
          line = line @ [CHR 0x22];
          line = push_opt line (cj_blocks r) (\<lambda>b. '',\"blocks\":'' @ decimal b);
          line = push_opt line (cj_bytes r) (\<lambda>b. '',\"bytes\":'' @ decimal b);
          line = push_opt line (cj_release_counter r) (\<lambda>c. '',\"release_counter\":'' @ decimal (unat c));
          line = push_opt line (cj_merkle_root r) (\<lambda>m. '',\"merkle_root\":\"'' @ hex_encode m @ [CHR 0x22]);
          line = (if cj_dry_run r then line @ '',\"dry_run\":true'' else line)
      in line @ [CHR ''}'', CHR 0x0A])"

text \<open>A write to standard output, which may fail like any other operation.\<close>

definition stdout_write :: "string \<Rightarrow> cli_error \<Rightarrow> unit io" where
  "stdout_write line e =
     io_bind (io_op (\<lambda>d. Some ((), d)) no_part e) (\<lambda>_ h. (Ok (), h\<lparr>stdout := stdout h @ line\<rparr>))"

definition write_stdout :: "command_json_report \<Rightarrow> unit io" where
  "write_stdout r = stdout_write (command_json_line r) (Message ''failed to write json output'')"

section \<open>Lines and sinks\<close>

lemma printable_names [simp]:
  "printable (event_as_str t)" "printable (outcome_as_str oc)" "printable (outcome_severity oc)"
  by (cases t; simp) (cases oc; simp)+

lemma printable_escapes [simp]: "printable (json_escape s)" "printable (cli_json_escape s)"
  using telemetry_text.esc_printable siem_text.esc_printable by (simp_all add: printable_def cli_json_escape_def)

lemma telemetry_line:
  "\<exists>body. telemetry_to_json_line e = body @ [CHR 0x0A] \<and> printable body"
proof -
  have "telemetry_to_json_line e = butlast (telemetry_to_json_line e) @ [CHR 0x0A]"
    unfolding telemetry_to_json_line_def Let_def by (simp add: butlast_append)
  moreover have "printable (butlast (telemetry_to_json_line e))"
    unfolding telemetry_to_json_line_def Let_def butlast_append by (simp add: printable_digits)
  ultimately show ?thesis by blast
qed

lemma command_line:
  assumes "printable (cj_command r)" "printable (cj_outcome r)"
  shows "\<exists>body. command_json_line r = body @ [CHR 0x0A] \<and> printable body"
proof -
  have "command_json_line r = butlast (command_json_line r) @ [CHR 0x0A]"
    unfolding command_json_line_def Let_def by (simp add: butlast_append)
  moreover have "printable (butlast (command_json_line r))"
    unfolding command_json_line_def Let_def butlast_append using assms by (simp add: printable_digits)
  ultimately show ?thesis by blast
qed

text \<open>An acknowledged event is in the sink, after what was there, and nothing else has changed.\<close>

lemma append_event_triple:
  "hoare (\<lambda>d. contents d = c0) (cli_append_event p e)
     (\<lambda>_ d. contents d = c0(p \<mapsto> (case c0 p of None \<Rightarrow> [] | Some old \<Rightarrow> old) @ ascii (telemetry_to_json_line e)))
     (\<lambda>d. \<forall>q. q \<noteq> p \<longrightarrow> contents d q = c0 q)"
  (is "hoare _ _ ?Q ?E")
proof -
  let ?old = "case c0 p of None \<Rightarrow> [] | Some old \<Rightarrow> old"
  let ?l = "ascii (telemetry_to_json_line e)"
  have a: "hoare (\<lambda>d. contents d = c0) (fs_open_append p x) (\<lambda>_ d. contents d = c0(p \<mapsto> ?old)) ?E" for x
    unfolding fs_ops by (rule hoare_op) (auto split: option.split)
  have b: "hoare (\<lambda>d. contents d = c0(p \<mapsto> ?old)) (fs_write_all p ?l x) ?Q ?E" for x
    unfolding fs_ops by (rule hoare_op) auto
  have c: "hoare (\<lambda>d. contents d = c0(p \<mapsto> ?old @ ?l)) (fs_sync x) ?Q ?E" for x
    unfolding fs_ops by (rule hoare_op) auto
  show ?thesis unfolding cli_append_event_def by (intro hoare_bind [OF a] hoare_bind [OF b] c)
qed

end
