(* ===== verification/Cli_Recovery.thy ===== *)
theory Cli_Recovery
  imports Host_Fs Signed_Boot
begin

text \<open>
  Authenticated recovery (\<^verbatim>\<open>dfim_cli_provisioner/src/recovery.rs\<close>): a protected image and its sidecar are replaced
  by an authorized pair, each through a temporary file and a rename. The properties cover every sequence of faults
  of the file operations, a kill of the process at any operation included.
\<close>

section \<open>Recovery\<close>

record recovery_request =
  rr_target :: host_path
  rr_target_sidecar :: host_path
  rr_recovery_image :: host_path
  rr_recovery_sidecar :: host_path
  rr_policy :: trusted_manifest_policy

record recovery_report =
  rp_release_counter :: u64
  rp_key_id :: bytes
  rp_restored_bytes :: nat
  rp_merkle_root :: bytes

definition read_non_empty :: "host_path \<Rightarrow> string \<Rightarrow> bytes io" where
  "read_non_empty path label =
     io_bind (fs_read path (Read_failed label)) (\<lambda>bs.
     if bs = [] then io_fail (Empty_file label) else io_return bs)"

text \<open>On unix.\<close>

definition sync_parent_directory :: "host_path \<Rightarrow> unit io" where
  "sync_parent_directory target =
     (case path_parent target of None \<Rightarrow> io_fail No_parent | Some parent \<Rightarrow> fs_sync Sync_failed)"

definition write_and_replace :: "host_path \<Rightarrow> host_path \<Rightarrow> bytes \<Rightarrow> unit io" where
  "write_and_replace temporary target payload =
     io_bind (fs_create_new temporary Create_failed) (\<lambda>_.
     io_bind (fs_write_all temporary payload Write_failed) (\<lambda>_.
     io_bind (io_bind (io_ok (fs_metadata target (Read_failed []))) (\<lambda>metadata.
                case metadata of Some permissions \<Rightarrow> fs_set_permissions temporary permissions Permissions_failed
                | None \<Rightarrow> io_return ())) (\<lambda>_.
     io_bind (fs_sync Sync_failed) (\<lambda>_.
     io_bind (fs_rename temporary target Rename_failed) (\<lambda>_.
     io_bind (io_bind (fs_open target Sync_failed) (\<lambda>_. fs_sync Sync_failed)) (\<lambda>_.
     sync_parent_directory target))))))"

definition temporary_path :: "host_path \<Rightarrow> string \<Rightarrow> nat \<Rightarrow> u64 \<Rightarrow> host_path" where
  "temporary_path parent name pid sequence =
     path_child parent (''.'' @ name @ ''.dfim-recovery-'' @ decimal pid @ ''-'' @ decimal (unat sequence) @ ''.tmp'')"

definition atomic_replace :: "host_path \<Rightarrow> bytes \<Rightarrow> unit io" where
  "atomic_replace target payload h =
     (case path_parent target of None \<Rightarrow> (Err No_parent, h)
      | Some parent \<Rightarrow>
          if path_is_empty parent then (Err No_parent, h)
          else case path_file_name target of None \<Rightarrow> (Err No_file_name, h)
          | Some name \<Rightarrow>
              let sequence = temp_sequence h;
                  h = h\<lparr>temp_sequence := sequence + 1\<rparr>;
                  temporary = temporary_path parent name (process_id h) sequence
              in case write_and_replace temporary target payload h of
                   (Ok r, h') \<Rightarrow> (Ok r, h')
                 | (result, h') \<Rightarrow> (result, snd (fs_remove_file temporary h')))"

definition recover_target_atomically ::
  "hash_prims \<Rightarrow> sig_prims \<Rightarrow> recovery_request \<Rightarrow> recovery_report io" where
  "recover_target_atomically C S request =
     io_bind (read_non_empty (rr_recovery_image request) ''recovery image'') (\<lambda>recovery_image.
     io_bind (read_non_empty (rr_recovery_sidecar request) ''recovery sidecar'') (\<lambda>recovery_sidecar.
     io_bind (io_of (Core_error ''recovery authorization failed'')
                (validate_signed_boot_image_v2 C S recovery_image recovery_sidecar (rr_policy request)))
       (\<lambda>prevalidated.
     io_bind (atomic_replace (rr_target_sidecar request) recovery_sidecar) (\<lambda>_.
     io_bind (atomic_replace (rr_target request) recovery_image) (\<lambda>_.
     io_bind (read_non_empty (rr_target request) ''restored image'') (\<lambda>restored_image.
     io_bind (read_non_empty (rr_target_sidecar request) ''restored sidecar'') (\<lambda>restored_sidecar.
     io_bind (io_of (Core_error ''post-recovery verification failed'')
                (validate_signed_boot_image_v2 C S restored_image restored_sidecar (rr_policy request)))
       (\<lambda>postvalidated.
     if vs_release_counter prevalidated \<noteq> vs_release_counter postvalidated \<or>
        vs_key_id prevalidated \<noteq> vs_key_id postvalidated \<or>
        vb_merkle_root (vs_boot prevalidated) \<noteq> vb_merkle_root (vs_boot postvalidated)
     then io_fail (Message ''post-recovery identity differs from authorized source'')
     else io_return \<lparr>rp_release_counter = vs_release_counter postvalidated, rp_key_id = vs_key_id postvalidated,
            rp_restored_bytes = length restored_image,
            rp_merkle_root = vb_merkle_root (vs_boot postvalidated)\<rparr>))))))))"

section \<open>One replacement\<close>

lemma write_and_replace_triple:
  assumes "tmp \<noteq> target"
  shows "hoare (\<lambda>d. contents d = c0) (write_and_replace tmp target payload)
    (\<lambda>_ d. contents d = c0(target \<mapsto> payload))
    (\<lambda>d. (contents d target = c0 target \<or> contents d target = Some payload) \<and>
         (\<forall>p. p \<noteq> target \<and> p \<noteq> tmp \<longrightarrow> contents d p = c0 p))"
  (is "hoare _ _ _ ?E")
proof -
  have create: "hoare (\<lambda>d. contents d = c0) (fs_create_new tmp e)
      (\<lambda>_ d. contents d = c0(tmp \<mapsto> []) \<and> c0 tmp = None) ?E" for e
    unfolding fs_ops by (rule hoare_op) (auto split: if_split_asm)
  have wr: "hoare (\<lambda>d. contents d = c0(tmp \<mapsto> []) \<and> c0 tmp = None) (fs_write_all tmp payload e)
      (\<lambda>_ d. contents d = c0(tmp \<mapsto> payload) \<and> c0 tmp = None) ?E" for e
    unfolding fs_ops by (rule hoare_op) (use assms in auto)
  let ?R = "\<lambda>_ d. contents d = c0(tmp \<mapsto> payload) \<and> c0 tmp = None"
  have meta: "hoare (?R ()) (io_ok (fs_metadata target e)) ?R ?E" for e
    unfolding fs_ops by (rule hoare_ok, rule hoare_op [where E = "?R ()"]) (use assms in \<open>auto split: if_split_asm\<close>)
  have perm: "hoare (?R ()) (case m of Some x \<Rightarrow> fs_set_permissions tmp x e | None \<Rightarrow> io_return ()) ?R ?E" for m e
    unfolding fs_ops by (cases m) (auto intro!: hoare_return hoare_op simp: assms)
  have sync: "hoare (?R ()) (fs_sync e) ?R ?E" for e
    unfolding fs_ops by (rule hoare_op) (use assms in auto)
  let ?S = "\<lambda>_ d. contents d = c0(target \<mapsto> payload)"
  have ren: "hoare (?R ()) (fs_rename tmp target e) ?S ?E" for e
    unfolding fs_ops by (rule hoare_op) (use assms in \<open>auto split: option.split_asm\<close>)
  have op: "hoare (?S ()) (fs_open target e) ?S ?E" "hoare (?S ()) (fs_sync e) ?S ?E" for e
    unfolding fs_ops by (rule hoare_op; auto split: if_split_asm)+
  have par: "hoare (?S ()) (sync_parent_directory target) ?S ?E"
    unfolding sync_parent_directory_def by (auto split: option.split intro!: hoare_fail op)
  show ?thesis
    unfolding write_and_replace_def
    by (intro hoare_bind [OF create] hoare_bind [OF wr] hoare_bind [OF hoare_bind [OF meta perm]]
        hoare_bind [OF sync] hoare_bind [OF ren] hoare_bind [OF hoare_bind [OF op(1) op(2)]] par)
qed

definition is_temporary :: "host_path \<Rightarrow> host_path \<Rightarrow> bool" where
  "is_temporary target p \<longleftrightarrow> (\<exists>parent name pid sequence. path_parent target = Some parent \<and>
     path_file_name target = Some name \<and> p = temporary_path parent name pid sequence)"

lemma temporary_not_target:
  assumes "path_file_name target = Some name"
  shows "temporary_path parent name pid sequence \<noteq> target"
proof
  assume "temporary_path parent name pid sequence = target"
  then have "last (names target) = ''.'' @ name @ ''.dfim-recovery-'' @ decimal pid @ ''-'' @ decimal (unat sequence) @ ''.tmp''"
    by (auto simp: temporary_path_def path_child_def)
  moreover have "last (names target) = name" using assms by (auto simp: path_file_name_def split: if_split_asm)
  ultimately have "length name = length (''.'' @ name @ ''.dfim-recovery-'' @ decimal pid @ ''-'' @ decimal (unat sequence) @ ''.tmp'')"
    by simp
  then show False by simp
qed

lemma atomic_replace_triple:
  "hoare (\<lambda>d. contents d = c0) (atomic_replace target payload)
    (\<lambda>_ d. contents d = c0(target \<mapsto> payload))
    (\<lambda>d. (contents d target = c0 target \<or> contents d target = Some payload) \<and>
         (\<forall>p. p \<noteq> target \<and> \<not> is_temporary target p \<longrightarrow> contents d p = c0 p))"
  (is "hoare ?P _ ?Q ?E")
proof (rule hoareI, goal_cases)
  case (1 h)
  consider (err) e where "atomic_replace target payload h = (Err e, h)"
    | (run) parent name where "path_parent target = Some parent" "\<not> path_is_empty parent" "path_file_name target = Some name"
    by (cases "path_parent target"; cases "path_file_name target"; cases "path_is_empty (the (path_parent target))")
      (simp_all add: atomic_replace_def)
  then show ?case
  proof cases
    case run
    define h1 where "h1 = h\<lparr>temp_sequence := temp_sequence h + 1\<rparr>"
    define tmp where "tmp = temporary_path parent name (process_id h) (temp_sequence h)"
    have tmp: "tmp \<noteq> target" "is_temporary target tmp"
      using temporary_not_target [OF run(3)] run by (auto simp: tmp_def is_temporary_def)
    let ?F = "\<lambda>d. (contents d target = c0 target \<or> contents d target = Some payload) \<and>
         (\<forall>p. p \<noteq> target \<and> p \<noteq> tmp \<longrightarrow> contents d p = c0 p)"
    obtain r h2 where w: "write_and_replace tmp target payload h1 = (r, h2)" by force
    have q: "rivals h1 = []" "contents (disk_of h1) = c0" using 1 by (simp_all add: h1_def)
    note t = hoareD [OF write_and_replace_triple [OF tmp(1)] q w]
    have rm: "hoare ?F (fs_remove_file tmp) (\<lambda>_. ?F) ?F"
      unfolding fs_ops by (rule hoare_op) (use tmp(1) in \<open>auto split: if_split_asm\<close>)
    obtain u h3 where x: "fs_remove_file tmp h2 = (u, h3)" by force
    have "rivals h3 = [] \<and> ?F (disk_of h3)" if "\<forall>a. r \<noteq> Ok a"
      using hoareD [OF rm t(1) t(3) [OF that] x] by (cases u) auto
    then show ?thesis
      using t tmp(2) x w run by (cases r) (auto simp: atomic_replace_def Let_def h1_def tmp_def)
  qed (use 1 in auto)
qed

section \<open>The recovery\<close>

definition authorized_pair ::
  "hash_prims \<Rightarrow> sig_prims \<Rightarrow> recovery_request \<Rightarrow> (host_path \<Rightarrow> bytes option) \<Rightarrow> bytes \<Rightarrow> bytes \<Rightarrow>
   validated_signed_boot_image \<Rightarrow> bool" where
  "authorized_pair C S rq c img sc v \<longleftrightarrow> c (rr_recovery_image rq) = Some img \<and> c (rr_recovery_sidecar rq) = Some sc \<and>
     img \<noteq> [] \<and> sc \<noteq> [] \<and> validate_signed_boot_image_v2 C S img sc (rr_policy rq) = Ok v"

lemma read_non_empty_triple:
  "hoare (\<lambda>d. contents d = c) (read_non_empty p label) (\<lambda>bs d. contents d = c \<and> c p = Some bs \<and> bs \<noteq> []) (\<lambda>d. contents d = c)"
  unfolding read_non_empty_def
  by (rule hoare_bind [where R = "\<lambda>bs d. contents d = c \<and> c p = Some bs"], rule hoare_read)
    (auto intro!: hoare_return hoare_fail)

lemma read_known:
  assumes "c p = Some bs" and "hoare (\<lambda>d. contents d = c) (f bs) Q E" and "\<And>d. contents d = c \<Longrightarrow> E d"
  shows "hoare (\<lambda>d. contents d = c) (io_bind (read_non_empty p label) f) Q E"
proof (rule hoare_bind [where R = "\<lambda>x d. contents d = c \<and> x = bs"], goal_cases)
  case 1
  show ?case by (rule hoare_conseq [OF read_non_empty_triple]) (use assms in auto)
next
  case (2 x)
  show ?case using assms(2) by (cases "x = bs") (simp_all add: hoare_def)
qed

lemma of_known: "r = Ok a \<Longrightarrow> hoare P (f a) Q E \<Longrightarrow> hoare P (io_bind (io_of g r) f) Q E"
  by (simp add: hoare_def io_bind_def io_of_def)

text \<open>Without an authorized pair nothing is written.\<close>

lemma unauthorized_triple:
  assumes "\<nexists>img sc v. authorized_pair C S rq c0 img sc v"
  shows "hoare (\<lambda>d. contents d = c0) (recover_target_atomically C S rq) (\<lambda>_ _. False) (\<lambda>d. contents d = c0)"
  unfolding recover_target_atomically_def
proof (rule hoare_bind [OF read_non_empty_triple], goal_cases)
  case (1 img)
  show ?case
  proof (rule hoare_bind [where R = "\<lambda>sc d. contents d = c0 \<and> c0 (rr_recovery_image rq) = Some img \<and> img \<noteq> [] \<and>
        c0 (rr_recovery_sidecar rq) = Some sc \<and> sc \<noteq> []"], goal_cases)
    case 1
    show ?case
      by (rule hoare_contents [where R = "\<lambda>c. c = c0 \<and> c0 (rr_recovery_image rq) = Some img \<and> img \<noteq> []"])
        (rule hoare_conseq [OF read_non_empty_triple]; auto)
  next
    case (2 sc)
    show ?case
      by (rule hoare_bind [where R = "\<lambda>_ _. False"], rule hoare_of)
        (use assms in \<open>auto simp: authorized_pair_def hoare_def\<close>)
  qed
qed

text \<open>With one, every end leaves whole files.\<close>

definition whole_files :: "recovery_request \<Rightarrow> (host_path \<Rightarrow> bytes option) \<Rightarrow> bytes \<Rightarrow> bytes \<Rightarrow> disk \<Rightarrow> bool" where
  "whole_files rq c0 img sc d \<longleftrightarrow>
     (contents d (rr_target rq) = c0 (rr_target rq) \<or>
      contents d (rr_target rq) = Some img \<and> contents d (rr_target_sidecar rq) = Some sc) \<and>
     (contents d (rr_target_sidecar rq) = c0 (rr_target_sidecar rq) \<or> contents d (rr_target_sidecar rq) = Some sc) \<and>
     (\<forall>p. p \<noteq> rr_target rq \<and> p \<noteq> rr_target_sidecar rq \<and> \<not> is_temporary (rr_target rq) p \<and>
        \<not> is_temporary (rr_target_sidecar rq) p \<longrightarrow> contents d p = c0 p)"

lemma authorized_triple:
  assumes auth: "authorized_pair C S rq c0 img sc v"
    and paths: "rr_target rq \<noteq> rr_target_sidecar rq" "\<not> is_temporary (rr_target rq) (rr_target_sidecar rq)"
      "\<not> is_temporary (rr_target_sidecar rq) (rr_target rq)"
  shows "hoare (\<lambda>d. contents d = c0) (recover_target_atomically C S rq)
    (\<lambda>rp d. contents d = c0(rr_target_sidecar rq \<mapsto> sc, rr_target rq \<mapsto> img) \<and>
       rp = \<lparr>rp_release_counter = vs_release_counter v, rp_key_id = vs_key_id v, rp_restored_bytes = length img,
             rp_merkle_root = vb_merkle_root (vs_boot v)\<rparr>)
    (whole_files rq c0 img sc)"
  (is "hoare _ _ ?Q ?E")
proof -
  let ?c1 = "c0(rr_target_sidecar rq \<mapsto> sc)" and ?c2 = "c0(rr_target_sidecar rq \<mapsto> sc, rr_target rq \<mapsto> img)"
  have e0: "\<And>d. contents d = c0 \<Longrightarrow> ?E d" and e2: "\<And>d. contents d = ?c2 \<Longrightarrow> ?E d"
    using paths by (auto simp: whole_files_def)
  have r1: "hoare (\<lambda>d. contents d = c0) (atomic_replace (rr_target_sidecar rq) sc) (\<lambda>_ d. contents d = ?c1) ?E"
    by (rule hoare_conseq [OF atomic_replace_triple]) (use paths in \<open>auto simp: whole_files_def\<close>)
  have r2: "hoare (\<lambda>d. contents d = ?c1) (atomic_replace (rr_target rq) img) (\<lambda>_ d. contents d = ?c2) ?E"
    by (rule hoare_conseq [OF atomic_replace_triple]) (use paths in \<open>auto simp: whole_files_def\<close>)
  have imgs: "c0 (rr_recovery_image rq) = Some img" "c0 (rr_recovery_sidecar rq) = Some sc"
    "validate_signed_boot_image_v2 C S img sc (rr_policy rq) = Ok v" using auth by (auto simp: authorized_pair_def)
  have c2: "?c2 (rr_target rq) = Some img" "?c2 (rr_target_sidecar rq) = Some sc" using paths by simp_all
  note reads = read_known [of c0 "rr_recovery_image rq" img, OF imgs(1)] read_known [of c0 "rr_recovery_sidecar rq" sc, OF imgs(2)]
    read_known [of ?c2 "rr_target rq" img, OF c2(1)] read_known [of ?c2 "rr_target_sidecar rq" sc, OF c2(2)]
  show ?thesis
    unfolding recover_target_atomically_def
    by (intro reads of_known [OF imgs(3)] hoare_bind [OF r1] hoare_bind [OF r2] e0 e2) (simp_all add: hoare_return)
qed

text \<open>Without faults an authorized recovery succeeds.\<close>

definition replaceable :: "(host_path \<Rightarrow> bytes option) \<Rightarrow> host_path \<Rightarrow> bool" where
  "replaceable c p \<longleftrightarrow> (\<exists>parent name. path_parent p = Some parent \<and> \<not> path_is_empty parent \<and> path_file_name p = Some name) \<and>
     (\<forall>q. is_temporary p q \<longrightarrow> c q = None)"

lemma clean_replace:
  assumes h: "fault_free h" and p: "replaceable (contents (disk_of h)) p"
  shows "\<exists>h'. atomic_replace p bs h = (Ok (), h') \<and> fault_free h' \<and> contents (disk_of h') = (contents (disk_of h))(p \<mapsto> bs)"
proof -
  have a: "alive h" "script h = []" "rivals h = []" using h by (simp_all add: fault_free_def)
  obtain parent n where n: "path_parent p = Some parent" "\<not> path_is_empty parent" "path_file_name p = Some n"
    and t: "\<forall>q. is_temporary p q \<longrightarrow> contents (disk_of h) q = None" using p by (auto simp: replaceable_def)
  let ?tmp = "temporary_path parent n (process_id h) (temp_sequence h)"
  have "contents (disk_of h) ?tmp = None" using t n by (auto simp: is_temporary_def)
  then obtain d where r: "atomic_replace p bs h = (Ok (), h\<lparr>temp_sequence := temp_sequence h + 1, disk_of := d\<rparr>)"
    using n temporary_not_target [OF n(3), of parent "process_id h" "temp_sequence h"]
    by (cases "contents (disk_of h) p")
      (simp_all add: atomic_replace_def write_and_replace_def Let_def io_bind_def fs_ops clean_op a io_ok_def set_file_def
        io_return_def sync_parent_directory_def)
  show ?thesis using hoareD [OF atomic_replace_triple a(3) refl r] a r by (auto simp: fault_free_def)
qed

lemma clean_read:
  assumes "fault_free h" "contents (disk_of h) p = Some bs" "bs \<noteq> []"
  shows "read_non_empty p label h = (Ok bs, h)"
  using assms by (simp add: read_non_empty_def io_bind_def fs_read_def rival_turn_def fault_free_def clean_op io_return_def)

lemma recovery_succeeds:
  assumes h: "fault_free h" and a: "authorized_pair C S rq (contents (disk_of h)) img sc v"
    and r: "replaceable (contents (disk_of h)) (rr_target rq)" "replaceable (contents (disk_of h)) (rr_target_sidecar rq)"
    and paths: "rr_target rq \<noteq> rr_target_sidecar rq" "\<not> is_temporary (rr_target rq) (rr_target_sidecar rq)"
  shows "\<exists>rp h'. recover_target_atomically C S rq h = (Ok rp, h')"
proof -
  have img: "contents (disk_of h) (rr_recovery_image rq) = Some img" "contents (disk_of h) (rr_recovery_sidecar rq) = Some sc"
    "img \<noteq> []" "sc \<noteq> []" "validate_signed_boot_image_v2 C S img sc (rr_policy rq) = Ok v"
    using a by (auto simp: authorized_pair_def)
  obtain h1 where h1: "atomic_replace (rr_target_sidecar rq) sc h = (Ok (), h1)" "fault_free h1"
    "contents (disk_of h1) = (contents (disk_of h))(rr_target_sidecar rq \<mapsto> sc)"
    using clean_replace [OF h r(2)] by blast
  have "replaceable (contents (disk_of h1)) (rr_target rq)" using r(1) paths by (auto simp: replaceable_def h1(3))
  then obtain h2 where h2: "atomic_replace (rr_target rq) img h1 = (Ok (), h2)" "fault_free h2"
    "contents (disk_of h2) = (contents (disk_of h1))(rr_target rq \<mapsto> img)"
    using clean_replace [OF h1(2)] by blast
  have c: "contents (disk_of h2) (rr_target rq) = Some img" "contents (disk_of h2) (rr_target_sidecar rq) = Some sc"
    using paths by (simp_all add: h2(3) h1(3))
  show ?thesis
    using img h1(1) h2(1) clean_read [OF h img(1,3)] clean_read [OF h img(2,4)]
      clean_read [OF h2(2) c(1) img(3)] clean_read [OF h2(2) c(2) img(4)]
    by (simp add: recover_target_atomically_def io_bind_def io_of_def io_return_def)
qed

text \<open>Whatever other processes do, a report describes files that were read back and accepted.\<close>

lemma recovery_report_verified:
  assumes "recover_target_atomically C S rq h = (Ok rp, h')"
  shows "\<exists>img sc v. validate_signed_boot_image_v2 C S img sc (rr_policy rq) = Ok v \<and>
    rp = \<lparr>rp_release_counter = vs_release_counter v, rp_key_id = vs_key_id v, rp_restored_bytes = length img,
          rp_merkle_root = vb_merkle_root (vs_boot v)\<rparr>"
proof -
  obtain img sc v h1 where "validate_signed_boot_image_v2 C S img sc (rr_policy rq) = Ok v"
    "io_return \<lparr>rp_release_counter = vs_release_counter v, rp_key_id = vs_key_id v, rp_restored_bytes = length img,
       rp_merkle_root = vb_merkle_root (vs_boot v)\<rparr> h1 = (Ok rp, h')"
    using assms unfolding recover_target_atomically_def io_bind_eq_Ok io_of_eq_Ok
    by (auto simp: io_fail_def split: if_split_asm)
  then show ?thesis by (auto simp: io_return_def)
qed

section \<open>Properties\<close>

text \<open>
  C17. Recovery is atomic and authorized. Take any host without concurrent writers and any faults of its file
  operations, a kill at any operation included. If the recovery files do not form a pair that the trust policy
  accepts, no file changes and the recovery fails. Otherwise, however it ends, the protected image is still the old one or is
  the whole authorized image, and then its sidecar is already the whole authorized sidecar; the sidecar
  is the old or the authorized one; and no other file but the temporary ones has changed. If it reports
  success, exactly the two files were replaced and the report describes the authorized pair; and without a fault, and with
  free names for the temporary files, it does report success.
\<close>

theorem recovery_atomic:
  assumes "rivals h = []" and "rr_target rq \<noteq> rr_target_sidecar rq"
    and "\<not> is_temporary (rr_target rq) (rr_target_sidecar rq)" and "\<not> is_temporary (rr_target_sidecar rq) (rr_target rq)"
    and "recover_target_atomically C S rq h = (r, h')"
  shows "let c0 = contents (disk_of h); c1 = contents (disk_of h') in
    if \<nexists>img sc v. authorized_pair C S rq c0 img sc v then c1 = c0 \<and> (\<forall>rp. r \<noteq> Ok rp)
    else \<exists>img sc v. authorized_pair C S rq c0 img sc v \<and> whole_files rq c0 img sc (disk_of h') \<and>
      (\<forall>rp. r = Ok rp \<longrightarrow> c1 = c0(rr_target_sidecar rq \<mapsto> sc, rr_target rq \<mapsto> img) \<and>
         rp = \<lparr>rp_release_counter = vs_release_counter v, rp_key_id = vs_key_id v, rp_restored_bytes = length img,
               rp_merkle_root = vb_merkle_root (vs_boot v)\<rparr>) \<and>
      (fault_free h \<and> replaceable c0 (rr_target rq) \<and> replaceable c0 (rr_target_sidecar rq) \<longrightarrow> (\<exists>rp. r = Ok rp))"
proof (cases "\<nexists>img sc v. authorized_pair C S rq (contents (disk_of h)) img sc v")
  case True
  show ?thesis using hoareD [OF unauthorized_triple [OF True] assms(1) refl assms(5)] True by (cases r) auto
next
  case False
  then obtain img sc v where a: "authorized_pair C S rq (contents (disk_of h)) img sc v" by blast
  note t = hoareD [OF authorized_triple [OF a assms(2-4)] assms(1) refl assms(5)]
  have "whole_files rq (contents (disk_of h)) img sc (disk_of h')"
    using t assms(2-4) by (cases r) (auto simp: whole_files_def)
  moreover have "\<exists>rp. r = Ok rp" if "fault_free h" "replaceable (contents (disk_of h)) (rr_target rq)"
      "replaceable (contents (disk_of h)) (rr_target_sidecar rq)"
    using recovery_succeeds [OF that(1) a that(2,3) assms(2,3)] assms(5) by auto
  ultimately show ?thesis using t a False by (auto simp: Let_def)
qed

definition boot_file :: "string \<Rightarrow> host_path" where
  "boot_file name = \<lparr>absolute = True, names = [''boot'', name]\<rparr>"

definition sample_request :: recovery_request where
  "sample_request = \<lparr>rr_target = boot_file ''os.efi'', rr_target_sidecar = boot_file ''os.efi.dfim'',
     rr_recovery_image = boot_file ''gold.efi'', rr_recovery_sidecar = boot_file ''gold.dfim'',
     rr_policy = \<lparr>public_key_sec1 = 2 # replicate 32 0x11, expected_key_id = replicate 16 7, minimum_release = 9\<rparr>\<rparr>"

definition sample_recovery_host :: "bytes \<Rightarrow> host" where
  "sample_recovery_host blob = \<lparr>disk_of = \<lparr>contents = [boot_file ''gold.efi'' \<mapsto> [1, 2, 3], boot_file ''gold.dfim'' \<mapsto> blob,
       boot_file ''os.efi'' \<mapsto> [9, 9]], modes = (\<lambda>_. 420)\<rparr>,
     script = [], rivals = [], alive = True, temp_sequence = 0, process_id = 7, canonical = Some, now_ms = 0,
     telemetry_path = None, stdout = []\<rparr>"

lemma sample_not_temporary:
  "\<not> is_temporary (rr_target sample_request) (rr_target_sidecar sample_request)"
  "\<not> is_temporary (rr_target_sidecar sample_request) (rr_target sample_request)"
  by (simp_all add: is_temporary_def sample_request_def boot_file_def path_parent_def path_file_name_def
      temporary_path_def path_child_def)

lemma temporary_boot_file:
  "temporary_path \<lparr>absolute = True, names = [''boot'']\<rparr> n p q \<noteq> boot_file ''gold.efi''"
  "temporary_path \<lparr>absolute = True, names = [''boot'']\<rparr> n p q \<noteq> boot_file ''gold.dfim''"
  "temporary_path \<lparr>absolute = True, names = [''boot'']\<rparr> n p q \<noteq> boot_file ''os.efi''"
  "temporary_path \<lparr>absolute = True, names = [''boot'']\<rparr> n p q \<noteq> boot_file ''os.efi.dfim''"
  by (simp_all add: boot_file_def temporary_path_def path_child_def)

lemma boot_file_path:
  "path_parent (boot_file n) = Some \<lparr>absolute = True, names = [''boot'']\<rparr>"
  "n \<noteq> ''..'' \<Longrightarrow> path_file_name (boot_file n) = Some n" "boot_file n = boot_file m \<longleftrightarrow> n = m"
  by (simp_all add: boot_file_def path_parent_def path_file_name_def)

theorem recovery_atomic_witness:
  "\<exists>blob rp h'. recover_target_atomically bpf_prims sample_sig sample_request (sample_recovery_host blob) = (Ok rp, h') \<and>
     contents (disk_of h') (boot_file ''os.efi'') = Some [1, 2, 3]"
proof -
  let ?pol = "\<lparr>public_key_sec1 = 2 # replicate 32 0x11, expected_key_id = replicate 16 7, minimum_release = 9\<rparr>"
  obtain blob v where v: "validate_signed_boot_image_v2 bpf_prims sample_sig [1, 2, 3] blob ?pol = Ok v"
    using signed_image_validates [OF kernel_hash.hash_contract_axioms sample_sig_contract sample_key,
        of "[1, 2, 3]" "replicate 16 7" 9 9] by (auto simp: boot_limits Let_def)
  then have ne: "blob \<noteq> []" by (auto simp: validate_signed_boot_image_v2_def parse_and_verify_boot_sidecar_v2_def v2_layout)
  let ?h = "sample_recovery_host blob" let ?c = "contents (disk_of ?h)"
  have a: "authorized_pair bpf_prims sample_sig sample_request ?c [1, 2, 3] blob v"
    using v ne by (simp add: authorized_pair_def sample_request_def sample_recovery_host_def boot_file_path)
  have r: "replaceable ?c (rr_target sample_request)" "replaceable ?c (rr_target_sidecar sample_request)"
    by (auto simp: replaceable_def sample_request_def sample_recovery_host_def boot_file_path path_is_empty_def is_temporary_def
        temporary_boot_file temporary_boot_file [symmetric])
  have f: "fault_free ?h" "rivals ?h = []" by (simp_all add: fault_free_def sample_recovery_host_def)
  have d: "rr_target sample_request \<noteq> rr_target_sidecar sample_request" by (simp add: sample_request_def boot_file_path)
  obtain s h' where run: "recover_target_atomically bpf_prims sample_sig sample_request ?h = (s, h')" by force
  from recovery_atomic [OF f(2) d sample_not_temporary run] a r f
  obtain rp img sc where "s = Ok rp" "contents (disk_of h') = ?c(rr_target_sidecar sample_request \<mapsto> sc, rr_target sample_request \<mapsto> img)"
    "?c (rr_recovery_image sample_request) = Some img"
    unfolding Let_def by (auto simp: authorized_pair_def split: if_split_asm)
  then have "contents (disk_of h') (boot_file ''os.efi'') = Some [1, 2, 3]"
    by (simp add: sample_request_def sample_recovery_host_def boot_file_path)
  then show ?thesis using run \<open>s = Ok rp\<close> by blast
qed

end
