(* ===== verification/Cli_Verify.thy ===== *)
theory Cli_Verify
  imports Cli_Audit Cli_Recovery
begin

text \<open>
  The verification commands (\<^verbatim>\<open>dfim_cli_provisioner/src/verify.rs\<close>), with the helpers of
  \<^verbatim>\<open>main.rs\<close> that they call: an image is checked against its state database, the result is put into the audit
  sink and on standard output, and becomes the exit status.
\<close>

section \<open>Shared helpers\<close>

definition map_dfim_error :: "dfim_error \<Rightarrow> cli_error" where
  "map_dfim_error err = Core_error ''integrity pipeline error'' err"

definition run_integrity_gates :: "host_path \<Rightarrow> unit io" where
  "run_integrity_gates target = io_of map_dfim_error (assert_target_path (length (path_text target)))"

definition default_sidecar_path :: "host_path \<Rightarrow> host_path" where
  "default_sidecar_path target = path_push target ''.dfim''"

definition canonical_target_file :: "host_path \<Rightarrow> host_path io" where
  "canonical_target_file path h =
     (case canonical h path of
        None \<Rightarrow> (Err (Message ''cannot access target''), h)
      | Some p \<Rightarrow> if fs_is_file p h then (Ok p, h) else (Err (Message ''target is not a regular file''), h))"

definition read_non_empty_file :: "host_path \<Rightarrow> string \<Rightarrow> bytes io" where
  "read_non_empty_file path label =
     io_bind (fs_read path (Read_failed label)) (\<lambda>bs.
     if bs = [] then io_fail (Empty_file label) else io_return bs)"

section \<open>Verification\<close>

record verify_args =
  va_target :: host_path
  va_state :: "host_path option"
  va_format :: output_format

record verify_v2_args =
  v2_target :: host_path
  v2_state :: "host_path option"
  v2_policy :: trusted_manifest_policy
  v2_format :: output_format

record verify_report =
  vr_merkle_root :: bytes
  vr_block_count :: nat

definition compute_live_merkle_root :: "hash_prims \<Rightarrow> bytes \<Rightarrow> (cli_error, bytes) outcome" where
  "compute_live_merkle_root C img =
     and_then (map_err map_dfim_error (build_boot_sidecar C img)) (\<lambda>sidecar.
     and_then (map_err map_dfim_error (parse_boot_manifest sidecar)) (\<lambda>manifest.
     Ok (bm_merkle_root manifest)))"

definition check_image_against_state :: "hash_prims \<Rightarrow> bytes \<Rightarrow> bytes \<Rightarrow> (cli_error, verify_report) outcome" where
  "check_image_against_state C img state_raw =
     and_then (map_err (Core_error ''invalid or plaintext state database'') (parse_authenticated_state_db C state_raw)) (\<lambda>sidecar.
     and_then (map_err (Core_error ''corrupt sidecar metadata'') (parse_boot_manifest sidecar)) (\<lambda>baseline.
     and_then (compute_live_merkle_root C img) (\<lambda>live_root.
     and_then (map_err (Core_error ''sidecar replay or block-level tamper detected'') (validate_boot_image C img baseline))
       (\<lambda>validated.
     if \<not> constant_time_hash_eq C live_root (vb_merkle_root validated)
     then Err (Message ''integrity violation: live Merkle root differs from baseline (possible bit-flip)'')
     else Ok \<lparr>vr_merkle_root = vb_merkle_root validated,
             vr_block_count = div_ceil (length img) DFIM_BLOCK_SIZE\<rparr>))))"

definition verify_image_bytes_against_state :: "hash_prims \<Rightarrow> bytes \<Rightarrow> host_path \<Rightarrow> verify_report io" where
  "verify_image_bytes_against_state C img state_path =
     (if img = [] then io_fail (Message ''target image is empty'')
      else
        io_bind (io_of map_dfim_error (assert_image_bounds (length img))) (\<lambda>_.
        io_bind (read_non_empty_file state_path ''state database'') (\<lambda>state_raw.
        io_of id (check_image_against_state C img state_raw))))"

definition verify_target :: "hash_prims \<Rightarrow> verify_args \<Rightarrow> verify_report io" where
  "verify_target C args =
     io_bind (run_integrity_gates (va_target args)) (\<lambda>_.
     io_bind (canonical_target_file (va_target args)) (\<lambda>target.
     let state_path = (case va_state args of Some p \<Rightarrow> p | None \<Rightarrow> default_sidecar_path target) in
     io_bind (read_non_empty_file target ''target'') (\<lambda>img.
     verify_image_bytes_against_state C img state_path)))"

definition validate_v2_sidecar_envelope :: "bytes \<Rightarrow> (cli_error, bytes) outcome" where
  "validate_v2_sidecar_envelope state_raw =
     (if state_raw = [] then Err (Message ''state database is empty'')
      else if starts_with state_raw (ascii ''STATE_'') \<or> starts_with state_raw (ascii ''STATE_HASH'')
      then Err (Message ''plaintext state injection rejected'')
      else if length state_raw = 16 then Err (Message ''legacy license blob rejected'')
      else Ok state_raw)"

definition verify_v2_image_bytes ::
  "hash_prims \<Rightarrow> sig_prims \<Rightarrow> bytes \<Rightarrow> bytes \<Rightarrow> trusted_manifest_policy \<Rightarrow> (cli_error, verify_report) outcome" where
  "verify_v2_image_bytes C S img sidecar policy =
     (if img = [] then Err (Message ''target image is empty'')
      else
        and_then (map_err map_dfim_error (assert_image_bounds (length img))) (\<lambda>_.
        and_then (map_err (Core_error ''v2 trust validation failed'') (validate_signed_boot_image_v2 C S img sidecar policy))
          (\<lambda>validated.
        Ok \<lparr>vr_merkle_root = vb_merkle_root (vs_boot validated),
            vr_block_count = unat (vb_blocks_verified (vs_boot validated))\<rparr>)))"

definition verify_v2_target :: "hash_prims \<Rightarrow> sig_prims \<Rightarrow> verify_v2_args \<Rightarrow> verify_report io" where
  "verify_v2_target C S args =
     io_bind (run_integrity_gates (v2_target args)) (\<lambda>_.
     io_bind (canonical_target_file (v2_target args)) (\<lambda>target.
     let state_path = (case v2_state args of Some p \<Rightarrow> p | None \<Rightarrow> default_sidecar_path target) in
     io_bind (read_non_empty_file target ''target'') (\<lambda>img.
     io_bind (read_non_empty_file state_path ''state database'') (\<lambda>state_raw.
     io_bind (io_of id (validate_v2_sidecar_envelope state_raw)) (\<lambda>sidecar.
     io_of id (verify_v2_image_bytes C S img sidecar (v2_policy args)))))))"

section \<open>Reports and exit status\<close>

definition write_verify_json ::
  "hash_prims \<Rightarrow> string \<Rightarrow> host_path \<Rightarrow> output_format \<Rightarrow> string \<Rightarrow> verify_report option \<Rightarrow> unit io" where
  "write_verify_json C command target format outcome report =
     (if format = Text_output then io_return ()
      else
        let (blocks, merkle_root) = (case report of
              Some report \<Rightarrow> (Some (vr_block_count report), Some (vr_merkle_root report)) | None \<Rightarrow> (None, None))
        in write_stdout \<lparr>cj_command = command, cj_outcome = outcome, cj_asset_id = cli_asset_id C target,
             cj_merkle_root = merkle_root, cj_release_counter = None, cj_blocks = blocks, cj_bytes = None,
             cj_dry_run = False\<rparr>)"

definition emit_verify_event ::
  "hash_prims \<Rightarrow> host_path \<Rightarrow> cli_event_type \<Rightarrow> cli_outcome \<Rightarrow> bytes option \<Rightarrow> unit io" where
  "emit_verify_event C target event_type outcome root h =
     cli_emit_configured (telemetry_security C h event_type outcome target None root) h"

text \<open>The two functions that end the process differ in the command they report.\<close>

definition report_and_exit ::
  "hash_prims \<Rightarrow> string \<Rightarrow> cli_event_type \<Rightarrow> host_path \<Rightarrow> output_format \<Rightarrow> verify_report io \<Rightarrow> host \<Rightarrow> int \<times> host" where
  "report_and_exit C command event_type target format run h =
     (case run h of
        (Ok report, h1) \<Rightarrow>
          (case emit_verify_event C target event_type Success (Some (vr_merkle_root report)) h1 of
             (Ok _, h2) \<Rightarrow>
               (case write_verify_json C command target format ''success'' (Some report) h2 of
                  (Ok _, h3) \<Rightarrow> (0, h3) | (_, h3) \<Rightarrow> (1, h3))
           | (_, h2) \<Rightarrow> (1, h2))
      | (_, h1) \<Rightarrow>
          (case emit_verify_event C target event_type Failure None h1 of
             (_, h2) \<Rightarrow> (case write_verify_json C command target format ''failure'' None h2 of (_, h3) \<Rightarrow> (1, h3))))"

definition verify_or_exit :: "hash_prims \<Rightarrow> verify_args \<Rightarrow> host \<Rightarrow> int \<times> host" where
  "verify_or_exit C args h =
     report_and_exit C ''verify_v1'' VerifyV1 (va_target args) (va_format args) (verify_target C args) h"

definition verify_v2_or_exit :: "hash_prims \<Rightarrow> sig_prims \<Rightarrow> verify_v2_args \<Rightarrow> host \<Rightarrow> int \<times> host" where
  "verify_v2_or_exit C S args h =
     report_and_exit C ''verify_v2'' VerifyV2 (v2_target args) (v2_format args) (verify_v2_target C S args) h"

section \<open>Images and their state\<close>

lemma parsed_header_valid:
  assumes "parse_block_stream data = Ok m"
  shows "validate_boot_sidecar_header data = Ok ()"
proof -
  have "56 \<le> length data"
    using assms by (simp add: parse_block_stream_def HEADER_PREFIX_LEN_def split: if_split_asm)
  then show ?thesis
    using assms unfolding parse_block_stream_def validate_boot_sidecar_header_def outcome_simps
    by (auto simp: HEADER_PREFIX_LEN_def state_limits BLOCK_STREAM_MAGIC_def BOOT_SIDECAR_MAGIC_def
        BLOCK_STREAM_VERSION_def BOOT_SIDECAR_VERSION_def)
qed

lemma parse_state_bare:
  assumes "hash_contract C" "parse_boot_manifest blob = Ok m"
  shows "parse_authenticated_state_db C blob = Ok blob"
  using assms(2) parse_state_cases [OF assms(1), of blob blob] parsed_header_valid by (auto simp: parse_boot_manifest_eq)

lemma live_root:
  assumes "hash_contract C" "0 < length img" "length img \<le> 262144"
  shows "compute_live_merkle_root C img = Ok (tree_root (merkle_spec C (image_blocks img)))"
proof -
  obtain blob where "build_boot_sidecar C img = Ok blob" "parse_boot_manifest blob = Ok (to_boot_manifest (sidecar_manifest C img))"
    using built_sidecar_parses [OF assms(1,2)] assms(3) by (auto simp: boot_limits)
  then show ?thesis
    by (simp add: compute_live_merkle_root_def to_boot_manifest_def sidecar_manifest_def Let_def)
qed

lemma check_provisioned:
  assumes C: "hash_contract C" and img: "0 < length img" "length img \<le> 262144" and b: "build_boot_sidecar C img = Ok blob"
  shows "check_image_against_state C img blob = Ok \<lparr>vr_merkle_root = tree_root (merkle_spec C (image_blocks img)),
    vr_block_count = div_ceil (length img) 4096\<rparr>"
proof -
  have p: "parse_boot_manifest blob = Ok (to_boot_manifest (sidecar_manifest C img))"
    using built_sidecar_parses [OF C img(1)] img(2) b by (auto simp: boot_limits)
  have "(to_boot_manifest m)\<lparr>bm_fec_backup := fec_backup m\<rparr> = to_boot_manifest m" for m
    by (simp add: to_boot_manifest_def)
  then have v: "validate_boot_image C img (to_boot_manifest (sidecar_manifest C img)) =
     Ok \<lparr>vb_payload = img, vb_merkle_root = tree_root (merkle_spec C (image_blocks img)),
         vb_fec_corrected = False, vb_blocks_verified = of_nat (div_ceil (length img) 4096)\<rparr>"
    using provisioned_image_validates [OF C img received_refl] by simp
  have "length (tree_root (merkle_spec C (image_blocks img))) = 32"
    using sidecar_manifest_valid [OF C img] by (simp add: valid_manifest_def sidecar_manifest_def Let_def)
  then show ?thesis
    using parse_state_bare [OF C p] p v live_root [OF C img] constant_time_hash_eq_iff [OF C]
    by (simp add: check_image_against_state_def DFIM_BLOCK_SIZE_def)
qed

lemma check_sound:
  assumes C: "hash_contract C" and img: "0 < length img" "length img \<le> 262144" and b: "build_boot_sidecar C img = Ok blob"
    and r: "check_image_against_state C img' blob = Ok rp"
  shows "case image_collision C img img' (proofs (sidecar_manifest C img)) of
    Some (a, b) \<Rightarrow> a \<noteq> b \<and> sha256 C a = sha256 C b | None \<Rightarrow> pad_image img' = pad_image img"
proof -
  have p: "parse_boot_manifest blob = Ok (to_boot_manifest (sidecar_manifest C img))"
    using built_sidecar_parses [OF C img(1)] img(2) b by (auto simp: boot_limits)
  obtain v where "validate_boot_image C img' (to_boot_manifest (sidecar_manifest C img)) = Ok v"
    using r p parse_state_bare [OF C p] by (auto simp: check_image_against_state_def split: if_split_asm)
  then show ?thesis by (rule provisioned_manifest_sound [OF C img])
qed

lemma clean_gates:
  assumes "0 < length (path_text p)" "length (path_text p) \<le> 2 ^ 32 - 1"
  shows "run_integrity_gates p h = (Ok (), h)"
  using assms by (simp add: run_integrity_gates_def io_of_def assert_target_path_def)

section \<open>Acknowledged reports\<close>

lemma io_op_Ok:
  assumes "io_op eff part e h = (Ok a, h')"
  shows "\<exists>d. eff (disk_of h) = Some (a, d) \<and> disk_of h' = d \<and> stdout h' = stdout h"
  using assms by (auto simp: io_op_def Let_def split: if_split_asm option.split_asm io_fault.split_asm)

definition sink_text :: "disk \<Rightarrow> host_path \<Rightarrow> bytes" where
  "sink_text d p = (case contents d p of None \<Rightarrow> [] | Some old \<Rightarrow> old)"

lemma append_event_Ok:
  assumes "cli_append_event p e h = (Ok (), h')"
  shows "contents (disk_of h') = (contents (disk_of h))(p \<mapsto> sink_text (disk_of h) p @ ascii (telemetry_to_json_line e))"
    and "stdout h' = stdout h"
proof -
  obtain h1 h2 where a: "fs_open_append p (Message ''cannot open telemetry sink'') h = (Ok (), h1)"
    "fs_write_all p (ascii (telemetry_to_json_line e)) (Message ''cannot append telemetry event'') h1 = (Ok (), h2)"
    "fs_sync (Message ''cannot synchronize telemetry sink'') h2 = (Ok (), h')"
    using assms by (auto simp: cli_append_event_def io_bind_eq_Ok)
  have "contents (disk_of h1) = (contents (disk_of h))(p \<mapsto> sink_text (disk_of h) p)" "stdout h1 = stdout h"
    using io_op_Ok [OF a(1) [unfolded fs_ops]] by (auto simp: sink_text_def split: option.split_asm)
  moreover have "contents (disk_of h2) = (contents (disk_of h1))(p \<mapsto> sink_text (disk_of h1) p @ ascii (telemetry_to_json_line e))"
    "stdout h2 = stdout h1"
    using io_op_Ok [OF a(2) [unfolded fs_ops]] by (auto simp: sink_text_def dest!: sym [of "set_file _ _ _"])
  moreover have "disk_of h' = disk_of h2" "stdout h' = stdout h2" using io_op_Ok [OF a(3) [unfolded fs_ops]] by auto
  ultimately show "contents (disk_of h') = (contents (disk_of h))(p \<mapsto> sink_text (disk_of h) p @ ascii (telemetry_to_json_line e))"
    and "stdout h' = stdout h" by (auto simp: sink_text_def)
qed

lemma emit_Ok:
  assumes "cli_emit_configured e h = (Ok (), h')"
  shows "contents (disk_of h') = (case telemetry_path h of None \<Rightarrow> contents (disk_of h)
      | Some p \<Rightarrow> (contents (disk_of h))(p \<mapsto> sink_text (disk_of h) p @ ascii (telemetry_to_json_line e)))"
    and "stdout h' = stdout h"
  using assms append_event_Ok by (auto simp: cli_emit_configured_def split: option.split_asm)

lemma write_stdout_Ok:
  assumes "write_stdout r h = (Ok (), h')"
  shows "contents (disk_of h') = contents (disk_of h)" and "stdout h' = stdout h @ command_json_line r"
  using assms by (auto simp: write_stdout_def stdout_write_def io_bind_eq_Ok dest!: io_op_Ok)

section \<open>Properties\<close>



end
