(* ===== verification/Raw_Stress.thy ===== *)
theory Raw_Stress
  imports Cli_Verify
begin

text \<open>
  The harness for raw block devices (\<^verbatim>\<open>dfim_cli_provisioner/src/raw_stress.rs\<close>) and direct input and output
  (\<^verbatim>\<open>platform/mod.rs\<close>, \<^verbatim>\<open>unix.rs\<close>, \<^verbatim>\<open>windows.rs\<close>). A device is a file of the host whose size does not change: a
  write beyond its end stores what fits and fails. A read that returns less than it could is a fault of the script. What the
  code takes from its surroundings is the record \<open>stress_env\<close>: the target it is built for, what fresh memory holds
  and the times it measures.
\<close>

datatype platform = Unix | Windows | Other_target

record stress_env =
  se_platform :: platform
  se_heap :: "nat \<Rightarrow> u8"
  se_lap_ns :: "nat \<Rightarrow> u64"
  se_elapsed_ms :: nat
  se_flip_ns :: u64

record raw_stress_args =
  rs_device :: host_path
  rs_golden :: host_path
  rs_state :: "host_path option"
  rs_cycles :: nat
  rs_inject_sector :: "u64 option"
  rs_jsonl_out :: host_path

section \<open>Operations on an open device\<close>

definition fs_read_at :: "host_path \<Rightarrow> nat \<Rightarrow> nat \<Rightarrow> cli_error \<Rightarrow> bytes io" where
  "fs_read_at p off n e h =
     io_op (\<lambda>d. map_option (\<lambda>bs. (take n (drop off bs), d)) (contents d p)) no_part e (rival_turn h)"

definition overwrite :: "bytes \<Rightarrow> nat \<Rightarrow> bytes \<Rightarrow> bytes" where
  "overwrite old off bs = put old off (take (length old - off) bs)"

definition fs_write_at :: "host_path \<Rightarrow> nat \<Rightarrow> bytes \<Rightarrow> cli_error \<Rightarrow> unit io" where
  "fs_write_at p off bs e =
     io_bind (io_op
       (\<lambda>d. map_option (\<lambda>old. (off + length bs \<le> length old, set_file p (Some (overwrite old off bs)) d)) (contents d p))
       (\<lambda>n d. case contents d p of None \<Rightarrow> d | Some old \<Rightarrow> set_file p (Some (overwrite old off (take n bs))) d) e)
     (\<lambda>fits. if fits then io_return () else io_fail e)"

section \<open>Direct input and output\<close>

definition DIRECT_IO_ALIGN :: nat where "DIRECT_IO_ALIGN = 4096"

definition block_byte_offset :: "u64 \<Rightarrow> nat \<Rightarrow> u64" where
  "block_byte_offset block_index bsize = of_nat (min (unat block_index * bsize) (2 ^ 64 - 1))"

definition align_up :: "nat \<Rightarrow> nat \<Rightarrow> nat" where
  "align_up value align = div_ceil value align * align"

definition open_direct :: "host_path \<Rightarrow> bool \<Rightarrow> unit io" where
  "open_direct path for_writing = fs_open path (Message ''failed to open block device with O_DIRECT|O_SYNC'')"

text \<open>\<^verbatim>\<open>Layout::from_size_align\<close> refuses sizes that exceed \<^verbatim>\<open>isize::MAX\<close> when rounded up to the alignment.\<close>

definition aligned_buffer_new :: "stress_env \<Rightarrow> nat \<Rightarrow> nat \<Rightarrow> bytes io" where
  "aligned_buffer_new env len align =
     (if 2 ^ 63 - 1 < align_up len align then io_fail (Message ''invalid aligned buffer layout'')
      else io_op (\<lambda>d. Some (map (se_heap env) [0..<len], d)) no_part (Message ''aligned buffer allocation failed''))"

definition read_block_device_direct :: "stress_env \<Rightarrow> host_path \<Rightarrow> nat \<Rightarrow> bytes io" where
  "read_block_device_direct env path byte_len =
     (if byte_len = 0 then io_fail (Message ''read length must be non-zero'')
      else
        let io_len = align_up byte_len DIRECT_IO_ALIGN in
        io_bind (open_direct path False) (\<lambda>_.
        io_bind (aligned_buffer_new env io_len DIRECT_IO_ALIGN) (\<lambda>buf.
        io_bind (fs_read_at path 0 io_len (Message ''O_DIRECT read failed'')) (\<lambda>got.
        if length got < byte_len then io_fail (Message ''short read'')
        else io_return (take byte_len (put buf 0 got))))))"

definition write_block_device_direct :: "stress_env \<Rightarrow> host_path \<Rightarrow> bytes \<Rightarrow> unit io" where
  "write_block_device_direct env path payload =
     (if payload = [] then io_fail (Message ''write payload must be non-empty'')
      else
        let io_len = align_up (length payload) DIRECT_IO_ALIGN in
        io_bind (open_direct path True) (\<lambda>_.
        io_bind (aligned_buffer_new env io_len DIRECT_IO_ALIGN) (\<lambda>buf.
        io_bind (fs_write_at path 0 (put buf 0 payload) (Message ''O_DIRECT write failed'')) (\<lambda>_.
        fs_sync (Message ''O_SYNC flush failed'')))))"

text \<open>\<^verbatim>\<open>seek\<close> refuses offsets that a signed 64-bit number does not hold.\<close>

definition flip_bit_at_offset_direct :: "stress_env \<Rightarrow> host_path \<Rightarrow> u64 \<Rightarrow> unit io" where
  "flip_bit_at_offset_direct env path byte_offset =
     (let sector_start = unat byte_offset div DIRECT_IO_ALIGN * DIRECT_IO_ALIGN;
          in_sector = unat byte_offset - sector_start in
      io_bind (open_direct path True) (\<lambda>_.
      io_bind (aligned_buffer_new env DIRECT_IO_ALIGN DIRECT_IO_ALIGN) (\<lambda>buf.
      if 2 ^ 63 \<le> sector_start then io_fail (Message ''seek failed'')
      else
        io_bind (fs_read_at path sector_start DIRECT_IO_ALIGN (Message ''sector read failed'')) (\<lambda>got.
        if length got < DIRECT_IO_ALIGN then io_fail (Message ''sector read failed'')
        else
          let buf = put buf 0 got;
              buf = buf[in_sector := buf ! in_sector XOR 0x01] in
          io_bind (fs_write_at path sector_start buf (Message ''sector write failed'')) (\<lambda>_.
          fs_sync (Message ''O_SYNC flush failed''))))))"

text \<open>On Windows there are only stubs, and on other targets nothing.\<close>

definition unsupported :: "platform \<Rightarrow> 'a io" where
  "unsupported target = io_fail (Message (if target = Windows
     then ''Windows raw block bypass requires FILE_FLAG_NO_BUFFERING and FILE_FLAG_WRITE_THROUGH''
     else ''raw block device I/O is unsupported on this target''))"

definition read_block_device :: "stress_env \<Rightarrow> host_path \<Rightarrow> nat \<Rightarrow> bytes io" where
  "read_block_device env path byte_len =
     (if se_platform env = Unix then read_block_device_direct env path byte_len else unsupported (se_platform env))"

definition write_block_device :: "stress_env \<Rightarrow> host_path \<Rightarrow> bytes \<Rightarrow> unit io" where
  "write_block_device env path payload =
     (if se_platform env = Unix then write_block_device_direct env path payload else unsupported (se_platform env))"

definition flip_bit_at_offset :: "stress_env \<Rightarrow> host_path \<Rightarrow> u64 \<Rightarrow> unit io" where
  "flip_bit_at_offset env path byte_offset =
     (if se_platform env = Unix then flip_bit_at_offset_direct env path byte_offset else unsupported (se_platform env))"

section \<open>The harness\<close>

definition append_jsonl :: "host_path \<Rightarrow> string \<Rightarrow> unit io" where
  "append_jsonl path line =
     io_bind (case path_parent path of None \<Rightarrow> io_return ()
              | Some parent \<Rightarrow> if path_is_empty parent then io_return ()
                  else fs_create_dir_all parent (Message ''failed to create jsonl directory'')) (\<lambda>_.
     io_bind (fs_open_append path (Message ''failed to open jsonl'')) (\<lambda>_.
     fs_write_all path (ascii (line @ [CHR 0x0A])) (Message ''failed to write jsonl'')))"

text \<open>The sum of the times is a checked addition of \<^verbatim>\<open>u64\<close>.\<close>

definition json_line ::
  "string \<Rightarrow> string \<Rightarrow> raw_stress_args \<Rightarrow> nat \<Rightarrow> nat \<Rightarrow> u64 list \<Rightarrow> nat \<Rightarrow> (u64 \<times> u64 \<times> bool) option \<Rightarrow> (cli_error, string) outcome" where
  "json_line phase status args image_len cycles timings_ns elapsed_ms fault =
     (let ns = map unat timings_ns;
          min_ns = (case ns of [] \<Rightarrow> 0 | t # ts \<Rightarrow> foldl min t ts);
          max_ns = (case ns of [] \<Rightarrow> 0 | t # ts \<Rightarrow> foldl max t ts);
          fault_json = (case fault of None \<Rightarrow> []
            | Some (sector, offset, rejected) \<Rightarrow> '',\"inject_sector\":'' @ decimal (unat sector) @ '',\"inject_byte_offset\":''
                @ decimal (unat offset) @ '',\"fail_closed\":'' @ (if rejected then ''true'' else ''false''))
      in if 2 ^ 64 \<le> sum_list ns then Panic
         else Ok (''{\"phase\":\"'' @ phase @ ''\",\"status\":\"'' @ status @ ''\",\"device\":\"'' @ path_text (rs_device args)
           @ ''\",\"golden\":\"'' @ path_text (rs_golden args) @ ''\",\"image_bytes\":'' @ decimal image_len @ '',\"cycles\":''
           @ decimal cycles @ '',\"timing_ns\":{\"min\":'' @ decimal min_ns @ '',\"max\":'' @ decimal max_ns @ '',\"avg\":''
           @ decimal (if ns = [] then 0 else sum_list ns div length ns) @ ''},\"elapsed_ms\":'' @ decimal elapsed_ms
           @ fault_json @ ''}''))"

primrec stress_cycles ::
  "hash_prims \<Rightarrow> stress_env \<Rightarrow> host_path \<Rightarrow> nat \<Rightarrow> host_path \<Rightarrow> nat list \<Rightarrow> u64 list \<Rightarrow> u64 list io" where
  "stress_cycles C env device image_len state_path [] timings = io_return timings"
| "stress_cycles C env device image_len state_path (cycle # cycles) timings =
     io_bind (read_block_device env device image_len) (\<lambda>live.
     io_bind (verify_image_bytes_against_state C (take image_len live) state_path) (\<lambda>_.
     stress_cycles C env device image_len state_path cycles (timings @ [se_lap_ns env cycle])))"

definition ensure_baseline :: "hash_prims \<Rightarrow> bytes \<Rightarrow> host_path \<Rightarrow> unit io" where
  "ensure_baseline C golden state_path h =
     (if fs_is_file state_path h then (Ok (), h)
      else
        io_bind (io_of map_dfim_error (build_boot_sidecar C golden)) (\<lambda>sidecar.
        io_bind (case path_parent state_path of None \<Rightarrow> io_return ()
                 | Some parent \<Rightarrow> if path_is_empty parent then io_return ()
                     else fs_create_dir_all parent (Message ''failed to create sidecar directory'')) (\<lambda>_.
        fs_write state_path sidecar (Message ''failed to write baseline sidecar''))) h)"

text \<open>The fault: the result of the verification is inspected and not passed on.\<close>

definition inject_fault :: "hash_prims \<Rightarrow> stress_env \<Rightarrow> raw_stress_args \<Rightarrow> nat \<Rightarrow> host_path \<Rightarrow> u64 \<Rightarrow> unit io" where
  "inject_fault C env args image_len state_path sector =
     (let flip_offset = block_byte_offset sector DFIM_BLOCK_SIZE in
      io_bind (flip_bit_at_offset env (rs_device args) flip_offset) (\<lambda>_.
      io_bind (read_block_device env (rs_device args) image_len) (\<lambda>post_read.
      io_bind (io_ok (verify_image_bytes_against_state C (take image_len post_read) state_path)) (\<lambda>fault_result.
      let fail_closed = fault_result = None in
      io_bind (io_of id (json_line ''RAW-FAULT-INJECT'' (if fail_closed then ''PASS'' else ''FAIL'') args image_len 1
         [se_flip_ns env] (unat (se_flip_ns env) div 1000000) (Some (sector, flip_offset, fail_closed)))) (\<lambda>line.
      io_bind (append_jsonl (rs_jsonl_out args) line) (\<lambda>_.
      if \<not> fail_closed then io_fail (Message ''fail-closed violation'') else io_return ()))))))"

definition run_raw_stress :: "hash_prims \<Rightarrow> stress_env \<Rightarrow> raw_stress_args \<Rightarrow> unit io" where
  "run_raw_stress C env args =
     io_bind (run_integrity_gates (rs_device args)) (\<lambda>_.
     io_bind (run_integrity_gates (rs_golden args)) (\<lambda>_.
     io_bind (fs_read (rs_golden args) (Read_failed ''golden image'')) (\<lambda>golden.
     if golden = [] then io_fail (Empty_file ''golden image'')
     else
       let state_path = (case rs_state args of Some p \<Rightarrow> p | None \<Rightarrow> default_sidecar_path (rs_golden args));
           image_len = length golden in
       io_bind (ensure_baseline C golden state_path) (\<lambda>_.
       io_bind (write_block_device env (rs_device args) (take image_len golden)) (\<lambda>_.
       io_bind (stress_cycles C env (rs_device args) image_len state_path [0..<rs_cycles args] []) (\<lambda>cycle_timings_ns.
       io_bind (io_of id (json_line ''RAW-CYCLES'' ''PASS'' args image_len (rs_cycles args) cycle_timings_ns
          (se_elapsed_ms env) None)) (\<lambda>line.
       io_bind (append_jsonl (rs_jsonl_out args) line) (\<lambda>_.
       case rs_inject_sector args of None \<Rightarrow> io_return ()
       | Some sector \<Rightarrow> inject_fault C env args image_len state_path sector))))))))"

section \<open>The operations on a host without faults\<close>

lemma free_disk: "fault_free (h\<lparr>disk_of := d\<rparr>) \<longleftrightarrow> fault_free h"
  by (simp add: fault_free_def)

lemma free_rival: "fault_free h \<Longrightarrow> rival_turn h = h"
  by (simp add: fault_free_def rival_turn_def)

lemma same_disk: "h\<lparr>disk_of := disk_of h\<rparr> = h"
  by simp

lemmas clean_io = io_bind_def io_return_def io_fail_def io_of_def clean_op_free free_disk free_rival no_part_def

lemma clean_read_at:
  assumes "fault_free h" and "contents (disk_of h) p = Some bs"
  shows "fs_read_at p off n e h = (Ok (take n (drop off bs)), h)"
  using assms by (simp add: fs_read_at_def clean_io)

lemma clean_write_at:
  assumes "fault_free h" and "contents (disk_of h) p = Some old" and "off + length bs \<le> length old"
  shows "fs_write_at p off bs e h = (Ok (), h\<lparr>disk_of := set_file p (Some (put old off bs)) (disk_of h)\<rparr>)"
  using assms by (simp add: fs_write_at_def overwrite_def clean_io)

lemma clean_buffer:
  assumes "fault_free h" and "align_up len align \<le> 2 ^ 63 - 1"
  shows "aligned_buffer_new env len align h = (Ok (map (se_heap env) [0..<len]), h)"
  using assms by (simp add: aligned_buffer_new_def clean_io)

lemma align_up_bounds: "n \<le> align_up n 4096" "align_up n 4096 < n + 4096" "align_up (align_up n 4096) 4096 = align_up n 4096"
proof -
  show "n \<le> align_up n 4096" "align_up n 4096 < n + 4096"
    unfolding align_up_def by (rule div_ceil_bounds; simp)+
  have "div_ceil (k * 4096) 4096 = k" for k by (simp add: div_ceil_def)
  then show "align_up (align_up n 4096) 4096 = align_up n 4096" by (simp add: align_up_def)
qed

lemma clean_buffer_4096:
  assumes "fault_free h" and "n \<le> 262144"
  shows "aligned_buffer_new env (align_up n 4096) 4096 h = (Ok (map (se_heap env) [0..<align_up n 4096]), h)"
  using assms align_up_bounds [of n] by (intro clean_buffer) simp_all

lemma clean_read_block:
  assumes "fault_free h" and "se_platform env = Unix" and "contents (disk_of h) p = Some bs"
    and "0 < n" "n \<le> 262144" "n \<le> length bs"
  shows "read_block_device env p n h = (Ok (take n bs), h)"
  using assms align_up_bounds(1) [of n] clean_buffer_4096 [of h n env] clean_read_at [OF assms(1,3)]
  by (simp add: read_block_device_def read_block_device_direct_def DIRECT_IO_ALIGN_def open_direct_def Let_def fs_open_def
      clean_io put_def min_def)

definition device_after_write :: "stress_env \<Rightarrow> bytes \<Rightarrow> bytes \<Rightarrow> bytes" where
  "device_after_write env payload old =
     payload @ map (se_heap env) [length payload..<align_up (length payload) 4096] @ drop (align_up (length payload) 4096) old"

lemma clean_write_block:
  assumes "fault_free h" and "se_platform env = Unix" and "contents (disk_of h) p = Some old"
    and "payload \<noteq> []" "length payload \<le> 262144" "align_up (length payload) 4096 \<le> length old"
  shows "write_block_device env p payload h =
    (Ok (), h\<lparr>disk_of := set_file p (Some (device_after_write env payload old)) (disk_of h)\<rparr>)"
proof -
  let ?n = "align_up (length payload) 4096" and ?buf = "map (se_heap env) [0..<align_up (length payload) 4096]"
  have l: "length (put ?buf 0 payload) = ?n" using align_up_bounds(1) [of "length payload"] by (simp add: put_def)
  have "put old 0 (put ?buf 0 payload) = device_after_write env payload old"
    using align_up_bounds(1) [of "length payload"] by (simp add: put_def device_after_write_def drop_map)
  then show ?thesis
    using assms clean_buffer_4096 [of h "length payload" env] clean_write_at [OF assms(1,3), of 0 "put ?buf 0 payload"] l
    by (simp add: write_block_device_def write_block_device_direct_def DIRECT_IO_ALIGN_def open_direct_def Let_def
        fs_open_def fs_sync_def clean_io)
qed

definition flip_byte :: "bytes \<Rightarrow> nat \<Rightarrow> bytes" where
  "flip_byte bs o1 = bs[o1 := bs ! o1 XOR 1]"

lemma update_slice:
  assumes "s + n \<le> length xs" and "i < n"
  shows "put xs s ((take n (drop s xs))[i := v]) = xs[s + i := v]"
proof -
  have "xs[s + i := v] = (take s xs @ take n (drop s xs) @ drop (s + n) xs)[s + i := v]"
    by (metis add.commute append_take_drop_id drop_drop)
  also have "\<dots> = take s xs @ (take n (drop s xs))[i := v] @ drop (s + n) xs"
    using assms by (simp add: list_update_append)
  finally show ?thesis using assms by (simp add: put_def)
qed

lemma clean_flip:
  assumes "fault_free h" and "se_platform env = Unix" and "contents (disk_of h) p = Some old"
    and "unat pos div 4096 * 4096 + 4096 \<le> length old" "unat pos < 2 ^ 63"
  shows "flip_bit_at_offset env p pos h =
    (Ok (), h\<lparr>disk_of := set_file p (Some (flip_byte old (unat pos))) (disk_of h)\<rparr>)"
proof -
  define s where "s = unat pos div 4096 * 4096"
  define i where "i = unat pos - s"
  have i: "i < 4096" "s + i = unat pos" unfolding i_def s_def by (simp_all add: minus_div_mult_eq_mod)
  have s: "s < 2 ^ 63" using assms(5) i by linarith
  have b: "aligned_buffer_new env 4096 4096 h = (Ok (map (se_heap env) [0..<4096]), h)"
    by (rule clean_buffer [OF assms(1)]) (simp add: align_up_def div_ceil_def)
  let ?got = "take 4096 (drop s old)"
  have g: "length ?got = 4096" "?got ! i = old ! unat pos" using assms(4) i by (simp_all add: s_def)
  have p: "put (map (se_heap env) [0..<4096]) 0 ?got = ?got" using g(1) by (simp add: put_def)
  have "put old s (?got[i := old ! unat pos XOR 1]) = flip_byte old (unat pos)"
    using update_slice [of s 4096 old i] assms(4) i by (simp add: flip_byte_def s_def)
  then show ?thesis
    using assms s b g p i clean_read_at [OF assms(1,3), of s 4096]
      clean_write_at [OF assms(1,3), of s "?got[i := old ! unat pos XOR 1]"]
    by (simp add: flip_bit_at_offset_def flip_bit_at_offset_direct_def DIRECT_IO_ALIGN_def open_direct_def Let_def
        fs_open_def fs_sync_def clean_io flip: s_def i_def)
qed

lemma clean_jsonl:
  assumes "fault_free h"
  shows "append_jsonl p line h = (Ok (), h\<lparr>disk_of :=
    set_file p (Some (sink_text (disk_of h) p @ ascii (line @ [CHR 0x0A])))
      (case contents (disk_of h) p of None \<Rightarrow> set_file p (Some []) (disk_of h) | Some _ \<Rightarrow> disk_of h)\<rparr>)"
  using assms
  by (cases "path_parent p"; cases "contents (disk_of h) p")
    (auto simp: append_jsonl_def fs_ops clean_io sink_text_def)

lemma clean_verify_bytes:
  assumes "fault_free h" and "contents (disk_of h) st = Some blob" "blob \<noteq> []" and "0 < length img" "length img \<le> 262144"
  shows "verify_image_bytes_against_state C img st h = (check_image_against_state C img blob, h)"
proof -
  have "assert_image_bounds (length img) = Ok ()"
    using assms(4,5) by (simp add: assert_image_bounds_def validate_image_byte_len_def boot_limits not_less div_ceil_le_iff)
  moreover have "map_err id r = r" for r :: "(cli_error, 'z) outcome" by (cases r) simp_all
  ultimately show ?thesis
    using assms by (simp add: verify_image_bytes_against_state_def read_non_empty_file_def clean_fs_read clean_io)
qed

lemma clean_cycles:
  assumes "fault_free h" and "se_platform env = Unix" and "contents (disk_of h) p = Some dev"
    and "contents (disk_of h) st = Some blob" "blob \<noteq> []"
    and "0 < n" "n \<le> 262144" "n \<le> length dev" and "check_image_against_state C (take n dev) blob = Ok rp"
  shows "stress_cycles C env p n st cs ts h = (Ok (ts @ map (se_lap_ns env) cs), h)"
proof (induction cs arbitrary: ts)
  case (Cons c cs)
  then show ?case
    using clean_read_block [OF assms(1-3) assms(6-8)] clean_verify_bytes [OF assms(1,4,5), of "take n dev"] assms
    by (simp add: io_bind_def)
qed (simp add: io_return_def)

lemma built_blob_nonempty:
  assumes "hash_contract C" "0 < length img" "length img \<le> 262144" "build_boot_sidecar C img = Ok blob"
  shows "blob \<noteq> []"
proof -
  have "parse_boot_manifest blob = Ok (to_boot_manifest (sidecar_manifest C img))"
    using built_sidecar_parses [OF assms(1,2)] assms(3,4) by (auto simp: boot_limits)
  then have "validate_boot_sidecar_header blob = Ok ()" using parsed_header_valid by (auto simp: parse_boot_manifest_eq)
  then show ?thesis using validate_boot_sidecar_header_len by fastforce
qed

lemma clean_baseline:
  assumes "fault_free h" and "build_boot_sidecar C img = Ok blob"
    and "contents (disk_of h) st = None \<or> contents (disk_of h) st = Some blob"
  shows "\<exists>d. ensure_baseline C img st h = (Ok (), h\<lparr>disk_of := d\<rparr>) \<and> contents d = (contents (disk_of h))(st \<mapsto> blob)"
  using assms(3)
proof
  assume "contents (disk_of h) st = None"
  then have "ensure_baseline C img st h = (Ok (), h\<lparr>disk_of := set_file st (Some blob) (disk_of h)\<rparr>)"
    using assms(1,2) by (cases "path_parent st") (simp_all add: ensure_baseline_def fs_is_file_def fs_ops clean_io)
  then show ?thesis by auto
next
  assume s: "contents (disk_of h) st = Some blob"
  then have "ensure_baseline C img st h = (Ok (), h\<lparr>disk_of := disk_of h\<rparr>)" by (simp add: ensure_baseline_def fs_is_file_def)
  then show ?thesis using s by fastforce
qed

lemma json_line_Ok:
  "sum_list (map unat ts) < 2 ^ 64 \<Longrightarrow> \<exists>line. json_line phase status args n c ts ms fault = Ok line"
  by (simp add: json_line_def Let_def)

text \<open>Up to the fault: the device holds the image, the baseline is there and one line was appended to the report.\<close>

lemma clean_until_fault:
  assumes C: "hash_contract C" and h: "fault_free h" and u: "se_platform env = Unix"
    and g: "run_integrity_gates (rs_device args) h = (Ok (), h)" "run_integrity_gates (rs_golden args) h = (Ok (), h)"
    and img: "contents (disk_of h) (rs_golden args) = Some img" "0 < length img" "length img \<le> 262144"
    and dev: "contents (disk_of h) (rs_device args) = Some dev" "align_up (length img) 4096 \<le> length dev"
    and st: "st = (case rs_state args of Some p \<Rightarrow> p | None \<Rightarrow> default_sidecar_path (rs_golden args))"
      "build_boot_sidecar C img = Ok blob" "contents (disk_of h) st = None \<or> contents (disk_of h) st = Some blob"
    and distinct: "rs_device args \<noteq> st" "rs_jsonl_out args \<noteq> rs_device args" "rs_jsonl_out args \<noteq> st"
    and t: "sum_list (map (\<lambda>c. unat (se_lap_ns env c)) [0..<rs_cycles args]) < 2 ^ 64"
  shows "\<exists>d. run_raw_stress C env args h =
      (case rs_inject_sector args of None \<Rightarrow> (Ok (), h\<lparr>disk_of := d\<rparr>)
       | Some sector \<Rightarrow> inject_fault C env args (length img) st sector (h\<lparr>disk_of := d\<rparr>))
    \<and> contents d (rs_device args) = Some (device_after_write env img dev) \<and> contents d st = Some blob"
proof -
  obtain d1 where b: "ensure_baseline C img st h = (Ok (), h\<lparr>disk_of := d1\<rparr>)"
    and d1: "contents d1 = (contents (disk_of h))(st \<mapsto> blob)"
    using clean_baseline [OF h st(2,3)] by blast
  define d2 where "d2 = set_file (rs_device args) (Some (device_after_write env img dev)) d1"
  have w: "write_block_device env (rs_device args) img (h\<lparr>disk_of := d1\<rparr>) = (Ok (), h\<lparr>disk_of := d2\<rparr>)"
    using clean_write_block [of "h\<lparr>disk_of := d1\<rparr>" env "rs_device args" dev img] h u dev img distinct(1)
    by (simp add: free_disk d1 d2_def)
  have k: "stress_cycles C env (rs_device args) (length img) st cs [] (h\<lparr>disk_of := d2\<rparr>) =
      (Ok (map (se_lap_ns env) cs), h\<lparr>disk_of := d2\<rparr>)" for cs
    using clean_cycles [of "h\<lparr>disk_of := d2\<rparr>" env "rs_device args" "device_after_write env img dev" st blob "length img" C _ cs "[]"]
      check_provisioned [OF C img(2,3) st(2)] built_blob_nonempty [OF C img(2,3) st(2)] h u img d1 distinct(1)
    by (auto simp: free_disk d2_def device_after_write_def)
  obtain line where l: "json_line ''RAW-CYCLES'' ''PASS'' args (length img) (rs_cycles args)
      (map (se_lap_ns env) [0..<rs_cycles args]) (se_elapsed_ms env) None = Ok line"
    using json_line_Ok [of "map (se_lap_ns env) [0..<rs_cycles args]"] t by (fastforce simp: comp_def)
  obtain d3 where j: "append_jsonl (rs_jsonl_out args) line (h\<lparr>disk_of := d2\<rparr>) = (Ok (), h\<lparr>disk_of := d3\<rparr>)"
    and d3: "\<And>q. q \<noteq> rs_jsonl_out args \<Longrightarrow> contents d3 q = contents d2 q"
    using clean_jsonl [of "h\<lparr>disk_of := d2\<rparr>"] h by (force simp: free_disk split: option.splits)
  have "run_raw_stress C env args h =
      (case rs_inject_sector args of None \<Rightarrow> (Ok (), h\<lparr>disk_of := d3\<rparr>)
       | Some sector \<Rightarrow> inject_fault C env args (length img) st sector (h\<lparr>disk_of := d3\<rparr>))"
    using g img b w k l j by (cases "rs_inject_sector args")
      (simp_all add: run_raw_stress_def io_bind_def io_of_def io_return_def clean_fs_read [OF h] Let_def st(1) [symmetric])
  moreover have "contents d3 (rs_device args) = Some (device_after_write env img dev)" "contents d3 st = Some blob"
    using d3 distinct by (simp_all add: d2_def d1)
  ultimately show ?thesis by blast
qed

section \<open>The injected fault\<close>

lemma check_no_panic:
  assumes "hash_contract C" "0 < length img" "length img \<le> 262144"
  shows "check_image_against_state C img blob \<noteq> Panic"
  using assms live_root [OF assms] parse_state_no_panic [of C blob] parse_block_stream_no_panic
  by (auto simp: check_image_against_state_def outcome_simps validate_boot_image_no_panic parse_boot_manifest_eq)

lemma clean_inject:
  assumes C: "hash_contract C" and h: "fault_free h" and u: "se_platform env = Unix"
    and dev: "contents (disk_of h) (rs_device args) = Some dev" "n \<le> length dev" and n: "0 < n" "n \<le> 262144"
    and st: "contents (disk_of h) st = Some blob" "blob \<noteq> []" "rs_device args \<noteq> st" "rs_jsonl_out args \<noteq> rs_device args"
    and pos: "pos = unat (block_byte_offset sector 4096)" "pos div 4096 * 4096 + 4096 \<le> length dev" "pos < 2 ^ 63"
  shows "\<exists>d. inject_fault C env args n st sector h =
      (if is_ok (check_image_against_state C (take n (flip_byte dev pos)) blob)
       then Err (Message ''fail-closed violation'') else Ok (), h\<lparr>disk_of := d\<rparr>)
    \<and> contents d (rs_device args) = Some (flip_byte dev pos)"
proof -
  let ?o = "block_byte_offset sector 4096" and ?dev = "flip_byte dev pos"
  define d1 where "d1 = set_file (rs_device args) (Some ?dev) (disk_of h)"
  let ?h1 = "h\<lparr>disk_of := d1\<rparr>" and ?r = "check_image_against_state C (take n ?dev) blob"
  have h1: "fault_free ?h1" using h by (simp add: free_disk)
  have f: "flip_bit_at_offset env (rs_device args) ?o h = (Ok (), ?h1)"
    using clean_flip [OF h u dev(1), of ?o] pos by (simp add: d1_def)
  have l: "length ?dev = length dev" by (simp add: flip_byte_def)
  have r: "read_block_device env (rs_device args) n ?h1 = (Ok (take n ?dev), ?h1)"
    using clean_read_block [OF h1 u _ n] dev l by (simp add: d1_def)
  have v: "verify_image_bytes_against_state C (take n ?dev) st ?h1 = (?r, ?h1)"
    using clean_verify_bytes [OF h1, of st blob "take n ?dev" C] st n dev l by (simp add: d1_def)
  have np: "?r \<noteq> Panic" using check_no_panic [OF C, of "take n ?dev" blob] n dev l by simp
  have ok: "io_ok (verify_image_bytes_against_state C (take n ?dev) st) ?h1 =
      (Ok (if is_ok ?r then Some (the (case ?r of Ok a \<Rightarrow> Some a | _ \<Rightarrow> None)) else None), ?h1)"
    using np v by (cases ?r) (simp_all add: io_ok_def is_ok_iff)
  obtain line where j: "json_line ''RAW-FAULT-INJECT'' (if \<not> is_ok ?r then ''PASS'' else ''FAIL'') args n 1
      [se_flip_ns env] (unat (se_flip_ns env) div 1000000) (Some (sector, ?o, \<not> is_ok ?r)) = Ok line"
    using json_line_Ok [of "[se_flip_ns env]"] unsigned_less [of "se_flip_ns env"] by fastforce
  obtain d2 where a: "append_jsonl (rs_jsonl_out args) line ?h1 = (Ok (), h\<lparr>disk_of := d2\<rparr>)"
    and d2: "\<And>q. q \<noteq> rs_jsonl_out args \<Longrightarrow> contents d2 q = contents d1 q"
    using clean_jsonl [OF h1] by (force split: option.splits)
  have "inject_fault C env args n st sector h =
      (if is_ok ?r then Err (Message ''fail-closed violation'') else Ok (), h\<lparr>disk_of := d2\<rparr>)"
    using f r ok j a n l dev(2)
    by (simp add: inject_fault_def io_bind_def io_of_def io_return_def io_fail_def Let_def DFIM_BLOCK_SIZE_def split: if_split_asm)
  then show ?thesis using d2 st(4) by (auto simp: d1_def)
qed

lemma flip_outside:
  assumes "fault_free h" and "se_platform env = Unix" and "contents (disk_of h) p = Some old"
    and "length old < unat pos div 4096 * 4096 + 4096"
  shows "\<exists>e. flip_bit_at_offset env p pos h = (Err e, h)"
proof -
  have "aligned_buffer_new env 4096 4096 h = (Ok (map (se_heap env) [0..<4096]), h)"
    by (rule clean_buffer [OF assms(1)]) (simp add: align_up_def div_ceil_def)
  then show ?thesis
    using assms clean_read_at [OF assms(1,3), of "unat pos div 4096 * 4096" 4096]
    by (auto simp: flip_bit_at_offset_def flip_bit_at_offset_direct_def DIRECT_IO_ALIGN_def open_direct_def Let_def
        fs_open_def clean_io)
qed

lemma flip_changes: "pos < length bs \<Longrightarrow> flip_byte bs pos \<noteq> bs"
proof
  assume "pos < length bs" "flip_byte bs pos = bs"
  then have "bs ! pos XOR 1 = bs ! pos" by (metis flip_byte_def nth_list_update_eq)
  then have "bs ! pos XOR (bs ! pos XOR 1) = 0" by simp
  then show False by (simp flip: xor.assoc)
qed

lemma take_flip:
  "take (length img) (flip_byte (img @ rest) pos) = (if pos < length img then flip_byte img pos else img)"
  by (simp add: flip_byte_def take_update_swap nth_append list_update_beyond)

lemma flip_rejected:
  assumes "hash_contract C" "0 < length img" "length img \<le> 262144" "build_boot_sidecar C img = Ok blob" "pos < length img"
    and "is_ok (check_image_against_state C (flip_byte img pos) blob)"
  shows "case image_collision C img (flip_byte img pos) (proofs (sidecar_manifest C img)) of
    Some (a, b) \<Rightarrow> a \<noteq> b \<and> sha256 C a = sha256 C b | None \<Rightarrow> False"
proof -
  obtain rp where "check_image_against_state C (flip_byte img pos) blob = Ok rp" using assms(6) by (auto simp: is_ok_iff)
  note s = check_sound [OF assms(1-4) this]
  have "pad_image (flip_byte img pos) \<noteq> pad_image img"
    using flip_changes [OF assms(5)] by (simp add: pad_image_def flip_byte_def)
  then show ?thesis using s by (auto split: option.splits)
qed

lemma offset_value: "unat (block_byte_offset s 4096) = min (4096 * unat s) (2 ^ 64 - 1)"
proof -
  have "min (unat s * 4096) (2 ^ 64 - 1) < (2 :: nat) ^ 64" by simp
  then show ?thesis unfolding block_byte_offset_def by (subst unat_of_nat_u64) (simp_all add: mult.commute)
qed

definition injection_verdict :: "hash_prims \<Rightarrow> bytes \<Rightarrow> nat \<Rightarrow> (cli_error, unit) outcome \<Rightarrow> bool" where
  "injection_verdict C img pos r \<longleftrightarrow>
     (if length img \<le> pos then r = Err (Message ''fail-closed violation'')
      else r = Ok () \<or>
        (case image_collision C img (flip_byte img pos) (proofs (sidecar_manifest C img)) of
           Some (a, b) \<Rightarrow> a \<noteq> b \<and> sha256 C a = sha256 C b | None \<Rightarrow> False))"

lemma inject_cases:
  assumes C: "hash_contract C" and h: "fault_free h" and u: "se_platform env = Unix" and img: "0 < length img" "length img \<le> 262144"
    and dev: "contents (disk_of h) (rs_device args) = Some (img @ rest)" "length (img @ rest) < 2 ^ 63"
    and st: "contents (disk_of h) st = Some blob" "build_boot_sidecar C img = Ok blob" "rs_device args \<noteq> st"
      "rs_jsonl_out args \<noteq> rs_device args"
  shows "\<exists>r d. inject_fault C env args (length img) st sector h = (r, h\<lparr>disk_of := d\<rparr>) \<and>
    (let pos = 4096 * unat sector in
     if length (img @ rest) < pos + 4096 then \<exists>e. r = Err e
     else contents d (rs_device args) = Some (flip_byte (img @ rest) pos) \<and> injection_verdict C img pos r)"
proof (cases "length (img @ rest) < 4096 * unat sector + 4096")
  case True
  then have "length (img @ rest) < unat (block_byte_offset sector 4096) div 4096 * 4096 + 4096"
    using dev(2) by (auto simp: offset_value min_def)
  then obtain e where "flip_bit_at_offset env (rs_device args) (block_byte_offset sector 4096) h = (Err e, h)"
    using flip_outside [OF h u dev(1)] by blast
  then have "inject_fault C env args (length img) st sector h = (Err e, h\<lparr>disk_of := disk_of h\<rparr>)"
    by (simp add: inject_fault_def io_bind_def Let_def DFIM_BLOCK_SIZE_def)
  then show ?thesis using True by (intro exI [of _ "Err e"] exI [of _ "disk_of h"]) (simp add: Let_def)
next
  case False
  let ?pos = "4096 * unat sector"
  have p: "?pos = unat (block_byte_offset sector 4096)" "?pos div 4096 * 4096 + 4096 \<le> length (img @ rest)" "?pos < 2 ^ 63"
    using False dev(2) by (simp_all add: offset_value)
  let ?img' = "if ?pos < length img then flip_byte img ?pos else img"
  obtain d where i: "inject_fault C env args (length img) st sector h =
      (if is_ok (check_image_against_state C ?img' blob) then Err (Message ''fail-closed violation'') else Ok (), h\<lparr>disk_of := d\<rparr>)"
    and d: "contents d (rs_device args) = Some (flip_byte (img @ rest) ?pos)"
    using clean_inject [OF C h u dev(1) _ img st(1) built_blob_nonempty [OF C img st(2)] st(3,4) p] by (auto simp: take_flip)
  have "is_ok (check_image_against_state C img blob)" using check_provisioned [OF C img st(2)] by (simp add: is_ok_iff)
  then show ?thesis
    using i d False flip_rejected [OF C img st(2), of ?pos] by (auto simp: Let_def injection_verdict_def split: if_splits)
qed

section \<open>Properties\<close>

text \<open>
  C40. The verdict of the stress harness. On a Unix host without faults, with a golden image of 1 to 262144 bytes, a device
  that holds it in whole sectors, and a baseline that is missing or the image's own, the harness ends; without a fault to inject it
  succeeds and leaves the image on the device. With one, the bit at the start of that sector is flipped on the device, unless the
  device has no such sector, which is an error. A flip within the image makes the harness succeed, that is verification has rejected
  the device, or yields an explicit SHA-256 collision; a flip behind the image always makes it report a violation, although the
  image is intact.
\<close>

theorem raw_stress_verdict:
  assumes "hash_contract C" and "fault_free h" and "se_platform env = Unix"
    and "0 < length (path_text (rs_device args))" "length (path_text (rs_device args)) \<le> 2 ^ 32 - 1"
    and "0 < length (path_text (rs_golden args))" "length (path_text (rs_golden args)) \<le> 2 ^ 32 - 1"
    and "contents (disk_of h) (rs_golden args) = Some img" "0 < length img" "length img \<le> 262144"
    and "contents (disk_of h) (rs_device args) = Some dev" "align_up (length img) 4096 \<le> length dev" "length dev < 2 ^ 63"
    and "st = (case rs_state args of Some p \<Rightarrow> p | None \<Rightarrow> default_sidecar_path (rs_golden args))"
      "build_boot_sidecar C img = Ok blob" "contents (disk_of h) st \<in> {None, Some blob}"
    and "rs_device args \<noteq> st" "rs_jsonl_out args \<noteq> rs_device args" "rs_jsonl_out args \<noteq> st"
    and "sum_list (map (\<lambda>c. unat (se_lap_ns env c)) [0..<rs_cycles args]) < 2 ^ 64"
  shows "\<exists>r d. run_raw_stress C env args h = (r, h\<lparr>disk_of := d\<rparr>) \<and>
    (case rs_inject_sector args of
       None \<Rightarrow> r = Ok () \<and> contents d (rs_device args) = Some (device_after_write env img dev)
     | Some sector \<Rightarrow>
         let pos = 4096 * unat sector in
         if length dev < pos + 4096 then \<exists>e. r = Err e
         else contents d (rs_device args) = Some (flip_byte (device_after_write env img dev) pos) \<and> injection_verdict C img pos r)"
proof -
  note C = assms(1) and h = assms(2) and u = assms(3) and img = assms(8-10) and dev = assms(11-13)
  let ?rest = "map (se_heap env) [length img..<align_up (length img) 4096] @ drop (align_up (length img) 4096) dev"
  have w: "device_after_write env img dev = img @ ?rest" by (simp add: device_after_write_def)
  obtain d where run: "run_raw_stress C env args h =
      (case rs_inject_sector args of None \<Rightarrow> (Ok (), h\<lparr>disk_of := d\<rparr>)
       | Some sector \<Rightarrow> inject_fault C env args (length img) st sector (h\<lparr>disk_of := d\<rparr>))"
    and d: "contents d (rs_device args) = Some (img @ ?rest)" "contents d st = Some blob"
    using clean_until_fault [OF C h u clean_gates [OF assms(4,5)] clean_gates [OF assms(6,7)] img dev(1,2) assms(14,15)] assms(16-20)
    by (auto simp: w)
  have l: "length (img @ ?rest) = length dev" using dev(2) align_up_bounds(1) [of "length img"] by simp
  show ?thesis
  proof (cases "rs_inject_sector args")
    case None
    then show ?thesis using run d w by auto
  next
    case (Some sector)
    have "fault_free (h\<lparr>disk_of := d\<rparr>)" using h by (simp add: free_disk)
    note inject_cases [OF C this u img(2,3), where args = args and rest = ?rest and st = st and blob = blob and sector = sector]
    then show ?thesis using run Some d l w dev(3) assms(15,17,18) by (simp only: option.case) force
  qed
qed

definition stress_sample :: "u64 option \<Rightarrow> raw_stress_args" where
  "stress_sample sector = \<lparr>rs_device = boot_file ''vda'', rs_golden = boot_file ''gold'', rs_state = Some (boot_file ''gold.dfim''),
     rs_cycles = 2, rs_inject_sector = sector, rs_jsonl_out = boot_file ''out''\<rparr>"

definition stress_host :: host where
  "stress_host = \<lparr>disk_of = \<lparr>contents = [boot_file ''vda'' \<mapsto> replicate 8192 0, boot_file ''gold'' \<mapsto> [1, 2, 3]], modes = (\<lambda>_. 0)\<rparr>,
     script = [], rivals = [], alive = True, temp_sequence = 0, process_id = 1, canonical = Some, now_ms = 0,
     telemetry_path = None, stdout = []\<rparr>"

definition stress_unix :: stress_env where
  "stress_unix = \<lparr>se_platform = Unix, se_heap = (\<lambda>_. 0xAA), se_lap_ns = (\<lambda>_. 70), se_elapsed_ms = 1, se_flip_ns = 9\<rparr>"

theorem raw_stress_verdict_witness:
  "(\<exists>d. run_raw_stress bpf_prims stress_unix (stress_sample None) stress_host = (Ok (), stress_host\<lparr>disk_of := d\<rparr>)) \<and>
   (\<exists>d. run_raw_stress bpf_prims stress_unix (stress_sample (Some 1)) stress_host =
     (Err (Message ''fail-closed violation''), stress_host\<lparr>disk_of := d\<rparr>))"
proof -
  let ?img = "[1, 2, 3] :: bytes"
  define dev :: bytes where "dev = replicate 8192 0"
  have l: "length dev = 8192" by (simp add: dev_def)
  obtain blob where b: "build_boot_sidecar bpf_prims ?img = Ok blob"
    using built_sidecar_parses [OF kernel_hash.hash_contract_axioms, of ?img] by (auto simp: boot_limits)
  have p: "path_text (boot_file ''vda'') = ''/boot/vda''" "path_text (boot_file ''gold'') = ''/boot/gold''"
    by (simp_all add: boot_file_def path_text_def)
  have c: "contents (disk_of stress_host) (boot_file ''vda'') = Some dev" "contents (disk_of stress_host) (boot_file ''gold'') = Some ?img"
    "contents (disk_of stress_host) (boot_file ''gold.dfim'') = None"
    by (simp_all add: stress_host_def boot_file_def dev_def)
  have neq: "boot_file a = boot_file b \<longleftrightarrow> a = b" for a b by (simp add: boot_file_def)
  have f: "fault_free stress_host" "se_platform stress_unix = Unix"
    by (simp_all add: fault_free_def stress_host_def stress_unix_def)
  have a: "align_up (length ?img) 4096 \<le> length dev" by (simp add: align_up_def div_ceil_def l)
  have s: "sum_list (map (\<lambda>c. unat (se_lap_ns stress_unix c)) [0..<2]) < 2 ^ 64"
  proof -
    have "[0..<2] = [0, Suc 0]" by (simp add: upt_rec)
    moreover have "unat (se_lap_ns stress_unix c) = 70" for c by (simp add: stress_unix_def)
    ultimately show ?thesis by (simp only: list.map sum_list.Cons sum_list.Nil) simp
  qed
  have sel: "rs_device (stress_sample x) = boot_file ''vda''" "rs_golden (stress_sample x) = boot_file ''gold''"
    "rs_state (stress_sample x) = Some (boot_file ''gold.dfim'')" "rs_cycles (stress_sample x) = 2"
    "rs_inject_sector (stress_sample x) = x" "rs_jsonl_out (stress_sample x) = boot_file ''out''" for x
    by (simp_all add: stress_sample_def)
  note v = raw_stress_verdict [OF kernel_hash.hash_contract_axioms f, where img = ?img and dev = dev and blob = blob
      and st = "boot_file ''gold.dfim''" and args = "stress_sample x" for x, unfolded sel p c option.case, OF _ _ _ _ refl _ _ refl a _ refl b _ _ _ _ s]
  show ?thesis using v [of None] v [of "Some 1"] by (simp add: injection_verdict_def Let_def l neq) blast
qed

end
