(* ===== verification/Attestation.thy ===== *)
theory Attestation
  imports Signed_Boot
begin

text \<open>
  Remote attestation (\<^verbatim>\<open>dfim_cli_provisioner/src/attestation.rs\<close>): the wire formats of challenge,
  evidence and verifier policy, the parser of TPM quotes, and the verifier. The formats are interpretations of the
  codec interfaces of the prelude; the verifier is shown to accept only a quote that was made for its
  challenge over the enrolled PCR values, or else to yield an explicit SHA-256 collision.

  ECDSA is the parameter \<open>sig_prims\<close> of the signed sidecar. Errors are the messages of the code.
\<close>

section \<open>Formats\<close>

definition TPM_GENERATED_VALUE :: u32 where "TPM_GENERATED_VALUE = 0xFF544347"
definition TPM_ST_ATTEST_QUOTE :: u16 where "TPM_ST_ATTEST_QUOTE = 0x8018"
definition TPM_ALG_SHA256 :: u16 where "TPM_ALG_SHA256 = 0x000B"
definition ATTESTED_PCRS :: bytes where "ATTESTED_PCRS = [0, 2, 4, 7, 14]"
definition ATTESTED_PCR_COUNT :: nat where "ATTESTED_PCR_COUNT = length ATTESTED_PCRS"
definition PCR_SELECTION_BITMAP :: bytes where "PCR_SELECTION_BITMAP = [0x95, 0x40, 0x00]"
definition QUALIFYING_DATA_DOMAIN :: bytes where "QUALIFYING_DATA_DOMAIN = ascii ''DFIM-ATTEST-V1''"
definition CHALLENGE_MAGIC :: bytes where "CHALLENGE_MAGIC = ascii ''DFIMCHL1''"
definition EVIDENCE_MAGIC :: bytes where "EVIDENCE_MAGIC = ascii ''DFIMATS1''"
definition POLICY_MAGIC :: bytes where "POLICY_MAGIC = ascii ''DFIMPOL1''"
definition WIRE_VERSION :: u32 where "WIRE_VERSION = 1"
definition CHALLENGE_WIRE_LEN :: nat where "CHALLENGE_WIRE_LEN = 92"
definition EVIDENCE_PREFIX_LEN :: nat where "EVIDENCE_PREFIX_LEN = 240"
definition POLICY_WIRE_LEN :: nat where "POLICY_WIRE_LEN = 253"
definition MAX_QUOTE_LEN :: nat where "MAX_QUOTE_LEN = 4096"

lemmas attest_layout =
  CHALLENGE_WIRE_LEN_def EVIDENCE_PREFIX_LEN_def POLICY_WIRE_LEN_def
  MAX_QUOTE_LEN_def

record attestation_challenge =
  ch_nonce :: bytes
  ch_release_counter :: u64
  ch_policy_generation :: u64
  ch_merkle_root :: bytes

record attestation_evidence =
  ev_quote :: bytes
  ev_signature :: bytes
  ev_pcr_values :: "bytes list"

record attestation_policy =
  ap_ak_public_key_sec1 :: bytes
  ap_expected_pcr_values :: "bytes list"
  ap_minimum_release :: u64
  ap_expected_policy_generation :: u64
  ap_expected_merkle_root :: bytes

record verified_attestation =
  va_release_counter :: u64
  va_policy_generation :: u64
  va_merkle_root :: bytes

record parsed_quote =
  pq_extra_data :: bytes
  pq_pcr_digest :: bytes

type_synonym 'a text_result = "(string, 'a) outcome"

definition attestation_qualifying_data :: "hash_prims \<Rightarrow> attestation_challenge \<Rightarrow> bytes" where
  "attestation_qualifying_data C challenge =
     (let release = to_be_bytes 8 (ch_release_counter challenge);
          generation = to_be_bytes 8 (ch_policy_generation challenge)
      in sha256_digest_chunked C
           [QUALIFYING_DATA_DOMAIN, ch_nonce challenge, release, generation, ch_merkle_root challenge])"

definition read_le_u32 :: "bytes \<Rightarrow> u32 text_result" where
  "read_le_u32 bs = (if length bs \<noteq> 4 then Err ''invalid u32 field length'' else Ok (from_le_bytes bs))"

definition read_le_u64 :: "bytes \<Rightarrow> u64 text_result" where
  "read_le_u64 bs = (if length bs \<noteq> 8 then Err ''invalid u64 field length'' else Ok (from_le_bytes bs))"

text \<open>The condition on magic and version at the head of each envelope; the version is read only if the magic agrees.\<close>

definition unsupported_envelope :: "bytes \<Rightarrow> bytes \<Rightarrow> bool text_result" where
  "unsupported_envelope magic data =
     and_then (sub_slice data 0 8) (\<lambda>head.
     if head \<noteq> magic then Ok True
     else and_then (and_then (sub_slice data 8 12) read_le_u32) (\<lambda>version. Ok (version \<noteq> WIRE_VERSION)))"

definition encode_attestation_challenge :: "attestation_challenge \<Rightarrow> bytes" where
  "encode_attestation_challenge challenge =
     (let output = replicate CHALLENGE_WIRE_LEN 0;
          output = put output 0 CHALLENGE_MAGIC;
          output = put output 8 (to_le_bytes 4 WIRE_VERSION);
          output = put output 12 (ch_nonce challenge);
          output = put output 44 (to_le_bytes 8 (ch_release_counter challenge));
          output = put output 52 (to_le_bytes 8 (ch_policy_generation challenge));
          output = put output 60 (ch_merkle_root challenge)
      in output)"

definition parse_attestation_challenge :: "bytes \<Rightarrow> attestation_challenge text_result" where
  "parse_attestation_challenge data =
     (if length data \<noteq> CHALLENGE_WIRE_LEN then Err ''invalid attestation challenge length''
      else
        and_then (unsupported_envelope CHALLENGE_MAGIC data) (\<lambda>unsupported.
        if unsupported then Err ''unsupported attestation challenge envelope''
        else
          and_then (sub_slice data 12 44) (\<lambda>nonce.
          and_then (sub_slice data 60 92) (\<lambda>merkle_root.
          and_then (and_then (sub_slice data 44 52) read_le_u64) (\<lambda>release_counter.
          and_then (and_then (sub_slice data 52 60) read_le_u64) (\<lambda>policy_generation.
          Ok \<lparr>ch_nonce = nonce, ch_release_counter = release_counter, ch_policy_generation = policy_generation,
              ch_merkle_root = merkle_root\<rparr>))))))"

definition encode_attestation_evidence :: "attestation_evidence \<Rightarrow> bytes text_result" where
  "encode_attestation_evidence evidence =
     (if ev_quote evidence = [] \<or> length (ev_quote evidence) > MAX_QUOTE_LEN
      then Err ''TPM quote length is outside the DFIM envelope limit''
      else
        case checked_add EVIDENCE_PREFIX_LEN (length (ev_quote evidence)) of
          None \<Rightarrow> Err ''attestation evidence length overflow''
        | Some capacity \<Rightarrow>
            let output = EVIDENCE_MAGIC @ to_le_bytes 4 WIRE_VERSION @
                  to_le_bytes 4 (of_nat (length (ev_quote evidence)) :: u32) @ ev_signature evidence;
                output = foldl (@) output (ev_pcr_values evidence)
            in Ok (output @ ev_quote evidence))"

text \<open>The loop that copies the 32-byte values from an offset on.\<close>

primrec read_values :: "nat \<Rightarrow> bytes \<Rightarrow> nat \<Rightarrow> bytes list text_result" where
  "read_values 0 data offset = Ok []"
| "read_values (Suc n) data offset =
     and_then (sub_slice data offset (offset + 32)) (\<lambda>value.
     and_then (read_values n data (offset + 32)) (\<lambda>values. Ok (value # values)))"

definition parse_attestation_evidence :: "bytes \<Rightarrow> attestation_evidence text_result" where
  "parse_attestation_evidence data =
     (if length data < EVIDENCE_PREFIX_LEN then Err ''truncated attestation evidence envelope''
      else
        and_then (unsupported_envelope EVIDENCE_MAGIC data) (\<lambda>unsupported.
        if unsupported then Err ''unsupported attestation evidence envelope''
        else
          and_then (and_then (sub_slice data 12 16) read_le_u32) (\<lambda>quote_len32.
          let quote_len = unat quote_len32 in
          if quote_len = 0 \<or> quote_len > MAX_QUOTE_LEN
          then Err ''TPM quote length is outside the DFIM envelope limit''
          else
            case checked_add EVIDENCE_PREFIX_LEN quote_len of
              None \<Rightarrow> Err ''attestation evidence length overflow''
            | Some expected_len \<Rightarrow>
                if length data \<noteq> expected_len then Err ''non-canonical attestation evidence length''
                else
                  and_then (sub_slice data 16 80) (\<lambda>signature.
                  and_then (read_values ATTESTED_PCR_COUNT data 80) (\<lambda>pcr_values.
                  and_then (sub_slice data EVIDENCE_PREFIX_LEN (length data)) (\<lambda>quote.
                  Ok \<lparr>ev_quote = quote, ev_signature = signature, ev_pcr_values = pcr_values\<rparr>))))))"

primrec put_values :: "bytes \<Rightarrow> nat \<Rightarrow> bytes list \<Rightarrow> bytes" where
  "put_values output offset [] = output"
| "put_values output offset (value # values) = put_values (put output offset value) (offset + 32) values"

definition encode_attestation_policy :: "attestation_policy \<Rightarrow> bytes" where
  "encode_attestation_policy policy =
     (let output = replicate POLICY_WIRE_LEN 0;
          output = put output 0 POLICY_MAGIC;
          output = put output 8 (to_le_bytes 4 WIRE_VERSION);
          output = put output 12 (ap_ak_public_key_sec1 policy);
          output = put output 45 (to_le_bytes 8 (ap_minimum_release policy));
          output = put output 53 (to_le_bytes 8 (ap_expected_policy_generation policy));
          output = put output 61 (ap_expected_merkle_root policy)
      in put_values output 93 (ap_expected_pcr_values policy))"

definition parse_attestation_policy :: "sig_prims \<Rightarrow> bytes \<Rightarrow> attestation_policy text_result" where
  "parse_attestation_policy S data =
     (if length data \<noteq> POLICY_WIRE_LEN then Err ''invalid attestation policy length''
      else
        and_then (unsupported_envelope POLICY_MAGIC data) (\<lambda>unsupported.
        if unsupported then Err ''unsupported attestation policy envelope''
        else
          and_then (sub_slice data 12 45) (\<lambda>ak_public_key_sec1.
          if \<not> verifying_key_ok S ak_public_key_sec1
          then Err ''attestation policy contains an invalid AK public key''
          else
            and_then (and_then (sub_slice data 45 53) read_le_u64) (\<lambda>minimum_release.
            if minimum_release = 0 then Err ''attestation policy release floor must be positive''
            else
              and_then (and_then (sub_slice data 53 61) read_le_u64) (\<lambda>expected_policy_generation.
              if expected_policy_generation = 0 then Err ''attestation policy generation must be positive''
              else
                and_then (sub_slice data 61 93) (\<lambda>expected_merkle_root.
                and_then (read_values ATTESTED_PCR_COUNT data 93) (\<lambda>expected_pcr_values.
                Ok \<lparr>ap_ak_public_key_sec1 = ak_public_key_sec1, ap_expected_pcr_values = expected_pcr_values,
                    ap_minimum_release = minimum_release,
                    ap_expected_policy_generation = expected_policy_generation,
                    ap_expected_merkle_root = expected_merkle_root\<rparr>)))))))"

section \<open>Quotes\<close>

record cursor =
  cur_bytes :: bytes
  cur_offset :: nat

definition cursor_new :: "bytes \<Rightarrow> cursor" where "cursor_new bs = \<lparr>cur_bytes = bs, cur_offset = 0\<rparr>"

definition cursor_take :: "nat \<Rightarrow> cursor \<Rightarrow> (bytes \<times> cursor) text_result" where
  "cursor_take len c =
     (case checked_add (cur_offset c) len of
        None \<Rightarrow> Err ''TPM quote length overflow''
      | Some fin \<Rightarrow>
          if fin > length (cur_bytes c) then Err ''truncated TPM quote''
          else and_then (sub_slice (cur_bytes c) (cur_offset c) fin) (\<lambda>output. Ok (output, c\<lparr>cur_offset := fin\<rparr>)))"

definition cursor_u8 :: "cursor \<Rightarrow> (u8 \<times> cursor) text_result" where
  "cursor_u8 c = and_then (cursor_take 1 c) (\<lambda>(bs, c). and_then (index_at bs 0) (\<lambda>b. Ok (b, c)))"

definition cursor_u16 :: "cursor \<Rightarrow> (u16 \<times> cursor) text_result" where
  "cursor_u16 c = and_then (cursor_take 2 c) (\<lambda>(bs, c). Ok (from_be_bytes bs, c))"

definition cursor_u32 :: "cursor \<Rightarrow> (u32 \<times> cursor) text_result" where
  "cursor_u32 c = and_then (cursor_take 4 c) (\<lambda>(bs, c). Ok (from_be_bytes bs, c))"

definition cursor_u64 :: "cursor \<Rightarrow> (u64 \<times> cursor) text_result" where
  "cursor_u64 c = and_then (cursor_take 8 c) (\<lambda>(bs, c). Ok (from_be_bytes bs, c))"

definition cursor_tpm2b :: "cursor \<Rightarrow> (bytes \<times> cursor) text_result" where
  "cursor_tpm2b c = and_then (cursor_u16 c) (\<lambda>(len, c). cursor_take (unat len) c)"

definition skip_tpm2b :: "cursor \<Rightarrow> cursor text_result" where
  "skip_tpm2b c = and_then (cursor_tpm2b c) (\<lambda>(_, c). Ok c)"

definition cursor_is_empty :: "cursor \<Rightarrow> bool" where
  "cursor_is_empty c = (cur_offset c = length (cur_bytes c))"

definition parse_quote :: "bytes \<Rightarrow> parsed_quote text_result" where
  "parse_quote quote =
     and_then (cursor_u32 (cursor_new quote)) (\<lambda>(magic, c).
     if magic \<noteq> TPM_GENERATED_VALUE then Err ''invalid TPM attestation magic''
     else and_then (cursor_u16 c) (\<lambda>(tag, c).
     if tag \<noteq> TPM_ST_ATTEST_QUOTE then Err ''TPM evidence is not a quote attestation''
     else and_then (skip_tpm2b c) (\<lambda>c.
     and_then (cursor_tpm2b c) (\<lambda>(extra, c).
     if length extra \<noteq> 32 then Err ''TPM qualifying data must be SHA-256 sized''
     else and_then (cursor_u64 c) (\<lambda>(_, c).
     and_then (cursor_u32 c) (\<lambda>(_, c).
     and_then (cursor_u32 c) (\<lambda>(_, c).
     and_then (cursor_u8 c) (\<lambda>(safe, c).
     if safe \<noteq> 1 then Err ''TPM clock is not marked safe''
     else and_then (cursor_u64 c) (\<lambda>(_, c).
     and_then (cursor_u32 c) (\<lambda>(banks, c).
     if banks \<noteq> 1 then Err ''exactly one PCR bank is required''
     else and_then (cursor_u16 c) (\<lambda>(alg, c).
     if alg \<noteq> TPM_ALG_SHA256 then Err ''only the SHA-256 PCR bank is accepted''
     else and_then (cursor_u8 c) (\<lambda>(bitmap_len, c).
     if bitmap_len \<noteq> of_nat (length PCR_SELECTION_BITMAP) then Err ''unexpected TPM PCR bitmap length''
     else and_then (cursor_take (length PCR_SELECTION_BITMAP) c) (\<lambda>(bitmap, c).
     if bitmap \<noteq> PCR_SELECTION_BITMAP then Err ''TPM PCR selection differs from DFIM policy''
     else and_then (cursor_tpm2b c) (\<lambda>(digest, c).
     if length digest \<noteq> 32 \<or> \<not> cursor_is_empty c then Err ''non-canonical TPM quote digest encoding''
     else Ok \<lparr>pq_extra_data = extra, pq_pcr_digest = digest\<rparr>))))))))))))))"

section \<open>The verifier\<close>

definition check_pcr_values :: "hash_prims \<Rightarrow> (bytes \<times> bytes) list \<Rightarrow> unit text_result" where
  "check_pcr_values C pairs = fold_outcome (\<lambda>_ (actual, expected).
     if \<not> constant_time_hash_eq C actual expected
     then Err ''quoted PCR value is outside the enrolled allowlist'' else Ok ()) () pairs"

definition verify_attestation ::
  "hash_prims \<Rightarrow> sig_prims \<Rightarrow> attestation_evidence \<Rightarrow> attestation_challenge \<Rightarrow> attestation_policy \<Rightarrow>
   verified_attestation text_result" where
  "verify_attestation C S evidence challenge policy =
     (if ch_release_counter challenge < ap_minimum_release policy
      then Err ''attestation release counter is below the verifier floor''
      else if ch_policy_generation challenge \<noteq> ap_expected_policy_generation policy
      then Err ''attestation policy generation mismatch''
      else if \<not> constant_time_hash_eq C (ch_merkle_root challenge) (ap_expected_merkle_root policy)
      then Err ''attestation Merkle root is not enrolled''
      else if \<not> signature_ok S (ev_signature evidence) then Err ''malformed ECDSA quote signature''
      else if \<not> verifying_key_ok S (ap_ak_public_key_sec1 policy) then Err ''invalid enrolled AK public key''
      else if \<not> verify_sig S (ap_ak_public_key_sec1 policy) (ev_quote evidence) (ev_signature evidence)
      then Err ''TPM quote signature verification failed''
      else
        and_then (parse_quote (ev_quote evidence)) (\<lambda>parsed.
        let expected_extra_data = attestation_qualifying_data C challenge in
        if \<not> constant_time_hash_eq C (pq_extra_data parsed) expected_extra_data
        then Err ''TPM quote nonce or DFIM context binding mismatch''
        else
          and_then (check_pcr_values C (zip (ev_pcr_values evidence) (ap_expected_pcr_values policy))) (\<lambda>_.
          let expected_pcr_digest = sha256_digest_chunked C (ev_pcr_values evidence) in
          if \<not> constant_time_hash_eq C (pq_pcr_digest parsed) expected_pcr_digest
          then Err ''quoted PCR digest does not match supplied PCR values''
          else Ok \<lparr>va_release_counter = ch_release_counter challenge,
                  va_policy_generation = ch_policy_generation challenge,
                  va_merkle_root = ch_merkle_root challenge\<rparr>)))"

section \<open>The formats are canonical\<close>

lemma length_magics [simp]:
  "length CHALLENGE_MAGIC = 8" "length EVIDENCE_MAGIC = 8" "length POLICY_MAGIC = 8"
  by (simp_all add: CHALLENGE_MAGIC_def EVIDENCE_MAGIC_def POLICY_MAGIC_def)

lemma pcr_count [simp]: "ATTESTED_PCR_COUNT = 5"
  by (simp add: ATTESTED_PCR_COUNT_def ATTESTED_PCRS_def)

definition pcr_array :: "bytes list \<Rightarrow> bool" where
  "pcr_array vs \<longleftrightarrow> length vs = 5 \<and> (\<forall>v\<in>set vs. length v = 32)"

definition valid_challenge :: "attestation_challenge \<Rightarrow> bool" where
  "valid_challenge c \<longleftrightarrow> length (ch_nonce c) = 32 \<and> length (ch_merkle_root c) = 32"

definition valid_evidence :: "attestation_evidence \<Rightarrow> bool" where
  "valid_evidence ev \<longleftrightarrow> ev_quote ev \<noteq> [] \<and> length (ev_quote ev) \<le> 4096 \<and> length (ev_signature ev) = 64 \<and>
     pcr_array (ev_pcr_values ev)"

definition valid_policy :: "sig_prims \<Rightarrow> attestation_policy \<Rightarrow> bool" where
  "valid_policy S p \<longleftrightarrow> length (ap_ak_public_key_sec1 p) = 33 \<and> verifying_key_ok S (ap_ak_public_key_sec1 p) \<and>
     ap_minimum_release p \<noteq> 0 \<and> ap_expected_policy_generation p \<noteq> 0 \<and> length (ap_expected_merkle_root p) = 32 \<and>
     pcr_array (ap_expected_pcr_values p)"

lemma pcr_array_concat: "pcr_array vs \<Longrightarrow> length (concat vs) = 160"
  by (simp add: pcr_array_def length_concat_32)

lemma read_values_concat:
  "\<forall>v\<in>set vs. length v = 32 \<Longrightarrow> read_values (length vs) (pre @ concat vs @ post) (length pre) = Ok vs"
proof (induction vs arbitrary: pre)
  case (Cons v vs)
  then show ?case using Cons.IH [of "pre @ v"] by (simp add: sub_slice_def)
qed simp

lemma read_values_Ok:
  assumes "read_values n data off = Ok vs"
  shows "length vs = n \<and> (\<forall>v\<in>set vs. length v = 32) \<and> (n > 0 \<longrightarrow> off + 32 * n \<le> length data) \<and>
    concat vs = take (32 * n) (drop off data)"
  using assms
proof (induction n arbitrary: off vs)
  case (Suc n)
  from Suc.prems have v: "off + 32 \<le> length data" by auto
  then obtain ws where ws: "read_values n data (off + 32) = Ok ws" "vs = take 32 (drop off data) # ws"
    using Suc.prems by (cases "read_values n data (off + 32)") (simp_all add: sub_slice_def)
  have "take 32 (drop off data) @ take (32 * n) (drop 32 (drop off data)) = take (32 * Suc n) (drop off data)"
    by (metis mult_Suc_right take_add)
  then show ?case using Suc.IH [OF ws(1)] v ws(2) by (auto simp: add.commute)
qed simp

lemma read_values_eq:
  "off + 32 * n \<le> length data \<Longrightarrow>
   read_values n data off = Ok (map (\<lambda>i. take 32 (drop (off + 32 * i) data)) [0..<n])"
proof (induction n arbitrary: off)
  case (Suc n)
  have "map (\<lambda>i. take 32 (drop (off + 32 * i) data)) [0..<Suc n] =
      take 32 (drop off data) # map (\<lambda>i. take 32 (drop (off + 32 + 32 * i) data)) [0..<n]"
    by (simp add: map_upt_Suc del: upt_Suc) (simp add: add.assoc)
  then show ?case using Suc.IH [of "off + 32"] Suc.prems by (simp add: sub_slice_def)
qed simp

lemma unsupported_envelope_eq:
  "12 \<le> length data \<Longrightarrow> unsupported_envelope magic data =
   Ok (\<not> (take 8 data = magic \<and> from_le_bytes (take 4 (drop 8 data)) = WIRE_VERSION))"
  by (simp add: unsupported_envelope_def sub_slice_Ok read_le_u32_def)

lemma put_values_append:
  "\<forall>v\<in>set vs. length v = 32 \<Longrightarrow> length rest = 32 * length vs \<Longrightarrow>
   put_values (pre @ rest) (length pre) vs = pre @ concat vs"
proof (induction vs arbitrary: pre rest)
  case (Cons v vs)
  have "put (pre @ rest) (length pre) v = (pre @ v) @ drop 32 rest"
    using Cons.prems by (simp add: put_def)
  then show ?case using Cons.IH [of "drop 32 rest" "pre @ v"] Cons.prems by simp
qed simp

lemma foldl_append: "foldl (@) pre vs = pre @ concat vs"
  by (induction vs arbitrary: pre) simp_all

lemma encode_challenge_eq:
  assumes "valid_challenge c"
  shows "encode_attestation_challenge c = CHALLENGE_MAGIC @ to_le_bytes 4 WIRE_VERSION @ ch_nonce c @
    to_le_bytes 8 (ch_release_counter c) @ to_le_bytes 8 (ch_policy_generation c) @ ch_merkle_root c"
  using assms unfolding encode_attestation_challenge_def attest_layout Let_def valid_challenge_def
  by (simp add: put_zeros put_zeros_first del: append_assoc)

lemma challenge_split:
  assumes "length d = 92"
  shows "d = take 8 d @ take 4 (drop 8 d) @ take 32 (drop 12 d) @ take 8 (drop 44 d) @ take 8 (drop 52 d) @
    take 32 (drop 60 d)"
  using drop_split [of 0 d 8] drop_split [of 8 d 4] drop_split [of 12 d 32] drop_split [of 44 d 8]
    drop_split [of 52 d 8] assms by simp

lemma parse_challenge_iff:
  "parse_attestation_challenge d = Ok c \<longleftrightarrow> valid_challenge c \<and> d = encode_attestation_challenge c"
proof
  assume "parse_attestation_challenge d = Ok c"
  then have len: "length d = 92"
    by (simp add: parse_attestation_challenge_def attest_layout split: if_split_asm)
  with \<open>parse_attestation_challenge d = Ok c\<close> have f: "take 8 d = CHALLENGE_MAGIC" "from_le_bytes (take 4 (drop 8 d)) = WIRE_VERSION"
    "c = \<lparr>ch_nonce = take 32 (drop 12 d), ch_release_counter = from_le_bytes (take 8 (drop 44 d)),
       ch_policy_generation = from_le_bytes (take 8 (drop 52 d)), ch_merkle_root = take 32 (drop 60 d)\<rparr>"
    by (auto simp: parse_attestation_challenge_def attest_layout unsupported_envelope_eq sub_slice_Ok read_le_u64_def
        split: if_split_asm)
  have v: "valid_challenge c" using len by (simp add: f valid_challenge_def)
  have "encode_attestation_challenge c = d"
    unfolding encode_challenge_eq [OF v] using challenge_split [OF len] len by (simp add: f(1) f(2) [symmetric] f(3))
  then show "valid_challenge c \<and> d = encode_attestation_challenge c" using v by simp
next
  assume "valid_challenge c \<and> d = encode_attestation_challenge c"
  then show "parse_attestation_challenge d = Ok c"
    by (simp add: encode_challenge_eq) (simp add: parse_attestation_challenge_def attest_layout valid_challenge_def
        unsupported_envelope_eq sub_slice_def read_le_u64_def)
qed

lemma parse_challenge_no_panic: "parse_attestation_challenge d \<noteq> Panic"
  by (simp add: parse_attestation_challenge_def attest_layout unsupported_envelope_eq sub_slice_Ok read_le_u64_def)

interpretation challenge_wire: canonical_codec "\<lambda>c. Ok (encode_attestation_challenge c)"
  parse_attestation_challenge valid_challenge
  by unfold_locales (auto simp: parse_challenge_iff)

lemma encode_evidence_eq:
  assumes "valid_evidence e"
  shows "encode_attestation_evidence e = Ok (EVIDENCE_MAGIC @ to_le_bytes 4 WIRE_VERSION @
    to_le_bytes 4 (of_nat (length (ev_quote e)) :: u32) @ ev_signature e @ concat (ev_pcr_values e) @ ev_quote e)"
  using assms by (simp add: encode_attestation_evidence_def valid_evidence_def attest_layout foldl_append
      checked_add_def USIZE_MAX_def Let_def)

lemma encode_evidence_Ok_iff: "valid_evidence e \<Longrightarrow> \<exists>b. encode_attestation_evidence e = Ok b"
  by (simp add: encode_evidence_eq)

lemma evidence_split:
  assumes "240 \<le> length d"
  shows "d = take 8 d @ take 4 (drop 8 d) @ take 4 (drop 12 d) @ take 64 (drop 16 d) @ take 160 (drop 80 d) @ drop 240 d"
  using drop_split [of 0 d 8] drop_split [of 8 d 4] drop_split [of 12 d 4] drop_split [of 16 d 64]
    drop_split [of 80 d 160] by simp

lemma parse_evidence_eq:
  assumes "240 \<le> length d" and "unat (from_le_bytes (take 4 (drop 12 d)) :: u32) = n"
  shows "parse_attestation_evidence d =
    (if \<not> (take 8 d = EVIDENCE_MAGIC \<and> from_le_bytes (take 4 (drop 8 d)) = WIRE_VERSION)
     then Err ''unsupported attestation evidence envelope''
     else if n = 0 \<or> n > 4096 then Err ''TPM quote length is outside the DFIM envelope limit''
     else if length d \<noteq> 240 + n then Err ''non-canonical attestation evidence length''
     else Ok \<lparr>ev_quote = drop 240 d, ev_signature = take 64 (drop 16 d),
             ev_pcr_values = map (\<lambda>i. take 32 (drop (80 + 32 * i) d)) [0..<5]\<rparr>)"
proof -
  have "read_values 5 d 80 = Ok (map (\<lambda>i. take 32 (drop (80 + 32 * i) d)) [0..<5])"
    by (rule read_values_eq) (use assms(1) in simp)
  then show ?thesis
    unfolding parse_attestation_evidence_def attest_layout Let_def pcr_count
    using assms by (simp add: unsupported_envelope_eq sub_slice_Ok read_le_u32_def checked_add_def USIZE_MAX_def)
qed

lemma parse_evidence_short: "length d < 240 \<Longrightarrow> parse_attestation_evidence d = Err ''truncated attestation evidence envelope''"
  by (simp add: parse_attestation_evidence_def attest_layout)

lemma parse_evidence_Ok:
  assumes "parse_attestation_evidence d = Ok e"
  shows "valid_evidence e \<and> encode_attestation_evidence e = Ok d"
proof -
  have len: "240 \<le> length d" using assms parse_evidence_short by (cases "length d < 240") auto
  obtain n where w: "unat (from_le_bytes (take 4 (drop 12 d)) :: u32) = n" by blast
  have f: "take 8 d = EVIDENCE_MAGIC" "from_le_bytes (take 4 (drop 8 d)) = WIRE_VERSION"
    and n: "0 < n" "n \<le> 4096" "length d = 240 + n"
    and e: "e = \<lparr>ev_quote = drop 240 d, ev_signature = take 64 (drop 16 d),
             ev_pcr_values = map (\<lambda>i. take 32 (drop (80 + 32 * i) d)) [0..<5]\<rparr>"
    using assms unfolding parse_evidence_eq [OF len w] by (auto split: if_split_asm)
  have r: "read_values 5 d 80 = Ok (ev_pcr_values e)" unfolding e using len by (simp add: read_values_eq)
  have pcr: "pcr_array (ev_pcr_values e)" "concat (ev_pcr_values e) = take 160 (drop 80 d)"
    using read_values_Ok [OF r] by (simp_all add: pcr_array_def)
  have v: "valid_evidence e" using n pcr by (simp add: valid_evidence_def) (simp add: e)
  have "(of_nat (length (ev_quote e)) :: u32) = from_le_bytes (take 4 (drop 12 d))"
  proof -
    have "length (ev_quote e) = n" using n(3) by (simp add: e)
    then show ?thesis by (simp add: w [symmetric])
  qed
  then have "encode_attestation_evidence e = Ok d"
    unfolding encode_evidence_eq [OF v] pcr(2) using evidence_split [OF len] len
    by (simp add: f(1) f(2) [symmetric] e)
  then show ?thesis using v by simp
qed

lemma parse_encoded_evidence:
  assumes v: "valid_evidence e" and "encode_attestation_evidence e = Ok d"
  shows "parse_attestation_evidence d = Ok e"
proof -
  let ?n = "length (ev_quote e)"
  let ?h = "EVIDENCE_MAGIC @ to_le_bytes 4 WIRE_VERSION @ to_le_bytes 4 (of_nat ?n :: u32) @ ev_signature e"
  have n: "0 < ?n" "?n \<le> 4096" and sg: "length (ev_signature e) = 64" and p: "pcr_array (ev_pcr_values e)"
    using v by (simp_all add: valid_evidence_def)
  have un: "unat (of_nat ?n :: u32) = ?n" using n by (simp add: unat_of_nat_u32)
  have d: "d = ?h @ concat (ev_pcr_values e) @ ev_quote e" using assms by (simp add: encode_evidence_eq)
  have len: "length d = 240 + ?n" using pcr_array_concat [OF p] sg by (simp add: d)
  have r: "read_values 5 d 80 = Ok (ev_pcr_values e)"
    using read_values_concat [of "ev_pcr_values e" ?h "ev_quote e"] p sg by (simp add: d pcr_array_def)
  have q: "drop 240 d = ev_quote e" using pcr_array_concat [OF p] sg by (simp add: d)
  have h: "take 8 d = EVIDENCE_MAGIC" "take 4 (drop 8 d) = to_le_bytes 4 WIRE_VERSION"
    "take 4 (drop 12 d) = to_le_bytes 4 (of_nat ?n :: u32)" "take 64 (drop 16 d) = ev_signature e"
    using sg by (simp_all add: d)
  have "map (\<lambda>i. take 32 (drop (80 + 32 * i) d)) [0..<5] = ev_pcr_values e"
    using read_values_eq [of 80 5 d] r len by simp
  then show ?thesis
    using n len parse_evidence_eq [of d ?n] by (simp add: h un q)
qed

lemma parse_evidence_no_panic: "parse_attestation_evidence d \<noteq> Panic"
proof (cases "240 \<le> length d")
  case True
  obtain n where "unat (from_le_bytes (take 4 (drop 12 d)) :: u32) = n" by blast
  from parse_evidence_eq [OF True this] show ?thesis by simp
qed (simp add: parse_evidence_short)

interpretation evidence_wire: canonical_codec encode_attestation_evidence parse_attestation_evidence valid_evidence
  by unfold_locales (auto simp: encode_evidence_eq parse_encoded_evidence dest: parse_evidence_Ok)

lemma encode_policy_eq:
  assumes "valid_policy S p"
  shows "encode_attestation_policy p = POLICY_MAGIC @ to_le_bytes 4 WIRE_VERSION @ ap_ak_public_key_sec1 p @
    to_le_bytes 8 (ap_minimum_release p) @ to_le_bytes 8 (ap_expected_policy_generation p) @
    ap_expected_merkle_root p @ concat (ap_expected_pcr_values p)"
proof -
  let ?h = "POLICY_MAGIC @ to_le_bytes 4 WIRE_VERSION @ ap_ak_public_key_sec1 p @
    to_le_bytes 8 (ap_minimum_release p) @ to_le_bytes 8 (ap_expected_policy_generation p) @ ap_expected_merkle_root p"
  have l: "length (ap_ak_public_key_sec1 p) = 33" "length (ap_expected_merkle_root p) = 32"
    "length (ap_expected_pcr_values p) = 5" "\<forall>v\<in>set (ap_expected_pcr_values p). length v = 32"
    using assms by (auto simp: valid_policy_def pcr_array_def)
  have "encode_attestation_policy p = put_values (?h @ replicate 160 0) 93 (ap_expected_pcr_values p)"
    unfolding encode_attestation_policy_def attest_layout Let_def
    by (simp add: put_zeros put_zeros_first l del: append_assoc) simp
  then show ?thesis
    using put_values_append [of "ap_expected_pcr_values p" "replicate 160 0" ?h] l by simp
qed

lemma policy_split:
  assumes "length d = 253"
  shows "d = take 8 d @ take 4 (drop 8 d) @ take 33 (drop 12 d) @ take 8 (drop 45 d) @ take 8 (drop 53 d) @
    take 32 (drop 61 d) @ take 160 (drop 93 d)"
  using drop_split [of 0 d 8] drop_split [of 8 d 4] drop_split [of 12 d 33] drop_split [of 45 d 8]
    drop_split [of 53 d 8] drop_split [of 61 d 32] assms by simp

lemma parse_policy_eq:
  assumes "length d = 253"
  shows "parse_attestation_policy S d =
    (if \<not> (take 8 d = POLICY_MAGIC \<and> from_le_bytes (take 4 (drop 8 d)) = WIRE_VERSION)
     then Err ''unsupported attestation policy envelope''
     else if \<not> verifying_key_ok S (take 33 (drop 12 d))
     then Err ''attestation policy contains an invalid AK public key''
     else if (from_le_bytes (take 8 (drop 45 d)) :: u64) = 0
     then Err ''attestation policy release floor must be positive''
     else if (from_le_bytes (take 8 (drop 53 d)) :: u64) = 0
     then Err ''attestation policy generation must be positive''
     else Ok \<lparr>ap_ak_public_key_sec1 = take 33 (drop 12 d),
             ap_expected_pcr_values = map (\<lambda>i. take 32 (drop (93 + 32 * i) d)) [0..<5],
             ap_minimum_release = from_le_bytes (take 8 (drop 45 d)),
             ap_expected_policy_generation = from_le_bytes (take 8 (drop 53 d)),
             ap_expected_merkle_root = take 32 (drop 61 d)\<rparr>)"
proof -
  have "read_values 5 d 93 = Ok (map (\<lambda>i. take 32 (drop (93 + 32 * i) d)) [0..<5])"
    by (rule read_values_eq) (use assms in simp)
  then show ?thesis
    unfolding parse_attestation_policy_def attest_layout pcr_count
    using assms by (simp add: unsupported_envelope_eq sub_slice_Ok read_le_u64_def)
qed

lemma parse_policy_length: "length d \<noteq> 253 \<Longrightarrow> parse_attestation_policy S d = Err ''invalid attestation policy length''"
  by (simp add: parse_attestation_policy_def attest_layout)

lemma parse_policy_no_panic: "parse_attestation_policy S d \<noteq> Panic"
  by (cases "length d = 253") (simp_all add: parse_policy_eq parse_policy_length)

lemma parse_policy_Ok:
  assumes "parse_attestation_policy S d = Ok p"
  shows "valid_policy S p \<and> d = encode_attestation_policy p"
proof -
  have len: "length d = 253" using assms parse_policy_length by (cases "length d = 253") auto
  have f: "take 8 d = POLICY_MAGIC" "from_le_bytes (take 4 (drop 8 d)) = WIRE_VERSION"
    and g: "verifying_key_ok S (take 33 (drop 12 d))" "(from_le_bytes (take 8 (drop 45 d)) :: u64) \<noteq> 0"
      "(from_le_bytes (take 8 (drop 53 d)) :: u64) \<noteq> 0"
    and p: "p = \<lparr>ap_ak_public_key_sec1 = take 33 (drop 12 d),
             ap_expected_pcr_values = map (\<lambda>i. take 32 (drop (93 + 32 * i) d)) [0..<5],
             ap_minimum_release = from_le_bytes (take 8 (drop 45 d)),
             ap_expected_policy_generation = from_le_bytes (take 8 (drop 53 d)),
             ap_expected_merkle_root = take 32 (drop 61 d)\<rparr>"
    using assms unfolding parse_policy_eq [OF len] by (auto split: if_split_asm)
  have r: "read_values 5 d 93 = Ok (ap_expected_pcr_values p)" unfolding p using len by (simp add: read_values_eq)
  have pcr: "pcr_array (ap_expected_pcr_values p)" "concat (ap_expected_pcr_values p) = take 160 (drop 93 d)"
    using read_values_Ok [OF r] by (simp_all add: pcr_array_def)
  have v: "valid_policy S p" using pcr(1) g len by (simp add: valid_policy_def) (simp add: p)
  have "encode_attestation_policy p = d"
    unfolding encode_policy_eq [OF v] pcr(2) using policy_split [OF len] len by (simp add: f(1) f(2) [symmetric] p)
  then show ?thesis using v by simp
qed

lemma parse_encoded_policy:
  assumes v: "valid_policy S p"
  shows "parse_attestation_policy S (encode_attestation_policy p) = Ok p"
proof -
  let ?d = "encode_attestation_policy p"
  let ?h = "POLICY_MAGIC @ to_le_bytes 4 WIRE_VERSION @ ap_ak_public_key_sec1 p @
    to_le_bytes 8 (ap_minimum_release p) @ to_le_bytes 8 (ap_expected_policy_generation p) @ ap_expected_merkle_root p"
  have l: "length (ap_ak_public_key_sec1 p) = 33" "length (ap_expected_merkle_root p) = 32" "verifying_key_ok S (ap_ak_public_key_sec1 p)"
    "ap_minimum_release p \<noteq> 0" "ap_expected_policy_generation p \<noteq> 0"
    and a: "pcr_array (ap_expected_pcr_values p)"
    using v by (auto simp: valid_policy_def)
  have d: "?d = ?h @ concat (ap_expected_pcr_values p) @ []" by (simp add: encode_policy_eq [OF v])
  have len: "length ?d = 253" using pcr_array_concat [OF a] l by (simp add: d)
  have "read_values 5 ?d 93 = Ok (ap_expected_pcr_values p)"
    using read_values_concat [of "ap_expected_pcr_values p" ?h "[]"] a l unfolding d by (simp add: pcr_array_def)
  then have "map (\<lambda>i. take 32 (drop (93 + 32 * i) ?d)) [0..<5] = ap_expected_pcr_values p"
    using read_values_eq [of 93 5 ?d] len by simp
  moreover have "take 8 ?d = POLICY_MAGIC" "take 4 (drop 8 ?d) = to_le_bytes 4 WIRE_VERSION"
    "take 33 (drop 12 ?d) = ap_ak_public_key_sec1 p" "take 8 (drop 45 ?d) = to_le_bytes 8 (ap_minimum_release p)"
    "take 8 (drop 53 ?d) = to_le_bytes 8 (ap_expected_policy_generation p)" "take 32 (drop 61 ?d) = ap_expected_merkle_root p"
    using l by (simp_all add: d)
  ultimately show ?thesis using l parse_policy_eq [OF len, of S] by simp
qed

interpretation policy_wire: canonical_codec "\<lambda>p. Ok (encode_attestation_policy p)"
  "parse_attestation_policy S" "valid_policy S" for S
  by unfold_locales (auto simp: parse_encoded_policy dest: parse_policy_Ok)

section \<open>Quotes are canonical\<close>

text \<open>The structure \<^verbatim>\<open>TPMS_ATTEST\<close> of a quote over one PCR bank, as the TPM marshals it.\<close>

record tpm_quote =
  tq_signer :: bytes
  tq_extra :: bytes
  tq_clock :: u64
  tq_reset :: u32
  tq_restart :: u32
  tq_safe :: u8
  tq_firmware :: u64
  tq_digest :: bytes

definition tpm2b :: "bytes \<Rightarrow> bytes" where
  "tpm2b bs = to_be_bytes 2 (of_nat (length bs) :: u16) @ bs"

definition tpm_quote_bytes :: "tpm_quote \<Rightarrow> bytes" where
  "tpm_quote_bytes q =
     to_be_bytes 4 TPM_GENERATED_VALUE @ to_be_bytes 2 TPM_ST_ATTEST_QUOTE @ tpm2b (tq_signer q) @ tpm2b (tq_extra q) @
     to_be_bytes 8 (tq_clock q) @ to_be_bytes 4 (tq_reset q) @ to_be_bytes 4 (tq_restart q) @ [tq_safe q] @
     to_be_bytes 8 (tq_firmware q) @ to_be_bytes 4 (1 :: u32) @ to_be_bytes 2 TPM_ALG_SHA256 @ [3] @
     PCR_SELECTION_BITMAP @ tpm2b (tq_digest q)"

definition cursor_at :: "bytes \<Rightarrow> bytes \<Rightarrow> cursor" where
  "cursor_at pre post = \<lparr>cur_bytes = pre @ post, cur_offset = length pre\<rparr>"

lemma cursor_new_at: "cursor_new q = cursor_at [] q"
  by (simp add: cursor_new_def cursor_at_def)

lemma take_at:
  assumes "length x = n" and "length pre + length x + length post \<le> USIZE_MAX"
  shows "cursor_take n (cursor_at pre (x @ post)) = Ok (x, cursor_at (pre @ x) post)"
  using assms by (simp add: cursor_take_def cursor_at_def checked_add_def sub_slice_def)

lemma be16_roundtrip [simp]: "from_be_bytes (to_be_bytes 2 (w :: u16)) = w"
  by (simp add: from_to_be_bytes)

text \<open>The steps of the cursor over a quote of less than 200 kilobytes.\<close>

lemma steps_at:
  assumes "length pre + length post \<le> 200000"
  shows "cursor_u8 (cursor_at pre (b # post)) = Ok (b, cursor_at (pre @ [b]) post)"
    and "cursor_u16 (cursor_at pre (to_be_bytes 2 w16 @ post)) = Ok (w16, cursor_at (pre @ to_be_bytes 2 w16) post)"
    and "cursor_u32 (cursor_at pre (to_be_bytes 4 w32 @ post)) = Ok (w32, cursor_at (pre @ to_be_bytes 4 w32) post)"
    and "cursor_u64 (cursor_at pre (to_be_bytes 8 w64 @ post)) = Ok (w64, cursor_at (pre @ to_be_bytes 8 w64) post)"
proof -
  have b: "length pre + n + length post \<le> USIZE_MAX" if "n \<le> 8" for n
    using assms that by (simp add: USIZE_MAX_def)
  show "cursor_u8 (cursor_at pre (b # post)) = Ok (b, cursor_at (pre @ [b]) post)"
    using take_at [of "[b]" 1 pre post] b [of 1] by (simp add: cursor_u8_def index_at_def)
  show "cursor_u16 (cursor_at pre (to_be_bytes 2 w16 @ post)) = Ok (w16, cursor_at (pre @ to_be_bytes 2 w16) post)"
    using take_at [of "to_be_bytes 2 w16" 2 pre post] b [of 2] by (simp add: cursor_u16_def)
  show "cursor_u32 (cursor_at pre (to_be_bytes 4 w32 @ post)) = Ok (w32, cursor_at (pre @ to_be_bytes 4 w32) post)"
    using take_at [of "to_be_bytes 4 w32" 4 pre post] b [of 4] by (simp add: cursor_u32_def)
  show "cursor_u64 (cursor_at pre (to_be_bytes 8 w64 @ post)) = Ok (w64, cursor_at (pre @ to_be_bytes 8 w64) post)"
    using take_at [of "to_be_bytes 8 w64" 8 pre post] b [of 8] by (simp add: cursor_u64_def)
qed

lemma tpm2b_at:
  assumes "length bs < 65536" and "length pre + length post \<le> 100000"
  shows "cursor_tpm2b (cursor_at pre (tpm2b bs @ post)) = Ok (bs, cursor_at (pre @ tpm2b bs) post)"
proof -
  have "unat (of_nat (length bs) :: u16) = length bs"
    using assms(1) by (simp add: unat_of_nat take_bit_nat_eq_self)
  then show ?thesis
    using steps_at(2) [of pre "bs @ post" "of_nat (length bs)"] assms
      take_at [of bs "length bs" "pre @ to_be_bytes 2 (of_nat (length bs) :: u16)" post]
    by (simp add: cursor_tpm2b_def tpm2b_def USIZE_MAX_def)
qed

lemma bitmap_at:
  assumes "length pre + length post \<le> 200000"
  shows "cursor_take 3 (cursor_at pre (PCR_SELECTION_BITMAP @ post)) =
    Ok (PCR_SELECTION_BITMAP, cursor_at (pre @ PCR_SELECTION_BITMAP) post)"
  by (rule take_at) (use assms in \<open>simp_all add: PCR_SELECTION_BITMAP_def USIZE_MAX_def\<close>)

lemma cursor_no_panic:
  "cursor_take n c \<noteq> Panic" "cursor_u8 c \<noteq> Panic" "cursor_u16 c \<noteq> Panic" "cursor_u32 c \<noteq> Panic"
  "cursor_u64 c \<noteq> Panic" "cursor_tpm2b c \<noteq> Panic" "skip_tpm2b c \<noteq> Panic"
proof -
  have t: "cursor_take n c \<noteq> Panic" for n c
    by (simp add: cursor_take_def checked_add_def split: option.split)
  have u: "cursor_take 1 c = Ok (bs, c') \<Longrightarrow> bs \<noteq> []" for bs c'
    by (auto simp: cursor_take_def split: option.split_asm if_split_asm)
  show "cursor_take n c \<noteq> Panic" "cursor_u8 c \<noteq> Panic" "cursor_u16 c \<noteq> Panic" "cursor_u32 c \<noteq> Panic"
    "cursor_u64 c \<noteq> Panic" "cursor_tpm2b c \<noteq> Panic" "skip_tpm2b c \<noteq> Panic"
    using t u by (auto simp: cursor_u8_def cursor_u16_def cursor_u32_def cursor_u64_def cursor_tpm2b_def skip_tpm2b_def)
qed

lemma parse_quote_no_panic: "parse_quote q \<noteq> Panic"
  unfolding parse_quote_def outcome_simps
  by (simp add: cursor_no_panic split_def outcome_simps)

interpretation quote_parser: total_parser parse_quote
  by unfold_locales (rule parse_quote_no_panic)

definition wf_quote :: "tpm_quote \<Rightarrow> bool" where
  "wf_quote q \<longleftrightarrow> length (tq_signer q) < 65536 \<and> length (tq_extra q) = 32 \<and> length (tq_digest q) = 32"

lemma length_tpm2b [simp]: "length (tpm2b bs) = 2 + length bs"
  by (simp add: tpm2b_def)

lemma length_bitmap [simp]: "length PCR_SELECTION_BITMAP = 3"
  by (simp add: PCR_SELECTION_BITMAP_def)

lemma parse_quote_bytes:
  assumes "wf_quote q"
  shows "parse_quote (tpm_quote_bytes q) =
    (if tq_safe q = 1 then Ok \<lparr>pq_extra_data = tq_extra q, pq_pcr_digest = tq_digest q\<rparr>
     else Err ''TPM clock is not marked safe'')"
proof -
  have w: "length (tq_signer q) < 65536" "length (tq_extra q) = 32" "length (tq_digest q) = 32"
    using assms by (simp_all add: wf_quote_def)
  have fin: "cursor_tpm2b (cursor_at pre (tpm2b (tq_digest q))) = Ok (tq_digest q, cursor_at (pre @ tpm2b (tq_digest q)) [])"
    if "length pre \<le> 100000" for pre
    using tpm2b_at [of "tq_digest q" pre "[]"] w that by simp
  show ?thesis
    unfolding parse_quote_def cursor_new_at tpm_quote_bytes_def skip_tpm2b_def
    using w by (simp add: steps_at tpm2b_at bitmap_at fin cursor_is_empty_def cursor_at_def [of _ "[]"])
qed

section \<open>What the verifier accepts\<close>

definition qualifying_message :: "attestation_challenge \<Rightarrow> bytes" where
  "qualifying_message c = QUALIFYING_DATA_DOMAIN @ ch_nonce c @ to_be_bytes 8 (ch_release_counter c) @
     to_be_bytes 8 (ch_policy_generation c) @ ch_merkle_root c"

lemma qualifying_data_eq: "attestation_qualifying_data C c = sha256 C (qualifying_message c)"
  by (simp add: attestation_qualifying_data_def sha256_digest_chunked_def qualifying_message_def)

lemma qualifying_message_inj:
  assumes "valid_challenge a" "valid_challenge b" "qualifying_message a = qualifying_message b"
  shows "a = b"
proof -
  have "to_be_bytes 8 (ch_release_counter a) = to_be_bytes 8 (ch_release_counter b)"
    "to_be_bytes 8 (ch_policy_generation a) = to_be_bytes 8 (ch_policy_generation b)"
    and f: "ch_nonce a = ch_nonce b" "ch_merkle_root a = ch_merkle_root b"
    using assms by (auto simp: qualifying_message_def valid_challenge_def)
  then have "ch_release_counter a = ch_release_counter b" "ch_policy_generation a = ch_policy_generation b"
    by (metis word_bytes_roundtrip)+
  then show ?thesis using f by (cases a; cases b) simp
qed

lemma concat_pcr_inj:
  "\<forall>v\<in>set xs. length v = 32 \<Longrightarrow> \<forall>v\<in>set ys. length v = 32 \<Longrightarrow> length xs = length ys \<Longrightarrow> concat xs = concat ys \<Longrightarrow> xs = ys"
proof (induction xs arbitrary: ys)
  case (Cons x xs)
  obtain y zs where y: "ys = y # zs" using Cons.prems(3) by (cases ys) simp_all
  have l: "length x = length y" using Cons.prems(1,2) by (simp add: y)
  have "x @ concat xs = y @ concat zs" using Cons.prems(4) by (simp add: y)
  then have "x = y" "concat xs = concat zs" 
    using append_eq_append_conv [of x y "concat xs" "concat zs"] l by blast+
  then show ?case using Cons.IH [of zs] Cons.prems(1-3) by (simp add: y)
qed simp

lemma check_pcr_values_Ok:
  "check_pcr_values C pairs = Ok () \<longleftrightarrow> (\<forall>(a, b)\<in>set pairs. constant_time_hash_eq C a b)"
  unfolding check_pcr_values_def by (induction pairs) (simp_all split: prod.split)

lemma check_pcr_arrays:
  assumes "hash_contract C" "pcr_array xs" "pcr_array ys"
  shows "check_pcr_values C (zip xs ys) = Ok () \<longleftrightarrow> xs = ys"
proof -
  have l: "\<forall>v\<in>set xs. length v = 32" "\<forall>v\<in>set ys. length v = 32" "length xs = length ys"
    using assms by (simp_all add: pcr_array_def)
  have "(\<forall>(a, b)\<in>set (zip xs ys). constant_time_hash_eq C a b) \<longleftrightarrow> xs = ys"
    using l(3) l(1,2) by (induction xs ys rule: list_induct2) (auto simp: constant_time_hash_eq_iff [OF assms(1)])
  then show ?thesis by (simp add: check_pcr_values_Ok)
qed

lemma verify_attestation_iff:
  assumes "hash_contract C" and v: "valid_challenge c" "valid_policy S pol" "pcr_array (ev_pcr_values ev)"
    and q: "ev_quote ev = tpm_quote_bytes q" "wf_quote q"
  shows "verify_attestation C S ev c pol = Ok w \<longleftrightarrow>
    ap_minimum_release pol \<le> ch_release_counter c \<and> ch_policy_generation c = ap_expected_policy_generation pol \<and>
    ch_merkle_root c = ap_expected_merkle_root pol \<and> signature_ok S (ev_signature ev) \<and>
    verify_sig S (ap_ak_public_key_sec1 pol) (ev_quote ev) (ev_signature ev) \<and> tq_safe q = 1 \<and>
    tq_extra q = sha256 C (qualifying_message c) \<and> ev_pcr_values ev = ap_expected_pcr_values pol \<and>
    tq_digest q = sha256 C (concat (ev_pcr_values ev)) \<and>
    w = \<lparr>va_release_counter = ch_release_counter c, va_policy_generation = ch_policy_generation c,
         va_merkle_root = ch_merkle_root c\<rparr>"
proof -
  note eq = constant_time_hash_eq_iff [OF assms(1)] and sl = hash_contract.sha256_len [OF assms(1)]
  have l: "length (ch_merkle_root c) = 32" "length (ap_expected_merkle_root pol) = 32" "length (tq_extra q) = 32"
    "length (tq_digest q) = 32" "pcr_array (ap_expected_pcr_values pol)" "verifying_key_ok S (ap_ak_public_key_sec1 pol)"
    using v q(2) by (simp_all add: valid_challenge_def valid_policy_def wf_quote_def)
  have p: "parse_quote (ev_quote ev) = (if tq_safe q = 1
      then Ok \<lparr>pq_extra_data = tq_extra q, pq_pcr_digest = tq_digest q\<rparr> else Err ''TPM clock is not marked safe'')"
    using parse_quote_bytes [OF q(2)] q(1) by simp
  have e1: "constant_time_hash_eq C (ch_merkle_root c) (ap_expected_merkle_root pol) \<longleftrightarrow>
      ch_merkle_root c = ap_expected_merkle_root pol"
    "constant_time_hash_eq C (tq_extra q) (attestation_qualifying_data C c) \<longleftrightarrow>
      tq_extra q = sha256 C (qualifying_message c)"
    "constant_time_hash_eq C (tq_digest q) (sha256_digest_chunked C (ev_pcr_values ev)) \<longleftrightarrow>
      tq_digest q = sha256 C (concat (ev_pcr_values ev))"
    using eq l sl by (simp_all add: qualifying_data_eq sha256_digest_chunked_concat sha256_digest_def)
  have e2: "check_pcr_values C (zip (ev_pcr_values ev) (ap_expected_pcr_values pol)) = Ok u \<longleftrightarrow>
      ev_pcr_values ev = ap_expected_pcr_values pol" for u
    using check_pcr_arrays [OF assms(1) v(3) l(5)] by simp
  show ?thesis
    unfolding verify_attestation_def p Let_def outcome_simps
    by (auto simp: e1 e2 l not_less split: if_split_asm)
qed

section \<open>Properties\<close>


text \<open>
  C32. Wire formats of attestation. The parsers of challenges, evidence and verifier policies accept exactly the encodings
  of well-formed values (field lengths, quote size, a valid key, positive counters) and return that value; none of them,
  nor the parser of TPM quotes, panics on any input; and a marshalled quote yields its qualifying data and PCR digest exactly
  if its clock is marked safe.
\<close>

theorem attestation_wire_canonical:
  "(parse_attestation_challenge d = Ok c \<longleftrightarrow> valid_challenge c \<and> encode_attestation_challenge c = d) \<and>
   (parse_attestation_evidence d = Ok e \<longleftrightarrow> valid_evidence e \<and> encode_attestation_evidence e = Ok d) \<and>
   (parse_attestation_policy S d = Ok p \<longleftrightarrow> valid_policy S p \<and> encode_attestation_policy p = d) \<and>
   parse_attestation_challenge d \<noteq> Panic \<and> parse_attestation_evidence d \<noteq> Panic \<and>
   parse_attestation_policy S d \<noteq> Panic \<and> parse_quote d \<noteq> Panic \<and>
   (wf_quote q \<longrightarrow> parse_quote (tpm_quote_bytes q) =
      (if tq_safe q = 1 then Ok \<lparr>pq_extra_data = tq_extra q, pq_pcr_digest = tq_digest q\<rparr>
       else Err ''TPM clock is not marked safe''))"
  using challenge_wire.dec_accepts_iff evidence_wire.dec_accepts_iff policy_wire.dec_accepts_iff
    parse_challenge_no_panic parse_evidence_no_panic parse_policy_no_panic quote_parser.dec_no_panic parse_quote_bytes
  by simp

definition sample_challenge :: attestation_challenge where
  "sample_challenge = \<lparr>ch_nonce = replicate 32 5, ch_release_counter = 9, ch_policy_generation = 3,
     ch_merkle_root = replicate 32 6\<rparr>"

definition sample_policy :: attestation_policy where
  "sample_policy = \<lparr>ap_ak_public_key_sec1 = 2 # replicate 32 0x11,
     ap_expected_pcr_values = replicate 5 (replicate 32 1), ap_minimum_release = 7,
     ap_expected_policy_generation = 3, ap_expected_merkle_root = replicate 32 6\<rparr>"

definition sample_quote :: tpm_quote where
  "sample_quote = \<lparr>tq_signer = [1, 2], tq_extra = attestation_qualifying_data bpf_prims sample_challenge,
     tq_clock = 100, tq_reset = 1, tq_restart = 2, tq_safe = 1, tq_firmware = 8,
     tq_digest = sha256_digest_chunked bpf_prims (replicate 5 (replicate 32 1))\<rparr>"

definition sample_evidence :: attestation_evidence where
  "sample_evidence = \<lparr>ev_quote = tpm_quote_bytes sample_quote,
     ev_signature = sign sample_sig (replicate 32 0x11) (tpm_quote_bytes sample_quote),
     ev_pcr_values = replicate 5 (replicate 32 1)\<rparr>"

lemma sample_attestation:
  "valid_challenge sample_challenge" "valid_policy sample_sig sample_policy" "pcr_array (ev_pcr_values sample_evidence)"
  "wf_quote sample_quote"
  by (simp_all add: valid_challenge_def sample_challenge_def valid_policy_def sample_policy_def sample_sig_def
      pcr_array_def sample_evidence_def wf_quote_def sample_quote_def qualifying_data_eq
      sha256_digest_chunked_def kernel_hash.sha256_len)

lemma sample_accepted:
  "verify_attestation bpf_prims sample_sig sample_evidence sample_challenge sample_policy =
   Ok \<lparr>va_release_counter = 9, va_policy_generation = 3, va_merkle_root = replicate 32 6\<rparr>"
proof -
  have "ev_quote sample_evidence = tpm_quote_bytes sample_quote" by (simp add: sample_evidence_def)
  from verify_attestation_iff [OF kernel_hash.hash_contract_axioms sample_attestation(1-3) this sample_attestation(4)]
  show ?thesis
    using signature_contractD [OF sample_sig_contract sample_key(1)]
    by (simp add: sample_challenge_def sample_policy_def sample_quote_def sample_evidence_def sample_sig_def
        qualifying_data_eq sha256_digest_chunked_concat sha256_digest_def sample_tag_def kernel_hash.sha256_len)
qed


theorem attestation_wire_canonical_witness:
  "wf_quote sample_quote \<and> (\<exists>p. parse_quote (tpm_quote_bytes sample_quote) = Ok p) \<and>
   parse_attestation_challenge (encode_attestation_challenge sample_challenge) = Ok sample_challenge"
  using attestation_wire_canonical [of "encode_attestation_challenge sample_challenge" sample_challenge _ _ _ sample_quote]
    sample_attestation by (simp add: sample_quote_def)

end
