(* ===== verification/Cli_Commands.thy ===== *)
theory Cli_Commands
  imports Raw_Stress Cli_Verify Attestation Rust_Text
begin

text \<open>
  The commands of the provisioner (\<^verbatim>\<open>dfim_cli_provisioner/src/main.rs\<close>): provisioning in both formats, recovery,
  rollback payloads, the attestation commands, and the dispatch to them with the exit status.

  The command line is already parsed (crate \<^verbatim>\<open>clap\<close>); the TPM of a build with feature \<^verbatim>\<open>tpm\<close> is a parameter, absent in
  other builds; the evaluation gate that runs first is in theory \<open>Host_License\<close>.
\<close>

section \<open>Parsing of key material\<close>

definition decode_hex_nibble :: "u8 \<Rightarrow> (cli_error, u8) outcome" where
  "decode_hex_nibble value =
     (if 0x30 \<le> value \<and> value \<le> 0x39 then Ok (value - 0x30)
      else if 0x61 \<le> value \<and> value \<le> 0x66 then Ok (value - 0x61 + 10)
      else if 0x41 \<le> value \<and> value \<le> 0x46 then Ok (value - 0x41 + 10)
      else Err (Message ''invalid hexadecimal character''))"

definition cli_decode_hex_exact :: "nat \<Rightarrow> bytes \<Rightarrow> (cli_error, bytes) outcome" where
  "cli_decode_hex_exact n text =
     (if length text \<noteq> n * 2 then Err (Message ''unexpected number of hexadecimal characters'')
      else fold_outcome (\<lambda>output index.
             and_then (and_then (index_at text (index * 2)) decode_hex_nibble) (\<lambda>high.
             and_then (and_then (index_at text (index * 2 + 1)) decode_hex_nibble) (\<lambda>low.
             Ok (output[index := (push_bit 4 high) OR low]))))
           (replicate n 0) [0..<n])"

definition read_private_key :: "host_path \<Rightarrow> bytes io" where
  "read_private_key path =
     io_bind (fs_read path (Read_failed ''signing key'')) (\<lambda>raw.
     if length raw = 32 then io_return raw
     else
       case utf8_chars raw of
         None \<Rightarrow> io_fail (Message ''signing key must be 32 raw bytes or hexadecimal UTF-8'')
       | Some chars \<Rightarrow> io_of id (cli_decode_hex_exact 32 (concat (str_trim chars))))"

definition parse_trusted_policy :: "bytes \<Rightarrow> bytes \<Rightarrow> u64 \<Rightarrow> (cli_error, trusted_manifest_policy) outcome" where
  "parse_trusted_policy public_key key_id min_release =
     (if min_release = 0 then Err (Message ''minimum release must be greater than zero'')
      else
        and_then (cli_decode_hex_exact 33 public_key) (\<lambda>public_key_sec1.
        and_then (index_at public_key_sec1 0) (\<lambda>tag.
        if \<not> (tag = 0x02 \<or> tag = 0x03) then Err (Message ''public key must use compressed SEC1 encoding'')
        else
          and_then (cli_decode_hex_exact 16 key_id) (\<lambda>expected_key_id.
          Ok \<lparr>public_key_sec1 = public_key_sec1, expected_key_id = expected_key_id, minimum_release = min_release\<rparr>))))"

section \<open>Reports\<close>

definition write_command_json ::
  "hash_prims \<Rightarrow> string \<Rightarrow> host_path \<Rightarrow> output_format \<Rightarrow> string \<Rightarrow> bytes option \<Rightarrow> u64 option \<Rightarrow> nat option \<Rightarrow> bool \<Rightarrow> unit io" where
  "write_command_json C command target format outcome root release_counter nbytes dry_run =
     (if format = Text_output then io_return ()
      else write_stdout \<lparr>cj_command = command, cj_outcome = outcome, cj_asset_id = cli_asset_id C target,
             cj_merkle_root = root, cj_release_counter = release_counter, cj_blocks = None,
             cj_bytes = nbytes, cj_dry_run = dry_run\<rparr>)"

definition emit_provision_event ::
  "hash_prims \<Rightarrow> host_path \<Rightarrow> cli_event_type \<Rightarrow> cli_outcome \<Rightarrow> u64 option \<Rightarrow> bytes option \<Rightarrow> bool \<Rightarrow> unit io" where
  "emit_provision_event C target event_type outcome release_counter root dry_run h =
     cli_emit_configured (telemetry_provision C h event_type outcome target release_counter root dry_run) h"

definition emit_security_event ::
  "hash_prims \<Rightarrow> host_path \<Rightarrow> cli_event_type \<Rightarrow> cli_outcome \<Rightarrow> u64 option \<Rightarrow> bytes option \<Rightarrow> unit io" where
  "emit_security_event C target event_type outcome release_counter root h =
     cli_emit_configured (telemetry_security C h event_type outcome target release_counter root) h"

section \<open>Provisioning\<close>

text \<open>The TPM, if the program is built for it: whether the extension of the PCR succeeds.\<close>

record tpm_device =
  tpm_extend :: "bytes \<Rightarrow> (cli_error, unit) outcome"
  tpm_create_key :: "(cli_error, bytes \<times> bytes \<times> bytes) outcome"
  tpm_quote_for :: "attestation_challenge \<Rightarrow> bytes \<Rightarrow> bytes \<Rightarrow> (cli_error, attestation_evidence) outcome"

definition extend_merkle_to_tpm :: "tpm_device option \<Rightarrow> bytes \<Rightarrow> unit io" where
  "extend_merkle_to_tpm tpm root =
     (case tpm of Some device \<Rightarrow> io_of id (tpm_extend device root)
      | None \<Rightarrow> io_fail (Message ''--extend-tpm requires Linux build compiled with --features tpm''))"

definition create_output_directory :: "host_path \<Rightarrow> unit io" where
  "create_output_directory output =
     (case path_parent output of None \<Rightarrow> io_return ()
      | Some parent \<Rightarrow> if path_is_empty parent then io_return () else fs_create_dir_all parent Create_failed)"

definition run_provision ::
  "hash_prims \<Rightarrow> tpm_device option \<Rightarrow> host_path \<Rightarrow> host_path option \<Rightarrow> bool \<Rightarrow> bool \<Rightarrow> output_format \<Rightarrow> unit io" where
  "run_provision C tpm target output dry_run extend_tpm format =
     io_bind (run_integrity_gates target) (\<lambda>_.
     io_bind (canonical_target_file target) (\<lambda>target.
     io_bind (fs_read target (Read_failed ''target'')) (\<lambda>img.
     if img = [] then io_fail (Empty_file ''target'')
     else
       io_bind (io_of map_dfim_error (assert_image_bounds (length img))) (\<lambda>_.
       io_bind (io_of map_dfim_error (build_boot_sidecar C img)) (\<lambda>sidecar.
       io_bind (io_of map_dfim_error (parse_boot_manifest sidecar)) (\<lambda>manifest.
       io_bind (io_of map_dfim_error (validate_boot_image C img manifest)) (\<lambda>validated.
       let root = vb_merkle_root validated in
       io_bind (if extend_tpm then extend_merkle_to_tpm tpm root else io_return ()) (\<lambda>_.
       if dry_run
       then
         io_bind (emit_provision_event C target ProvisionV1 Success None (Some root) True) (\<lambda>_.
         write_command_json C ''provision_v1'' target format ''success'' (Some root) None (Some (length img)) True)
       else
         let output = (case output of Some p \<Rightarrow> p | None \<Rightarrow> default_sidecar_path target) in
         io_bind (create_output_directory output) (\<lambda>_.
         io_bind (fs_write output sidecar Write_failed) (\<lambda>_.
         io_bind (emit_provision_event C target ProvisionV1 Success None (Some root) False) (\<lambda>_.
         write_command_json C ''provision_v1'' target format ''success'' (Some root) None (Some (length img)) False)))))))))))"

record provision_v2_args =
  pv_target :: host_path
  pv_output :: "host_path option"
  pv_signing_key :: host_path
  pv_key_id :: bytes
  pv_release_counter :: u64
  pv_dry_run :: bool
  pv_extend_tpm :: bool
  pv_format :: output_format

definition run_provision_v2 :: "hash_prims \<Rightarrow> sig_prims \<Rightarrow> tpm_device option \<Rightarrow> provision_v2_args \<Rightarrow> unit io" where
  "run_provision_v2 C S tpm args =
     io_bind (run_integrity_gates (pv_target args)) (\<lambda>_.
     if pv_release_counter args = 0 then io_fail (Message ''release counter must be greater than zero'')
     else
       io_bind (canonical_target_file (pv_target args)) (\<lambda>target.
       io_bind (fs_read target (Read_failed ''target'')) (\<lambda>img.
       io_bind (io_of map_dfim_error (assert_image_bounds (length img))) (\<lambda>_.
       io_bind (read_private_key (pv_signing_key args)) (\<lambda>private_key.
       io_bind (io_of id (cli_decode_hex_exact 16 (pv_key_id args))) (\<lambda>key_id.
       io_bind (io_of map_dfim_error
         (build_signed_boot_sidecar_v2 C S img private_key key_id (pv_release_counter args))) (\<lambda>sidecar.
       io_bind (io_of map_dfim_error (public_key_sec1_from_private S private_key)) (\<lambda>public_key_sec1.
       let policy = \<lparr>public_key_sec1 = public_key_sec1, expected_key_id = key_id,
                     minimum_release = pv_release_counter args\<rparr> in
       io_bind (io_of map_dfim_error (validate_signed_boot_image_v2 C S img sidecar policy)) (\<lambda>validated.
       let root = vb_merkle_root (vs_boot validated); release = vs_release_counter validated in
       io_bind (if pv_extend_tpm args then extend_merkle_to_tpm tpm root else io_return ()) (\<lambda>_.
       if pv_dry_run args
       then
         io_bind (emit_provision_event C target ProvisionV2 Success (Some release) (Some root) True) (\<lambda>_.
         write_command_json C ''provision_v2'' target (pv_format args) ''success'' (Some root) (Some release)
           (Some (length img)) True)
       else
         let output = (case pv_output args of Some p \<Rightarrow> p | None \<Rightarrow> default_sidecar_path target) in
         io_bind (create_output_directory output) (\<lambda>_.
         io_bind (fs_write output sidecar Write_failed) (\<lambda>_.
         io_bind (emit_provision_event C target ProvisionV2 Success (Some release) (Some root) False) (\<lambda>_.
         write_command_json C ''provision_v2'' target (pv_format args) ''success'' (Some root) (Some release)
           (Some (length img)) False)))))))))))))"

definition write_rollback_payload :: "bytes \<Rightarrow> u64 \<Rightarrow> host_path \<Rightarrow> unit io" where
  "write_rollback_payload key_id min_release output =
     io_bind (io_of id (cli_decode_hex_exact 16 key_id)) (\<lambda>key_id.
     io_bind (io_of map_dfim_error (build_rollback_baseline key_id min_release)) (\<lambda>payload.
     fs_write output payload Write_failed))"

section \<open>Attestation commands\<close>

text \<open>The exit status of the process.\<close>

definition SUCCESS :: int where "SUCCESS = 0"
definition FAILURE :: int where "FAILURE = 1"

definition report_attestation_command :: "unit io \<Rightarrow> host \<Rightarrow> int \<times> host" where
  "report_attestation_command run h = (case run h of (Ok _, h') \<Rightarrow> (SUCCESS, h') | (_, h') \<Rightarrow> (FAILURE, h'))"

definition write_attestation_challenge :: "bytes \<Rightarrow> u64 \<Rightarrow> u64 \<Rightarrow> bytes \<Rightarrow> host_path \<Rightarrow> unit io" where
  "write_attestation_challenge nonce release_counter policy_generation root_hex output =
     (if release_counter = 0 \<or> policy_generation = 0
      then io_fail (Message ''release counter and policy generation must be positive'')
      else
        io_bind (io_of id (cli_decode_hex_exact 32 nonce)) (\<lambda>nonce.
        io_bind (io_of id (cli_decode_hex_exact 32 root_hex)) (\<lambda>root.
        let challenge = \<lparr>ch_nonce = nonce, ch_release_counter = release_counter,
              ch_policy_generation = policy_generation, ch_merkle_root = root\<rparr>
        in fs_write output (encode_attestation_challenge challenge) Write_failed)))"

definition command_write_attestation_challenge :: "bytes \<Rightarrow> u64 \<Rightarrow> u64 \<Rightarrow> bytes \<Rightarrow> host_path \<Rightarrow> host \<Rightarrow> int \<times> host" where
  "command_write_attestation_challenge nonce release_counter policy_generation root_hex output =
     report_attestation_command (write_attestation_challenge nonce release_counter policy_generation root_hex output)"

definition read_exact_file :: "nat \<Rightarrow> host_path \<Rightarrow> bytes io" where
  "read_exact_file n path =
     io_bind (fs_read path (Read_failed [])) (\<lambda>bs.
     if length bs \<noteq> n then io_fail (Message ''unexpected file size'') else io_return bs)"

definition split_pcrs :: "bytes \<Rightarrow> (cli_error, bytes list) outcome" where
  "split_pcrs raw_pcrs = fold_outcome (\<lambda>values index.
     let start = index * 32 in
     and_then (sub_slice raw_pcrs start (start + 32)) (\<lambda>value. Ok (values[index := value])))
     (replicate ATTESTED_PCR_COUNT (replicate 32 0)) [0..<ATTESTED_PCR_COUNT]"

definition write_attestation_policy ::
  "sig_prims \<Rightarrow> bytes \<Rightarrow> u64 \<Rightarrow> u64 \<Rightarrow> bytes \<Rightarrow> host_path \<Rightarrow> host_path \<Rightarrow> unit io" where
  "write_attestation_policy S ak_public_key min_release policy_generation root_hex pcr_values_path output =
     (if min_release = 0 \<or> policy_generation = 0
      then io_fail (Message ''release floor and policy generation must be positive'')
      else
        io_bind (read_exact_file (ATTESTED_PCR_COUNT * 32) pcr_values_path) (\<lambda>raw_pcrs.
        io_bind (io_of id (split_pcrs raw_pcrs)) (\<lambda>expected_pcr_values.
        io_bind (io_of id (cli_decode_hex_exact 33 ak_public_key)) (\<lambda>ak.
        io_bind (io_of id (cli_decode_hex_exact 32 root_hex)) (\<lambda>root.
        let policy = \<lparr>ap_ak_public_key_sec1 = ak, ap_expected_pcr_values = expected_pcr_values,
              ap_minimum_release = min_release, ap_expected_policy_generation = policy_generation,
              ap_expected_merkle_root = root\<rparr>;
            encoded = encode_attestation_policy policy
        in io_bind (io_of Message (parse_attestation_policy S encoded)) (\<lambda>_.
           fs_write output encoded Write_failed))))))"

definition command_write_attestation_policy ::
  "sig_prims \<Rightarrow> bytes \<Rightarrow> u64 \<Rightarrow> u64 \<Rightarrow> bytes \<Rightarrow> host_path \<Rightarrow> host_path \<Rightarrow> host \<Rightarrow> int \<times> host" where
  "command_write_attestation_policy S ak_public_key min_release policy_generation root_hex pcr_values output =
     report_attestation_command (write_attestation_policy S ak_public_key min_release policy_generation root_hex pcr_values output)"

definition verify_attestation_files ::
  "hash_prims \<Rightarrow> sig_prims \<Rightarrow> host_path \<Rightarrow> host_path \<Rightarrow> host_path \<Rightarrow> verified_attestation io" where
  "verify_attestation_files C S challenge evidence policy =
     io_bind (io_bind (fs_read challenge (Read_failed ''challenge'')) (\<lambda>bs. io_of Message (parse_attestation_challenge bs))) (\<lambda>challenge.
     io_bind (io_bind (fs_read evidence (Read_failed ''evidence'')) (\<lambda>bs. io_of Message (parse_attestation_evidence bs))) (\<lambda>evidence.
     io_bind (io_bind (fs_read policy (Read_failed ''policy'')) (\<lambda>bs. io_of Message (parse_attestation_policy S bs))) (\<lambda>policy.
     io_of Message (verify_attestation C S evidence challenge policy))))"

definition command_verify_attestation ::
  "hash_prims \<Rightarrow> sig_prims \<Rightarrow> host_path \<Rightarrow> host_path \<Rightarrow> host_path \<Rightarrow> host \<Rightarrow> int \<times> host" where
  "command_verify_attestation C S challenge evidence policy h =
     (case verify_attestation_files C S challenge evidence policy h of
        (Ok verified, h') \<Rightarrow> (SUCCESS, h') | (_, h') \<Rightarrow> (FAILURE, h'))"

definition run_attestation_enroll :: "tpm_device option \<Rightarrow> host_path \<Rightarrow> host_path \<Rightarrow> host_path \<Rightarrow> unit io" where
  "run_attestation_enroll tpm private_blob_path public_blob_path ak_public_key_path =
     (case tpm of
        None \<Rightarrow> io_fail (Message ''attestation-enroll requires Linux compiled with --features tpm'')
      | Some device \<Rightarrow>
          io_bind (io_of id (tpm_create_key device)) (\<lambda>(private_blob, public_blob, public_key_sec1).
          io_bind (fs_create_new_mode private_blob_path 0x180 Create_failed) (\<lambda>_.
          io_bind (fs_write_all private_blob_path private_blob Write_failed) (\<lambda>_.
          io_bind (fs_write public_blob_path public_blob Write_failed) (\<lambda>_.
          fs_write ak_public_key_path (ascii (hex_encode public_key_sec1)) Write_failed)))))"

definition run_attestation_quote :: "tpm_device option \<Rightarrow> host_path \<Rightarrow> host_path \<Rightarrow> host_path \<Rightarrow> host_path \<Rightarrow> unit io" where
  "run_attestation_quote tpm challenge_path private_blob_path public_blob_path output =
     (case tpm of
        None \<Rightarrow> io_fail (Message ''attestation-quote requires Linux compiled with --features tpm'')
      | Some device \<Rightarrow>
          io_bind (io_bind (fs_read challenge_path (Read_failed [])) (\<lambda>bs. io_of Message (parse_attestation_challenge bs))) (\<lambda>challenge.
          io_bind (fs_read private_blob_path (Read_failed [])) (\<lambda>private_blob.
          io_bind (fs_read public_blob_path (Read_failed [])) (\<lambda>public_blob.
          io_bind (io_of id (tpm_quote_for device challenge private_blob public_blob)) (\<lambda>evidence.
          io_bind (io_of Message (encode_attestation_evidence evidence)) (\<lambda>encoded.
          fs_write output encoded Write_failed))))))"

section \<open>Recovery\<close>

definition command_recover_v2 ::
  "hash_prims \<Rightarrow> sig_prims \<Rightarrow> host_path \<Rightarrow> host_path option \<Rightarrow> host_path \<Rightarrow> host_path \<Rightarrow> bytes \<Rightarrow> bytes \<Rightarrow> u64 \<Rightarrow>
   output_format \<Rightarrow> host \<Rightarrow> int \<times> host" where
  "command_recover_v2 C S target st recovery_image recovery_sidecar public_key key_id min_release format h =
     (let failed = (\<lambda>h.
            case emit_security_event C target RecoveryV2 Failure None None h of (_, h1) \<Rightarrow>
            case write_command_json C ''recover_v2'' target format ''failure'' None None None False h1 of (_, h2) \<Rightarrow>
            (FAILURE, h2))
      in case parse_trusted_policy public_key key_id min_release of
           Ok policy \<Rightarrow>
             let target_sidecar = (case st of Some p \<Rightarrow> p | None \<Rightarrow> default_sidecar_path target);
                 request = \<lparr>rr_target = target, rr_target_sidecar = target_sidecar, rr_recovery_image = recovery_image,
                            rr_recovery_sidecar = recovery_sidecar, rr_policy = policy\<rparr>
             in case recover_target_atomically C S request h of
                  (Ok report, h1) \<Rightarrow>
                    (case emit_security_event C target RecoveryV2 Success (Some (rp_release_counter report))
                            (Some (rp_merkle_root report)) h1 of
                       (Ok _, h2) \<Rightarrow>
                         (case write_command_json C ''recover_v2'' target format ''success'' (Some (rp_merkle_root report))
                                 (Some (rp_release_counter report)) (Some (rp_restored_bytes report)) False h2 of
                            (Ok _, h3) \<Rightarrow> (SUCCESS, h3) | (_, h3) \<Rightarrow> (FAILURE, h3))
                     | (_, h2) \<Rightarrow> (FAILURE, h2))
                | (_, h1) \<Rightarrow> failed h1
         | _ \<Rightarrow> failed h)"

section \<open>Dispatch\<close>

datatype commands =
    Verify host_path "host_path option"
  | Verify_V2 host_path "host_path option" bytes bytes u64
  | Recover_V2 host_path "host_path option" host_path host_path bytes bytes u64
  | Provision host_path "host_path option" bool bool
  | Provision_V2 host_path "host_path option" host_path bytes u64 bool bool
  | Rollback_Payload bytes u64 host_path
  | Attestation_Challenge bytes u64 u64 bytes host_path
  | Attestation_Policy bytes u64 u64 bytes host_path host_path
  | Attestation_Verify host_path host_path host_path
  | Attestation_Enroll host_path host_path host_path
  | Attestation_Quote host_path host_path host_path host_path
  | RawStress raw_stress_args
  | No_command "host_path option" "host_path option" bool bool

definition report_provision ::
  "hash_prims \<Rightarrow> string \<Rightarrow> cli_event_type \<Rightarrow> host_path \<Rightarrow> output_format \<Rightarrow> bool \<Rightarrow> unit io \<Rightarrow> host \<Rightarrow> int \<times> host" where
  "report_provision C command event_type target format dry_run run h =
     (case run h of
        (Ok _, h1) \<Rightarrow> (SUCCESS, h1)
      | (_, h1) \<Rightarrow>
          (case emit_provision_event C target event_type Failure None None dry_run h1 of (_, h2) \<Rightarrow>
           case write_command_json C command target format ''failure'' None None None dry_run h2 of (_, h3) \<Rightarrow>
           (FAILURE, h3)))"

text \<open>The arm without a command: the arguments of the first release.\<close>

definition provision_without_command ::
  "hash_prims \<Rightarrow> tpm_device option \<Rightarrow> output_format \<Rightarrow> host_path option \<Rightarrow> host_path option \<Rightarrow> bool \<Rightarrow> bool \<Rightarrow> host \<Rightarrow> int \<times> host" where
  "provision_without_command C tpm format target output dry_run extend_tpm h =
     (case target of None \<Rightarrow> (FAILURE, h)
      | Some target \<Rightarrow>
          report_provision C ''provision_v1'' ProvisionV1 target format dry_run
            (run_provision C tpm target output dry_run extend_tpm format) h)"

definition cli_main ::
  "hash_prims \<Rightarrow> sig_prims \<Rightarrow> tpm_device option \<Rightarrow> stress_env \<Rightarrow> string \<Rightarrow> commands \<Rightarrow> host \<Rightarrow> int \<times> host" where
  "cli_main C S tpm env format_text command h =
     (case output_format_parse format_text of
        Ok format \<Rightarrow>
          (case command of
             Verify target st \<Rightarrow> verify_or_exit C \<lparr>va_target = target, va_state = st, va_format = format\<rparr> h
           | Verify_V2 target st public_key key_id min_release \<Rightarrow>
               (case parse_trusted_policy public_key key_id min_release of
                  Ok policy \<Rightarrow>
                    verify_v2_or_exit C S \<lparr>v2_target = target, v2_state = st, v2_policy = policy, v2_format = format\<rparr> h
                | _ \<Rightarrow>
                    (case emit_security_event C target VerifyV2 Failure None None h of (_, h1) \<Rightarrow>
                     case write_command_json C ''verify_v2'' target format ''failure'' None None None False h1 of (_, h2) \<Rightarrow>
                     (FAILURE, h2)))
           | Recover_V2 target st recovery_image recovery_sidecar public_key key_id min_release \<Rightarrow>
               command_recover_v2 C S target st recovery_image recovery_sidecar public_key key_id min_release format h
           | Provision target output dry_run extend_tpm \<Rightarrow>
               report_provision C ''provision_v1'' ProvisionV1 target format dry_run
                 (run_provision C tpm target output dry_run extend_tpm format) h
           | Provision_V2 target output signing_key key_id release_counter dry_run extend_tpm \<Rightarrow>
               report_provision C ''provision_v2'' ProvisionV2 target format dry_run
                 (run_provision_v2 C S tpm \<lparr>pv_target = target, pv_output = output, pv_signing_key = signing_key,
                    pv_key_id = key_id, pv_release_counter = release_counter, pv_dry_run = dry_run,
                    pv_extend_tpm = extend_tpm, pv_format = format\<rparr>) h
           | Rollback_Payload key_id min_release output \<Rightarrow>
               report_attestation_command (write_rollback_payload key_id min_release output) h
           | Attestation_Challenge nonce release_counter policy_generation root output \<Rightarrow>
               command_write_attestation_challenge nonce release_counter policy_generation root output h
           | Attestation_Policy ak_public_key min_release policy_generation root pcr_values output \<Rightarrow>
               command_write_attestation_policy S ak_public_key min_release policy_generation root pcr_values output h
           | Attestation_Verify challenge evidence policy \<Rightarrow> command_verify_attestation C S challenge evidence policy h
           | Attestation_Enroll private_blob public_blob ak_public_key \<Rightarrow>
               report_attestation_command (run_attestation_enroll tpm private_blob public_blob ak_public_key) h
           | Attestation_Quote challenge private_blob public_blob output \<Rightarrow>
               report_attestation_command (run_attestation_quote tpm challenge private_blob public_blob output) h
           | RawStress args \<Rightarrow>
               (case run_raw_stress C env args h of (Ok _, h1) \<Rightarrow> (SUCCESS, h1) | (_, h1) \<Rightarrow> (FAILURE, h1))
           | No_command target output dry_run extend_tpm \<Rightarrow>
               provision_without_command C tpm format target output dry_run extend_tpm h)
      | _ \<Rightarrow> (FAILURE, h))"

section \<open>Commands on a host without faults\<close>

text \<open>What reporting may change: the audit sink and standard output.\<close>

definition audited :: "host \<Rightarrow> host \<Rightarrow> bool" where
  "audited h h' \<longleftrightarrow> fault_free h' \<and> canonical h' = canonical h \<and> telemetry_path h' = telemetry_path h \<and>
     (\<forall>q. telemetry_path h \<noteq> Some q \<longrightarrow> contents (disk_of h') q = contents (disk_of h) q)"

lemma audited_refl: "fault_free h \<Longrightarrow> audited h h"
  by (simp add: audited_def)

lemma audited_trans: "audited h h' \<Longrightarrow> audited h' h'' \<Longrightarrow> audited h h''"
  by (auto simp: audited_def)

lemma fault_free_disk [simp]: "fault_free (h\<lparr>disk_of := d\<rparr>) \<longleftrightarrow> fault_free h" "fault_free (h\<lparr>stdout := t\<rparr>) \<longleftrightarrow> fault_free h"
  by (simp_all add: fault_free_def)

lemma clean_emit:
  assumes "fault_free h"
  shows "\<exists>h'. cli_emit_configured e h = (Ok (), h') \<and> audited h h'"
proof (cases "telemetry_path h")
  case (Some p)
  then show ?thesis
    using assms by (cases "contents (disk_of h) p")
      (auto simp: cli_emit_configured_def cli_append_event_def io_bind_def fs_ops clean_op_free audited_def)
qed (simp add: cli_emit_configured_def audited_refl assms)

lemma clean_stdout:
  assumes "fault_free h"
  shows "\<exists>h'. write_stdout r h = (Ok (), h') \<and> audited h h'"
  using assms by (simp add: write_stdout_def stdout_write_def io_bind_def clean_op_free audited_def)

lemma clean_reports:
  assumes "fault_free h"
  shows "\<exists>h'. write_command_json C cmd t fmt out root rel n dry h = (Ok (), h') \<and> audited h h'"
    and "\<exists>h'. write_verify_json C cmd t fmt out rep h = (Ok (), h') \<and> audited h h'"
    and "\<exists>h'. emit_provision_event C t ty oc rel root dry h = (Ok (), h') \<and> audited h h'"
    and "\<exists>h'. emit_verify_event C t ty oc root h = (Ok (), h') \<and> audited h h'"
  using clean_stdout [OF assms] clean_emit [OF assms] audited_refl [OF assms]
  by (simp_all add: write_command_json_def write_verify_json_def emit_provision_event_def emit_verify_event_def
      io_return_def split: option.split)

lemma clean_target:
  "canonical h p = Some q \<Longrightarrow> contents (disk_of h) q = Some img \<Longrightarrow> canonical_target_file p h = (Ok q, h)"
  by (simp add: canonical_target_file_def fs_is_file_def)

lemma clean_directory: "fault_free h \<Longrightarrow> create_output_directory p h = (Ok (), h)"
  by (cases h) (simp add: create_output_directory_def fs_ops clean_op_free io_return_def split: option.split)

lemma clean_verify:
  assumes h: "fault_free h" and p: "0 < length (path_text p)" "length (path_text p) \<le> 2 ^ 32 - 1"
    and q: "canonical h p = Some q" "contents (disk_of h) q = Some img" "img \<noteq> []"
    and s: "contents (disk_of h) (default_sidecar_path q) = Some blob" "blob \<noteq> []"
  shows "verify_target C \<lparr>va_target = p, va_state = None, va_format = fmt\<rparr> h =
    (and_then (map_err map_dfim_error (assert_image_bounds (length img))) (\<lambda>_. check_image_against_state C img blob), h)"
proof -
  have "map_err id r = r" for r :: "(cli_error, 'z) outcome" by (cases r) simp_all
  then show ?thesis
    using clean_gates [OF p] clean_target [OF q(1,2)] q s
    by (cases "assert_image_bounds (length img)")
      (simp_all add: verify_target_def io_bind_def read_non_empty_file_def clean_fs_read [OF h] io_return_def
        verify_image_bytes_against_state_def io_of_def Let_def)
qed

lemma audited_free: "audited h h' \<Longrightarrow> fault_free h'"
  by (simp add: audited_def)

lemma clean_report:
  assumes "fault_free h"
  shows "\<exists>h1 h2. emit_verify_event C t ty oc root h = (Ok (), h1) \<and>
    write_verify_json C cmd t fmt out rep h1 = (Ok (), h2) \<and> audited h h2"
proof -
  obtain h1 where h1: "emit_verify_event C t ty oc root h = (Ok (), h1)" "audited h h1"
    using clean_reports(4) [OF assms] by blast
  obtain h2 where "write_verify_json C cmd t fmt out rep h1 = (Ok (), h2)" "audited h1 h2"
    using clean_reports(2) [OF audited_free [OF h1(2)]] by blast
  then show ?thesis using h1 audited_trans by blast
qed

lemma clean_exit:
  assumes run: "run h = (r, h)" and h: "fault_free h"
  shows "\<exists>h'. report_and_exit C cmd ty t fmt run h = (if is_ok r then 0 else 1, h') \<and> audited h h'"
proof (cases "is_ok r")
  case True
  then obtain rp where r: "r = Ok rp" by (auto simp: is_ok_iff)
  show ?thesis
    using clean_report [OF h, of C t ty Success "Some (vr_merkle_root rp)" cmd fmt "''success''" "Some rp"]
    by (auto simp: report_and_exit_def run r)
next
  case False
  show ?thesis
    using False clean_report [OF h, of C t ty Failure None cmd fmt "''failure''" None]
    by (cases r) (auto simp: report_and_exit_def run)
qed

lemma clean_provision:
  assumes C: "hash_contract C" and h: "fault_free h" and p: "0 < length (path_text p)" "length (path_text p) \<le> 2 ^ 32 - 1"
    and q: "canonical h p = Some q" "contents (disk_of h) q = Some img" and img: "0 < length img" "length img \<le> 262144"
    and b: "build_boot_sidecar C img = Ok blob"
  shows "\<exists>h'. run_provision C tpm p None False False fmt h = (Ok (), h') \<and> fault_free h' \<and> canonical h' = canonical h \<and>
    telemetry_path h' = telemetry_path h \<and>
    (\<forall>x. telemetry_path h \<noteq> Some x \<longrightarrow>
       contents (disk_of h') x = ((contents (disk_of h))(default_sidecar_path q \<mapsto> blob)) x)"
proof -
  let ?m = "to_boot_manifest (sidecar_manifest C img)"
  have m: "parse_boot_manifest blob = Ok ?m"
    using built_sidecar_parses [OF C img(1)] img(2) b by (auto simp: boot_limits)
  obtain v where v: "validate_boot_image C img ?m = Ok v"
    using check_provisioned [OF C img b] m parse_state_bare [OF C m] by (auto simp: check_image_against_state_def)
  have bounds: "assert_image_bounds (length img) = Ok ()"
    using img by (simp add: assert_image_bounds_def validate_image_byte_len_def boot_limits not_less div_ceil_le_iff)
  define h1 where "h1 = h\<lparr>disk_of := set_file (default_sidecar_path q) (Some blob) (disk_of h)\<rparr>"
  have f1: "fault_free h1" using h by (simp add: h1_def)
  have w: "fs_write (default_sidecar_path q) blob e h = (Ok (), h1)" for e
    using h by (simp add: fs_ops clean_op_free h1_def)
  let ?root = "vb_merkle_root v"
  obtain h2 where h2: "emit_provision_event C q ProvisionV1 Success None (Some ?root) False h1 = (Ok (), h2)" "audited h1 h2"
    using clean_reports(3) [OF f1] by blast
  obtain h3 where h3: "write_command_json C ''provision_v1'' q fmt ''success'' (Some ?root) None (Some (length img)) False h2 = (Ok (), h3)"
    "audited h2 h3"
    using clean_reports(1) [OF audited_free [OF h2(2)]] by blast
  have "run_provision C tpm p None False False fmt h = (Ok (), h3)"
    using clean_gates [OF p] clean_target [OF q] img(1) m v b bounds h2(1) h3(1) w clean_directory [OF h]
    by (simp add: run_provision_def io_bind_def clean_fs_read [OF h] q io_of_def io_return_def Let_def)
  moreover have "audited h1 h3" using h2(2) h3(2) by (rule audited_trans)
  ultimately show ?thesis by (auto simp: audited_def h1_def)
qed

section \<open>Properties\<close>

text \<open>
  C8. Provisioning and verification compose. On a host without faults, for every existing target of 1 to 262144 bytes and
  a path of acceptable length that the audit sink does not collide with, the command \<^verbatim>\<open>provision\<close> exits
  with 0 and leaves the built sidecar beside the target. From then on, whatever the target is replaced by, the command
  \<^verbatim>\<open>verify\<close> exits with 0 if the content is the provisioned one, and only if it is equal to it up to zero padding or the two yield
  an explicit SHA-256 collision; otherwise it exits with 1.
\<close>

theorem provision_then_verify:
  assumes "hash_contract C" and "fault_free h" and "fmt \<in> {''text'', ''json''}"
    and "0 < length (path_text p)" and "length (path_text p) \<le> 2 ^ 32 - 1" and "canonical h p = Some q"
    and "contents (disk_of h) q = Some img" and "0 < length img" and "length img \<le> MAX_IMAGE_BYTES"
    and "names q \<noteq> []" and "telemetry_path h \<noteq> Some q" and "telemetry_path h \<noteq> Some (default_sidecar_path q)"
  shows "\<exists>h1 blob. cli_main C S tpm env fmt (Provision p None False False) h = (0, h1) \<and>
    build_boot_sidecar C img = Ok blob \<and> contents (disk_of h1) (default_sidecar_path q) = Some blob \<and>
    contents (disk_of h1) q = Some img \<and>
    (\<forall>img'. let code = fst (cli_main C S tpm env fmt (Verify p None) (h1\<lparr>disk_of := set_file q (Some img') (disk_of h1)\<rparr>)) in
       (code = 0 \<or> code = 1) \<and> (img' = img \<longrightarrow> code = 0) \<and>
       (code = 0 \<longrightarrow> (case image_collision C img img' (proofs (sidecar_manifest C img)) of
          Some (a, b) \<Rightarrow> a \<noteq> b \<and> sha256 C a = sha256 C b | None \<Rightarrow> pad_image img' = pad_image img)))"
proof -
  have len: "length img \<le> 262144" using assms(9) by (simp add: boot_limits)
  obtain format where fmt: "output_format_parse fmt = Ok format"
    using assms(3) by (auto simp: output_format_parse_def)
  obtain blob where b: "build_boot_sidecar C img = Ok blob"
    using built_sidecar_parses [OF assms(1,8,9)] by auto
  have ne: "blob \<noteq> []" using built_sidecar_parses [OF assms(1,8,9)] b
    by (auto simp: parse_boot_manifest_eq parse_block_stream_def HEADER_PREFIX_LEN_def)
  have sq: "default_sidecar_path q \<noteq> q"
    using assms(10) by (cases q) (auto simp: default_sidecar_path_def path_push_def dest: arg_cong [where f = last])
  obtain h1 where run: "run_provision C tpm p None False False format h = (Ok (), h1)" and f1: "fault_free h1"
    and c1: "canonical h1 = canonical h"
    and files: "\<forall>x. telemetry_path h \<noteq> Some x \<longrightarrow>
       contents (disk_of h1) x = ((contents (disk_of h))(default_sidecar_path q \<mapsto> blob)) x"
    using clean_provision [OF assms(1,2,4,5,6,7,8) len b] by blast
  have k1: "contents (disk_of h1) (default_sidecar_path q) = Some blob" "contents (disk_of h1) q = Some img"
    using files assms(7,11,12) sq by auto
  have "let code = fst (cli_main C S tpm env fmt (Verify p None) (h1\<lparr>disk_of := set_file q (Some img') (disk_of h1)\<rparr>)) in
       (code = 0 \<or> code = 1) \<and> (img' = img \<longrightarrow> code = 0) \<and>
       (code = 0 \<longrightarrow> (case image_collision C img img' (proofs (sidecar_manifest C img)) of
          Some (a, b) \<Rightarrow> a \<noteq> b \<and> sha256 C a = sha256 C b | None \<Rightarrow> pad_image img' = pad_image img))" for img'
  proof -
    let ?h = "h1\<lparr>disk_of := set_file q (Some img') (disk_of h1)\<rparr>"
    let ?a = "\<lparr>va_target = p, va_state = None, va_format = format\<rparr>"
    obtain r where r: "verify_target C ?a ?h = (r, ?h)" and ok: "\<And>rp. r = Ok rp \<Longrightarrow> check_image_against_state C img' blob = Ok rp"
      and same: "img' = img \<Longrightarrow> is_ok r"
    proof (cases "img' = []")
      case True
      have "verify_target C ?a ?h = (Err (Empty_file ''target''), ?h)"
        using clean_gates [OF assms(4,5)] clean_target [of ?h p q img'] c1 assms(6)
        by (simp add: verify_target_def io_bind_def read_non_empty_file_def clean_fs_read f1 True io_fail_def Let_def)
      then show ?thesis using that True assms(8) by auto
    next
      case False
      have "verify_target C ?a ?h = (and_then (map_err map_dfim_error (assert_image_bounds (length img')))
          (\<lambda>_. check_image_against_state C img' blob), ?h)"
        by (rule clean_verify) (use assms f1 c1 k1 sq False ne in auto)
      moreover have "is_ok (and_then (map_err map_dfim_error (assert_image_bounds (length img)))
          (\<lambda>_. check_image_against_state C img blob))"
        using check_provisioned [OF assms(1,8) len b] assms(8) len
        by (simp add: assert_image_bounds_def validate_image_byte_len_def boot_limits not_less div_ceil_le_iff)
      ultimately show ?thesis using that by auto
    qed
    obtain h2 where e: "cli_main C S tpm env fmt (Verify p None) ?h = (if is_ok r then 0 else 1, h2)"
      using clean_exit [of "verify_target C ?a" ?h r C "''verify_v1''" VerifyV1 p format, OF r] f1
      by (auto simp: cli_main_def fmt verify_or_exit_def)
    show ?thesis
      using e same check_sound [OF assms(1,8) len b] ok by (auto simp: is_ok_iff Let_def split: if_split_asm)
  qed
  then show ?thesis using run b k1 by (auto simp: cli_main_def fmt report_provision_def SUCCESS_def)
qed

theorem provision_then_verify_witness:
  "\<exists>h1. cli_main bpf_prims sample_sig None stress_unix ''json''
      (Provision (boot_file ''os.efi'') None False False) (sample_recovery_host []) = (0, h1) \<and>
    fst (cli_main bpf_prims sample_sig None stress_unix ''json'' (Verify (boot_file ''os.efi'') None)
      (h1\<lparr>disk_of := set_file (boot_file ''os.efi'') (Some [9, 9]) (disk_of h1)\<rparr>)) = 0"
proof -
  have "fault_free (sample_recovery_host [])" "canonical (sample_recovery_host []) = Some"
    "contents (disk_of (sample_recovery_host [])) (boot_file ''os.efi'') = Some [9, 9]"
    "telemetry_path (sample_recovery_host []) = None" "names (boot_file ''os.efi'') \<noteq> []"
    "path_text (boot_file ''os.efi'') = ''/boot/os.efi''"
    by (simp_all add: fault_free_def sample_recovery_host_def boot_file_path) (simp_all add: boot_file_def path_text_def)
  from provision_then_verify [OF kernel_hash.hash_contract_axioms this(1), of "''json''" "boot_file ''os.efi''" "boot_file ''os.efi''"
      "[9, 9]" sample_sig None stress_unix] this
  show ?thesis by (auto simp: boot_limits Let_def)
qed

end
