(* ===== verification/Linux_Chain.thy ===== *)
theory Linux_Chain
  imports Btf_Offsets Linux_Loader Cli_Commands
begin

text \<open>
  The Linux side from end to end: the sidecar that the provisioner writes, the loader that enrols the target, the offsets that the probe was
  built with, and the hook that resolves a file to a scope key.

  The two sides name a file by device and inode. The loader takes the device from \<^verbatim>\<open>stat\<close> (\<^verbatim>\<open>dfim-ebpf-user/src/main.rs\<close>), the probe from the
  super block (\<^verbatim>\<open>dfim-ebpf/src/vmlinux.rs\<close>). The kernel documents two encodings of a device number for them, and the properties
  say exactly when they agree.
\<close>

section \<open>Device numbers\<close>

text \<open>\<^verbatim>\<open>MKDEV\<close>, the form in kernel memory, and \<^verbatim>\<open>new_encode_dev\<close>, the form that \<^verbatim>\<open>stat\<close> reports; majors have 12 bits and minors 20.\<close>

definition kernel_dev :: "u32 \<Rightarrow> u32 \<Rightarrow> u32" where
  "kernel_dev major minor = push_bit 20 major OR minor"

definition new_encode_dev :: "u32 \<Rightarrow> u32 \<Rightarrow> u32" where
  "new_encode_dev major minor = (minor AND 0xff) OR push_bit 8 major OR push_bit 12 (minor AND NOT 0xff)"

definition dev_number :: "u32 \<Rightarrow> u32 \<Rightarrow> bool" where
  "dev_number major minor \<longleftrightarrow> take_bit 12 major = major \<and> take_bit 20 minor = minor"

lemma dev_bits:
  assumes "dev_number major minor"
  shows "bit (kernel_dev major minor) i \<longleftrightarrow> i < 32 \<and> (if i < 20 then bit minor i else bit major (i - 20))"
    and "bit (new_encode_dev major minor) i \<longleftrightarrow>
      i < 32 \<and> (if i < 8 then bit minor i else if i < 20 then bit major (i - 8) else bit minor (i - 12))"
proof -
  have m: "(0xff :: u32) = mask 8" by (simp add: mask_eq_exp_minus_1)
  have a: "bit major j \<Longrightarrow> j < 12" for j using assms unfolding dev_number_def by (metis bit_take_bit_iff)
  have b: "bit minor j \<Longrightarrow> j < 20" for j using assms unfolding dev_number_def by (metis bit_take_bit_iff)
  show "bit (kernel_dev major minor) i \<longleftrightarrow> i < 32 \<and> (if i < 20 then bit minor i else bit major (i - 20))"
    unfolding kernel_dev_def by (auto simp: bit_simps dest: b a)
  show "bit (new_encode_dev major minor) i \<longleftrightarrow>
      i < 32 \<and> (if i < 8 then bit minor i else if i < 20 then bit major (i - 8) else bit minor (i - 12))"
    unfolding new_encode_dev_def m by (auto simp: bit_simps dest: b a)
qed

lemma device_numbers_agree:
  assumes "dev_number major minor"
  shows "kernel_dev major minor = new_encode_dev major minor \<longleftrightarrow> major = drop_bit 8 minor"
proof
  assume eq: "kernel_dev major minor = new_encode_dev major minor"
  show "major = drop_bit 8 minor"
  proof (rule bit_word_eqI)
    fix i assume "i < LENGTH(32)"
    have hi: "bit major j \<Longrightarrow> j < 12" "bit minor j \<Longrightarrow> j < 20" for j
      using assms unfolding dev_number_def by (metis bit_take_bit_iff)+
    show "bit major i \<longleftrightarrow> bit (drop_bit 8 minor) i"
    proof (cases "i < 12")
      case True
      have "bit (kernel_dev major minor) (i + 8) = bit (new_encode_dev major minor) (i + 8)" by (simp add: eq)
      then show ?thesis using True dev_bits [OF assms, of "i + 8"] by (simp add: bit_drop_bit_eq add.commute)
    next
      case False
      then show ?thesis using hi(1) [of i] hi(2) [of "8 + i"] by (auto simp: bit_drop_bit_eq)
    qed
  qed
next
  assume m: "major = drop_bit 8 minor"
  have b: "bit major j = bit minor (8 + j)" for j by (simp add: m bit_drop_bit_eq)
  show "kernel_dev major minor = new_encode_dev major minor"
    by (rule bit_word_eqI) (auto simp: dev_bits [OF assms] b)
qed

lemma ucast_u32_inj: "ucast a = (ucast b :: u64) \<longleftrightarrow> a = b" for a b :: u32
proof
  assume eq: "ucast a = (ucast b :: u64)"
  show "a = b"
  proof (rule bit_word_eqI)
    fix i assume "i < LENGTH(32)"
    then show "bit a i = bit b i" using arg_cong [OF eq, of "\<lambda>w. bit w i"] by (simp add: bit_simps)
  qed
qed simp

section \<open>The probe finds the key\<close>

text \<open>A file object in kernel memory, laid out by the offsets of the fields, with an inode number and a device.\<close>

definition file_in_memory :: "kernel_memory \<Rightarrow> (bytes \<Rightarrow> bytes \<Rightarrow> u32) \<Rightarrow> u64 \<Rightarrow> u64 \<Rightarrow> u32 \<Rightarrow> bool" where
  "file_in_memory mem v file ino dev \<longleftrightarrow>
     (\<exists>node sb. file \<noteq> 0 \<and> node \<noteq> 0 \<and> sb \<noteq> 0 \<and> read_ptr mem (file + ucast (v (ascii ''file'') (ascii ''f_inode''))) = Some node \<and>
        read_word64 mem (node + ucast (v (ascii ''inode'') (ascii ''i_ino''))) = Some ino \<and>
        read_ptr mem (node + ucast (v (ascii ''inode'') (ascii ''i_sb''))) = Some sb \<and>
        read_word32 mem (sb + ucast (v (ascii ''super_block'') (ascii ''s_dev''))) = Some dev)"

definition bprm_in_memory :: "kernel_memory \<Rightarrow> (bytes \<Rightarrow> bytes \<Rightarrow> u32) \<Rightarrow> u64 \<Rightarrow> u64 \<Rightarrow> bool" where
  "bprm_in_memory mem v bprm file \<longleftrightarrow>
     bprm \<noteq> 0 \<and> read_ptr mem (bprm + ucast (v (ascii ''linux_binprm'') (ascii ''file''))) = Some file"

lemma probe_keys:
  assumes "file_in_memory mem v file ino dev"
  shows "scope_key_from_file mem (target_offsets v) file = Some \<lparr>sk_device_id = ucast dev, sk_inode = ino\<rparr>"
    and "bprm_in_memory mem v bprm file \<Longrightarrow> scope_key_from_bprm mem (target_offsets v) bprm = Some \<lparr>sk_device_id = ucast dev, sk_inode = ino\<rparr>"
  using assms
  by (auto simp: file_in_memory_def bprm_in_memory_def scope_key_from_file_def scope_key_from_bprm_def bpf_core_read_at_def target_offsets_def)

section \<open>The loader enrols the target\<close>

lemma enrolled_scope:
  assumes "provision_target C host sink target sidecar g = (sink', Some s, Ok ())" and "canonicalize host target = Some path"
    and "stat_of host path = Some (dev, ino)"
  obtains root where "g \<noteq> 0" "dfim_scope (sys_maps s) = [\<lparr>sk_device_id = dev, sk_inode = ino\<rparr> \<mapsto> active_entry g root]"
  by (rule provision_Ok [OF assms(1)])
    (use assms(2,3) that in \<open>auto simp: enrolment_script_def fresh_system_def prepare_scope_entry_def commit_scope_entry_def publish_production_config_def\<close>)

text \<open>The answer of the hooks for a file that the loader enrolled, whatever the configuration has become.\<close>

definition config_current :: "u64 \<Rightarrow> dfim_config_v1 option \<Rightarrow> bool" where
  "config_current g c \<longleftrightarrow> (case c of None \<Rightarrow> False | Some cfg \<Rightarrow> config_is_production_ready cfg \<and> cfg_policy_generation cfg = g)"

lemma hook_answer:
  assumes "g \<noteq> 0" and "dfim_scope st = [key \<mapsto> active_entry g root]"
  shows "hook_code (snd (enforce_dfim_policy room k st)) = (if k = key \<and> \<not> config_current g (dfim_config st) then - 1 else 0)"
  using assms
  by (auto simp: enforce_dfim_policy_def evaluate_active evaluate_enforcement_def [of None] hook_code_def DFIM_DENY_def config_current_def Let_def
      split: option.split)

lemma sidecar_paths_agree:
  assumes "names q \<noteq> []"
  shows "path_text (default_sidecar_path q) = default_sidecar (path_text q)"
proof -
  obtain ns n where n: "names q = ns @ [n]" using assms by (metis rev_exhaust)
  show ?thesis by (cases ns) (simp_all add: path_text_def default_sidecar_path_def path_push_def default_sidecar_def n)
qed

text \<open>
  C3. The Linux parts work together, as far as device numbers agree. The provisioner's command exits with 0; on a host that is ready and reads the
  files it left, the loader succeeds; and the probe, built from the type information of that kernel, finds the enrolled file: both
  hooks deny it if the configuration is not ready or of another generation, and allow it otherwise. This holds exactly if the major number is
  the minor number without its low byte, where the encoding of \<^verbatim>\<open>stat\<close> and that of the super block coincide; for every other device, among
  them all usual disks, the hooks allow the enrolled file whatever the configuration.
\<close>

theorem linux_provisioning_enforced:
  assumes "hash_contract C" and "fault_free h" and "fmt \<in> {''text'', ''json''}"
    and "0 < length (path_text p)" and "length (path_text p) \<le> 2 ^ 32 - 1" and "canonical h p = Some q"
    and "contents (disk_of h) q = Some img" and "0 < length img" and "length img \<le> MAX_IMAGE_BYTES"
    and "names q \<noteq> []" and "telemetry_path h \<noteq> Some q" and "telemetry_path h \<noteq> Some (default_sidecar_path q)"
    and "list_all (valid_entry strs) es" and "length (concat (map entry_bytes es)) < 2 ^ 32"
    and "\<And>s f. (s, f) \<in> set TARGETS \<Longrightarrow> field_offsets strs es s f = [v s f]"
    and "dev_number major minor" and "file_in_memory mem v file ino (kernel_dev major minor)" and "bprm_in_memory mem v bprm file" and "g \<noteq> 0"
  shows "\<exists>h1 offsets offs. cli_main C S tpm se fmt (Provision p None False False) h = (0, h1) \<and>
    parse_btf (Some (btf_document es strs)) = Some (Ok offsets) \<and> vmlinux_offsets offsets = Some offs \<and>
    (\<forall>host target. loader_ready host target (path_text q) \<and> (\<forall>n. list_all (\<lambda>x. read_at host n (path_text x) = contents (disk_of h1) x) [q, default_sidecar_path q]) \<and>
       stat_of host (path_text q) = Some (ucast (new_encode_dev major minor), ino) \<longrightarrow>
       (\<exists>s. provision_target C host sink target None g = (sink, Some s, Ok ()) \<and>
          (\<forall>c room. let st = (sys_maps s)\<lparr>dfim_config := c\<rparr>;
               code = (if major = drop_bit 8 minor \<and> \<not> config_current g c then - 1 else 0)
             in snd (bprm_check_security mem offs room bprm st) = code \<and>
                snd (kernel_module_from_file mem offs room file st) = code)))"
proof -
  have len: "length img \<le> 262144" using assms(9) by (simp add: boot_limits)
  obtain format where fmt: "output_format_parse fmt = Ok format" using assms(3) by (auto simp: output_format_parse_def)
  obtain blob where b: "build_boot_sidecar C img = Ok blob" using built_sidecar_parses [OF assms(1,8,9)] by auto
  have sq: "default_sidecar_path q \<noteq> q"
    using assms(10) by (cases q) (auto simp: default_sidecar_path_def path_push_def dest: arg_cong [where f = last])
  obtain h1 where run: "run_provision C tpm p None False False format h = (Ok (), h1)"
    and files: "\<forall>x. telemetry_path h \<noteq> Some x \<longrightarrow> contents (disk_of h1) x = ((contents (disk_of h))(default_sidecar_path q \<mapsto> blob)) x"
    using clean_provision [OF assms(1,2,4,5,6,7,8) len b] by blast
  have k1: "contents (disk_of h1) (default_sidecar_path q) = Some blob" "contents (disk_of h1) q = Some img"
    using files assms(7,11,12) sq by auto
  have offs: "parse_btf (Some (btf_document es strs)) = Some (Ok (map (\<lambda>(s, f). (s, f, v s f)) TARGETS))"
    by (rule parse_document_offsets [OF assms(13-15)])
  have "ucast (kernel_dev major minor) = (ucast (new_encode_dev major minor) :: u64) \<longleftrightarrow> major = drop_bit 8 minor"
    using device_numbers_agree [OF assms(16)] by (simp add: ucast_u32_inj)
  note dev = this
  have "\<exists>s. provision_target C host sink target None g = (sink, Some s, Ok ()) \<and>
      (\<forall>c room. let st = (sys_maps s)\<lparr>dfim_config := c\<rparr>; code = (if major = drop_bit 8 minor \<and> \<not> config_current g c then - 1 else 0)
         in snd (bprm_check_security mem (target_offsets v) room bprm st) = code \<and>
            snd (kernel_module_from_file mem (target_offsets v) room file st) = code)"
    if r: "loader_ready host target (path_text q)" "\<forall>n. list_all (\<lambda>x. read_at host n (path_text x) = contents (disk_of h1) x) [q, default_sidecar_path q]"
      "stat_of host (path_text q) = Some (ucast (new_encode_dev major minor), ino)" for host target
  proof -
    have "serves_target host target (path_text q) img blob"
      using r(1,2) k1 by (auto simp: serves_target_def simp flip: sidecar_paths_agree [OF assms(10)])
    from loader_accepts [OF assms(1,8,9) b this assms(19)] obtain s where s: "provision_target C host sink target None g = (sink, Some s, Ok ())"
      by blast
    have "canonicalize host target = Some (path_text q)" using r(1) by (simp add: loader_ready_def)
    then obtain root where sc: "dfim_scope (sys_maps s) = [\<lparr>sk_device_id = ucast (new_encode_dev major minor), sk_inode = ino\<rparr> \<mapsto> active_entry g root]"
      by (rule enrolled_scope [OF s _ r(3)])
    have "hook_code (snd (enforce_dfim_policy room \<lparr>sk_device_id = ucast (kernel_dev major minor), sk_inode = ino\<rparr> ((sys_maps s)\<lparr>dfim_config := c\<rparr>))) =
        (if major = drop_bit 8 minor \<and> \<not> config_current g c then - 1 else 0)" for room c
      using hook_answer [OF assms(19), of "(sys_maps s)\<lparr>dfim_config := c\<rparr>" _ root room] sc dev by simp
    then show ?thesis
      using s probe_keys [OF assms(17)] assms(18)
      by (auto simp: bprm_check_security_def kernel_module_from_file_def try_bprm_check_security_def try_kernel_module_from_file_def Let_def)
  qed
  then show ?thesis
    using run offs vmlinux_offsets_targets [of v]
    by (intro exI [of _ h1] exI [of _ "map (\<lambda>(s, f). (s, f, v s f)) TARGETS"] exI [of _ "target_offsets v"])
      (auto simp: cli_main_def fmt report_provision_def SUCCESS_def)
qed

text \<open>A host that reads the files of a disk; the target is on the first partition of the first disk (device 8:1).\<close>

definition disk_host :: "disk \<Rightarrow> linux_host" where
  "disk_host d = (sample_host [] [])\<lparr>canonicalize := (\<lambda>_. Some ''/boot/os.efi''), read_at := (\<lambda>_ t. contents d (boot_file (if t = ''/boot/os.efi'' then ''os.efi'' else ''os.efi.dfim''))),
     stat_of := (\<lambda>_. Some (0x801, 2))\<rparr>"

definition sample_memory :: kernel_memory where
  "sample_memory = \<lparr>read_ptr = [0x1040 \<mapsto> 0x2000, 0x20A8 \<mapsto> 0x3000, 0x3028 \<mapsto> 0x4000], read_word64 = [0x3050 \<mapsto> 2], read_word32 = [0x4010 \<mapsto> 0x800001]\<rparr>"

lemma sample_layout:
  defines "v \<equiv> \<lambda>s f. hd (field_offsets sample_strings sample_entries s f)"
  shows "file_in_memory sample_memory v 0x2000 2 (kernel_dev 8 1)" "bprm_in_memory sample_memory v 0x1000 0x2000"
proof -
  have o: "v (ascii ''linux_binprm'') (ascii ''file'') = 64" "v (ascii ''file'') (ascii ''f_inode'') = 168" "v (ascii ''inode'') (ascii ''i_ino'') = 80"
    "v (ascii ''inode'') (ascii ''i_sb'') = 40" "v (ascii ''super_block'') (ascii ''s_dev'') = 16"
    by (simp_all add: v_def field_offsets_def sample_entries_def sample_names member_offset_def ascii_def)
  show "file_in_memory sample_memory v 0x2000 2 (kernel_dev 8 1)"
    unfolding file_in_memory_def o by (intro exI [of _ "0x3000"] exI [of _ "0x4000"]) (simp add: sample_memory_def kernel_dev_def)
  show "bprm_in_memory sample_memory v 0x1000 0x2000"
    unfolding bprm_in_memory_def o by (simp add: sample_memory_def)
qed

theorem linux_provisioning_enforced_witness:
  "\<exists>h1 offsets offs s. cli_main bpf_prims sample_sig None stress_unix ''json'' (Provision (boot_file ''os.efi'') None False False) (sample_recovery_host []) = (0, h1) \<and>
     parse_btf (Some (btf_document sample_entries sample_strings)) = Some (Ok offsets) \<and> vmlinux_offsets offsets = Some offs \<and>
     provision_target bpf_prims (disk_host (disk_of h1)) sample_sink ''os.efi'' None 7 = (sample_sink, Some s, Ok ()) \<and>
     snd (bprm_check_security sample_memory offs True 0x1000 ((sys_maps s)\<lparr>dfim_config := None\<rparr>)) = 0"
proof -
  let ?v = "\<lambda>s f. hd (field_offsets sample_strings sample_entries s f)" and ?q = "boot_file ''os.efi''" and ?h = "sample_recovery_host []"
  have t: "path_text ?q = ''/boot/os.efi''" "default_sidecar_path ?q = boot_file ''os.efi.dfim''" "path_text (boot_file ''os.efi.dfim'') = ''/boot/os.efi.dfim''"
    by (simp_all add: boot_file_def path_text_def default_sidecar_path_def path_push_def)
  have h: "fault_free ?h" "''json'' \<in> {''text'', ''json''}" "0 < length (path_text ?q)" "length (path_text ?q) \<le> 2 ^ 32 - 1" "canonical ?h ?q = Some ?q"
    "contents (disk_of ?h) ?q = Some [9, 9]" "0 < length [9 :: u8, 9]" "length [9 :: u8, 9] \<le> MAX_IMAGE_BYTES" "names ?q \<noteq> []"
    "telemetry_path ?h \<noteq> Some ?q" "telemetry_path ?h \<noteq> Some (default_sidecar_path ?q)"
    by (simp_all add: t fault_free_def sample_recovery_host_def boot_limits) (simp add: boot_file_def)
  have o: "field_offsets sample_strings sample_entries s f = [?v s f]" if "(s, f) \<in> set TARGETS" for s f
    using sample_document(3) that by (auto simp: list_all_iff)
  have d: "dev_number 8 1" "(7 :: u64) \<noteq> 0" by (simp_all add: dev_number_def)
  note chain = linux_provisioning_enforced [OF kernel_hash.hash_contract_axioms h sample_document(1,2) o d(1) sample_layout d(2),
      of sample_sig None stress_unix sample_sink]
  then obtain h1 offsets offs where c: "cli_main bpf_prims sample_sig None stress_unix ''json'' (Provision ?q None False False) ?h = (0, h1)"
      "parse_btf (Some (btf_document sample_entries sample_strings)) = Some (Ok offsets)" "vmlinux_offsets offsets = Some offs"
      and e: "\<And>host target. loader_ready host target (path_text ?q) \<Longrightarrow>
        \<forall>n. list_all (\<lambda>x. read_at host n (path_text x) = contents (disk_of h1) x) [?q, default_sidecar_path ?q] \<Longrightarrow>
        stat_of host (path_text ?q) = Some (ucast (new_encode_dev 8 1), 2) \<Longrightarrow>
        \<exists>s. provision_target bpf_prims host sample_sink target None 7 = (sample_sink, Some s, Ok ()) \<and>
          (\<forall>c room. let st = (sys_maps s)\<lparr>dfim_config := c\<rparr>; code = (if 8 = drop_bit 8 (1 :: u32) \<and> \<not> config_current 7 c then - 1 else 0)
            in snd (bprm_check_security sample_memory offs room 0x1000 st) = code \<and> snd (kernel_module_from_file sample_memory offs room 0x2000 st) = code)"
    by blast
  let ?host = "disk_host (disk_of h1)"
  have "read_to_string ?host = read_to_string (sample_host [] [])" by (simp add: disk_host_def)
  then have "require_ima_appraisal ?host = require_ima_appraisal (sample_host [] [])" by (simp only: require_ima_appraisal_def)
  then have "loader_ready ?host ''os.efi'' (path_text ?q)" by (simp add: loader_ready_def sample_host_ima t) (simp add: disk_host_def sample_host_def)
  moreover have "\<forall>n. list_all (\<lambda>x. read_at ?host n (path_text x) = contents (disk_of h1) x) [?q, default_sidecar_path ?q]"
    by (simp add: t disk_host_def)
  moreover have "stat_of ?host (path_text ?q) = Some (ucast (new_encode_dev 8 1), 2)" by (simp add: disk_host_def new_encode_dev_def)
  ultimately obtain s where s: "provision_target bpf_prims ?host sample_sink ''os.efi'' None 7 = (sample_sink, Some s, Ok ())"
      "\<forall>c room. snd (bprm_check_security sample_memory offs room 0x1000 ((sys_maps s)\<lparr>dfim_config := c\<rparr>)) =
        (if 8 = drop_bit 8 (1 :: u32) \<and> \<not> config_current 7 c then - 1 else 0)"
    using e [of ?host "''os.efi''"] by (auto simp: Let_def)
  then have "snd (bprm_check_security sample_memory offs True 0x1000 ((sys_maps s)\<lparr>dfim_config := None\<rparr>)) = 0" by simp
  with c s(1) show ?thesis by blast
qed

end
