(* ===== verification/Tpm_Hardware.thy ===== *)
theory Tpm_Hardware
  imports Cli_Commands
begin

text \<open>
  Access to the TPM (\<^verbatim>\<open>dfim_cli_provisioner/src/tpm.rs\<close>): the choice of the device, the extension of PCR 14, the creation of the
  attestation key, and the quote with its two PCR snapshots.

  The crate \<^verbatim>\<open>tss-esapi\<close> and the TPM behind it are the parameter \<open>tss\<close>: each call takes the state of the platform and returns the state
  it leaves. Errors are texts, as in the code. What the TPM documents about quotes, PCR reads and keys is the hypothesis \<open>tpm_contract\<close>.
\<close>

section \<open>The library\<close>

datatype hashing_algorithm = Alg_Sha256 | Alg_other_hash
datatype key_algorithm = Ecc_NistP256 | Key_other
datatype signature_scheme = Scheme_EcDsa | Scheme_Null
datatype 'p tss_public = Public_Ecc 'p bytes bytes | Public_other 'p
datatype tss_signature = Signature_EcDsa hashing_algorithm bytes bytes | Signature_other

type_synonym pcr_selection = "(hashing_algorithm \<times> nat list) list"

text \<open>A call on the platform.\<close>

type_synonym ('w, 'a) tpm_op = "'w \<Rightarrow> 'a text_result \<times> 'w"

definition tpm_bind :: "('w, 'a) tpm_op \<Rightarrow> ('a \<Rightarrow> ('w, 'b) tpm_op) \<Rightarrow> ('w, 'b) tpm_op" where
  "tpm_bind m f w = (case m w of (Ok a, w') \<Rightarrow> f a w' | (Err e, w') \<Rightarrow> (Err e, w') | (Panic, w') \<Rightarrow> (Panic, w'))"

definition tpm_of :: "'a text_result \<Rightarrow> ('w, 'a) tpm_op" where
  "tpm_of r w = (r, w)"

record ('w, 't, 'h, 'p, 'a) tss =
  tcti_from_str :: "string \<Rightarrow> 't text_result"
  tcti_device :: "string \<Rightarrow> 't text_result"
  context_new :: "'t \<Rightarrow> ('w, unit) tpm_op"
  digest_try_from :: "bytes \<Rightarrow> bytes text_result"
  data_try_from :: "bytes \<Rightarrow> bytes text_result"
  private_try_from :: "bytes \<Rightarrow> bytes text_result"
  public_marshall :: "'p tss_public \<Rightarrow> bytes text_result"
  public_unmarshall :: "bytes \<Rightarrow> 'p tss_public text_result"
  attest_marshall :: "'a \<Rightarrow> bytes text_result"
  selection_build :: "pcr_selection \<Rightarrow> pcr_selection text_result"
  pcr_extend :: "nat \<Rightarrow> (hashing_algorithm \<times> bytes) list \<Rightarrow> ('w, unit) tpm_op"
  create_ek_object_2 :: "key_algorithm \<Rightarrow> ('w, 'h) tpm_op"
  create_ak_2 :: "'h \<Rightarrow> hashing_algorithm \<Rightarrow> key_algorithm \<Rightarrow> signature_scheme \<Rightarrow> ('w, bytes \<times> 'p tss_public) tpm_op"
  load_ak :: "'h \<Rightarrow> bytes \<Rightarrow> 'p tss_public \<Rightarrow> ('w, 'h) tpm_op"
  pcr_read :: "pcr_selection \<Rightarrow> ('w, u32 \<times> pcr_selection \<times> bytes list) tpm_op"
  context_quote :: "'h \<Rightarrow> bytes \<Rightarrow> signature_scheme \<Rightarrow> pcr_selection \<Rightarrow> ('w, 'a \<times> tss_signature) tpm_op"
  flush_context :: "'h \<Rightarrow> ('w, unit) tpm_op"

section \<open>The module\<close>

definition TPM_DEVICE_CANDIDATES :: "string list" where
  "TPM_DEVICE_CANDIDATES = [''/dev/tpmrm0'', ''/dev/tpm0'']"

text \<open>The environment of the process: the variable \<^verbatim>\<open>DFIM_TPM_TCTI\<close> and the device files.\<close>

record tpm_env =
  te_tcti :: "string option"
  te_exists :: "string \<Rightarrow> bool"

record enrolled_attestation_key =
  ek_private_blob :: bytes
  ek_public_blob :: bytes
  ek_public_key_sec1 :: bytes

definition try_open_tpm_context :: "('w, 't, 'h, 'p, 'a) tss \<Rightarrow> string \<Rightarrow> ('w, unit) tpm_op" where
  "try_open_tpm_context T device_path = tpm_bind (tpm_of (tcti_device T device_path)) (context_new T)"

primrec try_candidates :: "('w, 't, 'h, 'p, 'a) tss \<Rightarrow> tpm_env \<Rightarrow> string list \<Rightarrow> string option \<Rightarrow> ('w, string) tpm_op" where
  "try_candidates T env [] last_err =
     tpm_of (Err (''no accessible Linux TPM device (tried /dev/tpmrm0, /dev/tpm0): '' @
       (case last_err of None \<Rightarrow> ''none present'' | Some e \<Rightarrow> e)))"
| "try_candidates T env (candidate # candidates) last_err =
     (if \<not> te_exists env candidate then try_candidates T env candidates last_err
      else (\<lambda>w. case try_open_tpm_context T candidate w of
              (Ok _, w') \<Rightarrow> (Ok candidate, w')
            | (Err e, w') \<Rightarrow> try_candidates T env candidates (Some (candidate @ '': '' @ e)) w'
            | (Panic, w') \<Rightarrow> (Panic, w')))"

definition open_first_available_tpm_context :: "('w, 't, 'h, 'p, 'a) tss \<Rightarrow> tpm_env \<Rightarrow> ('w, string) tpm_op" where
  "open_first_available_tpm_context T env =
     (let fallback = try_candidates T env TPM_DEVICE_CANDIDATES None in
      case te_tcti env of
        Some tcti_name \<Rightarrow>
          if tcti_name \<noteq> []
          then tpm_bind (tpm_of (tcti_from_str T tcti_name)) (\<lambda>tcti. tpm_bind (context_new T tcti) (\<lambda>_. tpm_of (Ok tcti_name)))
          else fallback
      | None \<Rightarrow> fallback)"

definition extend_merkle_root_to_hardware_tpm :: "('w, 't, 'h, 'p, 'a) tss \<Rightarrow> tpm_env \<Rightarrow> bytes \<Rightarrow> ('w, unit) tpm_op" where
  "extend_merkle_root_to_hardware_tpm T env r =
     tpm_bind (open_first_available_tpm_context T env) (\<lambda>_.
     tpm_bind (tpm_of (digest_try_from T r)) (\<lambda>digest.
     pcr_extend T 14 [(Alg_Sha256, digest)]))"

definition ecc_public_to_sec1 :: "sig_prims \<Rightarrow> 'p tss_public \<Rightarrow> bytes text_result" where
  "ecc_public_to_sec1 S public =
     (case public of
        Public_other _ \<Rightarrow> Err ''TPM AK public object is not ECC''
      | Public_Ecc _ x y \<Rightarrow>
          if x = [] \<or> length x > 32 \<or> y = [] \<or> length y > 32 then Err ''TPM AK is not a P-256 public key''
          else
            and_then (index_at y (length y - 1)) (\<lambda>y_last.
            let encoded = (replicate 33 0)[0 := 0x02 OR (y_last AND 1)];
                encoded = put encoded (33 - length x) x
            in if \<not> verifying_key_ok S encoded then Err ''TPM returned an invalid P-256 AK public key'' else Ok encoded))"

definition create_attestation_key :: "('w, 't, 'h, 'p, 'a) tss \<Rightarrow> sig_prims \<Rightarrow> tpm_env \<Rightarrow> ('w, enrolled_attestation_key) tpm_op" where
  "create_attestation_key T S env =
     tpm_bind (open_first_available_tpm_context T env) (\<lambda>_.
     tpm_bind (create_ek_object_2 T Ecc_NistP256) (\<lambda>endorsement_key.
     tpm_bind (create_ak_2 T endorsement_key Alg_Sha256 Ecc_NistP256 Scheme_EcDsa) (\<lambda>(out_private, out_public).
     tpm_bind (tpm_of (ecc_public_to_sec1 S out_public)) (\<lambda>sec1.
     tpm_bind (tpm_of (public_marshall T out_public)) (\<lambda>public_blob.
     tpm_bind (flush_context T endorsement_key) (\<lambda>_.
     tpm_of (Ok \<lparr>ek_private_blob = out_private, ek_public_blob = public_blob, ek_public_key_sec1 = sec1\<rparr>)))))))"

definition attested_pcr_selection :: "('w, 't, 'h, 'p, 'a) tss \<Rightarrow> pcr_selection text_result" where
  "attested_pcr_selection T = selection_build T [(Alg_Sha256, [0, 2, 4, 7, 14])]"

text \<open>The loop of \<^verbatim>\<open>read_pcr_snapshot\<close> over the pairs of an output array and a digest.\<close>

definition copy_pcr_values :: "bytes list \<Rightarrow> bytes list \<Rightarrow> bytes list text_result" where
  "copy_pcr_values values digests =
     fold_outcome (\<lambda>acc (output, digest).
       if length digest \<noteq> length output then Err ''TPM returned a non-SHA-256 PCR value'' else Ok (acc @ [digest]))
     [] (zip values digests)"

definition read_pcr_snapshot :: "('w, 't, 'h, 'p, 'a) tss \<Rightarrow> pcr_selection \<Rightarrow> ('w, u32 \<times> bytes list) tpm_op" where
  "read_pcr_snapshot T selection =
     tpm_bind (pcr_read T selection) (\<lambda>(counter, returned_selection, digests).
     if returned_selection \<noteq> selection \<or> length digests \<noteq> ATTESTED_PCR_COUNT
     then tpm_of (Err ''TPM returned an incomplete PCR selection'')
     else
       tpm_bind (tpm_of (copy_pcr_values (replicate ATTESTED_PCR_COUNT (replicate 32 0)) digests)) (\<lambda>values.
       tpm_of (Ok (counter, values))))"

definition copy_left_padded :: "bytes \<Rightarrow> bytes \<Rightarrow> bytes text_result" where
  "copy_left_padded source output =
     (if source = [] \<or> length source > length output then Err ''invalid TPM ECC signature component length''
      else let start = length output - length source in Ok (put output start source))"

definition normalize_ecdsa_signature :: "tss_signature \<Rightarrow> bytes text_result" where
  "normalize_ecdsa_signature signature =
     (case signature of
        Signature_other \<Rightarrow> Err ''TPM AK returned a non-ECDSA signature''
      | Signature_EcDsa alg r s \<Rightarrow>
          if alg \<noteq> Alg_Sha256 then Err ''TPM AK returned a non-SHA-256 signature''
          else
            let output = replicate 64 0 in
            and_then (copy_left_padded r (take 32 output)) (\<lambda>low.
            and_then (copy_left_padded s (drop 32 output)) (\<lambda>high.
            Ok (low @ high))))"

definition quote_attestation ::
  "('w, 't, 'h, 'p, 'a) tss \<Rightarrow> hash_prims \<Rightarrow> tpm_env \<Rightarrow> attestation_challenge \<Rightarrow> bytes \<Rightarrow> bytes \<Rightarrow> ('w, attestation_evidence) tpm_op" where
  "quote_attestation T C env challenge private_blob public_blob =
     tpm_bind (open_first_available_tpm_context T env) (\<lambda>_.
     tpm_bind (create_ek_object_2 T Ecc_NistP256) (\<lambda>endorsement_key.
     tpm_bind (tpm_of (private_try_from T private_blob)) (\<lambda>private.
     tpm_bind (tpm_of (public_unmarshall T public_blob)) (\<lambda>public.
     tpm_bind (load_ak T endorsement_key private public) (\<lambda>loaded_ak.
     tpm_bind (tpm_of (attested_pcr_selection T)) (\<lambda>selection.
     tpm_bind (read_pcr_snapshot T selection) (\<lambda>(counter_before, pcr_values_before).
     tpm_bind (tpm_of (data_try_from T (attestation_qualifying_data C challenge))) (\<lambda>qualifying_data.
     tpm_bind (context_quote T loaded_ak qualifying_data Scheme_Null selection) (\<lambda>(attest, signature).
     tpm_bind (read_pcr_snapshot T selection) (\<lambda>(counter_after, pcr_values_after).
     if counter_before \<noteq> counter_after \<or> pcr_values_before \<noteq> pcr_values_after
     then tpm_of (Err ''PCR values changed while the TPM quote was generated'')
     else
       tpm_bind (tpm_of (normalize_ecdsa_signature signature)) (\<lambda>signature.
       tpm_bind (tpm_of (attest_marshall T attest)) (\<lambda>quote.
       tpm_bind (flush_context T loaded_ak) (\<lambda>_.
       tpm_bind (flush_context T endorsement_key) (\<lambda>_.
       tpm_of (Ok \<lparr>ev_quote = quote, ev_signature = signature, ev_pcr_values = pcr_values_after\<rparr>)))))))))))))))"

text \<open>The TPM of the provisioner's commands, on a state of the platform.\<close>

definition cli_result :: "'a text_result \<Rightarrow> (cli_error, 'a) outcome" where
  "cli_result r = (case r of Ok a \<Rightarrow> Ok a | Err e \<Rightarrow> Err (Message e) | Panic \<Rightarrow> Panic)"

definition hardware_tpm :: "('w, 't, 'h, 'p, 'a) tss \<Rightarrow> hash_prims \<Rightarrow> sig_prims \<Rightarrow> tpm_env \<Rightarrow> 'w \<Rightarrow> tpm_device" where
  "hardware_tpm T C S env w =
     \<lparr>tpm_extend = (\<lambda>root. cli_result (fst (extend_merkle_root_to_hardware_tpm T env root w))),
      tpm_create_key = and_then (cli_result (fst (create_attestation_key T S env w))) (\<lambda>key.
        Ok (ek_private_blob key, ek_public_blob key, ek_public_key_sec1 key)),
      tpm_quote_for = (\<lambda>challenge private_blob public_blob.
        cli_result (fst (quote_attestation T C env challenge private_blob public_blob w)))\<rparr>"

section \<open>What a TPM documents\<close>

text \<open>
  A view of the platform: the PCRs of the SHA-256 bank, the counter of PCR updates, whether the clock is safe, and the keys under handles.
  Other processes use the TPM too, so a call may leave PCRs that differ from those it found; but then the counter has moved.
\<close>

record ('w, 'h, 'p) tpm_view =
  v_pcr :: "'w \<Rightarrow> nat \<Rightarrow> bytes"
  v_counter :: "'w \<Rightarrow> u32"
  v_safe :: "'w \<Rightarrow> bool"
  v_key :: "'w \<Rightarrow> 'h \<Rightarrow> 'p tss_public option"

definition progress :: "('w, 'h, 'p) tpm_view \<Rightarrow> 'w \<Rightarrow> 'w \<Rightarrow> bool" where
  "progress V w w' \<longleftrightarrow>
     v_counter V w \<le> v_counter V w' \<and> (v_counter V w = v_counter V w' \<longrightarrow> v_pcr V w = v_pcr V w') \<and> (v_safe V w \<longrightarrow> v_safe V w')"

definition left_padded :: "nat \<Rightarrow> bytes \<Rightarrow> bytes" where
  "left_padded n bs = replicate (n - length bs) 0 @ bs"

text \<open>The compressed SEC1 form of a point.\<close>

definition compressed_point :: "bytes \<Rightarrow> bytes \<Rightarrow> bytes" where
  "compressed_point x y = (0x02 OR (last y AND 1)) # left_padded 32 x"

definition pcr_bitmap :: "nat list \<Rightarrow> bytes" where
  "pcr_bitmap slots = map (\<lambda>i. foldl (\<lambda>b s. if s div 8 = i then b OR push_bit (s mod 8) 1 else b) 0 slots) [0, 1, 2]"

definition tpm_quote_over :: "bytes \<Rightarrow> tpm_quote \<Rightarrow> bytes" where
  "tpm_quote_over bitmap q =
     to_be_bytes 4 TPM_GENERATED_VALUE @ to_be_bytes 2 TPM_ST_ATTEST_QUOTE @ tpm2b (tq_signer q) @ tpm2b (tq_extra q) @
     to_be_bytes 8 (tq_clock q) @ to_be_bytes 4 (tq_reset q) @ to_be_bytes 4 (tq_restart q) @ [tq_safe q] @
     to_be_bytes 8 (tq_firmware q) @ to_be_bytes 4 (1 :: u32) @ to_be_bytes 2 TPM_ALG_SHA256 @ [3] @
     bitmap @ tpm2b (tq_digest q)"

text \<open>
  The contract: PCRs have 32 bytes; a read reports the PCRs and the counter at its end; a quote is the marshalled structure over the PCRs at
  its end and the given data, with an ECDSA signature that verifies under the public part of the key; loading puts the given key
  under the handle, and calls keep the keys; marshalling a public part and reading it back gives it again; and builders
  return what they were given.
\<close>

definition read_law :: "('w, 't, 'h, 'p, 'a) tss \<Rightarrow> ('w, 'h, 'p) tpm_view \<Rightarrow> bool" where
  "read_law T V \<longleftrightarrow> (\<forall>w w' n slots digests. pcr_read T [(Alg_Sha256, slots)] w = (Ok (n, [(Alg_Sha256, slots)], digests), w') \<longrightarrow>
     n = v_counter V w' \<and> digests = map (v_pcr V w') slots \<and> v_key V w' = v_key V w)"

definition quote_law :: "('w, 't, 'h, 'p, 'a) tss \<Rightarrow> ('w, 'h, 'p) tpm_view \<Rightarrow> hash_prims \<Rightarrow> sig_prims \<Rightarrow> bool" where
  "quote_law T V C S \<longleftrightarrow> (\<forall>w w' h data scheme slots attest signature.
     context_quote T h data scheme [(Alg_Sha256, slots)] w = (Ok (attest, signature), w') \<longrightarrow>
     (\<exists>q p x y r s. v_key V w h = Some (Public_Ecc p x y) \<and> signature = Signature_EcDsa Alg_Sha256 r s \<and>
        (let m = tpm_quote_over (pcr_bitmap slots) q; sg = left_padded 32 r @ left_padded 32 s in
         attest_marshall T attest = Ok m \<and> signature_ok S sg \<and> verify_sig S (compressed_point x y) m sg) \<and>
        length (tq_signer q) \<le> 68 \<and> tq_extra q = data \<and> tq_safe q = (if v_safe V w' then 1 else 0) \<and>
        tq_digest q = sha256 C (concat (map (v_pcr V w') slots))))"

definition key_law :: "('w, 't, 'h, 'p, 'a) tss \<Rightarrow> ('w, 'h, 'p) tpm_view \<Rightarrow> bool" where
  "key_law T V \<longleftrightarrow>
     (\<forall>w w' ek h priv pub. load_ak T ek priv pub w = (Ok h, w') \<longrightarrow> v_key V w' h = Some pub) \<and>
     (\<forall>pub blob. public_marshall T pub = Ok blob \<longrightarrow> public_unmarshall T blob = Ok pub)"

definition progress_law :: "('w, 't, 'h, 'p, 'a) tss \<Rightarrow> ('w, 'h, 'p) tpm_view \<Rightarrow> bool" where
  "progress_law T V \<longleftrightarrow>
     (\<forall>w tcti. progress V w (snd (context_new T tcti w))) \<and> (\<forall>w alg. progress V w (snd (create_ek_object_2 T alg w))) \<and>
     (\<forall>w h priv pub. progress V w (snd (load_ak T h priv pub w))) \<and> (\<forall>w sel. progress V w (snd (pcr_read T sel w))) \<and>
     (\<forall>w h data scheme sel. progress V w (snd (context_quote T h data scheme sel w))) \<and>
     (\<forall>w h. progress V w (snd (flush_context T h w)))"

definition tpm_contract :: "('w, 't, 'h, 'p, 'a) tss \<Rightarrow> ('w, 'h, 'p) tpm_view \<Rightarrow> hash_prims \<Rightarrow> sig_prims \<Rightarrow> bool" where
  "tpm_contract T V C S \<longleftrightarrow> read_law T V \<and> quote_law T V C S \<and> key_law T V \<and> progress_law T V \<and>
     (\<forall>w slot. length (v_pcr V w slot) = 32) \<and> (\<forall>sel sel'. selection_build T sel = Ok sel' \<longrightarrow> sel' = sel) \<and>
     (\<forall>data data'. data_try_from T data = Ok data' \<longrightarrow> data' = data)"

section \<open>Lemmas\<close>

lemma tpm_bind_Ok [simp]:
  "tpm_bind m f w = (Ok b, w'') \<longleftrightarrow> (\<exists>a w'. m w = (Ok a, w') \<and> f a w' = (Ok b, w''))"
  by (auto simp: tpm_bind_def split: prod.split outcome.split)

lemma tpm_of_Ok [simp]: "tpm_of r w = (Ok a, w') \<longleftrightarrow> r = Ok a \<and> w' = w"
  by (auto simp: tpm_of_def)

lemma attested_bitmap: "pcr_bitmap [0, 2, 4, 7, 14] = PCR_SELECTION_BITMAP"
  by (simp add: pcr_bitmap_def PCR_SELECTION_BITMAP_def push_bit_eq_mult)

lemma quote_over_attested: "tpm_quote_over (pcr_bitmap [0, 2, 4, 7, 14]) q = tpm_quote_bytes q"
  by (simp only: attested_bitmap tpm_quote_over_def tpm_quote_bytes_def)

lemma copy_left_padded_Ok: "copy_left_padded src (replicate n 0) = Ok out \<longleftrightarrow> src \<noteq> [] \<and> length src \<le> n \<and> out = left_padded n src"
  by (auto simp: copy_left_padded_def put_def left_padded_def)

lemma length_left_padded: "length bs \<le> n \<Longrightarrow> length (left_padded n bs) = n"
  by (simp add: left_padded_def)

lemma normalize_Ok:
  "normalize_ecdsa_signature signature = Ok out \<longleftrightarrow>
     (\<exists>r s. signature = Signature_EcDsa Alg_Sha256 r s \<and> r \<noteq> [] \<and> length r \<le> 32 \<and> s \<noteq> [] \<and> length s \<le> 32 \<and>
        out = left_padded 32 r @ left_padded 32 s)"
proof (cases signature)
  case (Signature_EcDsa alg r s)
  have "take 32 (replicate 64 0 :: bytes) = replicate 32 0" "drop 32 (replicate 64 0 :: bytes) = replicate 32 0" by simp_all
  then show ?thesis
    unfolding normalize_ecdsa_signature_def Signature_EcDsa by (auto simp: copy_left_padded_Ok Let_def outcome_simps)
qed (simp add: normalize_ecdsa_signature_def)

lemma sec1_Ok:
  "ecc_public_to_sec1 S public = Ok out \<longleftrightarrow>
     (\<exists>p x y. public = Public_Ecc p x y \<and> x \<noteq> [] \<and> length x \<le> 32 \<and> y \<noteq> [] \<and> length y \<le> 32 \<and>
        out = compressed_point x y \<and> verifying_key_ok S out)"
proof (cases public)
  case (Public_Ecc p x y)
  have e: "put ((replicate 33 0)[0 := b]) (33 - length x) x = b # left_padded 32 x" if "x \<noteq> []" "length x \<le> 32" for b :: u8
  proof -
    have "33 - length x = Suc (32 - length x)" using that by (simp add: Suc_diff_le)
    moreover have "(replicate 33 0)[0 := b] = b # replicate 32 0" by (simp add: numeral_eq_Suc)
    ultimately show ?thesis using that by (simp add: put_def left_padded_def)
  qed
  show ?thesis
    using e unfolding ecc_public_to_sec1_def Public_Ecc
    by (auto simp: compressed_point_def Let_def outcome_simps index_at_def last_conv_nth)
qed (simp add: ecc_public_to_sec1_def)

lemma copy_pcr_values_Ok:
  assumes "length digests = n"
  shows "copy_pcr_values (replicate n (replicate 32 0)) digests = Ok vs \<longleftrightarrow> vs = digests \<and> (\<forall>d\<in>set digests. length d = 32)"
proof -
  have "fold_outcome (\<lambda>acc (output, digest). if length digest \<noteq> length output then Err ''TPM returned a non-SHA-256 PCR value''
          else Ok (acc @ [digest])) acc (zip (replicate (length ds) (replicate 32 (0 :: u8))) ds) = Ok vs \<longleftrightarrow>
      vs = acc @ ds \<and> (\<forall>d\<in>set ds. length d = 32)" for acc :: "bytes list" and ds :: "bytes list"
    by (induction ds arbitrary: acc) auto
  then show ?thesis using assms by (auto simp: copy_pcr_values_def)
qed

lemma read_snapshot_Ok:
  assumes "read_pcr_snapshot T [(Alg_Sha256, slots)] w = (Ok (n, vs), w')" and "read_law T V"
  shows "n = v_counter V w' \<and> vs = map (v_pcr V w') slots \<and> v_key V w' = v_key V w \<and> length vs = 5 \<and> (\<forall>v\<in>set vs. length v = 32)"
proof -
  obtain digests where r: "pcr_read T [(Alg_Sha256, slots)] w = (Ok (n, [(Alg_Sha256, slots)], digests), w')"
      "length digests = 5" "copy_pcr_values (replicate 5 (replicate 32 0)) digests = Ok vs"
    using assms(1) by (auto simp: read_pcr_snapshot_def split: if_splits)
  then show ?thesis using assms(2) copy_pcr_values_Ok [OF r(2), of vs] unfolding read_law_def by blast
qed

lemma progress_trans: "progress V w w' \<Longrightarrow> progress V w' w'' \<Longrightarrow> progress V w w''"
  unfolding progress_def by (intro conjI impI) (auto dest: order_antisym)

lemma progress_refl: "progress V w w"
  by (simp add: progress_def)

lemma progress_bind:
  assumes "progress V w (snd (m w))" and "\<And>a w'. progress V w' (snd (f a w'))"
  shows "progress V w (snd (tpm_bind m f w))"
  using assms by (auto simp: tpm_bind_def split: prod.split outcome.split intro: progress_trans)

lemma progress_open:
  assumes "progress_law T V"
  shows "progress V w (snd (open_first_available_tpm_context T env w))"
proof -
  have n: "progress V w (snd (context_new T tcti w))" for w tcti using assms by (simp add: progress_law_def)
  have o: "progress V w (snd (try_open_tpm_context T d w))" for w d
    unfolding try_open_tpm_context_def by (rule progress_bind) (simp_all add: tpm_of_def progress_refl n)
  have t: "progress V w (snd (try_candidates T env ds e w))" for ds e w
  proof (induction ds arbitrary: e w)
    case (Cons d ds)
    show ?case using o [of w d] Cons
      by (auto split: prod.split outcome.split intro: progress_trans)
  qed (simp add: tpm_of_def progress_refl)
  have "progress V w (snd (tpm_bind (tpm_of r) (\<lambda>tcti. tpm_bind (context_new T tcti) (\<lambda>_. tpm_of (Ok n))) w))" for r n
    by (intro progress_bind) (simp_all add: tpm_of_def progress_refl n)
  then show ?thesis unfolding open_first_available_tpm_context_def Let_def by (auto simp: t split: option.split)
qed

lemma progress_calls:
  assumes "progress_law T V"
  shows "open_first_available_tpm_context T env w = (r1, w') \<Longrightarrow> progress V w w'"
    and "create_ek_object_2 T alg w = (r2, w') \<Longrightarrow> progress V w w'"
    and "load_ak T h priv pub w = (r3, w') \<Longrightarrow> progress V w w'"
    and "read_pcr_snapshot T sel w = (Ok r4, w') \<Longrightarrow> progress V w w'"
    and "context_quote T h data scheme sel w = (r5, w') \<Longrightarrow> progress V w w'"
    and "flush_context T h w = (r6, w') \<Longrightarrow> progress V w w'"
proof -
  have p: "progress V w (snd (create_ek_object_2 T alg w))" "progress V w (snd (load_ak T h priv pub w))"
    "progress V w (snd (pcr_read T sel w))" "progress V w (snd (context_quote T h data scheme sel w))"
    "progress V w (snd (flush_context T h w))"
    using assms by (simp_all add: progress_law_def)
  show "open_first_available_tpm_context T env w = (r1, w') \<Longrightarrow> progress V w w'" using progress_open [OF assms, of w env] by simp
  show "create_ek_object_2 T alg w = (r2, w') \<Longrightarrow> progress V w w'" "load_ak T h priv pub w = (r3, w') \<Longrightarrow> progress V w w'"
    "context_quote T h data scheme sel w = (r5, w') \<Longrightarrow> progress V w w'" "flush_context T h w = (r6, w') \<Longrightarrow> progress V w w'"
    using p by simp_all
  show "read_pcr_snapshot T sel w = (Ok r4, w') \<Longrightarrow> progress V w w'"
    using p(3) by (cases r4) (auto simp: read_pcr_snapshot_def split: if_splits)
qed

lemma same_counter_same_pcrs:
  assumes "progress V a b" and "progress V b c" and "v_counter V a = v_counter V c"
  shows "v_pcr V b = v_pcr V c"
  using assms unfolding progress_def by (metis order_antisym)

text \<open>The evidence of a successful quote: a marshalled quote for the challenge, over exactly the PCR values that are sent along.\<close>

definition evidence_for ::
  "('w, 'h, 'p) tpm_view \<Rightarrow> hash_prims \<Rightarrow> sig_prims \<Rightarrow> attestation_challenge \<Rightarrow> 'p tss_public \<Rightarrow> 'w \<Rightarrow> 'w \<Rightarrow> attestation_evidence \<Rightarrow> bool" where
  "evidence_for V C S challenge public before after ev \<longleftrightarrow>
     (\<exists>q w p x y. progress V before w \<and> progress V w after \<and> public = Public_Ecc p x y \<and> ev_quote ev = tpm_quote_bytes q \<and> wf_quote q \<and> tq_extra q = attestation_qualifying_data C challenge \<and>
        tq_digest q = sha256 C (concat (ev_pcr_values ev)) \<and> ev_pcr_values ev = map (v_pcr V w) [0, 2, 4, 7, 14] \<and> tq_safe q = (if v_safe V w then 1 else 0) \<and>
        length (ev_quote ev) \<le> 4096 \<and> length (ev_signature ev) = 64 \<and> signature_ok S (ev_signature ev) \<and>
        verify_sig S (compressed_point x y) (ev_quote ev) (ev_signature ev))"

lemma quote_attestation_Ok:
  assumes "hash_contract C" and c: "tpm_contract T V C S"
    and "quote_attestation T C env challenge private_blob public_blob w = (Ok ev, w')" and "public_unmarshall T public_blob = Ok public"
  shows "evidence_for V C S challenge public w w' ev \<and> pcr_array (ev_pcr_values ev)"
proof -
  let ?sel = "[(Alg_Sha256, [0, 2, 4, 7, 14])]" and ?data = "attestation_qualifying_data C challenge"
  have laws: "read_law T V" "quote_law T V C S" "key_law T V" "progress_law T V"
    and sel: "\<And>sel'. selection_build T ?sel = Ok sel' \<Longrightarrow> sel' = ?sel" and data: "\<And>d. data_try_from T ?data = Ok d \<Longrightarrow> d = ?data"
    using c unfolding tpm_contract_def by auto
  obtain path w1 ek w2 priv w3 ak w4 n vs w5 att sg w6 sig w7 where
    s1: "open_first_available_tpm_context T env w = (Ok path, w1)" and s2: "create_ek_object_2 T Ecc_NistP256 w1 = (Ok ek, w2)" and
    s3: "load_ak T ek priv public w2 = (Ok ak, w3)" and s4: "read_pcr_snapshot T ?sel w3 = (Ok (n, vs), w4)" and
    s5: "context_quote T ak ?data Scheme_Null ?sel w4 = (Ok (att, sg), w5)" and s6: "read_pcr_snapshot T ?sel w5 = (Ok (n, vs), w6)" and
    s7: "normalize_ecdsa_signature sg = Ok sig" and s8: "attest_marshall T att = Ok (ev_quote ev)" and
    s9: "ev_signature ev = sig" "ev_pcr_values ev = vs" and
    s10: "flush_context T ak w6 = (Ok (), w7)" "flush_context T ek w7 = (Ok (), w')"
    using assms(3,4) by (auto simp: quote_attestation_def attested_pcr_selection_def split: if_splits dest!: sel data)
  note pr = progress_calls [OF laws(4)]
  have moment: "progress V w w5" "progress V w5 w'"
    using pr(1) [OF s1] pr(2) [OF s2] pr(3) [OF s3] pr(4) [OF s4] pr(5) [OF s5] pr(4) [OF s6] pr(6) [OF s10(1)] pr(6) [OF s10(2)]
    by (meson progress_trans)+
  note r4 = read_snapshot_Ok [OF s4 laws(1)] and r6 = read_snapshot_Ok [OF s6 laws(1)]
  have same: "v_pcr V w5 = v_pcr V w6"
    using same_counter_same_pcrs [OF pr(5) [OF s5] pr(4) [OF s6]] r4 r6 by simp
  have key: "v_key V w4 ak = Some public" using laws(3) s3 r4 unfolding key_law_def by auto
  from laws(2) [unfolded quote_law_def, rule_format, OF s5] obtain q p x y r s where
    q: "v_key V w4 ak = Some (Public_Ecc p x y)" "sg = Signature_EcDsa Alg_Sha256 r s" "attest_marshall T att = Ok (tpm_quote_bytes q)"
      "signature_ok S (left_padded 32 r @ left_padded 32 s)"
      "verify_sig S (compressed_point x y) (tpm_quote_bytes q) (left_padded 32 r @ left_padded 32 s)"
      "length (tq_signer q) \<le> 68" "tq_extra q = ?data" "tq_safe q = (if v_safe V w5 then 1 else 0)"
      "tq_digest q = sha256 C (concat (map (v_pcr V w5) [0, 2, 4, 7, 14]))"
    unfolding quote_over_attested Let_def by blast
  have sig: "sig = left_padded 32 r @ left_padded 32 s" "length r \<le> 32" "length s \<le> 32" using s7 q(2) by (auto simp: normalize_Ok)
  have "wf_quote q" using q hash_contract.sha256_len [OF assms(1)] by (simp add: wf_quote_def qualifying_data_eq)
  moreover have "length (tpm_quote_bytes q) \<le> 4096"
    using q(6,7,9) hash_contract.sha256_len [OF assms(1)] by (simp add: tpm_quote_bytes_def qualifying_data_eq)
  moreover have "vs = map (v_pcr V w5) [0, 2, 4, 7, 14]" "pcr_array vs" using r6 same by (auto simp: pcr_array_def)
  ultimately show ?thesis
    unfolding evidence_for_def using q key s8 s9 sig moment
    by (intro conjI exI [of _ q] exI [of _ w5] exI [of _ p] exI [of _ x] exI [of _ y]) (simp_all add: length_left_padded)
qed

end
