(* ===== verification/Attestation_Chain.thy ===== *)
theory Attestation_Chain
  imports Tpm_Hardware
begin

text \<open>
  Attestation from end to end: the commands that enroll a key, write the verifier's policy, issue a challenge, make the quote and verify it
  (\<^verbatim>\<open>dfim_cli_provisioner/src/main.rs\<close>, \<^verbatim>\<open>tpm.rs\<close>, \<^verbatim>\<open>attestation.rs\<close>) work together: an honest platform passes exactly if its
  PCRs are the enrolled ones.
\<close>

section \<open>Hexadecimal keys\<close>

lemma decode_hex_nibble_char:
  assumes "n < 16"
  shows "decode_hex_nibble (of_nat (of_char (HEX_CHARS ! n))) = Ok (of_nat n)"
proof -
  have "list_all (\<lambda>n. decode_hex_nibble (of_nat (of_char (HEX_CHARS ! n))) = Ok (of_nat n)) [0..<16]"
    by code_simp
  then show ?thesis using assms by (simp add: list_all_iff)
qed

lemma hex_nibbles_join: "push_bit 4 (of_nat (unat (drop_bit 4 b)) :: u8) OR of_nat (unat (b AND 0x0F)) = b"
proof -
  have m: "(0x0F :: u8) = mask 4" by (simp add: mask_eq_exp_minus_1)
  have "push_bit 4 (drop_bit 4 b) OR (b AND mask 4) = b" by (rule bit_word_eqI) (auto simp: bit_simps)
  then show ?thesis by (simp add: m)
qed

lemma nth_hex_text:
  "i < length bs \<Longrightarrow> ascii (hex_encode bs) ! (i * 2) = of_nat (of_char (HEX_CHARS ! unat (drop_bit 4 (bs ! i))))"
  "i < length bs \<Longrightarrow> ascii (hex_encode bs) ! (i * 2 + 1) = of_nat (of_char (HEX_CHARS ! unat (bs ! i AND 0x0F)))"
proof (induction bs arbitrary: i)
  case (Cons b bs)
  { case 1 then show ?case using Cons(1) by (cases i) (simp_all add: hex_encode_concat ascii_def) }
  { case 2 then show ?case using Cons(2) by (cases i) (simp_all add: hex_encode_concat ascii_def) }
qed simp_all

lemma decode_hex_encode: "n = length bs \<Longrightarrow> cli_decode_hex_exact n (ascii (hex_encode bs)) = Ok bs"
proof -
  let ?t = "ascii (hex_encode bs)"
  have "fold_outcome (\<lambda>output index.
       and_then (and_then (index_at ?t (index * 2)) decode_hex_nibble) (\<lambda>high.
       and_then (and_then (index_at ?t (index * 2 + 1)) decode_hex_nibble) (\<lambda>low.
       Ok (output[index := (push_bit 4 high) OR low])))) (replicate (length bs) 0) [0..<k] =
     Ok (take k bs @ replicate (length bs - k) 0)" if "k \<le> length bs" for k
    using that
  proof (induction k)
    case (Suc k)
    then have "(take k bs @ replicate (length bs - k) 0)[k := bs ! k] = take (Suc k) bs @ replicate (length bs - Suc k) 0"
      by (simp add: list_update_append take_Suc_conv_app_nth Suc_diff_Suc [symmetric])
    then show ?case
      using Suc nth_hex_text [of k bs] decode_hex_nibble_char nibble_bounds [of "bs ! k"] hex_nibbles_join [of "bs ! k"]
      by (simp add: fold_outcome_append index_at_def length_hex_encode)
  qed simp
  from this [of "length bs"] show "n = length bs \<Longrightarrow> ?thesis" by (simp add: cli_decode_hex_exact_def length_hex_encode)
qed

lemma cli_decode_hex_length: "cli_decode_hex_exact n text = Ok bs \<Longrightarrow> length bs = n"
proof -
  have "length out' = length out" if "fold_outcome (\<lambda>output index.
       and_then (and_then (index_at t (index * 2)) decode_hex_nibble) (\<lambda>high.
       and_then (and_then (index_at t (index * 2 + 1)) decode_hex_nibble) (\<lambda>low.
       Ok (output[index := (push_bit 4 high) OR low])))) out idxs = Ok out'" for out out' idxs t
    using that by (induction idxs arbitrary: out) auto
  then show "cli_decode_hex_exact n text = Ok bs \<Longrightarrow> length bs = n"
    by (fastforce simp: cli_decode_hex_exact_def split: if_splits)
qed

lemma split_pcrs_Ok:
  assumes "length raw = 160"
  shows "\<exists>vs. split_pcrs raw = Ok vs \<and> pcr_array vs \<and> concat vs = raw"
proof -
  define s :: "nat \<Rightarrow> bytes" where "s i = take 32 (drop (i * 32) raw)" for i
  have "fold_outcome (\<lambda>values index. let start = index * 32 in
      and_then (sub_slice raw start (start + 32)) (\<lambda>value. Ok (values[index := value]))) (replicate 5 (replicate 32 0)) [0..<k] =
    (Ok (map s [0..<k] @ replicate (5 - k) (replicate 32 0)) :: (cli_error, bytes list) outcome)" if "k \<le> 5" for k
    using that
  proof (induction k)
    case (Suc k)
    then have "(map s [0..<k] @ replicate (5 - k) (replicate 32 0))[k := s k] = map s [0..<Suc k] @ replicate (5 - Suc k) (replicate 32 0)"
      by (simp add: list_update_append Suc_diff_Suc [symmetric])
    moreover have "sub_slice raw (k * 32) (k * 32 + 32) = (Ok (s k) :: (cli_error, bytes) outcome)"
      using Suc.prems assms by (simp add: sub_slice_def s_def)
    ultimately show ?case using Suc by (simp add: fold_outcome_append Let_def)
  qed simp
  from this [of 5] have "split_pcrs raw = Ok (map s [0..<5])" by (simp add: split_pcrs_def)
  moreover have "pcr_array (map s [0..<5])" using assms by (auto simp: pcr_array_def s_def)
  moreover have "concat (map s [0..<5]) = raw"
  proof -
    have "concat (map s [0..<k]) = take (k * 32) raw" for k
      by (induction k) (simp_all add: s_def take_add add.commute [of 32])
    from this [of 5] show ?thesis using assms by simp
  qed
  ultimately show ?thesis by blast
qed

section \<open>The commands on a host without faults\<close>

lemma clean_write:
  "fault_free h \<Longrightarrow> fs_write p bs e h = (Ok (), h\<lparr>disk_of := set_file p (Some bs) (disk_of h)\<rparr>)"
  by (simp add: fs_write_def clean_op_free)

lemma clean_read_Ok: "fault_free h \<Longrightarrow> fs_read p e h = (Ok bs, h') \<longleftrightarrow> contents (disk_of h) p = Some bs \<and> h' = h"
  by (auto simp: clean_fs_read split: option.split)

lemma report_zero: "report_attestation_command run h = (0, h') \<longleftrightarrow> run h = (Ok (), h')"
  by (auto simp: report_attestation_command_def SUCCESS_def FAILURE_def split: prod.split outcome.split)

lemma enroll_effect:
  assumes "fault_free h" and "distinct [a, b, c]" and "run_attestation_enroll (Some d) a b c h = (Ok (), h')"
  obtains priv pub sec1 where "tpm_create_key d = Ok (priv, pub, sec1)" "fault_free h'"
    "contents (disk_of h') = (contents (disk_of h))(a \<mapsto> priv, b \<mapsto> pub, c \<mapsto> ascii (hex_encode sec1))"
proof -
  obtain priv pub sec1 h1 h2 h3 where k: "tpm_create_key d = Ok (priv, pub, sec1)"
      "fs_create_new_mode a 0x180 Create_failed h = (Ok (), h1)" "fs_write_all a priv Write_failed h1 = (Ok (), h2)"
      "fs_write b pub Write_failed h2 = (Ok (), h3)" "fs_write c (ascii (hex_encode sec1)) Write_failed h3 = (Ok (), h')"
    using assms(3) by (auto simp: run_attestation_enroll_def io_bind_eq_Ok io_of_eq_Ok)
  have h1: "fault_free h1" "contents (disk_of h1) = (contents (disk_of h))(a \<mapsto> [])"
    using k(2) assms(1) by (auto simp: fs_create_new_mode_def clean_op_free split: if_splits)
  have h2: "fault_free h2" "contents (disk_of h2) = (contents (disk_of h))(a \<mapsto> priv)"
    using k(3) h1 by (auto simp: fs_write_all_def clean_op_free)
  have h3: "fault_free h3" "contents (disk_of h3) = (contents (disk_of h))(a \<mapsto> priv, b \<mapsto> pub)"
    using k(4) h2 by (auto simp: clean_write)
  show thesis using that k(1,5) h3 by (auto simp: clean_write)
qed

lemma policy_effect:
  assumes "fault_free h" and "write_attestation_policy S ak least gen root_hex pcrs out h = (Ok (), h')"
  obtains raw vs key root where "contents (disk_of h) pcrs = Some raw" "pcr_array vs" "concat vs = raw" "least \<noteq> 0" "gen \<noteq> 0"
    "cli_decode_hex_exact 33 ak = Ok key" "cli_decode_hex_exact 32 root_hex = Ok root" "fault_free h'"
    "contents (disk_of h') = (contents (disk_of h))(out \<mapsto> encode_attestation_policy \<lparr>ap_ak_public_key_sec1 = key,
       ap_expected_pcr_values = vs, ap_minimum_release = least, ap_expected_policy_generation = gen, ap_expected_merkle_root = root\<rparr>)"
proof -
  obtain raw h1 vs key root where k: "least \<noteq> 0" "gen \<noteq> 0" "contents (disk_of h) pcrs = Some raw" "length raw = 160" "split_pcrs raw = Ok vs"
      "cli_decode_hex_exact 33 ak = Ok key" "cli_decode_hex_exact 32 root_hex = Ok root"
      "fs_write out (encode_attestation_policy \<lparr>ap_ak_public_key_sec1 = key, ap_expected_pcr_values = vs, ap_minimum_release = least,
         ap_expected_policy_generation = gen, ap_expected_merkle_root = root\<rparr>) Write_failed h = (Ok (), h')"
    using assms by (auto simp: write_attestation_policy_def read_exact_file_def io_bind_eq_Ok io_of_eq_Ok io_fail_def io_return_def
        clean_read_Ok Let_def split: if_splits)
  then show thesis using that split_pcrs_Ok [OF k(4)] assms(1) by (auto simp: clean_write)
qed

lemma challenge_effect:
  assumes "fault_free h" and "write_attestation_challenge nonce rel gen root_hex out h = (Ok (), h')"
  obtains n root where "cli_decode_hex_exact 32 nonce = Ok n" "cli_decode_hex_exact 32 root_hex = Ok root" "fault_free h'"
    "contents (disk_of h') = (contents (disk_of h))(out \<mapsto> encode_attestation_challenge \<lparr>ch_nonce = n, ch_release_counter = rel,
       ch_policy_generation = gen, ch_merkle_root = root\<rparr>)"
  using assms by (auto simp: write_attestation_challenge_def io_bind_eq_Ok io_of_eq_Ok io_fail_def Let_def clean_write split: if_splits)

lemma decoded_challenge:
  "cli_decode_hex_exact 32 nonce = Ok n \<Longrightarrow> cli_decode_hex_exact 32 root_hex = Ok r \<Longrightarrow>
   valid_challenge \<lparr>ch_nonce = n, ch_release_counter = rel, ch_policy_generation = gen, ch_merkle_root = r\<rparr>"
  by (simp add: valid_challenge_def cli_decode_hex_length)

lemma quote_effect:
  assumes "fault_free h" and "run_attestation_quote (Some d) chp privp pubp out h = (Ok (), h')"
    and "contents (disk_of h) chp = Some (encode_attestation_challenge c)" "valid_challenge c"
    and "contents (disk_of h) privp = Some priv" "contents (disk_of h) pubp = Some pub"
  obtains ev bs where "tpm_quote_for d c priv pub = Ok ev" "encode_attestation_evidence ev = Ok bs" "fault_free h'"
    "contents (disk_of h') = (contents (disk_of h))(out \<mapsto> bs)"
proof -
  have p: "parse_attestation_challenge (encode_attestation_challenge c) = Ok c"
    using challenge_wire.dec_accepts_iff [of _ c] assms(4) by simp
  show thesis
    using assms that
    by (auto simp: run_attestation_quote_def io_bind_eq_Ok io_of_eq_Ok clean_read_Ok clean_write p)
qed

lemma verify_effect:
  assumes "fault_free h"
    and "contents (disk_of h) chp = Some (encode_attestation_challenge c)" "valid_challenge c"
    and "contents (disk_of h) evp = Some bs" "encode_attestation_evidence ev = Ok bs" "valid_evidence ev"
    and "contents (disk_of h) polp = Some (encode_attestation_policy pol)" "valid_policy S pol"
  shows "command_verify_attestation C S chp evp polp h = (if is_ok (verify_attestation C S ev c pol) then 0 else 1, h)"
proof -
  have p: "parse_attestation_challenge (encode_attestation_challenge c) = Ok c" "parse_attestation_evidence bs = Ok ev"
    "parse_attestation_policy S (encode_attestation_policy pol) = Ok pol"
    using challenge_wire.dec_accepts_iff [of _ c] evidence_wire.dec_accepts_iff [of bs ev] policy_wire.dec_accepts_iff [of S _ pol] assms by simp_all
  have r: "fs_read q e h = (Ok b, h)" if "contents (disk_of h) q = Some b" for q e b
    using assms(1) that by (simp add: clean_fs_read)
  show ?thesis
    unfolding command_verify_attestation_def verify_attestation_files_def io_bind_def io_of_def
    by (cases "verify_attestation C S ev c pol") (simp_all add: r [OF assms(2)] r [OF assms(4)] r [OF assms(7)] p SUCCESS_def FAILURE_def)
qed

section \<open>The chain\<close>

lemma created_key:
  assumes "create_attestation_key T S env w = (Ok key, w')"
  obtains public where "public_marshall T public = Ok (ek_public_blob key)" "ecc_public_to_sec1 S public = Ok (ek_public_key_sec1 key)"
  using assms by (auto simp: create_attestation_key_def)

lemma cli_result_Ok [simp]: "cli_result r = Ok a \<longleftrightarrow> r = Ok a"
  by (cases r) (simp_all add: cli_result_def)

lemma hardware_ops:
  "tpm_create_key (hardware_tpm T C S env w) = Ok (priv, pub, sec1) \<longleftrightarrow>
     (\<exists>key w'. create_attestation_key T S env w = (Ok key, w') \<and> priv = ek_private_blob key \<and> pub = ek_public_blob key \<and>
        sec1 = ek_public_key_sec1 key)"
  "tpm_quote_for (hardware_tpm T C S env w) c priv pub = Ok ev \<longleftrightarrow> (\<exists>w'. quote_attestation T C env c priv pub w = (Ok ev, w'))"
  by (auto simp: hardware_tpm_def outcome_simps) (metis fst_conv surj_pair)+

text \<open>An enrolled key and a quote made with it: the verifier's decision is about the PCRs alone.\<close>

lemma enrolled_quote_verifies:
  assumes C: "hash_contract C" and c: "tpm_contract T V C S"
    and k: "create_attestation_key T S env w0 = (Ok key, w0')"
    and e: "quote_attestation T C env' challenge (ek_private_blob key) (ek_public_blob key) w1 = (Ok ev, w1')"
    and v: "valid_challenge challenge" "v_safe V w1" "valid_policy S pol" "ap_ak_public_key_sec1 pol = ek_public_key_sec1 key"
    and p: "ap_minimum_release pol \<le> ch_release_counter challenge" "ap_expected_policy_generation pol = ch_policy_generation challenge"
      "ap_expected_merkle_root pol = ch_merkle_root challenge"
  shows "valid_evidence ev \<and> (is_ok (verify_attestation C S ev challenge pol) \<longleftrightarrow> ev_pcr_values ev = ap_expected_pcr_values pol) \<and>
    (\<exists>w. progress V w1 w \<and> progress V w w1' \<and> ev_pcr_values ev = map (v_pcr V w) [0, 2, 4, 7, 14])"
proof -
  obtain public where pub: "public_marshall T public = Ok (ek_public_blob key)" "ecc_public_to_sec1 S public = Ok (ek_public_key_sec1 key)"
    by (rule created_key [OF k])
  have "public_unmarshall T (ek_public_blob key) = Ok public" using c pub(1) by (simp add: tpm_contract_def key_law_def)
  note ef = quote_attestation_Ok [OF C c e this]
  then obtain q w pp x y where q: "progress V w1 w" "progress V w w1'" "public = Public_Ecc pp x y" "ev_quote ev = tpm_quote_bytes q" "wf_quote q"
      "tq_extra q = attestation_qualifying_data C challenge" "tq_digest q = sha256 C (concat (ev_pcr_values ev))"
      "ev_pcr_values ev = map (v_pcr V w) [0, 2, 4, 7, 14]" "tq_safe q = (if v_safe V w then 1 else 0)" "length (ev_quote ev) \<le> 4096"
      "length (ev_signature ev) = 64" "signature_ok S (ev_signature ev)" "verify_sig S (compressed_point x y) (ev_quote ev) (ev_signature ev)"
    unfolding evidence_for_def by blast
  have safe: "v_safe V w" using q(1) v(2) by (simp add: progress_def)
  have key: "ap_ak_public_key_sec1 pol = compressed_point x y" using pub(2) q(3) v(4) by (simp add: sec1_Ok)
  have "ev_quote ev \<noteq> []" unfolding q(4) by (simp add: tpm_quote_bytes_def flip: length_0_conv)
  then have ve: "valid_evidence ev" using ef q(10,11) by (simp add: valid_evidence_def)
  have "is_ok (verify_attestation C S ev challenge pol) \<longleftrightarrow> ev_pcr_values ev = ap_expected_pcr_values pol"
    using verify_attestation_iff [OF C v(1,3) conjunct2 [OF ef] q(4,5)] q(6,7,9,12,13) key p safe
    by (auto simp: is_ok_iff qualifying_data_eq)
  then show ?thesis using ve q(1,2,8) by blast
qed

lemma enroll_then_policy:
  assumes "fault_free h" and paths: "distinct [privp, pubp, akp, pcrp, polp]"
    and "run_attestation_enroll (Some (hardware_tpm T C S env w0)) privp pubp akp h = (Ok (), h1)"
    and "contents (disk_of h1) akp = Some ak" and "write_attestation_policy S ak least gen root_hex pcrp polp h1 = (Ok (), h2)"
  obtains key w0' pol where "create_attestation_key T S env w0 = (Ok key, w0')" "valid_policy S pol"
    "ap_ak_public_key_sec1 pol = ek_public_key_sec1 key" "ap_minimum_release pol = least" "ap_expected_policy_generation pol = gen"
    "cli_decode_hex_exact 32 root_hex = Ok (ap_expected_merkle_root pol)"
    "contents (disk_of h) pcrp = Some (concat (ap_expected_pcr_values pol))" "fault_free h2"
    "contents (disk_of h1) privp = Some (ek_private_blob key)" "contents (disk_of h1) pubp = Some (ek_public_blob key)"
    "contents (disk_of h2) = (contents (disk_of h1))(polp \<mapsto> encode_attestation_policy pol)"
proof -
  have "distinct [privp, pubp, akp]" using paths by simp
  then obtain priv pub sec1 where
    e: "tpm_create_key (hardware_tpm T C S env w0) = Ok (priv, pub, sec1)" "fault_free h1"
      "contents (disk_of h1) = (contents (disk_of h))(privp \<mapsto> priv, pubp \<mapsto> pub, akp \<mapsto> ascii (hex_encode sec1))"
    using enroll_effect [OF assms(1) _ assms(3)] by blast
  obtain key w0' where k: "create_attestation_key T S env w0 = (Ok key, w0')" "priv = ek_private_blob key" "pub = ek_public_blob key"
      "sec1 = ek_public_key_sec1 key"
    using e(1) by (auto simp: hardware_ops)
  have vk: "verifying_key_ok S sec1" "length sec1 = 33"
    by (rule created_key [OF k(1)], auto simp: k(4) sec1_Ok compressed_point_def length_left_padded)+
  obtain raw vs key' root where
    p: "contents (disk_of h1) pcrp = Some raw" "pcr_array vs" "concat vs = raw" "least \<noteq> 0" "gen \<noteq> 0"
      "cli_decode_hex_exact 33 ak = Ok key'" "cli_decode_hex_exact 32 root_hex = Ok root" "fault_free h2"
      "contents (disk_of h2) = (contents (disk_of h1))(polp \<mapsto> encode_attestation_policy \<lparr>ap_ak_public_key_sec1 = key',
         ap_expected_pcr_values = vs, ap_minimum_release = least, ap_expected_policy_generation = gen, ap_expected_merkle_root = root\<rparr>)"
    by (rule policy_effect [OF e(2) assms(5)])
  let ?pol = "\<lparr>ap_ak_public_key_sec1 = key', ap_expected_pcr_values = vs, ap_minimum_release = least,
     ap_expected_policy_generation = gen, ap_expected_merkle_root = root\<rparr>"
  have ak: "ak = ascii (hex_encode sec1)" using assms(4) e(3) by simp
  have key': "key' = sec1" using p(6) decode_hex_encode [of 33 sec1] vk(2) by (simp add: ak)
  have "valid_policy S ?pol"
    using vk p(2,4,5) cli_decode_hex_length [OF p(7)] by (simp add: valid_policy_def key')
  then show thesis using paths p k e key' by (intro that [of key w0' ?pol]) auto
qed

lemma challenge_then_quote:
  assumes "fault_free h" and paths: "distinct [privp, pubp, chp]"
    and "write_attestation_challenge nonce rel gen root_hex chp h = (Ok (), h1)"
    and "run_attestation_quote (Some (hardware_tpm T C S env w)) chp privp pubp evp h1 = (Ok (), h2)"
    and "contents (disk_of h) privp = Some priv" "contents (disk_of h) pubp = Some pub"
  obtains c ev bs w' where "valid_challenge c" "ch_release_counter c = rel" "ch_policy_generation c = gen"
    "cli_decode_hex_exact 32 root_hex = Ok (ch_merkle_root c)" "quote_attestation T C env c priv pub w = (Ok ev, w')"
    "encode_attestation_evidence ev = Ok bs" "fault_free h2"
    "contents (disk_of h2) = (contents (disk_of h))(chp \<mapsto> encode_attestation_challenge c, evp \<mapsto> bs)"
proof -
  obtain n root where
    c: "cli_decode_hex_exact 32 nonce = Ok n" "cli_decode_hex_exact 32 root_hex = Ok root" "fault_free h1"
      "contents (disk_of h1) = (contents (disk_of h))(chp \<mapsto> encode_attestation_challenge \<lparr>ch_nonce = n, ch_release_counter = rel,
         ch_policy_generation = gen, ch_merkle_root = root\<rparr>)"
    by (rule challenge_effect [OF assms(1,3)])
  let ?c = "\<lparr>ch_nonce = n, ch_release_counter = rel, ch_policy_generation = gen, ch_merkle_root = root\<rparr>"
  have vc: "valid_challenge ?c" by (rule decoded_challenge [OF c(1,2)])
  have f: "contents (disk_of h1) chp = Some (encode_attestation_challenge ?c)" "contents (disk_of h1) privp = Some priv"
      "contents (disk_of h1) pubp = Some pub"
    using paths assms(5,6) by (auto simp: c(4))
  obtain ev bs where
    q: "tpm_quote_for (hardware_tpm T C S env w) ?c priv pub = Ok ev" "encode_attestation_evidence ev = Ok bs" "fault_free h2"
      "contents (disk_of h2) = (contents (disk_of h1))(evp \<mapsto> bs)"
    by (rule quote_effect [OF c(3) assms(4) f(1) vc f(2,3)])
  show thesis using q vc c by (auto simp: hardware_ops intro: that [of ?c])
qed

text \<open>
  C4. The attestation commands work together. After \<^verbatim>\<open>attestation-enroll\<close>, \<^verbatim>\<open>attestation-policy\<close> with the exported key,
  \<^verbatim>\<open>attestation-challenge\<close> and \<^verbatim>\<open>attestation-quote\<close> have each exited with 0 on a platform whose TPM keeps its documented contract,
  \<^verbatim>\<open>attestation-verify\<close> exits with 0 if the PCRs the platform had at some moment of the quote command are those the policy was made
  from, and with 1 if not: no honest evidence is refused for another reason, although other processes may extend PCRs meanwhile.
\<close>

theorem attestation_chain:
  assumes "hash_contract C" and "tpm_contract T V C S" and "fault_free h" and "fmt \<in> {''text'', ''json''}"
    and "distinct [privp, pubp, akp, pcrp, polp, chp, evp]"
    and "cli_main C S (Some (hardware_tpm T C S env w0)) se fmt (Attestation_Enroll privp pubp akp) h = (0, h1)"
    and "contents (disk_of h1) akp = Some ak"
    and "cli_main C S tpm se fmt (Attestation_Policy ak least gen root_hex pcrp polp) h1 = (0, h2)"
    and "cli_main C S tpm se fmt (Attestation_Challenge nonce rel gen root_hex chp) h2 = (0, h3)"
    and "cli_main C S (Some (hardware_tpm T C S env' w1)) se fmt (Attestation_Quote chp privp pubp evp) h3 = (0, h4)"
    and "least \<le> rel" and "v_safe V w1"
  shows "\<exists>w c ev bs. contents (disk_of h4) chp = Some (encode_attestation_challenge c) \<and>
    encode_attestation_evidence ev = Ok bs \<and> contents (disk_of h4) evp = Some bs \<and> ev_pcr_values ev = map (v_pcr V w) [0, 2, 4, 7, 14] \<and>
    progress V w1 w \<and> progress V w (snd (quote_attestation T C env' c (the (contents (disk_of h1) privp)) (the (contents (disk_of h1) pubp)) w1)) \<and>
    fst (cli_main C S tpm se fmt (Attestation_Verify chp evp polp) h4) =
      (if contents (disk_of h) pcrp = Some (concat (ev_pcr_values ev)) then 0 else 1)"
proof -
  obtain format where f: "output_format_parse fmt = Ok format" using assms(4) by (auto simp: output_format_parse_def)
  note run = cli_main_def f report_zero command_write_attestation_challenge_def command_write_attestation_policy_def
  note paths = assms(5)
  have cmds: "run_attestation_enroll (Some (hardware_tpm T C S env w0)) privp pubp akp h = (Ok (), h1)"
    "write_attestation_policy S ak least gen root_hex pcrp polp h1 = (Ok (), h2)"
    "write_attestation_challenge nonce rel gen root_hex chp h2 = (Ok (), h3)"
    "run_attestation_quote (Some (hardware_tpm T C S env' w1)) chp privp pubp evp h3 = (Ok (), h4)"
    using assms(6,8,9,10) by (simp_all add: run)
  have d: "distinct [privp, pubp, akp, pcrp, polp]" "distinct [privp, pubp, chp]" using paths by auto
  obtain key w0' pol where p: "create_attestation_key T S env w0 = (Ok key, w0')" "valid_policy S pol"
    "ap_ak_public_key_sec1 pol = ek_public_key_sec1 key" "ap_minimum_release pol = least" "ap_expected_policy_generation pol = gen"
    "cli_decode_hex_exact 32 root_hex = Ok (ap_expected_merkle_root pol)"
    "contents (disk_of h) pcrp = Some (concat (ap_expected_pcr_values pol))" "fault_free h2"
    "contents (disk_of h1) privp = Some (ek_private_blob key)" "contents (disk_of h1) pubp = Some (ek_public_blob key)"
    "contents (disk_of h2) = (contents (disk_of h1))(polp \<mapsto> encode_attestation_policy pol)"
    by (rule enroll_then_policy [OF assms(3) d(1) cmds(1) assms(7) cmds(2)])
  have blobs: "contents (disk_of h2) privp = Some (ek_private_blob key)" "contents (disk_of h2) pubp = Some (ek_public_blob key)"
    using p(9,10) paths by (auto simp: p(11))
  obtain c ev bs w2 where q: "valid_challenge c" "ch_release_counter c = rel" "ch_policy_generation c = gen"
    "cli_decode_hex_exact 32 root_hex = Ok (ch_merkle_root c)"
    "quote_attestation T C env' c (ek_private_blob key) (ek_public_blob key) w1 = (Ok ev, w2)"
    "encode_attestation_evidence ev = Ok bs" "fault_free h4"
    "contents (disk_of h4) = (contents (disk_of h2))(chp \<mapsto> encode_attestation_challenge c, evp \<mapsto> bs)"
    by (rule challenge_then_quote [OF p(8) d(2) cmds(3,4) blobs])
  have "valid_evidence ev \<and> (is_ok (verify_attestation C S ev c pol) \<longleftrightarrow> ev_pcr_values ev = ap_expected_pcr_values pol) \<and>
    (\<exists>w. progress V w1 w \<and> progress V w w2 \<and> ev_pcr_values ev = map (v_pcr V w) [0, 2, 4, 7, 14])"
    by (rule enrolled_quote_verifies [OF assms(1,2) p(1) q(5,1) assms(12) p(2,3)]) (use assms(11) p(4-6) q(2-4) in simp_all)
  then obtain w where ev: "valid_evidence ev" "is_ok (verify_attestation C S ev c pol) \<longleftrightarrow> ev_pcr_values ev = ap_expected_pcr_values pol"
      "progress V w1 w" "progress V w w2" "ev_pcr_values ev = map (v_pcr V w) [0, 2, 4, 7, 14]"
    by blast
  have files: "contents (disk_of h4) chp = Some (encode_attestation_challenge c)" "contents (disk_of h4) evp = Some bs"
      "contents (disk_of h4) polp = Some (encode_attestation_policy pol)"
    using paths by (auto simp: q(8) p(11))
  have "cli_main C S tpm se fmt (Attestation_Verify chp evp polp) h4 = (if ev_pcr_values ev = ap_expected_pcr_values pol then 0 else 1, h4)"
    using verify_effect [OF q(7) files(1) q(1) files(2) q(6) ev(1) files(3) p(2), of C] ev(2) by (simp add: run)
  moreover have "ev_pcr_values ev = ap_expected_pcr_values pol \<longleftrightarrow> concat (ev_pcr_values ev) = concat (ap_expected_pcr_values pol)"
    using concat_pcr_inj [of "ev_pcr_values ev" "ap_expected_pcr_values pol"] p(2) ev(1)
    by (auto simp: valid_evidence_def valid_policy_def pcr_array_def)
  ultimately show ?thesis using files q(5,6) ev(3-5) p(7,9,10)
    by (intro exI [of _ w] exI [of _ c] exI [of _ ev] exI [of _ bs]) auto
qed

section \<open>A platform with one key and fixed PCRs\<close>

definition soft_pcr :: bytes where "soft_pcr = replicate 32 1"
definition soft_key :: bytes where "soft_key = replicate 32 0x11"
definition soft_public :: "unit tss_public" where "soft_public = Public_Ecc () soft_key [0]"

definition soft_quote :: "bytes \<Rightarrow> nat list \<Rightarrow> tpm_quote" where
  "soft_quote data slots = \<lparr>tq_signer = [1, 2], tq_extra = data, tq_clock = 100, tq_reset = 1, tq_restart = 2, tq_safe = 1, tq_firmware = 8,
     tq_digest = sha256 bpf_prims (concat (map (\<lambda>_. soft_pcr) slots))\<rparr>"

definition soft_attest :: "bytes \<Rightarrow> nat list \<Rightarrow> bytes" where
  "soft_attest data slots = tpm_quote_over (pcr_bitmap slots) (soft_quote data slots)"

definition soft_tss :: "(unit, unit, unit, unit, bytes) tss" where
  "soft_tss =
     \<lparr>tcti_from_str = (\<lambda>_. Ok ()), tcti_device = (\<lambda>_. Ok ()), context_new = (\<lambda>_. tpm_of (Ok ())), digest_try_from = Ok, data_try_from = Ok,
      private_try_from = Ok, public_marshall = (\<lambda>p. if p = soft_public then Ok [7] else Err ''key''),
      public_unmarshall = (\<lambda>b. if b = [7] then Ok soft_public else Err ''key''), attest_marshall = Ok, selection_build = Ok,
      pcr_extend = (\<lambda>_ _. tpm_of (Ok ())), create_ek_object_2 = (\<lambda>_. tpm_of (Ok ())), create_ak_2 = (\<lambda>_ _ _ _. tpm_of (Ok ([8], soft_public))),
      load_ak = (\<lambda>_ _ p. tpm_of (if p = soft_public then Ok () else Err ''key'')),
      pcr_read = (\<lambda>sel. tpm_of (Ok (0, sel, map (\<lambda>_. soft_pcr) (snd (hd sel))))),
      context_quote = (\<lambda>_ data _ sel. tpm_of (Ok (let m = soft_attest data (snd (hd sel)); s = sample_tag soft_key m in
        (m, Signature_EcDsa Alg_Sha256 (take 32 s) (drop 32 s))))),
      flush_context = (\<lambda>_. tpm_of (Ok ()))\<rparr>"

definition soft_view :: "(unit, unit, unit) tpm_view" where
  "soft_view = \<lparr>v_pcr = (\<lambda>_ _. soft_pcr), v_counter = (\<lambda>_. 0), v_safe = (\<lambda>_. True), v_key = (\<lambda>_ _. Some soft_public)\<rparr>"

lemma soft_tag: "length (sample_tag soft_key m) = 64"
  using signature_contractD(1) [OF sample_sig_contract, of soft_key m] by (simp add: sample_sig_def soft_key_def)

lemma soft_signature: "left_padded 32 (take 32 (sample_tag soft_key m)) @ left_padded 32 (drop 32 (sample_tag soft_key m)) = sample_tag soft_key m"
  by (simp add: left_padded_def soft_tag)

lemma soft_point: "compressed_point soft_key [0] = 2 # soft_key"
  by (simp add: compressed_point_def left_padded_def soft_key_def)

lemma soft_contract: "tpm_contract soft_tss soft_view bpf_prims sample_sig"
proof -
  have "quote_law soft_tss soft_view bpf_prims sample_sig"
    unfolding quote_law_def
  proof (intro allI impI, goal_cases)
    case (1 w w' h data scheme slots attest signature)
    let ?m = "soft_attest data slots"
    have r: "attest = ?m" "signature = Signature_EcDsa Alg_Sha256 (take 32 (sample_tag soft_key ?m)) (drop 32 (sample_tag soft_key ?m))"
      using 1 by (auto simp: soft_tss_def Let_def)
    show ?case
      by (rule exI [of _ "soft_quote data slots"], rule exI [of _ "()"], rule exI [of _ soft_key], rule exI [of _ "[0]"])
        (simp add: r soft_signature soft_point soft_tss_def soft_view_def soft_public_def Let_def sample_sig_def soft_tag length_left_padded
          soft_attest_def soft_quote_def)
  qed
  moreover have "read_law soft_tss soft_view" "key_law soft_tss soft_view" "progress_law soft_tss soft_view"
    by (auto simp: read_law_def key_law_def progress_law_def progress_def soft_tss_def soft_view_def tpm_of_def split: if_splits)
  ultimately show ?thesis by (simp add: tpm_contract_def) (simp add: soft_view_def soft_tss_def soft_pcr_def)
qed

definition soft_env :: tpm_env where
  "soft_env = \<lparr>te_tcti = None, te_exists = (\<lambda>d. d = ''/dev/tpm0'')\<rparr>"

lemma soft_calls:
  "open_first_available_tpm_context soft_tss soft_env w = (Ok ''/dev/tpm0'', ())" "create_ek_object_2 soft_tss alg w = (Ok (), ())"
  "create_ak_2 soft_tss ek hash alg scheme w = (Ok ([8], soft_public), ())" "private_try_from soft_tss = Ok" "data_try_from soft_tss = Ok"
  "public_marshall soft_tss soft_public = Ok [7]" "public_unmarshall soft_tss [7] = Ok soft_public" "attest_marshall soft_tss = Ok"
  "selection_build soft_tss = Ok" "load_ak soft_tss ek priv soft_public w = (Ok (), ())" "flush_context soft_tss hd1 w = (Ok (), ())"
  "pcr_read soft_tss [(Alg_Sha256, slots)] w = (Ok (0, [(Alg_Sha256, slots)], map (\<lambda>_. soft_pcr) slots), ())"
  "context_quote soft_tss ak data scheme [(Alg_Sha256, slots)] w = (Ok (soft_attest data slots, Signature_EcDsa Alg_Sha256
     (take 32 (sample_tag soft_key (soft_attest data slots))) (drop 32 (sample_tag soft_key (soft_attest data slots)))), ())"
  by (simp_all add: soft_tss_def tpm_of_def open_first_available_tpm_context_def TPM_DEVICE_CANDIDATES_def tpm_bind_def
      soft_env_def try_open_tpm_context_def Let_def)

lemma soft_create:
  "create_attestation_key soft_tss sample_sig soft_env () = (Ok \<lparr>ek_private_blob = [8], ek_public_blob = [7], ek_public_key_sec1 = 2 # soft_key\<rparr>, ())"
proof -
  have k: "soft_key \<noteq> []" "length soft_key = 32" by (simp_all add: soft_key_def)
  have "ecc_public_to_sec1 sample_sig soft_public = Ok (2 # soft_key)"
    using k by (simp add: sec1_Ok soft_public_def soft_point sample_sig_def)
  then show ?thesis
    by (simp add: create_attestation_key_def tpm_bind_def tpm_of_def soft_calls)
qed

lemma soft_snapshot: "read_pcr_snapshot soft_tss [(Alg_Sha256, [0, 2, 4, 7, 14])] () = (Ok (0, replicate 5 soft_pcr), ())"
proof -
  have "copy_pcr_values (replicate 5 (replicate 32 0)) (replicate 5 soft_pcr) = Ok (replicate 5 soft_pcr)"
    by (subst copy_pcr_values_Ok) (auto simp: soft_pcr_def)
  then show ?thesis by (simp add: read_pcr_snapshot_def tpm_bind_def tpm_of_def soft_calls numeral_eq_Suc)
qed

lemma soft_quote_runs:
  "\<exists>ev. quote_attestation soft_tss bpf_prims soft_env c [8] [7] () = (Ok ev, ()) \<and> ev_pcr_values ev = replicate 5 soft_pcr \<and>
     length (ev_quote ev) \<le> 4096 \<and> ev_quote ev \<noteq> []"
proof -
  let ?m = "soft_attest (attestation_qualifying_data bpf_prims c) [0, 2, 4, 7, 14]"
  have n: "normalize_ecdsa_signature (Signature_EcDsa Alg_Sha256 (take 32 (sample_tag soft_key ?m)) (drop 32 (sample_tag soft_key ?m))) =
      Ok (sample_tag soft_key ?m)"
  proof -
    have "take 32 (sample_tag soft_key ?m) \<noteq> []" "drop 32 (sample_tag soft_key ?m) \<noteq> []" using soft_tag [of ?m] by auto
    then show ?thesis
      unfolding normalize_Ok using soft_tag [of ?m] soft_signature [of ?m, symmetric]
      by (intro exI [of _ "take 32 (sample_tag soft_key ?m)"] exI [of _ "drop 32 (sample_tag soft_key ?m)"] conjI) simp_all
  qed
  have l: "length ?m \<le> 4096" "?m \<noteq> []"
    by (simp_all add: soft_attest_def quote_over_attested tpm_quote_bytes_def soft_quote_def qualifying_data_eq kernel_hash.sha256_len flip: length_0_conv)
  have "quote_attestation soft_tss bpf_prims soft_env c [8] [7] () =
      (Ok \<lparr>ev_quote = ?m, ev_signature = sample_tag soft_key ?m, ev_pcr_values = replicate 5 soft_pcr\<rparr>, ())"
    unfolding quote_attestation_def attested_pcr_selection_def
    by (simp add: tpm_bind_def tpm_of_def soft_calls soft_snapshot n)
  then show ?thesis using l by simp
qed

definition soft_host :: host where
  "soft_host = \<lparr>disk_of = \<lparr>contents = [boot_file ''pcrs'' \<mapsto> concat (replicate 5 soft_pcr)], modes = (\<lambda>_. 420)\<rparr>,
     script = [], rivals = [], alive = True, temp_sequence = 0, process_id = 7, canonical = Some, now_ms = 0, telemetry_path = None, stdout = []\<rparr>"

lemma soft_commands:
  assumes "root_hex = ascii (hex_encode (replicate 32 6))" and "nonce = ascii (hex_encode (replicate 32 5))" and "ak = ascii (hex_encode (2 # soft_key))"
  defines "tpm \<equiv> Some (hardware_tpm soft_tss bpf_prims sample_sig soft_env ())"
  shows "\<exists>h1. run_attestation_enroll tpm (boot_file ''priv'') (boot_file ''pub'') (boot_file ''ak'') soft_host = (Ok (), h1)"
    and "fault_free h \<Longrightarrow> contents (disk_of h) pcrp = Some (concat (replicate 5 soft_pcr)) \<Longrightarrow>
      \<exists>h'. write_attestation_policy sample_sig ak 1 3 root_hex pcrp out h = (Ok (), h')"
    and "fault_free h \<Longrightarrow> \<exists>h'. write_attestation_challenge nonce 9 3 root_hex out h = (Ok (), h')"
    and "fault_free h \<Longrightarrow> contents (disk_of h) chp = Some (encode_attestation_challenge c) \<Longrightarrow> valid_challenge c \<Longrightarrow>
      contents (disk_of h) privp = Some [8] \<Longrightarrow> contents (disk_of h) pubp = Some [7] \<Longrightarrow>
      \<exists>h'. run_attestation_quote tpm chp privp pubp out h = (Ok (), h')"
proof -
  have m: "map_err id r = r" for r :: "(cli_error, 'z) outcome" by (cases r) simp_all
  have f: "fault_free soft_host" by (simp add: fault_free_def soft_host_def)
  show "\<exists>h1. run_attestation_enroll tpm (boot_file ''priv'') (boot_file ''pub'') (boot_file ''ak'') soft_host = (Ok (), h1)"
    by (simp add: run_attestation_enroll_def tpm_def hardware_tpm_def soft_create cli_result_def io_bind_def io_of_def
        fs_create_new_mode_def fs_write_all_def clean_op_free f clean_write)
      (simp add: soft_host_def boot_file_path)
  have k: "length soft_key = 32" by (simp add: soft_key_def)
  have dec: "cli_decode_hex_exact 32 root_hex = Ok (replicate 32 6)" "cli_decode_hex_exact 32 nonce = Ok (replicate 32 5)"
    "cli_decode_hex_exact 33 ak = Ok (2 # soft_key)"
    using assms(1-3) k by (simp_all add: decode_hex_encode)
  let ?raw = "concat (replicate 5 soft_pcr)"
  have raw: "length ?raw = 160" by (simp add: soft_pcr_def numeral_eq_Suc)
  obtain vs where vs: "split_pcrs ?raw = Ok vs" "pcr_array vs" using split_pcrs_Ok [OF raw] by blast
  have "valid_policy sample_sig \<lparr>ap_ak_public_key_sec1 = 2 # soft_key, ap_expected_pcr_values = vs, ap_minimum_release = 1,
      ap_expected_policy_generation = 3, ap_expected_merkle_root = replicate 32 6\<rparr>"
    using vs(2) k by (simp add: valid_policy_def sample_sig_def)
  note pol = parse_encoded_policy [OF this]
  show "\<exists>h'. write_attestation_policy sample_sig ak 1 3 root_hex pcrp out h = (Ok (), h')"
    if "fault_free h" "contents (disk_of h) pcrp = Some ?raw"
    using that by (simp add: write_attestation_policy_def read_exact_file_def io_bind_def io_of_def io_return_def clean_fs_read raw dec
        clean_write m vs(1) pol Let_def del: concat_replicate_trivial)
  show "\<exists>h'. write_attestation_challenge nonce 9 3 root_hex out h = (Ok (), h')" if "fault_free h"
    using that by (simp add: write_attestation_challenge_def io_bind_def io_of_def dec clean_write Let_def)
  show "\<exists>h'. run_attestation_quote tpm chp privp pubp out h = (Ok (), h')"
    if "fault_free h" "contents (disk_of h) chp = Some (encode_attestation_challenge c)" "valid_challenge c"
      "contents (disk_of h) privp = Some [8]" "contents (disk_of h) pubp = Some [7]"
  proof -
    have p: "parse_attestation_challenge (encode_attestation_challenge c) = Ok c"
      using challenge_wire.dec_accepts_iff [of _ c] that(3) by simp
    obtain ev where ev: "quote_attestation soft_tss bpf_prims soft_env c [8] [7] () = (Ok ev, ())" "length (ev_quote ev) \<le> 4096"
        "ev_quote ev \<noteq> []"
      using soft_quote_runs by blast
    have "\<exists>bs. encode_attestation_evidence ev = Ok bs"
      using ev(2,3) by (auto simp: encode_attestation_evidence_def attest_layout checked_add_def USIZE_MAX_def Let_def)
    then show ?thesis
      using that by (auto simp: run_attestation_quote_def tpm_def hardware_tpm_def io_bind_def io_of_def clean_fs_read p ev(1) cli_result_def
          clean_write)
  qed
qed

theorem attestation_chain_witness:
  "\<exists>h1 h2 h3 h4.
     cli_main bpf_prims sample_sig (Some (hardware_tpm soft_tss bpf_prims sample_sig soft_env ())) stress_unix ''json''
       (Attestation_Enroll (boot_file ''priv'') (boot_file ''pub'') (boot_file ''ak'')) soft_host = (0, h1) \<and>
     cli_main bpf_prims sample_sig None stress_unix ''json''
       (Attestation_Policy (ascii (hex_encode (2 # soft_key))) 1 3 (ascii (hex_encode (replicate 32 6))) (boot_file ''pcrs'') (boot_file ''pol'')) h1 = (0, h2) \<and>
     cli_main bpf_prims sample_sig None stress_unix ''json''
       (Attestation_Challenge (ascii (hex_encode (replicate 32 5))) 9 3 (ascii (hex_encode (replicate 32 6))) (boot_file ''chl'')) h2 = (0, h3) \<and>
     cli_main bpf_prims sample_sig (Some (hardware_tpm soft_tss bpf_prims sample_sig soft_env ())) stress_unix ''json''
       (Attestation_Quote (boot_file ''chl'') (boot_file ''priv'') (boot_file ''pub'') (boot_file ''ev'')) h3 = (0, h4) \<and>
     fst (cli_main bpf_prims sample_sig None stress_unix ''json'' (Attestation_Verify (boot_file ''chl'') (boot_file ''ev'') (boot_file ''pol'')) h4) = 0"
proof -
  let ?tpm = "hardware_tpm soft_tss bpf_prims sample_sig soft_env ()"
  let ?ak = "ascii (hex_encode (2 # soft_key))" and ?root = "ascii (hex_encode (replicate 32 6))" and ?nonce = "ascii (hex_encode (replicate 32 5))"
  have f: "fault_free soft_host" and fmt: "output_format_parse ''json'' = Ok Json_output"
    by (simp_all add: fault_free_def soft_host_def output_format_parse_def)
  note run = cli_main_def fmt report_zero command_write_attestation_challenge_def command_write_attestation_policy_def and cmds = soft_commands [OF refl refl refl]
  obtain h1 where r1: "run_attestation_enroll (Some ?tpm) (boot_file ''priv'') (boot_file ''pub'') (boot_file ''ak'') soft_host = (Ok (), h1)"
    using cmds(1) by blast
  have d: "distinct [boot_file ''priv'', boot_file ''pub'', boot_file ''ak'']" by (simp add: boot_file_path)
  have c1: "fault_free h1" "contents (disk_of h1) = (contents (disk_of soft_host))(boot_file ''priv'' \<mapsto> [8], boot_file ''pub'' \<mapsto> [7], boot_file ''ak'' \<mapsto> ?ak)"
    by (rule enroll_effect [OF f d r1], simp add: hardware_ops soft_create)+
  have "contents (disk_of h1) (boot_file ''pcrs'') = Some (concat (replicate 5 soft_pcr))"
    by (simp add: c1(2) soft_host_def boot_file_path)
  then obtain h2 where r2: "write_attestation_policy sample_sig ?ak 1 3 ?root (boot_file ''pcrs'') (boot_file ''pol'') h1 = (Ok (), h2)"
    using cmds(2) [OF c1(1)] by blast
  obtain bs where c2: "fault_free h2" "contents (disk_of h2) = (contents (disk_of h1))(boot_file ''pol'' \<mapsto> bs)"
    by (rule policy_effect [OF c1(1) r2]) blast
  obtain h3 where r3: "write_attestation_challenge ?nonce 9 3 ?root (boot_file ''chl'') h2 = (Ok (), h3)"
    using cmds(3) [OF c2(1)] by blast
  obtain c where c3: "fault_free h3" "contents (disk_of h3) = (contents (disk_of h2))(boot_file ''chl'' \<mapsto> encode_attestation_challenge c)" "valid_challenge c"
    by (rule challenge_effect [OF c2(1) r3]) (blast intro: decoded_challenge)
  have "contents (disk_of h3) (boot_file ''chl'') = Some (encode_attestation_challenge c)" "contents (disk_of h3) (boot_file ''priv'') = Some [8]"
    "contents (disk_of h3) (boot_file ''pub'') = Some [7]"
    by (simp_all add: c3(2) c2(2) c1(2) boot_file_path)
  then obtain h4 where r4: "run_attestation_quote (Some ?tpm) (boot_file ''chl'') (boot_file ''priv'') (boot_file ''pub'') (boot_file ''ev'') h3 = (Ok (), h4)"
    using cmds(4) [OF c3(1) _ c3(3)] by blast
  have e: "cli_main bpf_prims sample_sig (Some ?tpm) stress_unix ''json'' (Attestation_Enroll (boot_file ''priv'') (boot_file ''pub'') (boot_file ''ak'')) soft_host = (0, h1)"
    "cli_main bpf_prims sample_sig None stress_unix ''json'' (Attestation_Policy ?ak 1 3 ?root (boot_file ''pcrs'') (boot_file ''pol'')) h1 = (0, h2)"
    "cli_main bpf_prims sample_sig None stress_unix ''json'' (Attestation_Challenge ?nonce 9 3 ?root (boot_file ''chl'')) h2 = (0, h3)"
    "cli_main bpf_prims sample_sig (Some ?tpm) stress_unix ''json'' (Attestation_Quote (boot_file ''chl'') (boot_file ''priv'') (boot_file ''pub'') (boot_file ''ev'')) h3 = (0, h4)"
    using r1 r2 r3 r4 by (simp_all add: run)
  have side: "''json'' \<in> {''text'', ''json''}" "distinct [boot_file ''priv'', boot_file ''pub'', boot_file ''ak'', boot_file ''pcrs'', boot_file ''pol'', boot_file ''chl'', boot_file ''ev'']"
    "contents (disk_of h1) (boot_file ''ak'') = Some ?ak" "(1 :: u64) \<le> 9" "v_safe soft_view ()"
    by (simp_all add: boot_file_path c1(2) soft_view_def)
  obtain w and ev :: attestation_evidence where v: "ev_pcr_values ev = map (v_pcr soft_view w) [0, 2, 4, 7, 14]"
      "fst (cli_main bpf_prims sample_sig None stress_unix ''json'' (Attestation_Verify (boot_file ''chl'') (boot_file ''ev'') (boot_file ''pol'')) h4) =
      (if contents (disk_of soft_host) (boot_file ''pcrs'') = Some (concat (ev_pcr_values ev)) then 0 else 1)"
    using attestation_chain [OF kernel_hash.hash_contract_axioms soft_contract f side(1,2) e(1) side(3) e(2-4) side(4,5)] by blast
  have "contents (disk_of soft_host) (boot_file ''pcrs'') = Some (concat (ev_pcr_values ev))"
    by (simp add: v(1) soft_host_def soft_view_def numeral_eq_Suc)
  then show ?thesis using e v(2) by auto
qed

end
