(* ===== verification/Host_License.thy ===== *)
theory Host_License
  imports Bpf_Sha256
begin

text \<open>
  The evaluation gate that the host programs run first (\<^verbatim>\<open>dfim_host_init/src/lib.rs\<close>): an activation time and a
  watermark of the last execution in a 60-byte state file, a 30-day window, and the detection of a clock
  that was set back.

  The state file is its content, or nothing when it does not exist; whether a read or a write succeeds, and what
  a failed write leaves behind, are parameters (\<open>license_io\<close>). The gate is shown to refine a two-number
  specification, from which the behaviour of any sequence of runs follows.
\<close>

section \<open>The state file\<close>

definition STATE_DIR_ENV :: string where "STATE_DIR_ENV = ''DFIM_STATE_DIR''"
definition STATE_FILE_NAME :: string where "STATE_FILE_NAME = ''.dfim_sys.dat''"
definition EVAL_PERIOD_SECS :: u64 where "EVAL_PERIOD_SECS = 30 * 24 * 60 * 60"
definition STATE_MAGIC :: bytes where "STATE_MAGIC = ascii ''DFIMLIC'' @ [0]"
definition STATE_VERSION :: u16 where "STATE_VERSION = 1"
definition STATE_HEADER_LEN :: nat where "STATE_HEADER_LEN = 28"
definition STATE_INTEGRITY_LEN :: nat where "STATE_INTEGRITY_LEN = 32"
definition STATE_FILE_LEN :: nat where "STATE_FILE_LEN = STATE_HEADER_LEN + STATE_INTEGRITY_LEN"
definition INTEGRITY_DOMAIN :: bytes where "INTEGRITY_DOMAIN = ascii ''dfim-host-init-license-v1'' @ [0]"

definition EXPIRED_MESSAGE :: string where
  "EXPIRED_MESSAGE = ''CRITICAL: [DFIM-ERR-09] 30-Day Evaluation Period Expired. Please contact the vendor for a production license.''"

definition CLOCK_TAMPER_MESSAGE :: string where
  "CLOCK_TAMPER_MESSAGE = ''SECURITY ALERT: [DFIM-ERR-10] System clock tampering detected. Execution terminated.''"

lemmas state_layout = STATE_HEADER_LEN_def STATE_INTEGRITY_LEN_def STATE_FILE_LEN_def

record license_state =
  activation_timestamp :: u64
  last_execution_timestamp :: u64

datatype eval_license_error = ClockTampering | Expired | StateUnreadable

type_synonym 'a license_result = "(eval_license_error, 'a) outcome"

text \<open>\<^verbatim>\<open>PathBuf::join\<close> with a relative name, on unix.\<close>

definition path_join :: "string \<Rightarrow> string \<Rightarrow> string" where
  "path_join dir name = (if dir \<noteq> [] \<and> last dir \<noteq> CHR ''/'' then dir @ ''/'' @ name else dir @ name)"

definition execution_dir :: "string option \<Rightarrow> string option \<Rightarrow> string" where
  "execution_dir env_dir current_dir =
     (case env_dir of
        Some dir \<Rightarrow> if dir \<noteq> [] then dir else (case current_dir of Some cwd \<Rightarrow> cwd | None \<Rightarrow> ''.'')
      | None \<Rightarrow> (case current_dir of Some cwd \<Rightarrow> cwd | None \<Rightarrow> ''.''))"

definition state_file_path :: "string option \<Rightarrow> string option \<Rightarrow> string" where
  "state_file_path env_dir current_dir = path_join (execution_dir env_dir current_dir) STATE_FILE_NAME"

definition encode_state_header :: "license_state \<Rightarrow> bytes" where
  "encode_state_header state =
     (let header = replicate STATE_HEADER_LEN 0;
          header = put header 0 STATE_MAGIC;
          header = put header 8 (to_le_bytes 2 STATE_VERSION);
          header = put header 12 (to_le_bytes 8 (activation_timestamp state));
          header = put header 20 (to_le_bytes 8 (last_execution_timestamp state))
      in header)"

definition decode_state_header :: "bytes \<Rightarrow> license_state license_result" where
  "decode_state_header header =
     and_then (sub_slice header 0 8) (\<lambda>magic.
     if magic \<noteq> STATE_MAGIC then Err StateUnreadable
     else
       and_then (sub_slice header 8 10) (\<lambda>version.
       if from_le_bytes version \<noteq> STATE_VERSION then Err StateUnreadable
       else
         and_then (sub_slice header 12 20) (\<lambda>activation_bytes.
         and_then (sub_slice header 20 28) (\<lambda>last_exec_bytes.
         Ok \<lparr>activation_timestamp = from_le_bytes activation_bytes,
             last_execution_timestamp = from_le_bytes last_exec_bytes\<rparr>))))"

definition compute_state_integrity :: "hash_prims \<Rightarrow> bytes \<Rightarrow> bytes" where
  "compute_state_integrity C header = sha256 C (INTEGRITY_DOMAIN @ header)"

record license_io =
  io_read_ok :: bool
  io_write_failure :: "bytes option option"

definition state_file_bytes :: "hash_prims \<Rightarrow> license_state \<Rightarrow> bytes" where
  "state_file_bytes C state =
     (let header = encode_state_header state;
          integrity = compute_state_integrity C header;
          file = replicate STATE_FILE_LEN 0;
          file = put file 0 header
      in put file STATE_HEADER_LEN integrity)"

definition write_state ::
  "hash_prims \<Rightarrow> license_io \<Rightarrow> license_state \<Rightarrow> bytes option \<times> bool" where
  "write_state C io state =
     (case io_write_failure io of None \<Rightarrow> (Some (state_file_bytes C state), True) | Some left \<Rightarrow> (left, False))"

definition read_state :: "hash_prims \<Rightarrow> license_io \<Rightarrow> bytes option \<Rightarrow> license_state license_result" where
  "read_state C io content =
     (case (if io_read_ok io then content else None) of
        None \<Rightarrow> Err StateUnreadable
      | Some bs \<Rightarrow>
          if length bs \<noteq> STATE_FILE_LEN then Err StateUnreadable
          else if starts_with bs (ascii ''STATE_'') then Err StateUnreadable
          else
            and_then (sub_slice bs 0 STATE_HEADER_LEN) (\<lambda>header.
            and_then (sub_slice bs STATE_HEADER_LEN (length bs)) (\<lambda>stored.
            let expected = compute_state_integrity C header in
            if \<not> constant_time_eq expected stored then Err StateUnreadable
            else decode_state_header header)))"

section \<open>The gate\<close>

definition u64_saturating_sub :: "u64 \<Rightarrow> u64 \<Rightarrow> u64" where
  "u64_saturating_sub a b = (if a < b then 0 else a - b)"

text \<open>The new content of the state file and the result.\<close>

definition check_eval_license ::
  "hash_prims \<Rightarrow> license_io \<Rightarrow> u64 \<Rightarrow> bytes option \<Rightarrow> bytes option \<times> unit license_result" where
  "check_eval_license C io now_secs content =
     (case content of
        Some _ \<Rightarrow>
          (case read_state C io content of
             Err e \<Rightarrow> (content, Err e)
           | Panic \<Rightarrow> (content, Panic)
           | Ok state \<Rightarrow>
               if now_secs < last_execution_timestamp state then (content, Err ClockTampering)
               else if now_secs < activation_timestamp state then (content, Err ClockTampering)
               else if u64_saturating_sub now_secs (activation_timestamp state) > EVAL_PERIOD_SECS
               then (content, Err Expired)
               else
                 (case write_state C io \<lparr>activation_timestamp = activation_timestamp state,
                                         last_execution_timestamp = now_secs\<rparr> of
                    (content', ok) \<Rightarrow> (content', if ok then Ok () else Err StateUnreadable)))
      | None \<Rightarrow>
          (case write_state C io \<lparr>activation_timestamp = now_secs, last_execution_timestamp = now_secs\<rparr> of
             (content', ok) \<Rightarrow> (content', if ok then Ok () else Err StateUnreadable)))"

text \<open>The variable \<^verbatim>\<open>DFIM_PRODUCTION\<close> and the build feature \<^verbatim>\<open>production\<close>.\<close>

definition host_gate_required :: "bool \<Rightarrow> string option \<Rightarrow> bool" where
  "host_gate_required production_build var =
     (if production_build then False
      else \<not> (var = Some ''1'' \<or> var = Some ''true'' \<or> var = Some ''TRUE''))"

datatype gate_exit = Continue | Exit_with string int | Gate_panic

definition exit_for :: "eval_license_error \<Rightarrow> gate_exit" where
  "exit_for e = (case e of ClockTampering \<Rightarrow> Exit_with CLOCK_TAMPER_MESSAGE 1
     | StateUnreadable \<Rightarrow> Exit_with CLOCK_TAMPER_MESSAGE 1 | Expired \<Rightarrow> Exit_with EXPIRED_MESSAGE 1)"

text \<open>The clock is \<open>None\<close> before the epoch.\<close>

definition current_unix_secs :: "u64 option \<Rightarrow> u64 license_result" where
  "current_unix_secs clock = (case clock of None \<Rightarrow> Err ClockTampering | Some s \<Rightarrow> Ok s)"

definition enforce_eval_license ::
  "hash_prims \<Rightarrow> license_io \<Rightarrow> u64 option \<Rightarrow> bytes option \<Rightarrow> bytes option \<times> gate_exit" where
  "enforce_eval_license C io clock content =
     (case current_unix_secs clock of
        Err e \<Rightarrow> (content, exit_for e)
      | Panic \<Rightarrow> (content, Gate_panic)
      | Ok now \<Rightarrow>
          (case check_eval_license C io now content of
             (content', Ok _) \<Rightarrow> (content', Continue)
           | (content', Err e) \<Rightarrow> (content', exit_for e)
           | (content', Panic) \<Rightarrow> (content', Gate_panic)))"

definition enforce_host_gate ::
  "hash_prims \<Rightarrow> license_io \<Rightarrow> bool \<Rightarrow> string option \<Rightarrow> u64 option \<Rightarrow> bytes option \<Rightarrow> bytes option \<times> gate_exit" where
  "enforce_host_gate C io production_build var clock content =
     (if \<not> host_gate_required production_build var then (content, Continue)
      else enforce_eval_license C io clock content)"

section \<open>The file format\<close>

lemma length_STATE_MAGIC [simp]: "length STATE_MAGIC = 8"
  by (simp add: STATE_MAGIC_def)

definition license_header :: "bytes \<Rightarrow> license_state \<Rightarrow> bytes" where
  "license_header pad state = STATE_MAGIC @ to_le_bytes 2 STATE_VERSION @ pad @
     to_le_bytes 8 (activation_timestamp state) @ to_le_bytes 8 (last_execution_timestamp state)"

lemma encode_state_header_eq: "encode_state_header state = license_header [0, 0] state"
  by (simp add: encode_state_header_def license_header_def put_def state_layout Let_def
      numeral_2_eq_2)

lemma length_license_header: "length pad = 2 \<Longrightarrow> length (license_header pad state) = 28"
  by (simp add: license_header_def)

lemma state_file_bytes_eq:
  assumes "hash_contract C"
  shows "state_file_bytes C state =
    license_header [0, 0] state @ compute_state_integrity C (license_header [0, 0] state)"
proof -
  have "length (compute_state_integrity C h) = 32" for h
    by (simp add: compute_state_integrity_def hash_contract.sha256_len [OF assms])
  then show ?thesis
    by (simp add: state_file_bytes_def encode_state_header_eq length_license_header put_def state_layout Let_def)
qed

lemma split_license_header:
  assumes "length h = 28"
  shows "h = take 8 h @ take 2 (drop 8 h) @ take 2 (drop 10 h) @ take 8 (drop 12 h) @ take 8 (drop 20 h)"
  using drop_split [of 0 h 8] drop_split [of 8 h 2] drop_split [of 10 h 2] drop_split [of 12 h 8] assms by simp

lemma decode_state_header_iff:
  assumes "length h = 28"
  shows "decode_state_header h = Ok state \<longleftrightarrow> (\<exists>pad. length pad = 2 \<and> h = license_header pad state)"
proof
  assume "decode_state_header h = Ok state"
  then have f: "take 8 h = STATE_MAGIC" "from_le_bytes (take 2 (drop 8 h)) = STATE_VERSION"
    "state = \<lparr>activation_timestamp = from_le_bytes (take 8 (drop 12 h)),
              last_execution_timestamp = from_le_bytes (take 8 (drop 20 h))\<rparr>"
    using assms unfolding decode_state_header_def outcome_simps by auto
  have "license_header (take 2 (drop 10 h)) state = h"
    using split_license_header [OF assms] assms unfolding license_header_def f(3)
    by (simp add: f(1) f(2) [symmetric])
  moreover have "length (take 2 (drop 10 h)) = 2" using assms by simp
  ultimately show "\<exists>pad. length pad = 2 \<and> h = license_header pad state" by metis
next
  assume "\<exists>pad. length pad = 2 \<and> h = license_header pad state"
  then obtain pad where "length pad = 2" "h = license_header pad state" by blast
  then show "decode_state_header h = Ok state"
    by (simp add: decode_state_header_def license_header_def sub_slice_def)
qed

lemma decode_state_header_no_panic: "length h = 28 \<Longrightarrow> decode_state_header h \<noteq> Panic"
  by (auto simp: decode_state_header_def outcome_simps)

lemma read_state_no_panic: "read_state C io content \<noteq> Panic"
  by (auto simp: read_state_def state_layout sub_slice_def Let_def decode_state_header_no_panic split: option.split)

lemma license_not_plaintext: "\<not> starts_with (license_header pad state @ t) (ascii ''STATE_'')"
  by (simp add: starts_with_def license_header_def STATE_MAGIC_def ascii_def)

text \<open>The files that are accepted: any two bytes between version and activation time, and an unkeyed digest.\<close>

lemma read_state_iff:
  assumes "hash_contract C"
  shows "read_state C io (Some bs) = Ok state \<longleftrightarrow>
     io_read_ok io \<and>
     (\<exists>pad. length pad = 2 \<and> bs = license_header pad state @ compute_state_integrity C (license_header pad state))"
    (is "?L \<longleftrightarrow> ?R")
proof
  assume L: ?L
  then have io: "io_read_ok io" and len: "length bs = 60"
    by (auto simp: read_state_def state_layout split: if_splits)
  have tag: "drop 28 bs = compute_state_integrity C (take 28 bs)" and dec: "decode_state_header (take 28 bs) = Ok state"
    using L io len by (auto simp: read_state_def state_layout sub_slice_def constant_time_eq_iff Let_def split: if_splits)
  have "length (take 28 bs) = 28" using len by simp
  then obtain pad where pad: "length pad = 2" "take 28 bs = license_header pad state"
    using decode_state_header_iff dec by blast
  have "bs = take 28 bs @ drop 28 bs" by simp
  then have "bs = license_header pad state @ compute_state_integrity C (license_header pad state)"
    unfolding tag pad(2) .
  then show ?R using io pad(1) by blast
next
  assume ?R
  then obtain pad where io: "io_read_ok io" and pad: "length pad = 2"
    and bs: "bs = license_header pad state @ compute_state_integrity C (license_header pad state)" by blast
  let ?h = "license_header pad state"
  have t: "length (compute_state_integrity C ?h) = 32"
    by (simp add: compute_state_integrity_def hash_contract.sha256_len [OF assms])
  have "decode_state_header ?h = Ok state"
    using decode_state_header_iff [of ?h state] pad by (auto simp: length_license_header)
  then show ?L
    using io t pad license_not_plaintext [of pad state]
    by (simp add: read_state_def state_layout bs length_license_header sub_slice_def constant_time_eq_iff Let_def)
qed

lemma read_written:
  assumes "hash_contract C" and "io_read_ok io"
  shows "read_state C io (Some (state_file_bytes C state)) = Ok state"
  using assms read_state_iff [OF assms(1)] state_file_bytes_eq [OF assms(1)] by (metis length_Cons list.size(3) numeral_2_eq_2)

section \<open>The specification\<close>

text \<open>The gate on two numbers: \<open>None\<close> before the first run.\<close>

definition gate_spec :: "u64 \<Rightarrow> license_state option \<Rightarrow> license_state option \<times> unit license_result" where
  "gate_spec now st =
     (case st of None \<Rightarrow> (Some \<lparr>activation_timestamp = now, last_execution_timestamp = now\<rparr>, Ok ())
      | Some s \<Rightarrow>
          if now < last_execution_timestamp s \<or> now < activation_timestamp s then (st, Err ClockTampering)
          else if unat now - unat (activation_timestamp s) > 2592000 then (st, Err Expired)
          else (Some (s\<lparr>last_execution_timestamp := now\<rparr>), Ok ()))"

definition working_io :: license_io where
  "working_io = \<lparr>io_read_ok = True, io_write_failure = None\<rparr>"

lemma eval_period: "unat EVAL_PERIOD_SECS = 2592000"
  by (simp add: EVAL_PERIOD_SECS_def)

lemma saturating_sub_gt:
  "b \<le> a \<Longrightarrow> u64_saturating_sub a b > EVAL_PERIOD_SECS \<longleftrightarrow> unat a - unat b > 2592000"
  by (simp add: u64_saturating_sub_def word_less_nat_alt word_le_nat_alt not_less unat_sub eval_period [symmetric])

text \<open>With working files the gate implements its specification on the encoded states.\<close>

lemma write_working [simp]: "write_state C working_io st = (Some (state_file_bytes C st), True)"
  by (simp add: write_state_def working_io_def)

lemma gate_refines:
  assumes "hash_contract C"
  shows "check_eval_license C working_io now (map_option (state_file_bytes C) st) =
    apfst (map_option (state_file_bytes C)) (gate_spec now st)"
proof (cases st)
  case (Some s)
  have r: "read_state C working_io (Some (state_file_bytes C s)) = Ok s"
    by (rule read_written [OF assms]) (simp add: working_io_def)
  have u: "s\<lparr>last_execution_timestamp := now\<rparr> =
      \<lparr>activation_timestamp = activation_timestamp s, last_execution_timestamp = now\<rparr>" by (cases s) simp
  show ?thesis
    using saturating_sub_gt [of "activation_timestamp s" now]
    by (auto simp: Some u check_eval_license_def gate_spec_def r not_less)
qed (simp add: check_eval_license_def gate_spec_def)

text \<open>The runs of the gate at given times.\<close>

primrec gate_runs :: "hash_prims \<Rightarrow> bytes option \<Rightarrow> u64 list \<Rightarrow> bytes option \<times> unit license_result list" where
  "gate_runs C content [] = (content, [])"
| "gate_runs C content (t # ts) =
     (case check_eval_license C working_io t content of
        (content', r) \<Rightarrow> (case gate_runs C content' ts of (content'', rs) \<Rightarrow> (content'', r # rs)))"

primrec spec_runs :: "license_state option \<Rightarrow> u64 list \<Rightarrow> license_state option \<times> unit license_result list" where
  "spec_runs st [] = (st, [])"
| "spec_runs st (t # ts) =
     (case gate_spec t st of (st', r) \<Rightarrow> (case spec_runs st' ts of (st'', rs) \<Rightarrow> (st'', r # rs)))"

lemma gate_runs_refine:
  assumes "hash_contract C"
  shows "gate_runs C (map_option (state_file_bytes C) st) ts = apfst (map_option (state_file_bytes C)) (spec_runs st ts)"
proof (induction ts arbitrary: st)
  case (Cons t ts)
  obtain st' r where g: "gate_spec t st = (st', r)" by force
  obtain st'' rs where h: "spec_runs st' ts = (st'', rs)" by force
  show ?case using Cons [of st'] by (simp add: gate_refines [OF assms] g h)
qed simp

text \<open>Once activated, a run is accepted exactly inside the window and not before the last accepted run.\<close>

lemma spec_runs_ok:
  "(\<forall>r\<in>set (snd (spec_runs (Some \<lparr>activation_timestamp = a, last_execution_timestamp = l\<rparr>) ts)). r = Ok ()) \<longleftrightarrow>
     sorted (l # ts) \<and> (\<forall>t\<in>set ts. a \<le> t \<and> unat t - unat a \<le> 2592000)"
proof (induction ts arbitrary: l)
  case (Cons t ts)
  show ?case
    using Cons [of t] by (auto simp: gate_spec_def not_less split: prod.splits)
qed simp

lemma spec_runs_first:
  "(\<forall>r\<in>set (snd (spec_runs None ts)). r = Ok ()) \<longleftrightarrow>
     sorted ts \<and> (\<forall>t\<in>set ts. unat t - unat (hd ts) \<le> 2592000)"
proof (cases ts)
  case (Cons t us)
  show ?thesis using spec_runs_ok [of t t us] by (auto simp: Cons gate_spec_def split: prod.splits)
qed simp

lemma spec_runs_state:
  "\<forall>r\<in>set (snd (spec_runs (Some \<lparr>activation_timestamp = a, last_execution_timestamp = l\<rparr>) ts)). r = Ok () \<Longrightarrow>
   fst (spec_runs (Some \<lparr>activation_timestamp = a, last_execution_timestamp = l\<rparr>) ts) =
     Some \<lparr>activation_timestamp = a, last_execution_timestamp = last (l # ts)\<rparr>"
proof (induction ts arbitrary: l)
  case (Cons t ts)
  have ok: "\<not> (t < l \<or> t < a)" "\<not> unat t - unat a > 2592000"
    using Cons.prems by (auto simp: gate_spec_def split: prod.split_asm if_split_asm)
  show ?case
    using Cons.prems Cons.IH [of t] ok by (simp add: gate_spec_def split: prod.splits)
qed simp

lemma spec_runs_first_state:
  assumes "ts \<noteq> []" "\<forall>r\<in>set (snd (spec_runs None ts)). r = Ok ()"
  shows "fst (spec_runs None ts) = Some \<lparr>activation_timestamp = hd ts, last_execution_timestamp = last ts\<rparr>"
proof (cases ts)
  case (Cons t us)
  show ?thesis
    using assms spec_runs_state [of t t us] by (auto simp: Cons gate_spec_def split: prod.splits)
qed (use assms in simp)

lemma gate_refusal_keeps_file:
  assumes "snd (check_eval_license C working_io now content) \<noteq> Ok ()"
  shows "fst (check_eval_license C working_io now content) = content"
proof (cases content)
  case (Some bs)
  then show ?thesis
    using assms unfolding check_eval_license_def Some option.case
    by (cases "read_state C working_io (Some bs)") (simp_all split: if_split_asm)
qed (use assms in \<open>simp add: check_eval_license_def\<close>)

section \<open>Properties\<close>

text \<open>
  C37. Evaluation window. On a machine without a state file and with working file operations, the runs at the times
  \<open>ts\<close> are all admitted exactly if no time is before an earlier one and none is more than 30 days after the
  first; the file then holds the first and the last of them. A refused run leaves the file as it was.
\<close>

theorem evaluation_window_exact:
  assumes "hash_contract C"
  shows "((\<forall>r\<in>set (snd (gate_runs C None ts)). r = Ok ()) \<longleftrightarrow>
      sorted ts \<and> (\<forall>t\<in>set ts. unat t - unat (hd ts) \<le> 2592000)) \<and>
    (ts \<noteq> [] \<and> (\<forall>r\<in>set (snd (gate_runs C None ts)). r = Ok ()) \<longrightarrow>
      fst (gate_runs C None ts) =
        Some (state_file_bytes C \<lparr>activation_timestamp = hd ts, last_execution_timestamp = last ts\<rparr>)) \<and>
    (snd (check_eval_license C working_io now content) \<noteq> Ok () \<longrightarrow>
      fst (check_eval_license C working_io now content) = content)"
proof -
  have g: "gate_runs C None ts = apfst (map_option (state_file_bytes C)) (spec_runs None ts)"
    using gate_runs_refine [OF assms, of None ts] by simp
  show ?thesis
    by (auto simp: g spec_runs_first spec_runs_first_state gate_refusal_keeps_file)
qed

theorem evaluation_window_exact_witness:
  "list_all is_ok (snd (gate_runs bpf_prims None [100, 100, 2592100])) \<and>
   \<not> list_all is_ok (snd (gate_runs bpf_prims None [100, 200, 150])) \<and>
   \<not> list_all is_ok (snd (gate_runs bpf_prims None [100, 2592101]))"
  using evaluation_window_exact [OF kernel_hash.hash_contract_axioms, of "[100, 100, 2592100]"]
    evaluation_window_exact [OF kernel_hash.hash_contract_axioms, of "[100, 200, 150]"]
    evaluation_window_exact [OF kernel_hash.hash_contract_axioms, of "[100, 2592101]"]
  by (simp add: list_all_iff is_ok_iff)

text \<open>
  License file. A state file is accepted exactly if it is the header of the state, with any two bytes between
  version and activation time, followed by the SHA-256 of the domain and the header, which needs no key; in particular what was
  written is read back. Every other content stops the program with the clock message.
\<close>

theorem license_file_accepted_iff:
  assumes "hash_contract C"
  shows "(read_state C working_io (Some bs) = Ok state \<longleftrightarrow>
      (\<exists>pad. length pad = 2 \<and> bs = license_header pad state @ sha256 C (INTEGRITY_DOMAIN @ license_header pad state))) \<and>
    read_state C working_io (fst (write_state C working_io state)) = Ok state \<and>
    ((\<forall>state. read_state C working_io (Some bs) \<noteq> Ok state) \<longrightarrow>
      enforce_eval_license C working_io clock (Some bs) = (Some bs, Exit_with CLOCK_TAMPER_MESSAGE 1))"
proof (intro conjI impI)
  show "read_state C working_io (Some bs) = Ok state \<longleftrightarrow>
      (\<exists>pad. length pad = 2 \<and> bs = license_header pad state @ sha256 C (INTEGRITY_DOMAIN @ license_header pad state))"
    using read_state_iff [OF assms] by (simp add: working_io_def compute_state_integrity_def)
  show "read_state C working_io (fst (write_state C working_io state)) = Ok state"
    using read_written [OF assms, of working_io state] by (simp add: working_io_def [THEN arg_cong, of io_read_ok])
  assume "\<forall>state. read_state C working_io (Some bs) \<noteq> Ok state"
  then obtain e where "read_state C working_io (Some bs) = Err e"
    using read_state_no_panic by (metis outcome.exhaust)
  moreover have "read_state C working_io (Some bs) = Err e \<Longrightarrow> e = StateUnreadable"
    by (auto simp: read_state_def decode_state_header_def and_then_def sub_slice_def Let_def
        split: if_split_asm)
  ultimately show "enforce_eval_license C working_io clock (Some bs) = (Some bs, Exit_with CLOCK_TAMPER_MESSAGE 1)"
    by (auto simp: enforce_eval_license_def current_unix_secs_def check_eval_license_def exit_for_def split: option.splits)
qed

theorem license_file_accepted_iff_witness:
  "read_state bpf_prims working_io
     (Some (license_header [7, 9] \<lparr>activation_timestamp = 5, last_execution_timestamp = 6\<rparr> @
        sha256 bpf_prims (INTEGRITY_DOMAIN @
          license_header [7, 9] \<lparr>activation_timestamp = 5, last_execution_timestamp = 6\<rparr>))) =
     Ok \<lparr>activation_timestamp = 5, last_execution_timestamp = 6\<rparr>"
  using license_file_accepted_iff [OF kernel_hash.hash_contract_axioms]
  by (metis length_Cons list.size(3) numeral_2_eq_2)

end
