(* ===== verification/Api_Auth.thy ===== *)
theory Api_Auth
  imports Rust_Text
begin

text \<open>
  Authentication of the management API (\<^verbatim>\<open>dfim_management_api/src/auth.rs\<close>): the accounts of the environment, the
  signing secret, and tokens of three base64 parts under HMAC-SHA256.

  The crates \<^verbatim>\<open>hmac\<close>, \<^verbatim>\<open>subtle\<close>, \<^verbatim>\<open>base64\<close> and \<^verbatim>\<open>serde_json\<close> are the parameter \<open>auth_prims\<close>; \<open>auth_prims_ok\<close> states
  what they document. The environment is a function from names to values, the clock an argument (\<open>None\<close> before the
  epoch), and the random key of the process another. The theory shows that a token carries the identity of the
  account that logged in, for one day, and that no token with a genuine signature carries another.
\<close>

definition MIN_JWT_SECRET_LEN :: nat where "MIN_JWT_SECRET_LEN = 32"
definition TOKEN_EXPIRY_SECS :: u64 where "TOKEN_EXPIRY_SECS = 86400"

record claims =
  cl_sub :: string
  cl_tenant :: string
  cl_role :: string
  cl_exp :: u64
  cl_iat :: u64

record auth_prims =
  hmac_sha256 :: "bytes \<Rightarrow> bytes \<Rightarrow> bytes"
  bytes_ct_eq :: "bytes \<Rightarrow> bytes \<Rightarrow> bool"
  b64_encode :: "bytes \<Rightarrow> string"
  b64_decode :: "string \<Rightarrow> bytes option"
  header_json :: bytes
  claims_json :: "claims \<Rightarrow> bytes"
  claims_of_json :: "bytes \<Rightarrow> claims option"

text \<open>The alphabet of URL-safe base64.\<close>

definition b64_char :: "char \<Rightarrow> bool" where
  "b64_char c \<longleftrightarrow> (let n = of_char c :: nat in
     48 \<le> n \<and> n \<le> 57 \<or> 65 \<le> n \<and> n \<le> 90 \<or> 97 \<le> n \<and> n \<le> 122 \<or> n = 45 \<or> n = 95)"

definition auth_prims_ok :: "auth_prims \<Rightarrow> bool" where
  "auth_prims_ok A \<longleftrightarrow>
     (\<forall>k m. length (hmac_sha256 A k m) = 32) \<and>
     (\<forall>a b. length a = length b \<longrightarrow> (bytes_ct_eq A a b \<longleftrightarrow> a = b)) \<and>
     (\<forall>x. b64_decode A (b64_encode A x) = Some x) \<and>
     (\<forall>x. list_all b64_char (b64_encode A x)) \<and>
     (\<forall>c. claims_of_json A (claims_json A c) = Some c)"

datatype auth_error =
    Invalid_token_format
  | Bad_base64
  | Invalid_signature
  | Bad_json
  | Token_expired
  | Invalid_credentials
  | Clock_before_epoch

type_synonym environment = "string \<Rightarrow> string option"

text \<open>\<^verbatim>\<open>String::trim\<close> of an environment variable, which is valid UTF-8.\<close>

definition trimmed :: "string \<Rightarrow> bytes" where
  "trimmed s = (case utf8_chars (ascii s) of Some cs \<Rightarrow> concat (str_trim cs) | None \<Rightarrow> ascii s)"

definition jwt_secret :: "environment \<Rightarrow> bytes \<Rightarrow> bytes" where
  "jwt_secret env fallback =
     (case env ''DFIM_JWT_SECRET'' of
        Some s \<Rightarrow> (if MIN_JWT_SECRET_LEN \<le> length (trimmed s) then trimmed s else fallback)
      | None \<Rightarrow> fallback)"

record user_identity =
  ui_role :: string
  ui_tenant :: string

type_synonym account = "string \<times> string \<times> user_identity"

definition tenant_from_env :: "environment \<Rightarrow> string \<Rightarrow> string" where
  "tenant_from_env env key = (case env key of Some t \<Rightarrow> t | None \<Rightarrow> ''default'')"

definition env_account :: "environment \<Rightarrow> string \<Rightarrow> string \<Rightarrow> string \<Rightarrow> string \<Rightarrow> account list" where
  "env_account env user_key pass_key role tenant_key =
     (case (env user_key, env pass_key) of
        (Some user, Some pass) \<Rightarrow>
          (if user \<noteq> [] \<and> pass \<noteq> []
           then [(user, pass, \<lparr>ui_role = role, ui_tenant = tenant_from_env env tenant_key\<rparr>)] else [])
      | _ \<Rightarrow> [])"

definition configured_accounts :: "environment \<Rightarrow> account list" where
  "configured_accounts env =
     env_account env ''DFIM_ADMIN_USER'' ''DFIM_ADMIN_PASSWORD'' ''admin'' ''DFIM_ADMIN_TENANT''
     @ env_account env ''DFIM_OPERATOR_USER'' ''DFIM_OPERATOR_PASSWORD'' ''operator'' ''DFIM_OPERATOR_TENANT''
     @ env_account env ''DFIM_READONLY_USER'' ''DFIM_READONLY_PASSWORD'' ''readonly'' ''DFIM_READONLY_TENANT''"

definition text_ct_eq :: "auth_prims \<Rightarrow> string \<Rightarrow> string \<Rightarrow> bool" where
  "text_ct_eq A a b \<longleftrightarrow> length a = length b \<and> bytes_ct_eq A (ascii a) (ascii b)"

definition resolve_identity :: "auth_prims \<Rightarrow> account list \<Rightarrow> string \<Rightarrow> string \<Rightarrow> user_identity option" where
  "resolve_identity A accounts username password =
     foldl (\<lambda>matched (u, p, identity).
       let user_eq = text_ct_eq A u username; pass_eq = text_ct_eq A p password
       in if user_eq \<and> pass_eq then Some identity else matched) None accounts"

definition validate_credentials :: "auth_prims \<Rightarrow> environment \<Rightarrow> string \<Rightarrow> string \<Rightarrow> user_identity option" where
  "validate_credentials A env username password = resolve_identity A (configured_accounts env) username password"

definition base64_encode_json :: "auth_prims \<Rightarrow> bytes \<Rightarrow> string" where
  "base64_encode_json A json = b64_encode A json"

definition base64_decode_json :: "auth_prims \<Rightarrow> string \<Rightarrow> (auth_error, claims) outcome" where
  "base64_decode_json A b64 =
     and_then (ok_or Bad_base64 (b64_decode A b64)) (\<lambda>bs. ok_or Bad_json (claims_of_json A bs))"

definition issued_claims :: "string \<Rightarrow> string \<Rightarrow> string \<Rightarrow> u64 \<Rightarrow> claims" where
  "issued_claims username role tenant now =
     \<lparr>cl_sub = username, cl_tenant = tenant, cl_role = role, cl_exp = now + TOKEN_EXPIRY_SECS, cl_iat = now\<rparr>"

definition signing_input :: "auth_prims \<Rightarrow> claims \<Rightarrow> string" where
  "signing_input A c = base64_encode_json A (header_json A) @ ''.'' @ base64_encode_json A (claims_json A c)"

text \<open>The sum of the clock and the lifetime of a token stops with a panic if it overflows.\<close>

definition issue_token :: "auth_prims \<Rightarrow> bytes \<Rightarrow> u64 option \<Rightarrow> string \<Rightarrow> string \<Rightarrow> string \<Rightarrow>
    (auth_error, string) outcome" where
  "issue_token A secret clock username role tenant =
     and_then (ok_or Clock_before_epoch clock) (\<lambda>now.
     if 2 ^ 64 \<le> unat now + unat TOKEN_EXPIRY_SECS then Panic
     else
       let input = signing_input A (issued_claims username role tenant now);
           signature = b64_encode A (hmac_sha256 A secret (ascii input))
       in Ok (input @ ''.'' @ signature))"

definition verify_jwt :: "auth_prims \<Rightarrow> bytes \<Rightarrow> u64 option \<Rightarrow> string \<Rightarrow> (auth_error, claims) outcome" where
  "verify_jwt A secret clock token =
     (case split_on (\<lambda>c. c = CHR ''.'') (trim_start_matches ''Bearer '' token) of
        [p0, p1, p2] \<Rightarrow>
          (let expected = hmac_sha256 A secret (ascii (p0 @ ''.'' @ p1))
           in and_then (ok_or Bad_base64 (b64_decode A p2)) (\<lambda>provided.
              if length expected \<noteq> length provided \<or> \<not> bytes_ct_eq A expected provided then Err Invalid_signature
              else
                and_then (base64_decode_json A p1) (\<lambda>c.
                and_then (ok_or Clock_before_epoch clock) (\<lambda>now.
                if cl_exp c < now then Err Token_expired else Ok c))))
      | _ \<Rightarrow> Err Invalid_token_format)"

record login_request =
  lr_username :: string
  lr_password :: string

record token_response =
  tr_access_token :: string
  tr_token_type :: string
  tr_expires_in :: u64
  tr_role :: string
  tr_tenant :: string

definition auth_login :: "auth_prims \<Rightarrow> environment \<Rightarrow> bytes \<Rightarrow> u64 option \<Rightarrow> login_request \<Rightarrow>
    (auth_error, token_response) outcome" where
  "auth_login A env fallback clock req =
     and_then (ok_or Invalid_credentials (validate_credentials A env (lr_username req) (lr_password req))) (\<lambda>identity.
     and_then (issue_token A (jwt_secret env fallback) clock (lr_username req) (ui_role identity) (ui_tenant identity))
       (\<lambda>token.
     Ok \<lparr>tr_access_token = token, tr_token_type = ''Bearer'', tr_expires_in = TOKEN_EXPIRY_SECS,
         tr_role = ui_role identity, tr_tenant = ui_tenant identity\<rparr>))"

section \<open>Accounts\<close>

lemma text_ct_eq_iff:
  assumes "auth_prims_ok A"
  shows "text_ct_eq A a b \<longleftrightarrow> a = b"
  using assms by (auto simp: text_ct_eq_def auth_prims_ok_def)

text \<open>The last account with these credentials decides.\<close>

lemma resolve_identity_find:
  assumes "auth_prims_ok A"
  shows "resolve_identity A accounts u p = map_option (snd \<circ> snd) (find (\<lambda>(v, q, _). v = u \<and> q = p) (rev accounts))"
proof (induction accounts rule: rev_induct)
  case (snoc x xs)
  then show ?case by (cases x) (simp add: resolve_identity_def text_ct_eq_iff [OF assms])
qed (simp add: resolve_identity_def)

section \<open>Tokens\<close>

lemma auth_prims_okD:
  assumes "auth_prims_ok A"
  shows "length (hmac_sha256 A k m) = 32" "length a = length b \<Longrightarrow> bytes_ct_eq A a b \<longleftrightarrow> a = b"
    "b64_decode A (b64_encode A x) = Some x" "c \<in> set (b64_encode A x) \<Longrightarrow> b64_char c"
    "claims_of_json A (claims_json A d) = Some d"
  using assms by (auto simp: auth_prims_ok_def list_all_iff)

text \<open>The text that the signature of a token covers.\<close>

definition covered_text :: "string \<Rightarrow> string" where
  "covered_text token =
     (case split_on (\<lambda>c. c = CHR ''.'') (trim_start_matches ''Bearer '' token) of
        [p0, p1, p2] \<Rightarrow> p0 @ ''.'' @ p1 | _ \<Rightarrow> [])"

lemma verify_jwt_eq_Ok:
  "verify_jwt A secret clock token = Ok c \<longleftrightarrow>
     (\<exists>p0 p1 p2 now. split_on (\<lambda>c. c = CHR ''.'') (trim_start_matches ''Bearer '' token) = [p0, p1, p2]
        \<and> clock = Some now \<and> now \<le> cl_exp c \<and> base64_decode_json A p1 = Ok c
        \<and> (\<exists>mac. b64_decode A p2 = Some mac \<and> length (hmac_sha256 A secret (ascii (p0 @ ''.'' @ p1))) = length mac
             \<and> bytes_ct_eq A (hmac_sha256 A secret (ascii (p0 @ ''.'' @ p1))) mac))"
  by (auto simp: verify_jwt_def Let_def outcome_simps not_less split: list.splits) blast?

lemma verify_jwt_parts:
  assumes "verify_jwt A secret clock token = Ok c"
  obtains p0 p1 where "covered_text token = p0 @ CHR ''.'' # p1" "CHR ''.'' \<notin> set p0" "CHR ''.'' \<notin> set p1"
    "base64_decode_json A p1 = Ok c"
proof -
  obtain p0 p1 p2 where s: "split_on (\<lambda>c. c = CHR ''.'') (trim_start_matches ''Bearer '' token) = [p0, p1, p2]"
    and d: "base64_decode_json A p1 = Ok c" using assms unfolding verify_jwt_eq_Ok by blast
  have "CHR ''.'' \<notin> set p" if "p \<in> {p0, p1}" for p
    using split_on_pieces [of p "\<lambda>c. c = CHR ''.''" "trim_start_matches ''Bearer '' token" "CHR ''.''"] that s by auto
  then show thesis using that [of p0 p1] s d by (simp add: covered_text_def)
qed

lemma b64_no_dot:
  assumes "auth_prims_ok A"
  shows "CHR ''.'' \<notin> set (b64_encode A x)" "CHR '' '' \<notin> set (b64_encode A x)"
  using auth_prims_okD(4) [OF assms, of "CHR ''.''" x] auth_prims_okD(4) [OF assms, of "CHR '' ''" x]
  by (auto simp: b64_char_def)

lemma issue_token_parts:
  fixes c :: claims and m :: bytes
  assumes "auth_prims_ok A"
  defines "t \<equiv> signing_input A c @ ''.'' @ b64_encode A m"
  shows "split_on (\<lambda>c. c = CHR ''.'') (trim_start_matches ''Bearer '' (''Bearer '' @ t)) =
     [b64_encode A (header_json A), b64_encode A (claims_json A c), b64_encode A m]"
proof -
  note b = b64_no_dot [OF assms(1)]
  have "trim_start_matches ''Bearer '' (''Bearer '' @ t) = t"
    using b by (intro trim_start_matches_other(1) [of "CHR '' ''"])
      (simp_all add: t_def signing_input_def base64_encode_json_def)
  moreover have "split_on (\<lambda>c. c = CHR ''.'') (b64_encode A x @ CHR ''.'' # s) = b64_encode A x # split_on (\<lambda>c. c = CHR ''.'') s"
    for x s using b by (intro split_on_append) auto
  moreover have "split_on (\<lambda>c. c = CHR ''.'') (b64_encode A x) = [b64_encode A x]" for x
    using b by (intro split_on_none) auto
  ultimately show ?thesis unfolding t_def signing_input_def base64_encode_json_def by simp
qed

lemma issue_token_eq:
  assumes "issue_token A secret (Some now) username role tenant = Ok tok"
  defines "c \<equiv> issued_claims username role tenant now"
  shows "tok = signing_input A c @ ''.'' @ b64_encode A (hmac_sha256 A secret (ascii (signing_input A c)))"
  using assms(1) by (simp add: issue_token_def Let_def c_def split: if_splits)

lemma issued_token_verifies:
  assumes "auth_prims_ok A" and "issue_token A secret (Some now) username role tenant = Ok tok"
  shows "verify_jwt A secret (Some later) (''Bearer '' @ tok) =
     (if later \<le> now + TOKEN_EXPIRY_SECS then Ok (issued_claims username role tenant now) else Err Token_expired)"
proof -
  define c where "c = issued_claims username role tenant now"
  define m where "m = hmac_sha256 A secret (ascii (signing_input A c))"
  have t: "tok = signing_input A c @ ''.'' @ b64_encode A m"
    using issue_token_eq [OF assms(2)] by (simp add: c_def m_def)
  have "length m = 32" by (simp add: m_def auth_prims_okD [OF assms(1)])
  moreover have "b64_encode A (header_json A) @ ''.'' @ b64_encode A (claims_json A c) = signing_input A c"
    by (simp add: signing_input_def base64_encode_json_def)
  ultimately show ?thesis unfolding verify_jwt_def t issue_token_parts [OF assms(1)]
    by (simp add: Let_def base64_decode_json_def auth_prims_okD [OF assms(1)] m_def [symmetric])
      (auto simp: c_def issued_claims_def)
qed

lemma signed_claims_unique:
  assumes "auth_prims_ok A" and "verify_jwt A secret clock token = Ok c" and "covered_text token = signing_input A d"
  shows "c = d"
proof -
  obtain p0 p1 where p: "covered_text token = p0 @ CHR ''.'' # p1" "CHR ''.'' \<notin> set p0" "CHR ''.'' \<notin> set p1"
    and c: "base64_decode_json A p1 = Ok c" using verify_jwt_parts [OF assms(2)] by blast
  have two: "split_on (\<lambda>c. c = CHR ''.'') (u @ CHR ''.'' # v) = [u, v]" if "CHR ''.'' \<notin> set u" "CHR ''.'' \<notin> set v" for u v
  proof -
    have "split_on (\<lambda>c. c = CHR ''.'') (u @ CHR ''.'' # v) = u # split_on (\<lambda>c. c = CHR ''.'') v"
      using that(1) by (intro split_on_append) auto
    also have "split_on (\<lambda>c. c = CHR ''.'') v = [v]" using that(2) by (intro split_on_none) auto
    finally show ?thesis .
  qed
  have "p0 @ CHR ''.'' # p1 = b64_encode A (header_json A) @ CHR ''.'' # b64_encode A (claims_json A d)"
    using p(1) assms(3) by (simp add: signing_input_def base64_encode_json_def)
  then have "[p0, p1] = [b64_encode A (header_json A), b64_encode A (claims_json A d)]"
    using two [OF p(2, 3)] two [OF b64_no_dot(1) [OF assms(1)] b64_no_dot(1) [OF assms(1)]] by metis
  then show ?thesis using c by (simp add: base64_decode_json_def auth_prims_okD [OF assms(1)])
qed

text \<open>
  C23. Login tokens. A login succeeds only with the user name and password of a configured account. Its token, in an
  Authorization header, is accepted for 86400 seconds and no longer, with exactly the role and the tenant of that
  account; and no accepted token whose signature covers the same text carries other claims.
\<close>

theorem login_token_carries_identity:
  assumes "auth_prims_ok A" and "auth_login A env fallback (Some now) req = Ok resp"
  defines "secret \<equiv> jwt_secret env fallback"
    and "c \<equiv> issued_claims (lr_username req) (tr_role resp) (tr_tenant resp) now"
  shows "(lr_username req, lr_password req, \<lparr>ui_role = tr_role resp, ui_tenant = tr_tenant resp\<rparr>)
           \<in> set (configured_accounts env)
    \<and> (\<forall>later. verify_jwt A secret (Some later) (''Bearer '' @ tr_access_token resp) =
         (if unat later \<le> unat now + 86400 then Ok c else Err Token_expired))
    \<and> (\<forall>token clock d. verify_jwt A secret clock token = Ok d
         \<longrightarrow> covered_text token = covered_text (''Bearer '' @ tr_access_token resp) \<longrightarrow> d = c)"
proof (intro conjI allI impI)
  obtain i where i: "validate_credentials A env (lr_username req) (lr_password req) = Some i"
    and tok: "issue_token A secret (Some now) (lr_username req) (ui_role i) (ui_tenant i) = Ok (tr_access_token resp)"
    and r: "tr_role resp = ui_role i" "tr_tenant resp = ui_tenant i"
    using assms(2) by (auto simp: auth_login_def secret_def outcome_simps)
  obtain u p where f: "find (\<lambda>(v, q, _). v = lr_username req \<and> q = lr_password req) (rev (configured_accounts env)) = Some (u, p, i)"
    using i unfolding validate_credentials_def resolve_identity_find [OF assms(1)] by auto
  then show "(lr_username req, lr_password req, \<lparr>ui_role = tr_role resp, ui_tenant = tr_tenant resp\<rparr>) \<in> set (configured_accounts env)"
    using r by (auto simp: find_Some_iff in_set_conv_nth simp flip: set_rev [of "configured_accounts env"] simp del: set_rev)
  have o: "unat now + unat TOKEN_EXPIRY_SECS < 2 ^ 64" using tok by (simp add: issue_token_def not_le split: if_splits)
  show "verify_jwt A secret (Some later) (''Bearer '' @ tr_access_token resp) =
         (if unat later \<le> unat now + 86400 then Ok c else Err Token_expired)" for later
    using issued_token_verifies [OF assms(1) tok, of later] o unfolding c_def r
    by (simp add: word_le_nat_alt unat_word_ariths TOKEN_EXPIRY_SECS_def)
  have cov: "covered_text (''Bearer '' @ tr_access_token resp) = signing_input A c"
    unfolding covered_text_def issue_token_eq [OF tok] issue_token_parts [OF assms(1)] c_def r
    by (simp add: signing_input_def base64_encode_json_def)
  show "d = c" if "verify_jwt A secret clock token = Ok d"
    and "covered_text token = covered_text (''Bearer '' @ tr_access_token resp)" for token clock d
    using signed_claims_unique [OF assms(1) that(1)] that(2) unfolding cov by simp
qed

text \<open>Concrete primitives with these laws: a checksum for the code, a text code and a binary form of claims.\<close>

definition toy_b64_encode :: "bytes \<Rightarrow> string" where
  "toy_b64_encode bs = concat (map (\<lambda>b. [char_of (65 + unat b div 16), char_of (65 + unat b mod 16)]) bs)"

fun toy_b64_decode :: "string \<Rightarrow> bytes option" where
  "toy_b64_decode [] = Some []"
| "toy_b64_decode (h # l # cs) =
     map_option (Cons (of_nat ((of_char h - 65) * 16 + (of_char l - 65)))) (toy_b64_decode cs)"
| "toy_b64_decode [_] = None"

definition toy_text :: "string \<Rightarrow> bytes" where
  "toy_text s = concat (map (\<lambda>c. [1, of_nat (of_char c)]) s) @ [0]"

fun toy_read :: "bytes \<Rightarrow> (string \<times> bytes) option" where
  "toy_read (b # bs) =
     (if b = 0 then Some ([], bs)
      else case bs of c # cs \<Rightarrow> map_option (apfst (Cons (char_of (unat c)))) (toy_read cs) | [] \<Rightarrow> None)"
| "toy_read [] = None"

definition toy_claims :: "claims \<Rightarrow> bytes" where
  "toy_claims c = toy_text (cl_sub c) @ toy_text (cl_tenant c) @ toy_text (cl_role c)
     @ to_le_bytes 8 (cl_exp c) @ to_le_bytes 8 (cl_iat c)"

definition toy_read_claims :: "bytes \<Rightarrow> claims option" where
  "toy_read_claims bs =
     Option.bind (toy_read bs) (\<lambda>(s, bs). Option.bind (toy_read bs) (\<lambda>(t, bs).
     map_option (\<lambda>(r, bs). \<lparr>cl_sub = s, cl_tenant = t, cl_role = r, cl_exp = from_le_bytes (take 8 bs),
       cl_iat = from_le_bytes (drop 8 bs)\<rparr>) (toy_read bs)))"

definition toy_auth :: auth_prims where
  "toy_auth =
     \<lparr>hmac_sha256 = (\<lambda>k m. replicate 31 0 @ [foldl (+) 0 (k @ m)]), bytes_ct_eq = (=),
      b64_encode = toy_b64_encode, b64_decode = toy_b64_decode, header_json = [], claims_json = toy_claims,
      claims_of_json = toy_read_claims\<rparr>"

lemma toy_char: "n < (16 :: nat) \<Longrightarrow> b64_char (char_of (65 + n))"
  by (simp add: b64_char_def Let_def)

lemma toy_b64: "toy_b64_decode (toy_b64_encode bs) = Some bs" "list_all b64_char (toy_b64_encode bs)"
proof (induction bs)
  case (Cons b bs)
  have d: "unat b div 16 < 16" using unsigned_less [of b, where 'a = nat] by (simp add: less_mult_imp_div_less)
  then have h: "of_char (char_of (65 + unat b div 16) :: char) = 65 + unat b div 16" by simp
  have m: "unat b mod 16 < 16" by simp
  then have l: "of_char (char_of (65 + unat b mod 16) :: char) = 65 + unat b mod 16" by simp
  { case 1
    show ?case using Cons(1) h l by (simp add: toy_b64_encode_def) }
  { case 2
    show ?case using Cons(2) toy_char [OF d] toy_char [OF m] by (simp add: toy_b64_encode_def) }
qed (simp_all add: toy_b64_encode_def)

lemma toy_read_text [simp]: "toy_read (toy_text s @ bs) = Some (s, bs)"
proof (induction s)
  case (Cons c s)
  have "unat (of_nat (of_char c) :: u8) = of_char c" by (simp add: unat_of_nat)
  then show ?case using Cons by (simp add: toy_text_def)
qed (simp add: toy_text_def)

lemma toy_auth_ok: "auth_prims_ok toy_auth"
  by (simp add: auth_prims_ok_def toy_auth_def toy_b64 toy_claims_def toy_read_claims_def)

definition toy_env :: environment where
  "toy_env = map_of [(''DFIM_OPERATOR_USER'', ''ann''), (''DFIM_OPERATOR_PASSWORD'', ''pw''), (''DFIM_OPERATOR_TENANT'', ''acme'')]"

theorem login_token_carries_identity_witness:
  "\<exists>resp. auth_login toy_auth toy_env [7] (Some 1000) \<lparr>lr_username = ''ann'', lr_password = ''pw''\<rparr> = Ok resp
     \<and> verify_jwt toy_auth [7] (Some 87400) (''Bearer '' @ tr_access_token resp) =
         Ok \<lparr>cl_sub = ''ann'', cl_tenant = ''acme'', cl_role = ''operator'', cl_exp = 87400, cl_iat = 1000\<rparr>
     \<and> verify_jwt toy_auth [7] (Some 87401) (''Bearer '' @ tr_access_token resp) = Err Token_expired"
proof -
  let ?req = "\<lparr>lr_username = ''ann'', lr_password = ''pw''\<rparr>"
  obtain resp where r: "auth_login toy_auth toy_env [7] (Some 1000) ?req = Ok resp"
    and f: "tr_role resp = ''operator''" "tr_tenant resp = ''acme''"
  proof -
    have "validate_credentials toy_auth toy_env ''ann'' ''pw'' = Some \<lparr>ui_role = ''operator'', ui_tenant = ''acme''\<rparr>"
      by (simp add: validate_credentials_def resolve_identity_find [OF toy_auth_ok] configured_accounts_def
          env_account_def tenant_from_env_def toy_env_def)
    then show thesis using that by (simp add: auth_login_def issue_token_def Let_def TOKEN_EXPIRY_SECS_def)
  qed
  have s: "jwt_secret toy_env [7] = [7]" by (simp add: jwt_secret_def toy_env_def)
  note w = login_token_carries_identity [OF toy_auth_ok r, unfolded s, THEN conjunct2, THEN conjunct1, rule_format]
  show ?thesis
  proof (intro exI conjI)
    show "verify_jwt toy_auth [7] (Some 87400) (''Bearer '' @ tr_access_token resp) =
         Ok \<lparr>cl_sub = ''ann'', cl_tenant = ''acme'', cl_role = ''operator'', cl_exp = 87400, cl_iat = 1000\<rparr>"
      using w [of 87400] f by (simp add: issued_claims_def TOKEN_EXPIRY_SECS_def)
    show "verify_jwt toy_auth [7] (Some 87401) (''Bearer '' @ tr_access_token resp) = Err Token_expired"
      using w [of 87401] by simp
  qed (rule r)
qed

end
