(* ===== verification/Ieee_Double.thy ===== *)
theory Ieee_Double
  imports Complex_Main "HOL-Library.Log_Nat"
begin

text \<open>
  The arithmetic of Rust's type \<^verbatim>\<open>f64\<close> on finite numbers of the normal range: exact rational arithmetic followed by
  rounding to 53 significant bits, ties to even. Overflow, subnormal numbers and NaN do not occur in the code that
  uses it: its numbers are counts of at most 32 bits, durations of at least a nanosecond, and sums and products of
  these. The rate limiter and the sample policies compute with it.
\<close>

definition ilog2 :: "rat \<Rightarrow> int" where
  "ilog2 x = (let (n, d) = quotient_of x; e = bitlen n - bitlen d in if 2 powi e \<le> x then e else e - 1)"

definition round_half_even :: "rat \<Rightarrow> int" where
  "round_half_even x =
     (let f = \<lfloor>x\<rfloor>; r = x - of_int f
      in if r < 1 / 2 then f else if 1 / 2 < r then f + 1 else if even f then f else f + 1)"

definition f64_round :: "rat \<Rightarrow> rat" where
  "f64_round x =
     (if x = 0 then 0
      else let s = 2 powi (ilog2 \<bar>x\<bar> - 52) in of_int (round_half_even (x / s)) * s)"

definition f64_add :: "rat \<Rightarrow> rat \<Rightarrow> rat" where
  "f64_add x y = f64_round (x + y)"

definition f64_sub :: "rat \<Rightarrow> rat \<Rightarrow> rat" where
  "f64_sub x y = f64_round (x - y)"

definition f64_mul :: "rat \<Rightarrow> rat \<Rightarrow> rat" where
  "f64_mul x y = f64_round (x * y)"

definition f64_div :: "rat \<Rightarrow> rat \<Rightarrow> rat" where
  "f64_div x y = f64_round (x / y)"

lemma bitlen_powi:
  assumes "0 < n"
  shows "2 powi (bitlen n - 1) \<le> (of_int n :: rat)" and "(of_int n :: rat) < 2 powi bitlen n"
proof -
  have l: "1 \<le> bitlen n" using assms bitlen_eq_zero_iff [of n] bitlen_nonneg [of n] by linarith
  have lo: "2 ^ nat (bitlen n - 1) \<le> n" and hi: "n < 2 ^ nat (bitlen n)" using bitlen_bounds [OF assms] by simp_all
  have "(of_int (2 ^ nat (bitlen n - 1)) :: rat) \<le> of_int n" using lo by (simp only: of_int_le_iff)
  then show "2 powi (bitlen n - 1) \<le> (of_int n :: rat)" using l by (simp add: power_int_nonneg_exp)
  have "(of_int n :: rat) < of_int (2 ^ nat (bitlen n))" using hi by (simp only: of_int_less_iff)
  then show "(of_int n :: rat) < 2 powi bitlen n" using l by (simp add: power_int_nonneg_exp)
qed

lemma ilog2_bounds:
  assumes "0 < x"
  shows "2 powi (ilog2 x) \<le> x" and "x < 2 powi (ilog2 x + 1)"
proof -
  obtain n d where q: "quotient_of x = (n, d)" by (cases "quotient_of x")
  have d: "0 < d" and x: "x = of_int n / of_int d"
    using quotient_of_denom_pos [OF q] quotient_of_div [OF q] by simp_all
  have n: "0 < n" using assms d unfolding x by (simp add: zero_less_divide_iff)
  define e where "e = bitlen n - bitlen d"
  have "x < 2 powi bitlen n / of_int d"
    unfolding x using bitlen_powi(2) [OF n] d by (simp add: divide_strict_right_mono)
  also have "\<dots> \<le> 2 powi bitlen n / 2 powi (bitlen d - 1)"
    using bitlen_powi(1) [OF d] d by (intro divide_left_mono) simp_all
  also have "\<dots> = 2 powi (e + 1)" unfolding e_def by (simp add: algebra_simps flip: power_int_diff)
  finally have hi: "x < 2 powi (e + 1)" .
  have "2 powi (e - 1) = 2 powi (bitlen n - 1) / (2 powi bitlen d :: rat)"
    unfolding e_def by (simp flip: power_int_diff add: algebra_simps)
  also have "\<dots> \<le> of_int n / 2 powi bitlen d"
    using bitlen_powi(1) [OF n] by (simp add: divide_right_mono)
  also have "\<dots> \<le> x" unfolding x using bitlen_powi(2) [OF d] n d by (intro divide_left_mono) simp_all
  finally have lo: "2 powi (e - 1) \<le> x" .
  have i: "ilog2 x = (if 2 powi e \<le> x then e else e - 1)" unfolding ilog2_def q e_def by simp
  show "2 powi (ilog2 x) \<le> x" using lo by (simp add: i)
  show "x < 2 powi (ilog2 x + 1)" using hi by (simp add: i)
qed

lemma round_half_even_error: "\<bar>of_int (round_half_even x) - x\<bar> \<le> 1 / 2"
proof -
  have "of_int \<lfloor>x\<rfloor> \<le> x" "x < of_int \<lfloor>x\<rfloor> + 1" by linarith+
  then show ?thesis unfolding round_half_even_def Let_def by (auto split: if_splits)
qed

lemma round_half_even_of_int [simp]: "round_half_even (of_int n) = n"
  by (simp add: round_half_even_def)

lemma round_half_even_nonneg:
  assumes "0 \<le> x"
  shows "0 \<le> round_half_even x"
  using assms by (simp add: round_half_even_def Let_def)

lemma f64_round_zero [simp]: "f64_round 0 = 0"
  by (simp add: f64_round_def)

lemma f64_round_nonneg:
  assumes "0 \<le> x"
  shows "0 \<le> f64_round x"
  using round_half_even_nonneg [of "x / 2 powi (ilog2 \<bar>x\<bar> - 52)"] assms by (simp add: f64_round_def Let_def)

lemma f64_round_error: "\<bar>f64_round x - x\<bar> \<le> \<bar>x\<bar> / 2 ^ 53"
proof (cases "x = 0")
  case False
  define s where "s = (2 :: rat) powi (ilog2 \<bar>x\<bar> - 52)"
  have s: "0 < s" by (simp add: s_def)
  have "f64_round x - x = (of_int (round_half_even (x / s)) - x / s) * s"
    using False s unfolding f64_round_def s_def [symmetric] by (simp add: field_simps)
  then have "\<bar>f64_round x - x\<bar> \<le> 1 / 2 * s"
    using round_half_even_error [of "x / s"] s by (simp add: abs_mult mult_right_mono)
  also have "1 / 2 * s = 2 powi (ilog2 \<bar>x\<bar>) / 2 ^ 53" unfolding s_def by (simp add: power_int_diff)
  also have "\<dots> \<le> \<bar>x\<bar> / 2 ^ 53" using ilog2_bounds(1) [of "\<bar>x\<bar>"] False by (simp add: divide_right_mono)
  finally show ?thesis .
qed simp

lemma f64_round_of_int:
  assumes "\<bar>n\<bar> < 2 ^ 53"
  shows "f64_round (of_int n) = of_int n"
proof (cases "n = 0")
  case False
  define e where "e = ilog2 \<bar>of_int n\<bar> - 52"
  define k where "k = nat (- e)"
  have p: "0 < \<bar>of_int n :: rat\<bar>" using False by simp
  have "(2 :: rat) powi (ilog2 \<bar>of_int n\<bar>) \<le> \<bar>of_int n\<bar>" using ilog2_bounds(1) [OF p] .
  also have "\<dots> < of_int (2 ^ 53)" using assms unfolding of_int_abs [symmetric] by (simp only: of_int_less_iff)
  finally have "(2 :: rat) powi (ilog2 \<bar>of_int n\<bar>) < 2 powi 53" by simp
  then have "ilog2 \<bar>of_int n\<bar> < 53" by (rule power_int_le_imp_less_exp [rotated]) simp_all
  then have k: "e = - int k" unfolding e_def k_def by simp
  then have s: "(2 :: rat) powi e = 1 / 2 ^ k" by (simp add: power_int_minus_divide)
  have "of_int n / 2 powi e = (of_int (n * 2 ^ k) :: rat)" by (simp add: s)
  then have "round_half_even (of_int n / 2 powi e) = n * 2 ^ k" by (metis round_half_even_of_int)
  then show ?thesis using False unfolding f64_round_def Let_def e_def [symmetric] by (simp add: s)
qed simp

lemma f64_round_of_nat:
  assumes "n < 2 ^ 53"
  shows "f64_round (of_nat n) = of_nat n"
proof -
  have "\<bar>int n\<bar> < 2 ^ 53" using assms by (simp add: nat_less_real_le flip: of_nat_less_iff)
  from f64_round_of_int [OF this] show ?thesis by simp
qed

text \<open>The relative error of one rounding.\<close>

definition ulp :: rat where
  "ulp = 1 / 2 ^ 53"

lemma ulp_pos [simp]: "0 < ulp" "0 \<le> ulp" "0 < 1 + ulp" "0 \<le> 1 + ulp"
  by (simp_all add: ulp_def)

lemma f64_round_le:
  assumes "0 \<le> x"
  shows "f64_round x \<le> x * (1 + ulp)"
proof -
  have "f64_round x - x \<le> x / 2 ^ 53" using f64_round_error [of x] assms by linarith
  then show ?thesis by (simp add: ulp_def field_simps)
qed

lemma f64_round_ge:
  assumes "0 \<le> x"
  shows "x * (1 - ulp) \<le> f64_round x"
proof -
  have "x - f64_round x \<le> x / 2 ^ 53" using f64_round_error [of x] assms by linarith
  then show ?thesis by (simp add: ulp_def field_simps)
qed

text \<open>Rounding never passes an integer of at most 53 bits.\<close>

lemma round_half_even_ge:
  assumes "of_int m \<le> x"
  shows "m \<le> round_half_even x"
proof -
  have "m \<le> \<lfloor>x\<rfloor>" using assms by (simp add: le_floor_iff)
  then show ?thesis by (auto simp: round_half_even_def Let_def)
qed

lemma f64_round_ge_of_nat:
  assumes "of_nat n \<le> x" and "n < 2 ^ 53"
  shows "of_nat n \<le> f64_round x"
proof (cases "n = 0")
  case True
  then show ?thesis using f64_round_nonneg [of x] assms(1) by simp
next
  case False
  then have x: "0 < x" using assms(1) by (metis of_nat_0_less_iff less_le_trans neq0_conv)
  define e where "e = ilog2 x - 52"
  define s where "s = (2 :: rat) powi e"
  have s: "0 < s" by (simp add: s_def)
  have r: "f64_round x = of_int (round_half_even (x / s)) * s" using x by (simp add: f64_round_def Let_def s_def e_def)
  show ?thesis
  proof (cases "e \<le> 0")
    case True
    define k where "k = nat (- e)"
    have "e = - int k" using True by (simp add: k_def)
    then have s1: "s = 1 / 2 ^ k" unfolding s_def by (simp add: power_int_minus_divide)
    have "of_int (int (n * 2 ^ k)) \<le> x / s" using assms(1) by (simp add: s1 mult_right_mono)
    then have "int (n * 2 ^ k) \<le> round_half_even (x / s)" by (rule round_half_even_ge)
    then have "of_int (int (n * 2 ^ k)) * s \<le> f64_round x" unfolding r using s
      by (intro mult_right_mono) (simp_all only: of_int_le_iff less_imp_le)
    then show ?thesis by (simp add: s1)
  next
    case False
    then have "(2 :: rat) powi 53 \<le> 2 powi (ilog2 x)" unfolding e_def by (intro power_int_increasing) simp_all
    moreover have "2 powi 52 * s = 2 powi (ilog2 x)" unfolding s_def e_def by (simp add: power_int_diff)
    moreover have "of_int (2 ^ 52) \<le> x / s"
      using ilog2_bounds(1) [OF x] s unfolding calculation(2) [symmetric] by (simp add: field_simps)
    then have "(2 :: int) ^ 52 \<le> round_half_even (x / s)" by (rule round_half_even_ge)
    then have "of_int (2 ^ 52) * s \<le> f64_round x" unfolding r using s
      by (intro mult_right_mono) (simp_all only: of_int_le_iff less_imp_le)
    ultimately have "of_nat (2 ^ 53) \<le> f64_round x" by simp
    moreover have "(of_nat n :: rat) \<le> of_nat (2 ^ 53)" using assms(2) by (simp only: of_nat_le_iff)
    ultimately show ?thesis by linarith
  qed
qed

end
