(* ===== verification/Api_Ratelimit.thy ===== *)
theory Api_Ratelimit
  imports Ieee_Double "HOL-Library.AList"
begin

text \<open>
  The rate limiter of the management API (\<^verbatim>\<open>dfim_management_api/src/ratelimit.rs\<close>): token buckets per client
  address in 64 shards, computed in \<^verbatim>\<open>f64\<close>. Instants are nanoseconds since some origin, and the shard's
  \<^verbatim>\<open>HashMap\<close> is an association list of distinct addresses; the hash of an address (\<^verbatim>\<open>DefaultHasher\<close>, whose algorithm
  the standard library leaves open) is a parameter. The theory bounds what one client is granted in any run of
  requests, from above with the rounding errors written out and from below by its burst, whatever other clients do.
\<close>

definition SHARD_COUNT :: nat where
  "SHARD_COUNT = 64"

record token_bucket =
  tokens :: rat
  last_refill :: nat
  rate :: rat
  max_tokens :: rat

definition token_bucket_new :: "nat \<Rightarrow> rat \<Rightarrow> rat \<Rightarrow> token_bucket" where
  "token_bucket_new now r burst = \<lparr>tokens = burst, last_refill = now, rate = r, max_tokens = burst\<rparr>"

text \<open>\<^verbatim>\<open>duration_since\<close> saturates at zero; \<^verbatim>\<open>as_secs_f64\<close> adds the seconds and the rounded fraction.\<close>

definition as_secs_f64 :: "nat \<Rightarrow> rat" where
  "as_secs_f64 d = f64_add (f64_round (of_nat (d div 10 ^ 9))) (f64_div (of_nat (d mod 10 ^ 9)) (10 ^ 9))"

definition try_consume :: "nat \<Rightarrow> token_bucket \<Rightarrow> bool \<times> token_bucket" where
  "try_consume now b =
     (let elapsed = as_secs_f64 (now - last_refill b);
          refilled = min (f64_add (tokens b) (f64_mul elapsed (rate b))) (max_tokens b);
          b' = b\<lparr>tokens := refilled, last_refill := now\<rparr>
      in if 1 \<le> refilled then (True, b'\<lparr>tokens := f64_sub refilled 1\<rparr>) else (False, b'))"

type_synonym 'ip shard = "('ip \<times> token_bucket) list"

record 'ip rate_limiter =
  shards :: "'ip shard list"
  limit_rate :: rat
  limit_burst :: rat

definition rate_limiter_new :: "nat \<Rightarrow> nat \<Rightarrow> 'ip rate_limiter" where
  "rate_limiter_new r burst =
     \<lparr>shards = replicate SHARD_COUNT [], limit_rate = of_nat r, limit_burst = of_nat burst\<rparr>"

definition shard_count :: "'ip rate_limiter \<Rightarrow> nat" where
  "shard_count rl = length (shards rl)"

definition shard_index :: "('ip \<Rightarrow> nat) \<Rightarrow> 'ip rate_limiter \<Rightarrow> 'ip \<Rightarrow> nat" where
  "shard_index hash rl ip = hash ip mod length (shards rl)"

definition bucket_entry :: "nat \<Rightarrow> 'ip rate_limiter \<Rightarrow> 'ip \<Rightarrow> 'ip shard \<Rightarrow> token_bucket" where
  "bucket_entry now rl ip buckets =
     (case map_of buckets ip of Some b \<Rightarrow> b | None \<Rightarrow> token_bucket_new now (limit_rate rl) (limit_burst rl))"

definition rate_check :: "('ip \<Rightarrow> nat) \<Rightarrow> nat \<Rightarrow> 'ip \<Rightarrow> 'ip rate_limiter \<Rightarrow> bool \<times> 'ip rate_limiter" where
  "rate_check hash now ip rl =
     (let i = shard_index hash rl ip;
          buckets = shards rl ! i;
          (ok, b) = try_consume now (bucket_entry now rl ip buckets)
      in (ok, rl\<lparr>shards := (shards rl)[i := AList.update ip b buckets]\<rparr>))"

definition tokens_remaining :: "('ip \<Rightarrow> nat) \<Rightarrow> 'ip rate_limiter \<Rightarrow> 'ip \<Rightarrow> rat" where
  "tokens_remaining hash rl ip =
     (case map_of (shards rl ! shard_index hash rl ip) ip of Some b \<Rightarrow> tokens b | None \<Rightarrow> limit_burst rl)"

definition limiter_cleanup :: "nat \<Rightarrow> nat \<Rightarrow> 'ip rate_limiter \<Rightarrow> 'ip rate_limiter" where
  "limiter_cleanup now max_age rl =
     rl\<lparr>shards := map (filter (\<lambda>(_, b). now - last_refill b < max_age)) (shards rl)\<rparr>"

definition tracked_ips :: "'ip rate_limiter \<Rightarrow> nat" where
  "tracked_ips rl = sum_list (map length (shards rl))"

text \<open>A run of requests from several clients.\<close>

fun run_checks :: "('ip \<Rightarrow> nat) \<Rightarrow> (nat \<times> 'ip) list \<Rightarrow> 'ip rate_limiter \<Rightarrow> bool list \<times> 'ip rate_limiter" where
  "run_checks hash [] rl = ([], rl)"
| "run_checks hash ((now, ip) # reqs) rl =
     (let (ok, rl1) = rate_check hash now ip rl; (oks, rl2) = run_checks hash reqs rl1 in (ok # oks, rl2))"

text \<open>The answers a client gets in a run, and the same requests put to its bucket alone.\<close>

definition answers_of :: "'ip \<Rightarrow> (nat \<times> 'ip) list \<Rightarrow> bool list \<Rightarrow> bool list" where
  "answers_of ip reqs oks = map snd (filter (\<lambda>((_, j), _). j = ip) (zip reqs oks))"

definition times_of :: "'ip \<Rightarrow> (nat \<times> 'ip) list \<Rightarrow> nat list" where
  "times_of ip reqs = map fst (filter (\<lambda>(_, j). j = ip) reqs)"

fun run_bucket :: "nat list \<Rightarrow> token_bucket \<Rightarrow> bool list" where
  "run_bucket [] b = []"
| "run_bucket (now # ts) b = (let (ok, b') = try_consume now b in ok # run_bucket ts b')"

definition granted :: "bool list \<Rightarrow> nat" where
  "granted oks = length (filter id oks)"

subsection \<open>Clients do not affect each other\<close>

definition bucket_of :: "('ip \<Rightarrow> nat) \<Rightarrow> 'ip rate_limiter \<Rightarrow> 'ip \<Rightarrow> token_bucket option" where
  "bucket_of hash rl ip = map_of (shards rl ! shard_index hash rl ip) ip"

lemma rate_check_frame [simp]:
  "length (shards (snd (rate_check hash now ip rl))) = length (shards rl)"
  "limit_rate (snd (rate_check hash now ip rl)) = limit_rate rl"
  "limit_burst (snd (rate_check hash now ip rl)) = limit_burst rl"
  by (simp_all add: rate_check_def Let_def split: prod.splits)

lemma rate_check_answer:
  "fst (rate_check hash now ip rl) =
     fst (try_consume now (case bucket_of hash rl ip of Some b \<Rightarrow> b
                           | None \<Rightarrow> token_bucket_new now (limit_rate rl) (limit_burst rl)))"
  by (simp add: rate_check_def bucket_of_def bucket_entry_def Let_def split: prod.splits)

lemma rate_check_bucket:
  assumes "shards rl \<noteq> []"
  shows "bucket_of hash (snd (rate_check hash now ip rl)) j =
     (if j = ip then Some (snd (try_consume now (case bucket_of hash rl ip of Some b \<Rightarrow> b
                           | None \<Rightarrow> token_bucket_new now (limit_rate rl) (limit_burst rl))))
      else bucket_of hash rl j)"
proof -
  have "hash j mod length (shards rl) < length (shards rl)" for j using assms by simp
  then show ?thesis
    by (auto simp: rate_check_def bucket_of_def bucket_entry_def shard_index_def Let_def nth_list_update
        update_conv' split: prod.splits)
qed

lemma times_of_Cons: "times_of ip ((now, j) # reqs) = (if j = ip then now # times_of ip reqs else times_of ip reqs)"
  by (simp add: times_of_def)

lemma run_checks_length: "length (fst (run_checks hash reqs rl)) = length reqs"
  by (induction hash reqs rl rule: run_checks.induct) (auto simp: Let_def split: prod.splits)

lemma answers_of_alone:
  assumes "shards rl \<noteq> []"
  shows "answers_of ip reqs (fst (run_checks hash reqs rl)) =
     (case bucket_of hash rl ip of Some b \<Rightarrow> run_bucket (times_of ip reqs) b
      | None \<Rightarrow> (case times_of ip reqs of [] \<Rightarrow> []
                 | t # ts \<Rightarrow> run_bucket (t # ts) (token_bucket_new t (limit_rate rl) (limit_burst rl))))"
  using assms
proof (induction hash reqs rl rule: run_checks.induct)
  case (1 hash rl)
  then show ?case by (simp add: answers_of_def times_of_def split: option.split)
next
  case (2 hash now j reqs rl)
  define rl1 where "rl1 = snd (rate_check hash now j rl)"
  have ne: "shards rl1 \<noteq> []" using 2(2) unfolding rl1_def by (metis length_0_conv rate_check_frame(1))
  have fr: "limit_rate rl1 = limit_rate rl" "limit_burst rl1 = limit_burst rl" by (simp_all add: rl1_def)
  note ih = 2(1) [OF refl prod.collapse, folded rl1_def, OF ne]
  have b1: "bucket_of hash rl1 ip = (if ip = j then Some (snd (try_consume now (case bucket_of hash rl j of Some b \<Rightarrow> b
                           | None \<Rightarrow> token_bucket_new now (limit_rate rl) (limit_burst rl))))
      else bucket_of hash rl ip)"
    unfolding rl1_def by (rule rate_check_bucket [OF 2(2)])
  have r: "fst (run_checks hash ((now, j) # reqs) rl) = fst (rate_check hash now j rl) # fst (run_checks hash reqs rl1)"
    by (simp add: rl1_def Let_def split: prod.split)
  show ?case
  proof (cases "ip = j")
    case True
    have "answers_of ip ((now, j) # reqs) (fst (run_checks hash ((now, j) # reqs) rl)) =
        fst (rate_check hash now j rl) # answers_of ip reqs (fst (run_checks hash reqs rl1))"
      unfolding r using True by (simp add: answers_of_def)
    also have "\<dots> = run_bucket (now # times_of ip reqs) (case bucket_of hash rl j of Some b \<Rightarrow> b
                           | None \<Rightarrow> token_bucket_new now (limit_rate rl) (limit_burst rl))"
      unfolding ih b1 using True by (simp add: rate_check_answer Let_def split: prod.split)
    finally show ?thesis using True by (simp add: times_of_Cons split: option.split)
  next
    case False
    then have "answers_of ip ((now, j) # reqs) (fst (run_checks hash ((now, j) # reqs) rl)) =
        answers_of ip reqs (fst (run_checks hash reqs rl1))"
      unfolding r by (simp add: answers_of_def)
    then show ?thesis using False unfolding ih b1 fr times_of_Cons by simp
  qed
qed

subsection \<open>What a bucket grants\<close>

definition bucket_ok :: "token_bucket \<Rightarrow> bool" where
  "bucket_ok b \<longleftrightarrow> 0 \<le> tokens b \<and> tokens b \<le> max_tokens b \<and> max_tokens b \<le> 2 ^ 32 \<and> 0 \<le> rate b"

lemma as_secs_f64_bounds:
  "0 \<le> as_secs_f64 d" "as_secs_f64 d \<le> of_nat d / 10 ^ 9 * (1 + ulp) ^ 2"
proof -
  define q r where "q = (of_nat (d div 10 ^ 9) :: rat)" and "r = (of_nat (d mod 10 ^ 9) / 10 ^ 9 :: rat)"
  have q: "0 \<le> f64_round q" "f64_round q \<le> q * (1 + ulp)"
    unfolding q_def using f64_round_nonneg f64_round_le by (metis of_nat_0_le_iff)+
  have r: "0 \<le> f64_round r" "f64_round r \<le> r * (1 + ulp)"
    unfolding r_def by (intro f64_round_nonneg f64_round_le; simp)+
  have a: "as_secs_f64 d = f64_round (f64_round q + f64_round r)"
    by (simp add: as_secs_f64_def f64_add_def f64_div_def q_def r_def)
  show "0 \<le> as_secs_f64 d" unfolding a using q(1) r(1) by (simp add: f64_round_nonneg)
  have "as_secs_f64 d \<le> (f64_round q + f64_round r) * (1 + ulp)" unfolding a using q(1) r(1) by (simp only: f64_round_le add_nonneg_nonneg)
  also have "\<dots> \<le> (q * (1 + ulp) + r * (1 + ulp)) * (1 + ulp)" using q(2) r(2) by (intro mult_right_mono add_mono) simp_all
  also have "\<dots> = (q + r) * (1 + ulp) ^ 2" by (simp add: power2_eq_square algebra_simps)
  also have "q + r = of_nat d / 10 ^ 9"
  proof -
    have "of_nat d = (of_nat (d div 10 ^ 9 * 10 ^ 9 + d mod 10 ^ 9) :: rat)" by (simp only: div_mult_mod_eq)
    also have "\<dots> = q * 10 ^ 9 + r * 10 ^ 9" unfolding q_def r_def by (simp only: of_nat_add of_nat_mult) simp
    finally show ?thesis by (simp add: field_simps)
  qed
  finally show "as_secs_f64 d \<le> of_nat d / 10 ^ 9 * (1 + ulp) ^ 2" .
qed

lemma try_consume_frame [simp]:
  "rate (snd (try_consume now b)) = rate b" "max_tokens (snd (try_consume now b)) = max_tokens b"
  "last_refill (snd (try_consume now b)) = now"
  by (simp_all add: try_consume_def Let_def)

lemma try_consume_refill:
  fixes now :: nat
  assumes "bucket_ok b"
  defines "x \<equiv> f64_add (tokens b) (f64_mul (as_secs_f64 (now - last_refill b)) (rate b))"
  shows "0 \<le> x"
    and "x \<le> tokens b * (1 + ulp) + of_nat (now - last_refill b) / 10 ^ 9 * rate b * (1 + ulp) ^ 4"
proof -
  define e where "e = as_secs_f64 (now - last_refill b)"
  define d where "d = (of_nat (now - last_refill b) / 10 ^ 9 :: rat)"
  have e: "0 \<le> e" "e \<le> d * (1 + ulp) ^ 2" unfolding e_def d_def by (rule as_secs_f64_bounds)+
  have b: "0 \<le> tokens b" "0 \<le> rate b" using assms(1) by (simp_all add: bucket_ok_def)
  have m: "0 \<le> f64_mul e (rate b)" using e(1) b(2) by (simp add: f64_mul_def f64_round_nonneg)
  have "f64_mul e (rate b) \<le> e * rate b * (1 + ulp)" using e(1) b(2) unfolding f64_mul_def by (intro f64_round_le) simp
  also have "\<dots> \<le> d * (1 + ulp) ^ 2 * rate b * (1 + ulp)" using e(2) b(2) by (intro mult_right_mono) simp_all
  finally have mu: "f64_mul e (rate b) \<le> d * rate b * (1 + ulp) ^ 3" by (simp add: power2_eq_square power3_eq_cube algebra_simps)
  show "0 \<le> x" using m b(1) unfolding x_def e_def [symmetric] by (simp add: f64_add_def f64_round_nonneg)
  have "x \<le> (tokens b + f64_mul e (rate b)) * (1 + ulp)"
    unfolding x_def e_def [symmetric] f64_add_def using m b(1) by (intro f64_round_le) simp
  also have "\<dots> \<le> (tokens b + d * rate b * (1 + ulp) ^ 3) * (1 + ulp)" using mu by (intro mult_right_mono) simp_all
  also have "\<dots> = tokens b * (1 + ulp) + d * rate b * (1 + ulp) ^ 4"
    by (simp add: algebra_simps power4_eq_xxxx power3_eq_cube)
  finally show "x \<le> tokens b * (1 + ulp) + of_nat (now - last_refill b) / 10 ^ 9 * rate b * (1 + ulp) ^ 4"
    unfolding d_def .
qed

lemma try_consume_step:
  assumes "bucket_ok b"
  shows "bucket_ok (snd (try_consume now b))"
    and "of_nat (of_bool (fst (try_consume now b))) + tokens (snd (try_consume now b)) \<le>
           tokens b + of_nat (now - last_refill b) / 10 ^ 9 * rate b * (1 + ulp) ^ 4 + 2 * ulp * max_tokens b"
proof -
  define x where "x = f64_add (tokens b) (f64_mul (as_secs_f64 (now - last_refill b)) (rate b))"
  define m where "m = min x (max_tokens b)"
  note r = try_consume_refill [OF assms, of now, folded x_def]
  have b: "0 \<le> tokens b" "tokens b \<le> max_tokens b" "0 \<le> rate b" using assms by (simp_all add: bucket_ok_def)
  have m: "0 \<le> m" "m \<le> max_tokens b" "m \<le> x" using r(1) b unfolding m_def by auto
  have t: "try_consume now b = (if 1 \<le> m then (True, b\<lparr>tokens := f64_sub m 1, last_refill := now\<rparr>)
      else (False, b\<lparr>tokens := m, last_refill := now\<rparr>))"
    by (simp add: try_consume_def Let_def m_def x_def)
  have s: "0 \<le> f64_sub m 1 \<and> f64_sub m 1 \<le> m - 1 + ulp * max_tokens b \<and> f64_sub m 1 \<le> max_tokens b" if "1 \<le> m"
  proof -
    have "f64_sub m 1 \<le> (m - 1) * (1 + ulp)" using that unfolding f64_sub_def by (intro f64_round_le) simp
    also have "\<dots> \<le> m - 1 + ulp * max_tokens b"
    proof -
      have "(m - 1) * ulp \<le> max_tokens b * ulp" using m(2) by (intro mult_right_mono) simp_all
      then show ?thesis by (simp add: algebra_simps)
    qed
    finally have u: "f64_sub m 1 \<le> m - 1 + ulp * max_tokens b" .
    have "ulp * max_tokens b \<le> 1" using assms by (simp add: bucket_ok_def ulp_def)
    then have "f64_sub m 1 \<le> m" using u by simp
    then show ?thesis using u m(2) that f64_round_nonneg [of "m - 1"] by (simp add: f64_sub_def)
  qed
  show "bucket_ok (snd (try_consume now b))" using s m assms by (auto simp: t bucket_ok_def)
  have "m \<le> tokens b + of_nat (now - last_refill b) / 10 ^ 9 * rate b * (1 + ulp) ^ 4 + ulp * max_tokens b"
  proof -
    have "tokens b * (1 + ulp) \<le> tokens b + ulp * max_tokens b"
      using mult_right_mono [OF b(2), of ulp] by (simp add: distrib_left mult.commute)
    then show ?thesis using r(2) m(3) by linarith
  qed
  moreover have "0 \<le> ulp * max_tokens b" using b by (intro mult_nonneg_nonneg) simp_all
  ultimately show "of_nat (of_bool (fst (try_consume now b))) + tokens (snd (try_consume now b)) \<le>
      tokens b + of_nat (now - last_refill b) / 10 ^ 9 * rate b * (1 + ulp) ^ 4 + 2 * ulp * max_tokens b"
    using s by (auto simp: t)
qed

lemma granted_Cons [simp]: "granted (ok # oks) = of_bool ok + granted oks"
  by (simp add: granted_def)

lemma run_bucket_length [simp]: "length (run_bucket ts b) = length ts"
  by (induction ts arbitrary: b) (auto simp: Let_def split: prod.split)

lemma run_bucket_bound:
  assumes "bucket_ok b" and "sorted (last_refill b # ts)"
  shows "of_nat (granted (run_bucket ts b)) \<le>
     tokens b + of_nat (last (last_refill b # ts) - last_refill b) / 10 ^ 9 * rate b * (1 + ulp) ^ 4
       + of_nat (length ts) * (2 * ulp * max_tokens b)"
  using assms
proof (induction ts arbitrary: b)
  case Nil
  then show ?case by (simp add: granted_def bucket_ok_def)
next
  case (Cons t ts)
  define b' where "b' = snd (try_consume t b)"
  have f: "rate b' = rate b" "max_tokens b' = max_tokens b" "last_refill b' = t" by (simp_all add: b'_def)
  note st = try_consume_step [OF Cons.prems(1), of t, folded b'_def]
  have ih: "of_nat (granted (run_bucket ts b')) \<le>
     tokens b' + of_nat (last (t # ts) - t) / 10 ^ 9 * rate b * (1 + ulp) ^ 4 + of_nat (length ts) * (2 * ulp * max_tokens b)"
    using Cons.IH [OF st(1)] Cons.prems(2) by (simp add: f)
  have le: "last_refill b \<le> t" "t \<le> last (t # ts)" using Cons.prems(2) by (simp_all add: last_in_set)
  define c where "c = rate b * (1 + ulp) ^ 4"
  have sp: "of_nat (last (t # ts) - t) + of_nat (t - last_refill b) = (of_nat (last (t # ts) - last_refill b) :: rat)"
    using le by (simp flip: of_nat_add)
  have "of_nat (last (t # ts) - t) / 10 ^ 9 * c + of_nat (t - last_refill b) / 10 ^ 9 * c =
      of_nat (last (t # ts) - last_refill b) / 10 ^ 9 * c"
    unfolding sp [symmetric] by (simp add: field_simps)
  moreover have "granted (run_bucket (t # ts) b) = of_bool (fst (try_consume t b)) + granted (run_bucket ts b')"
    by (simp add: b'_def Let_def split: prod.split)
  ultimately show ?case using ih st(2) by (simp add: c_def algebra_simps)
qed

lemma run_bucket_burst:
  assumes "bucket_ok b" and "of_nat n \<le> tokens b" and "n < 2 ^ 53"
  shows "list_all (\<lambda>ok. ok) (take n (run_bucket ts b))"
  using assms
proof (induction ts arbitrary: b n)
  case (Cons t ts)
  show ?case
  proof (cases n)
    case (Suc k)
    define x where "x = f64_add (tokens b) (f64_mul (as_secs_f64 (t - last_refill b)) (rate b))"
    define m where "m = min x (max_tokens b)"
    have b: "tokens b \<le> max_tokens b" "0 \<le> rate b" using Cons.prems(1) by (simp_all add: bucket_ok_def)
    have "0 \<le> f64_mul (as_secs_f64 (t - last_refill b)) (rate b)"
      using as_secs_f64_bounds(1) b(2) by (simp add: f64_mul_def f64_round_nonneg)
    then have "of_nat n \<le> x" unfolding x_def f64_add_def using Cons.prems by (intro f64_round_ge_of_nat) simp_all
    then have m: "of_nat n \<le> m" unfolding m_def using b(1) Cons.prems(2) by simp
    then have m1: "1 \<le> m" using Suc by simp
    have t: "try_consume t b = (True, b\<lparr>tokens := f64_sub m 1, last_refill := t\<rparr>)"
      using m1 by (simp add: try_consume_def Let_def m_def x_def)
    have "of_nat k \<le> f64_sub m 1"
      unfolding f64_sub_def using m Suc Cons.prems(3) by (intro f64_round_ge_of_nat) simp_all
    then have "list_all (\<lambda>ok. ok) (take k (run_bucket ts (b\<lparr>tokens := f64_sub m 1, last_refill := t\<rparr>)))"
      using Cons.IH [of "snd (try_consume t b)" k] try_consume_step(1) [OF Cons.prems(1), of t] Suc Cons.prems(3)
      unfolding t by simp
    then show ?thesis by (simp add: t Suc)
  qed simp
qed simp

lemma token_bucket_new_ok:
  assumes "burst \<le> 2 ^ 32"
  shows "bucket_ok (token_bucket_new t (of_nat r) (of_nat burst))"
proof -
  have "(of_nat burst :: rat) \<le> of_nat (2 ^ 32)" using assms by (simp only: of_nat_le_iff)
  then show ?thesis by (simp add: bucket_ok_def token_bucket_new_def)
qed

lemma ulp_power4: "(1 + ulp) ^ 4 \<le> 1 + 1 / 2 ^ 50"
  by (simp add: ulp_def power_divide)

lemma sorted_times_of:
  assumes "sorted (map fst reqs)"
  shows "sorted (times_of ip reqs)"
  using assms unfolding times_of_def by (rule sorted_filter)

text \<open>
  C24. Rate limiting per client. Take any run of requests in the order of time, from any clients, on a fresh limiter
  of r requests per second and bursts of b (32-bit numbers). What a client is answered depends on its own requests
  alone. If these span T seconds, then at most b + r * T of its n requests are granted, up to rounding: the rate
  grows by a factor of at most 1 + 2^-50 and the burst by at most 2^-52 of itself per request. Its first b requests
  are all granted, however other clients behave.
\<close>

theorem client_rate_bounded:
  fixes r burst :: nat and reqs :: "(nat \<times> 'ip) list" and hash :: "'ip \<Rightarrow> nat"
  assumes "sorted (map fst reqs)" and "times_of ip reqs = t # ts" and "burst < 2 ^ 32"
  defines "mine \<equiv> answers_of ip reqs (fst (run_checks hash reqs (rate_limiter_new r burst)))"
  shows "mine = run_bucket (t # ts) (token_bucket_new t (of_nat r) (of_nat burst))
    \<and> of_nat (granted mine) \<le>
        of_nat burst + of_nat r * (of_nat (last (t # ts) - t) / 10 ^ 9) * (1 + 1 / 2 ^ 50 :: rat)
          + of_nat (length mine) * (of_nat burst / 2 ^ 52)
    \<and> list_all (\<lambda>ok. ok) (take burst mine)"
proof (intro conjI)
  define b where "b = token_bucket_new t (of_nat r) (of_nat burst)"
  have b: "bucket_ok b" unfolding b_def using assms(3) by (intro token_bucket_new_ok) simp
  have f: "tokens b = of_nat burst" "last_refill b = t" "rate b = of_nat r" "max_tokens b = of_nat burst"
    by (simp_all add: b_def token_bucket_new_def)
  have "bucket_of hash (rate_limiter_new r burst) ip = None"
    by (simp add: bucket_of_def shard_index_def rate_limiter_new_def SHARD_COUNT_def)
  then have mine: "mine = run_bucket (t # ts) b"
    using answers_of_alone [of "rate_limiter_new r burst" ip reqs hash] assms(2)
    unfolding mine_def b_def by (simp add: rate_limiter_new_def SHARD_COUNT_def)
  then show "mine = run_bucket (t # ts) (token_bucket_new t (of_nat r) (of_nat burst))" unfolding b_def .
  have so: "sorted (last_refill b # t # ts)" using sorted_times_of [OF assms(1), of ip] assms(2) by (simp add: f)
  define d where "d = (of_nat r * (of_nat (last (t # ts) - t) / 10 ^ 9) :: rat)"
  have "of_nat (granted mine) \<le> of_nat burst + d * (1 + ulp) ^ 4 + of_nat (length mine) * (2 * ulp * of_nat burst)"
    using run_bucket_bound [OF b so] unfolding mine by (simp add: f d_def mult.commute del: run_bucket.simps)
  also have "\<dots> \<le> of_nat burst + d * (1 + 1 / 2 ^ 50) + of_nat (length mine) * (2 * ulp * of_nat burst)"
    using ulp_power4 by (intro add_mono mult_left_mono) (simp_all add: d_def)
  also have "2 * ulp * of_nat burst = of_nat burst / 2 ^ 52" by (simp add: ulp_def)
  finally show "of_nat (granted mine) \<le> of_nat burst + of_nat r * (of_nat (last (t # ts) - t) / 10 ^ 9) * (1 + 1 / 2 ^ 50 :: rat)
             + of_nat (length mine) * (of_nat burst / 2 ^ 52)" unfolding d_def .
  show "list_all (\<lambda>ok. ok) (take burst mine)" unfolding mine using assms(3) by (intro run_bucket_burst [OF b]) (simp_all add: f)
qed

theorem client_rate_bounded_witness:
  "answers_of (7 :: nat) [(0, 7), (0, 7), (0, 8), (10 ^ 9, 7)]
     (fst (run_checks id [(0, 7), (0, 7), (0, 8), (10 ^ 9, 7)] (rate_limiter_new 1 1))) = [True, False, True :: bool]"
proof -
  define reqs where "reqs = [(0, 7), (0, 7), (0, 8), (10 ^ 9 :: nat, 7 :: nat)]"
  have a: "sorted (map fst reqs)" "times_of 7 reqs = 0 # [0, 10 ^ 9]" "(1 :: nat) < 2 ^ 32"
    by (simp_all add: reqs_def times_of_def)
  have f: "f64_round 1 = 1" using f64_round_of_nat [of 1] by simp
  have e: "run_bucket (0 # [0, 10 ^ 9]) (token_bucket_new 0 (of_nat 1) (of_nat 1)) = [True, False, True]"
    by (simp add: token_bucket_new_def try_consume_def as_secs_f64_def f64_add_def f64_sub_def f64_mul_def f64_div_def f)
  show ?thesis using conjunct1 [OF client_rate_bounded [OF a, of id 1]] unfolding e reqs_def .
qed

end
