(* ===== verification/Api_Db.thy ===== *)
theory Api_Db
  imports Dfim_Prelude "HOL-Library.Multiset"
begin

text \<open>
  The database layer of the management API (\<^verbatim>\<open>dfim_management_api/src/db.rs\<close>) on the four tables of its schema.

  Every SQL text of the source is a constructor of \<open>sql\<close>; \<open>sql_exec\<close> is what the statement does to the tables. What
  SQL leaves to the server is the parameter \<open>postgres\<close>: the order of rows where the statement gives none (ties of
  \<^verbatim>\<open>ORDER BY\<close> included), the precision with which it keeps a time stamp, and the texts of errors. A statement may
  also be refused, or take effect without the client learning of it. The functions of the file are programs that
  issue statements and go on with the replies, so that the requests of a server can be interleaved statement by
  statement. The theory shows what a statement that is scoped to one tenant can read and change.
\<close>

section \<open>Rows and tables\<close>

text \<open>Times are nanoseconds since the epoch; \<^verbatim>\<open>i32\<close> columns are words.\<close>

record asset_record =
  ar_asset_id :: string
  ar_display_name :: string
  ar_asset_kind :: string
  ar_host_name :: string
  ar_status :: string
  ar_integrity_hash :: "string option"
  ar_last_verified :: int
  ar_enrolled_at :: int
  ar_policy_id :: "string option"
  ar_tenant_id :: string

record policy_record =
  pr_policy_id :: string
  pr_name :: string
  pr_version :: u32
  pr_enforcement_mode :: string
  pr_tenant_id :: string

record node_record =
  nr_node_id :: string
  nr_host_name :: string
  nr_platform :: string
  nr_status :: string
  nr_last_seen :: int
  nr_asset_count :: u32

record alert_record =
  al_alert_id :: string
  al_severity :: string
  al_asset_id :: string
  al_message :: string
  al_timestamp :: int
  al_acknowledged :: bool
  al_tenant_id :: string

record fleet_summary_raw =
  fs_total_assets :: int
  fs_healthy :: int
  fs_tampered :: int
  fs_blocked :: int
  fs_pending :: int
  fs_total_nodes :: int
  fs_total_policies :: int
  fs_active_alerts :: int

record tables =
  t_assets :: "asset_record list"
  t_policies :: "policy_record list"
  t_nodes :: "node_record list"
  t_alerts :: "alert_record list"

definition no_tables :: tables where
  "no_tables = \<lparr>t_assets = [], t_policies = [], t_nodes = [], t_alerts = []\<rparr>"

section \<open>Statements\<close>

datatype sql =
    Create_tables
  | Seed_asset string string string string string
  | Seed_policy
  | Count_assets string
  | Select_assets string "string option" "string option" "string option"
  | Select_asset string string
  | Select_host_names string "string list"
  | Insert_asset asset_record
  | Update_asset_status string int string string
  | Delete_asset string string
  | Count_policies string
  | Select_policies string
  | Insert_policy policy_record
  | Count_nodes
  | Select_nodes
  | Upsert_node node_record
  | Count_alerts string
  | Select_alerts string int
  | Insert_alert alert_record
  | Acknowledge string string
  | Select_alert string string
  | Select_summary string

datatype db_error = Configuration | Unique_violation | Negative_limit | Unavailable | Row_not_found

datatype sql_reply =
    Asset_rows "asset_record list"
  | Policy_rows "policy_record list"
  | Node_rows "node_record list"
  | Alert_rows "alert_record list"
  | Name_rows "(string \<times> string) list"
  | Count_row int
  | Summary_row fleet_summary_raw
  | Affected nat
  | Sql_error db_error

record postgres =
  asset_order :: "asset_record list \<Rightarrow> asset_record list"
  policy_order :: "policy_record list \<Rightarrow> policy_record list"
  node_order :: "node_record list \<Rightarrow> node_record list"
  alert_order :: "alert_record list \<Rightarrow> alert_record list"
  stored_time :: "int \<Rightarrow> int"
  error_text :: "db_error \<Rightarrow> string"

text \<open>A server returns each row that qualifies once.\<close>

definition postgres_ok :: "postgres \<Rightarrow> bool" where
  "postgres_ok P \<longleftrightarrow> (\<forall>xs. mset (asset_order P xs) = mset xs) \<and> (\<forall>xs. mset (policy_order P xs) = mset xs)
     \<and> (\<forall>xs. mset (node_order P xs) = mset xs) \<and> (\<forall>xs. mset (alert_order P xs) = mset xs)"

definition matches :: "string option \<Rightarrow> string \<Rightarrow> bool" where
  "matches want x \<longleftrightarrow> (case want of None \<Rightarrow> True | Some w \<Rightarrow> x = w)"

definition has_status :: "string \<Rightarrow> string \<Rightarrow> asset_record \<Rightarrow> bool" where
  "has_status tenant s a \<longleftrightarrow> ar_tenant_id a = tenant \<and> ar_status a = s"

definition count_rows :: "('a \<Rightarrow> bool) \<Rightarrow> 'a list \<Rightarrow> int" where
  "count_rows p xs = int (length (filter p xs))"

definition seed_row :: "int \<Rightarrow> string \<Rightarrow> string \<Rightarrow> string \<Rightarrow> string \<Rightarrow> string \<Rightarrow> asset_record" where
  "seed_row now i name kind host st =
     \<lparr>ar_asset_id = i, ar_display_name = name, ar_asset_kind = kind, ar_host_name = host, ar_status = st,
      ar_integrity_hash = None, ar_last_verified = now, ar_enrolled_at = now, ar_policy_id = None,
      ar_tenant_id = ''default''\<rparr>"

definition default_policy :: policy_record where
  "default_policy =
     \<lparr>pr_policy_id = ''default-policy'', pr_name = ''Enterprise Baseline'', pr_version = 1,
      pr_enforcement_mode = ''protected-scope'', pr_tenant_id = ''default''\<rparr>"

definition stored_asset :: "postgres \<Rightarrow> asset_record \<Rightarrow> asset_record" where
  "stored_asset P a = a\<lparr>ar_last_verified := stored_time P (ar_last_verified a),
     ar_enrolled_at := stored_time P (ar_enrolled_at a)\<rparr>"

definition touch_node :: "postgres \<Rightarrow> node_record \<Rightarrow> node_record \<Rightarrow> node_record" where
  "touch_node P n m =
     (if nr_node_id m = nr_node_id n
      then m\<lparr>nr_last_seen := stored_time P (nr_last_seen n), nr_status := ''online''\<rparr> else m)"

fun sql_exec :: "postgres \<Rightarrow> int \<Rightarrow> sql \<Rightarrow> tables \<Rightarrow> sql_reply \<times> tables" where
  "sql_exec P now Create_tables T = (Affected 0, T)"
| "sql_exec P now (Seed_asset i name kind host st) T =
     (if i \<in> ar_asset_id ` set (t_assets T) then (Affected 0, T)
      else (Affected 1, T\<lparr>t_assets := t_assets T @ [seed_row now i name kind host st]\<rparr>))"
| "sql_exec P now Seed_policy T =
     (if (''default-policy'', ''default'') \<in> (\<lambda>p. (pr_policy_id p, pr_tenant_id p)) ` set (t_policies T)
      then (Affected 0, T) else (Affected 1, T\<lparr>t_policies := t_policies T @ [default_policy]\<rparr>))"
| "sql_exec P now (Count_assets t) T = (Count_row (count_rows (\<lambda>a. ar_tenant_id a = t) (t_assets T)), T)"
| "sql_exec P now (Select_assets t s h k) T =
     (Asset_rows (sort_key (\<lambda>a. - ar_last_verified a) (asset_order P
       (filter (\<lambda>a. ar_tenant_id a = t \<and> matches s (ar_status a) \<and> matches h (ar_host_name a)
                  \<and> matches k (ar_asset_kind a)) (t_assets T)))), T)"
| "sql_exec P now (Select_asset i t) T =
     (Asset_rows (filter (\<lambda>a. ar_asset_id a = i \<and> ar_tenant_id a = t) (t_assets T)), T)"
| "sql_exec P now (Select_host_names t ids) T =
     (Name_rows (map (\<lambda>a. (ar_asset_id a, ar_host_name a))
       (asset_order P (filter (\<lambda>a. ar_tenant_id a = t \<and> ar_asset_id a \<in> set ids) (t_assets T)))), T)"
| "sql_exec P now (Insert_asset a) T =
     (if ar_asset_id a \<in> ar_asset_id ` set (t_assets T) then (Sql_error Unique_violation, T)
      else (Affected 1, T\<lparr>t_assets := t_assets T @ [stored_asset P a]\<rparr>))"
| "sql_exec P now (Update_asset_status s v i t) T =
     (Affected (length (filter (\<lambda>a. ar_asset_id a = i \<and> ar_tenant_id a = t) (t_assets T))),
      T\<lparr>t_assets := map (\<lambda>a. if ar_asset_id a = i \<and> ar_tenant_id a = t
                           then a\<lparr>ar_status := s, ar_last_verified := stored_time P v\<rparr> else a) (t_assets T)\<rparr>)"
| "sql_exec P now (Delete_asset i t) T =
     (Affected (length (filter (\<lambda>a. ar_asset_id a = i \<and> ar_tenant_id a = t) (t_assets T))),
      T\<lparr>t_assets := filter (\<lambda>a. \<not> (ar_asset_id a = i \<and> ar_tenant_id a = t)) (t_assets T)\<rparr>)"
| "sql_exec P now (Count_policies t) T = (Count_row (count_rows (\<lambda>p. pr_tenant_id p = t) (t_policies T)), T)"
| "sql_exec P now (Select_policies t) T =
     (Policy_rows (policy_order P (filter (\<lambda>p. pr_tenant_id p = t) (t_policies T))), T)"
| "sql_exec P now (Insert_policy p) T =
     (if (pr_policy_id p, pr_tenant_id p) \<in> (\<lambda>q. (pr_policy_id q, pr_tenant_id q)) ` set (t_policies T)
      then (Sql_error Unique_violation, T) else (Affected 1, T\<lparr>t_policies := t_policies T @ [p]\<rparr>))"
| "sql_exec P now Count_nodes T = (Count_row (int (length (t_nodes T))), T)"
| "sql_exec P now Select_nodes T =
     (Node_rows (sort_key (\<lambda>n. - nr_last_seen n) (node_order P (t_nodes T))), T)"
| "sql_exec P now (Upsert_node n) T =
     (Affected 1,
      if nr_node_id n \<in> nr_node_id ` set (t_nodes T)
      then T\<lparr>t_nodes := map (touch_node P n) (t_nodes T)\<rparr>
      else T\<lparr>t_nodes := t_nodes T @ [n\<lparr>nr_last_seen := stored_time P (nr_last_seen n)\<rparr>]\<rparr>)"
| "sql_exec P now (Count_alerts t) T = (Count_row (count_rows (\<lambda>a. al_tenant_id a = t) (t_alerts T)), T)"
| "sql_exec P now (Select_alerts t limit) T =
     (if limit < 0 then Sql_error Negative_limit
      else Alert_rows (take (nat limit) (sort_key (\<lambda>a. - al_timestamp a)
        (alert_order P (filter (\<lambda>a. al_tenant_id a = t) (t_alerts T))))), T)"
| "sql_exec P now (Insert_alert a) T =
     (if al_alert_id a \<in> al_alert_id ` set (t_alerts T) then (Sql_error Unique_violation, T)
      else (Affected 1, T\<lparr>t_alerts := t_alerts T @ [a\<lparr>al_timestamp := stored_time P (al_timestamp a)\<rparr>]\<rparr>))"
| "sql_exec P now (Acknowledge i t) T =
     (Affected (length (filter (\<lambda>a. al_alert_id a = i \<and> al_tenant_id a = t) (t_alerts T))),
      T\<lparr>t_alerts := map (\<lambda>a. if al_alert_id a = i \<and> al_tenant_id a = t then a\<lparr>al_acknowledged := True\<rparr> else a)
         (t_alerts T)\<rparr>)"
| "sql_exec P now (Select_alert i t) T =
     (Alert_rows (filter (\<lambda>a. al_alert_id a = i \<and> al_tenant_id a = t) (t_alerts T)), T)"
| "sql_exec P now (Select_summary t) T =
     (Summary_row
        \<lparr>fs_total_assets = count_rows (\<lambda>a. ar_tenant_id a = t) (t_assets T),
         fs_healthy = count_rows (has_status t ''healthy'') (t_assets T),
         fs_tampered = count_rows (has_status t ''tampered'') (t_assets T),
         fs_blocked = count_rows (has_status t ''blocked'') (t_assets T),
         fs_pending = count_rows (has_status t ''pending'') (t_assets T),
         fs_total_nodes = int (length (t_nodes T)),
         fs_total_policies = count_rows (\<lambda>p. pr_tenant_id p = t) (t_policies T),
         fs_active_alerts = count_rows (\<lambda>a. al_tenant_id a = t \<and> \<not> al_acknowledged a) (t_alerts T)\<rparr>, T)"

text \<open>A statement is answered, refused, or takes effect while its answer is lost.\<close>

datatype fate = Answered | Refused | Unacknowledged

definition sql_step :: "postgres \<Rightarrow> fate \<Rightarrow> int \<Rightarrow> sql \<Rightarrow> tables \<Rightarrow> sql_reply \<times> tables" where
  "sql_step P f now s T =
     (case f of Answered \<Rightarrow> sql_exec P now s T
      | Refused \<Rightarrow> (Sql_error Unavailable, T)
      | Unacknowledged \<Rightarrow> (Sql_error Unavailable, snd (sql_exec P now s T)))"

section \<open>Programs\<close>

datatype 'r db_prog = Ret 'r | Sql sql "sql_reply \<Rightarrow> 'r db_prog"

primrec db_bind :: "'a db_prog \<Rightarrow> ('a \<Rightarrow> 'b db_prog) \<Rightarrow> 'b db_prog" where
  "db_bind (Ret a) f = f a"
| "db_bind (Sql s k) f = Sql s (\<lambda>r. db_bind (k r) f)"

text \<open>A program run to its end without interleaving; a script gives the fate and the time of its statements.\<close>

type_synonym script = "(fate \<times> int) list"

definition next_fate :: "script \<Rightarrow> fate \<times> int" where
  "next_fate fs = (case fs of [] \<Rightarrow> (Answered, 0) | f # _ \<Rightarrow> f)"

primrec run_prog :: "postgres \<Rightarrow> 'r db_prog \<Rightarrow> script \<Rightarrow> tables \<Rightarrow> 'r \<times> tables" where
  "run_prog P (Ret r) = (\<lambda>fs T. (r, T))"
| "run_prog P (Sql s k) =
     (\<lambda>fs T. let (rep, T') = sql_step P (fst (next_fate fs)) (snd (next_fate fs)) s T
             in run_prog P (k rep) (tl fs) T')"

type_synonym 'a db_result = "(db_error, 'a) outcome"

definition from_reply :: "(sql_reply \<Rightarrow> 'a option) \<Rightarrow> sql_reply \<Rightarrow> 'a db_result" where
  "from_reply pick r = (case pick r of Some a \<Rightarrow> Ok a | None \<Rightarrow> Err (case r of Sql_error e \<Rightarrow> e | _ \<Rightarrow> Row_not_found))"

definition statement :: "sql \<Rightarrow> (sql_reply \<Rightarrow> 'a option) \<Rightarrow> 'a db_result db_prog" where
  "statement s pick = Sql s (\<lambda>r. Ret (from_reply pick r))"

definition count_of :: "sql_reply \<Rightarrow> int option" where
  "count_of r = (case r of Count_row n \<Rightarrow> Some n | _ \<Rightarrow> None)"

definition affected_of :: "sql_reply \<Rightarrow> nat option" where
  "affected_of r = (case r of Affected n \<Rightarrow> Some n | _ \<Rightarrow> None)"

definition assets_of :: "sql_reply \<Rightarrow> asset_record list option" where
  "assets_of r = (case r of Asset_rows xs \<Rightarrow> Some xs | _ \<Rightarrow> None)"

definition policies_of :: "sql_reply \<Rightarrow> policy_record list option" where
  "policies_of r = (case r of Policy_rows xs \<Rightarrow> Some xs | _ \<Rightarrow> None)"

definition nodes_of :: "sql_reply \<Rightarrow> node_record list option" where
  "nodes_of r = (case r of Node_rows xs \<Rightarrow> Some xs | _ \<Rightarrow> None)"

definition alerts_of :: "sql_reply \<Rightarrow> alert_record list option" where
  "alerts_of r = (case r of Alert_rows xs \<Rightarrow> Some xs | _ \<Rightarrow> None)"

definition names_of :: "sql_reply \<Rightarrow> (string \<times> string) list option" where
  "names_of r = (case r of Name_rows xs \<Rightarrow> Some xs | _ \<Rightarrow> None)"

definition summary_of :: "sql_reply \<Rightarrow> fleet_summary_raw option" where
  "summary_of r = (case r of Summary_row x \<Rightarrow> Some x | _ \<Rightarrow> None)"

definition db_try :: "'a db_result db_prog \<Rightarrow> ('a \<Rightarrow> 'b db_result db_prog) \<Rightarrow> 'b db_result db_prog" where
  "db_try m f = db_bind m (\<lambda>r. case r of Ok a \<Rightarrow> f a | Err e \<Rightarrow> Ret (Err e) | Panic \<Rightarrow> Ret Panic)"

subsection \<open>Connection and migration\<close>

definition db_url :: "(string \<Rightarrow> string option) \<Rightarrow> string db_result" where
  "db_url env = ok_or Configuration (env ''DATABASE_URL'')"

definition demo_assets :: "(string \<times> string \<times> string \<times> string \<times> string) list" where
  "demo_assets =
     [(''sha256:bootmgfw'', ''bootmgfw.efi'', ''WindowsBootManager'', ''node-01'', ''healthy''),
      (''sha256:vmlinuz'', ''vmlinuz'', ''LinuxKernel'', ''node-02'', ''healthy''),
      (''sha256:systemd'', ''systemd'', ''InitSystem'', ''node-03'', ''healthy''),
      (''sha256:sshd'', ''sshd'', ''SSHDaemon'', ''node-01'', ''healthy'')]"

primrec seed_assets :: "(string \<times> string \<times> string \<times> string \<times> string) list \<Rightarrow> unit db_result db_prog" where
  "seed_assets [] = Ret (Ok ())"
| "seed_assets (d # ds) =
     (case d of (i, name, kind, host, st) \<Rightarrow>
        db_try (statement (Seed_asset i name kind host st) affected_of) (\<lambda>_. seed_assets ds))"

definition migrate :: "unit db_result db_prog" where
  "migrate =
     db_try (statement Create_tables affected_of) (\<lambda>_.
     db_try (statement Create_tables affected_of) (\<lambda>_.
     db_try (statement Create_tables affected_of) (\<lambda>_.
     db_try (statement Create_tables affected_of) (\<lambda>_.
     db_try (statement (Count_assets ''default'') count_of) (\<lambda>n.
     if n = 0
     then db_try (seed_assets demo_assets) (\<lambda>_.
          db_try (statement Seed_policy affected_of) (\<lambda>_. Ret (Ok ())))
     else Ret (Ok ()))))))"

subsection \<open>Assets\<close>

definition count_assets :: "string \<Rightarrow> int db_result db_prog" where
  "count_assets tenant = statement (Count_assets tenant) count_of"

text \<open>\<^verbatim>\<open>as usize\<close> of an \<^verbatim>\<open>i64\<close> wraps around.\<close>

definition as_usize :: "int \<Rightarrow> nat" where
  "as_usize i = nat (i mod 2 ^ 64)"

definition select_filters :: "string option \<Rightarrow> string option \<Rightarrow> string option \<Rightarrow>
    string option \<times> string option \<times> string option" where
  "select_filters s h k =
     (case (s, h, k) of
        (Some _, Some _, Some _) \<Rightarrow> (s, h, k)
      | (Some _, Some _, None) \<Rightarrow> (s, h, None)
      | (Some _, None, None) \<Rightarrow> (s, None, None)
      | (None, Some _, None) \<Rightarrow> (None, h, None)
      | _ \<Rightarrow> (None, None, None))"

definition list_assets :: "string \<Rightarrow> int \<Rightarrow> int \<Rightarrow> string option \<Rightarrow> string option \<Rightarrow> string option \<Rightarrow>
    asset_record list db_result db_prog" where
  "list_assets tenant limit offset s h k =
     (case select_filters s h k of (s', h', k') \<Rightarrow>
        db_try (statement (Select_assets tenant s' h' k') assets_of) (\<lambda>rows.
        Ret (Ok (take (as_usize limit) (drop (as_usize offset) rows)))))"

text \<open>\<^verbatim>\<open>fetch_optional\<close> takes the first row; an error counts as no row.\<close>

definition get_asset :: "string \<Rightarrow> string \<Rightarrow> asset_record option db_prog" where
  "get_asset tenant i =
     db_bind (statement (Select_asset i tenant) assets_of) (\<lambda>r.
     Ret (case r of Ok (a # _) \<Rightarrow> Some a | _ \<Rightarrow> None))"

definition host_names_for_assets :: "string \<Rightarrow> string list \<Rightarrow> (string \<times> string) list db_prog" where
  "host_names_for_assets tenant ids =
     (if ids = [] then Ret []
      else db_bind (statement (Select_host_names tenant ids) names_of) (\<lambda>r.
           Ret (case r of Ok xs \<Rightarrow> xs | _ \<Rightarrow> [])))"

definition insert_asset :: "asset_record \<Rightarrow> unit db_result db_prog" where
  "insert_asset a = db_try (statement (Insert_asset a) affected_of) (\<lambda>_. Ret (Ok ()))"

definition update_asset_status :: "string \<Rightarrow> string \<Rightarrow> string \<Rightarrow> int \<Rightarrow> unit db_result db_prog" where
  "update_asset_status tenant i s v = db_try (statement (Update_asset_status s v i tenant) affected_of) (\<lambda>_. Ret (Ok ()))"

definition db_delete_asset :: "string \<Rightarrow> string \<Rightarrow> unit db_result db_prog" where
  "db_delete_asset tenant i =
     db_try (statement (Delete_asset i tenant) affected_of) (\<lambda>n.
     Ret (if n = 0 then Err Row_not_found else Ok ()))"

subsection \<open>Policies, nodes, alerts and the summary\<close>

definition count_policies :: "string \<Rightarrow> int db_result db_prog" where
  "count_policies tenant = statement (Count_policies tenant) count_of"

definition db_list_policies :: "string \<Rightarrow> policy_record list db_result db_prog" where
  "db_list_policies tenant = statement (Select_policies tenant) policies_of"

definition insert_policy :: "policy_record \<Rightarrow> unit db_result db_prog" where
  "insert_policy p = db_try (statement (Insert_policy p) affected_of) (\<lambda>_. Ret (Ok ()))"

definition count_nodes :: "int db_result db_prog" where
  "count_nodes = statement Count_nodes count_of"

definition db_list_nodes :: "node_record list db_result db_prog" where
  "db_list_nodes = statement Select_nodes nodes_of"

definition insert_node :: "node_record \<Rightarrow> unit db_result db_prog" where
  "insert_node n = db_try (statement (Upsert_node n) affected_of) (\<lambda>_. Ret (Ok ()))"

definition count_alerts :: "string \<Rightarrow> int db_result db_prog" where
  "count_alerts tenant = statement (Count_alerts tenant) count_of"

definition db_list_alerts :: "string \<Rightarrow> int \<Rightarrow> alert_record list db_result db_prog" where
  "db_list_alerts tenant limit = statement (Select_alerts tenant limit) alerts_of"

definition insert_alert :: "alert_record \<Rightarrow> unit db_result db_prog" where
  "insert_alert a = db_try (statement (Insert_alert a) affected_of) (\<lambda>_. Ret (Ok ()))"

definition db_acknowledge_alert :: "string \<Rightarrow> string \<Rightarrow> alert_record db_result db_prog" where
  "db_acknowledge_alert tenant i =
     db_try (statement (Acknowledge i tenant) affected_of) (\<lambda>_.
     db_try (statement (Select_alert i tenant) alerts_of) (\<lambda>rows.
     Ret (case rows of [] \<Rightarrow> Err Row_not_found | a # _ \<Rightarrow> Ok a)))"

definition db_fleet_summary :: "string \<Rightarrow> fleet_summary_raw db_result db_prog" where
  "db_fleet_summary tenant = statement (Select_summary tenant) summary_of"

section \<open>What a statement scoped to a tenant reads and changes\<close>

text \<open>The rows of a tenant. Nodes belong to the fleet, not to a tenant.\<close>

definition tenant_view :: "string \<Rightarrow> tables \<Rightarrow> asset_record list \<times> policy_record list \<times> alert_record list" where
  "tenant_view t T = (filter (\<lambda>a. ar_tenant_id a = t) (t_assets T), filter (\<lambda>p. pr_tenant_id p = t) (t_policies T),
     filter (\<lambda>a. al_tenant_id a = t) (t_alerts T))"

fun sql_scoped :: "string \<Rightarrow> sql \<Rightarrow> bool" where
  "sql_scoped t (Count_assets u) = (u = t)"
| "sql_scoped t (Select_assets u s h k) = (u = t)"
| "sql_scoped t (Select_asset i u) = (u = t)"
| "sql_scoped t (Select_host_names u ids) = (u = t)"
| "sql_scoped t (Insert_asset a) = (ar_tenant_id a = t)"
| "sql_scoped t (Update_asset_status s v i u) = (u = t)"
| "sql_scoped t (Delete_asset i u) = (u = t)"
| "sql_scoped t (Count_policies u) = (u = t)"
| "sql_scoped t (Select_policies u) = (u = t)"
| "sql_scoped t (Insert_policy p) = (pr_tenant_id p = t)"
| "sql_scoped t (Count_alerts u) = (u = t)"
| "sql_scoped t (Select_alerts u l) = (u = t)"
| "sql_scoped t (Insert_alert a) = (al_tenant_id a = t)"
| "sql_scoped t (Acknowledge i u) = (u = t)"
| "sql_scoped t (Select_alert i u) = (u = t)"
| "sql_scoped t (Select_summary u) = (u = t)"
| "sql_scoped t Count_nodes = True"
| "sql_scoped t Select_nodes = True"
| "sql_scoped t (Upsert_node n) = True"
| "sql_scoped t Create_tables = False"
| "sql_scoped t (Seed_asset i name kind host st) = False"
| "sql_scoped t Seed_policy = False"

fun reply_scoped :: "string \<Rightarrow> sql_reply \<Rightarrow> bool" where
  "reply_scoped t (Asset_rows xs) = list_all (\<lambda>a. ar_tenant_id a = t) xs"
| "reply_scoped t (Policy_rows xs) = list_all (\<lambda>p. pr_tenant_id p = t) xs"
| "reply_scoped t (Alert_rows xs) = list_all (\<lambda>a. al_tenant_id a = t) xs"
| "reply_scoped t _ = True"

lemma filter_map_if_other:
  assumes "\<And>a. q a \<Longrightarrow> \<not> p a" and "\<And>a. q a \<Longrightarrow> \<not> p (g a)"
  shows "filter p (map (\<lambda>a. if q a then g a else a) xs) = filter p xs"
  using assms by (induction xs) auto

lemma filter_filter_other:
  assumes "\<And>a. p a \<Longrightarrow> q a"
  shows "filter p (filter q xs) = filter p xs"
  using assms by (induction xs) auto

lemma sql_exec_other_tenant:
  assumes "sql_scoped u s" and "u \<noteq> t"
  shows "tenant_view t (snd (sql_exec P now s T)) = tenant_view t T"
  using assms by (cases s) (auto simp: tenant_view_def stored_asset_def simp del: filter_filter
      intro!: filter_map_if_other filter_filter_other)

lemma sql_step_other_tenant:
  assumes "sql_scoped u s" and "u \<noteq> t"
  shows "tenant_view t (snd (sql_step P f now s T)) = tenant_view t T"
  using sql_exec_other_tenant [OF assms] by (cases f) (simp_all add: sql_step_def)

lemma postgres_ok_sets:
  assumes "postgres_ok P"
  shows "set (asset_order P xs) = set xs" "set (policy_order P ys) = set ys" "set (alert_order P zs) = set zs"
  using assms unfolding postgres_ok_def by (metis mset_eq_setD)+

lemma sql_exec_reply_scoped:
  assumes "postgres_ok P" and "sql_scoped t s"
  shows "reply_scoped t (fst (sql_exec P now s T))"
  using assms by (cases s) (auto simp: list_all_iff postgres_ok_sets dest: in_set_takeD)

lemma sql_step_reply_scoped:
  assumes "postgres_ok P" and "sql_scoped t s"
  shows "reply_scoped t (fst (sql_step P f now s T))"
  using sql_exec_reply_scoped [OF assms] by (cases f) (simp_all add: sql_step_def)

text \<open>The primary keys of the schema are kept by every statement.\<close>

definition keys_ok :: "tables \<Rightarrow> bool" where
  "keys_ok T \<longleftrightarrow> distinct (map ar_asset_id (t_assets T))
     \<and> distinct (map (\<lambda>p. (pr_policy_id p, pr_tenant_id p)) (t_policies T))
     \<and> distinct (map nr_node_id (t_nodes T)) \<and> distinct (map al_alert_id (t_alerts T))"

lemma sql_step_keys:
  assumes "keys_ok T"
  shows "keys_ok (snd (sql_step P f now s T))"
proof -
  have m: "map ar_asset_id (map (\<lambda>a. if q a then a\<lparr>ar_status := st, ar_last_verified := v\<rparr> else a) xs) = map ar_asset_id xs"
    "map al_alert_id (map (\<lambda>a. if r a then a\<lparr>al_acknowledged := True\<rparr> else a) ys) = map al_alert_id ys"
    "map nr_node_id (map (touch_node P n) zs) = map nr_node_id zs" for q st v xs r ys n zs
    by (simp_all add: touch_node_def)
  have "keys_ok (snd (sql_exec P now s T))"
    using assms by (cases s)
      (auto simp: keys_ok_def m seed_row_def default_policy_def stored_asset_def distinct_map_filter simp del: map_map)
  then show ?thesis using assms by (cases f) (simp_all add: sql_step_def)
qed

lemma run_prog_keys:
  assumes "keys_ok T"
  shows "keys_ok (snd (run_prog P prog fs T))"
  using assms
proof (induction prog arbitrary: fs T)
  case (Sql s k)
  obtain rep T' where e: "sql_step P (fst (next_fate fs)) (snd (next_fate fs)) s T = (rep, T')" by fastforce
  then have "keys_ok T'" using sql_step_keys [OF Sql.prems] by (metis snd_conv)
  then show ?case using Sql.IH [OF rangeI] by (simp add: e)
qed simp

text \<open>
  What holds of every statement and of the result of a program, for every course of replies that the server can give:
  the rules below compose it along the program.
\<close>

primrec prog_all :: "(sql \<Rightarrow> bool) \<Rightarrow> (sql_reply \<Rightarrow> bool) \<Rightarrow> ('r \<Rightarrow> bool) \<Rightarrow> 'r db_prog \<Rightarrow> bool" where
  "prog_all S R F (Ret r) = F r"
| "prog_all S R F (Sql s k) = (S s \<and> (\<forall>rep. R rep \<longrightarrow> prog_all S R F (k rep)))"

lemma prog_all_bind:
  assumes "prog_all S R G m" and "\<And>a. G a \<Longrightarrow> prog_all S R F (f a)"
  shows "prog_all S R F (db_bind m f)"
  using assms by (induction m) auto

lemma prog_all_mono:
  assumes "prog_all S R F m" and "\<And>s. S s \<Longrightarrow> S' s" and "\<And>r. R' r \<Longrightarrow> R r" and "\<And>a. F a \<Longrightarrow> F' a"
  shows "prog_all S' R' F' m"
  using assms by (induction m) auto

text \<open>The value that a statement yields to the rest of the program comes from a reply.\<close>

definition result_of :: "(sql_reply \<Rightarrow> 'a option) \<Rightarrow> (sql_reply \<Rightarrow> bool) \<Rightarrow> 'a db_result \<Rightarrow> bool" where
  "result_of pick R r \<longleftrightarrow> r \<noteq> Panic \<and> (\<forall>a. r = Ok a \<longrightarrow> (\<exists>rep. R rep \<and> pick rep = Some a))"

lemma prog_all_statement:
  assumes "S s"
  shows "prog_all S R (result_of pick R) (statement s pick)"
  using assms by (auto simp: statement_def from_reply_def result_of_def split: option.splits)

lemma prog_all_then:
  assumes "S s" and "\<And>r. result_of pick R r \<Longrightarrow> prog_all S R F (f r)"
  shows "prog_all S R F (db_bind (statement s pick) f)"
  using prog_all_bind [OF prog_all_statement] assms by blast

lemma prog_all_try:
  assumes "S s" and "\<And>rep a. R rep \<Longrightarrow> pick rep = Some a \<Longrightarrow> prog_all S R F (f a)" and "\<And>e. F (Err e)"
  shows "prog_all S R F (db_try (statement s pick) f)"
  unfolding db_try_def
  using assms by (intro prog_all_then) (auto simp: result_of_def split: outcome.split)

end
