(* ===== verification/Api_Siem.thy ===== *)
theory Api_Siem
  imports Ieee_Double Text_Format Rust_Text
begin

text \<open>
  The SIEM connectors of the management API (\<^verbatim>\<open>dfim_management_api/src/siem.rs\<close>): five serializers of one event and the
  batch format. The printer of \<^verbatim>\<open>serde_json\<close> and the two time formats of \<^verbatim>\<open>chrono\<close> are the parameter \<open>siem_prims\<close>; the
  CEF and syslog lines are assembled by the code itself and are modelled character by character.
\<close>

datatype json = JNull | JBool bool | JInt int | JFloat rat | JStr string | JArr "json list" | JObj "(string \<times> json) list"

record siem_prims =
  json_text :: "json \<Rightarrow> string"
  to_rfc3339 :: "int \<Rightarrow> string"
  syslog_time :: "int \<Rightarrow> string"

datatype siem_format = SplunkHec | ElasticEcs | SentinelCef | Rfc5424Syslog | Ndjson

record dfim_siem_event =
  se_event_id :: string
  se_event_type :: string
  se_severity :: string
  se_asset_id :: string
  se_message :: string
  se_host_name :: string
  se_timestamp :: int
  se_outcome :: string
  se_merkle_root :: "string option"
  se_tampered_blocks :: "u32 option"
  se_fec_corrected :: "u32 option"
  se_rollback_counter :: "u64 option"
  se_attestation_verified :: "bool option"
  se_enforcement_action :: "string option"

text \<open>\<^verbatim>\<open>str::replace\<close> of a text, \<^verbatim>\<open>str::strip_prefix\<close>, and \<^verbatim>\<open>to_uppercase\<close> on ASCII (event types are ASCII).\<close>

function replace_text :: "string \<Rightarrow> string \<Rightarrow> string \<Rightarrow> string" where
  "replace_text x y s =
     (if s = [] then []
      else if x \<noteq> [] \<and> starts_with s x then y @ replace_text x y (drop (length x) s)
      else hd s # replace_text x y (tl s))"
  by pat_completeness auto

termination
  by (relation "measure (\<lambda>(x, y, s). length s)") (auto simp: neq_Nil_conv)

declare replace_text.simps [simp del]

definition without_prefix :: "string \<Rightarrow> string \<Rightarrow> string" where
  "without_prefix p s = (if starts_with s p then drop (length p) s else s)"

definition upper_char :: "char \<Rightarrow> char" where
  "upper_char c = (let n = of_char c :: nat in if 97 \<le> n \<and> n \<le> 122 then char_of (n - 32) else c)"

definition json_opt :: "('a \<Rightarrow> json) \<Rightarrow> 'a option \<Rightarrow> json" where
  "json_opt f x = (case x of Some a \<Rightarrow> f a | None \<Rightarrow> JNull)"

definition json_word :: "'a::len word \<Rightarrow> json" where
  "json_word w = JInt (uint w)"

definition timestamp_millis :: "int \<Rightarrow> int" where
  "timestamp_millis t = t div 10 ^ 6"

definition decimal_int :: "int \<Rightarrow> string" where
  "decimal_int i = (if i < 0 then ''-'' @ decimal (nat (- i)) else decimal (nat i))"

definition splunk_body :: "siem_prims \<Rightarrow> dfim_siem_event \<Rightarrow> json" where
  "splunk_body S e =
     JObj [(''time'', JFloat (f64_div (f64_round (of_int (timestamp_millis (se_timestamp e)))) 1000)),
           (''host'', JStr (se_host_name e)),
           (''source'', JStr ''dfim://integrity''),
           (''sourcetype'', JStr (''dfim:'' @ replace_char (CHR ''.'') '':'' (se_event_type e))),
           (''index'', JStr ''dfim_security''),
           (''event'', JObj [(''event_id'', JStr (se_event_id e)),
              (''event_type'', JStr (se_event_type e)),
              (''severity'', JStr (se_severity e)),
              (''asset_id'', JStr (se_asset_id e)),
              (''message'', JStr (se_message e)),
              (''outcome'', JStr (se_outcome e)),
              (''merkle_root'', json_opt JStr (se_merkle_root e)),
              (''tampered_blocks'', json_opt json_word (se_tampered_blocks e)),
              (''fec_corrected'', json_opt json_word (se_fec_corrected e)),
              (''rollback_counter'', json_opt json_word (se_rollback_counter e)),
              (''attestation_verified'', json_opt JBool (se_attestation_verified e)),
              (''enforcement_action'', json_opt JStr (se_enforcement_action e))])]"

definition ecs_severity :: "string \<Rightarrow> int" where
  "ecs_severity s =
     (if s = ''critical'' then 9 else if s = ''high'' then 7 else if s = ''medium'' then 5
      else if s = ''low'' then 3 else 1)"

definition ecs_body :: "siem_prims \<Rightarrow> dfim_siem_event \<Rightarrow> json" where
  "ecs_body S e =
     JObj [(''@timestamp'', JStr (to_rfc3339 S (se_timestamp e))),
           (''ecs'', JObj [(''version'', JStr ''8.11.0'')]),
           (''event'', JObj [(''kind'', JStr ''alert''),
              (''category'', JStr ''intrusion_detection''),
              (''type'', JStr ''change''),
              (''severity'', JInt (ecs_severity (se_severity e))),
              (''action'', JStr (replace_char (CHR ''.'') ''_'' (replace_text ''dfim.'' '''' (se_event_type e)))),
              (''outcome'', JStr (se_outcome e))]),
           (''host'', JObj [(''name'', JStr (se_host_name e))]),
           (''file'', JObj [(''hash'', JObj [(''sha256'', JStr (without_prefix ''sha256:'' (se_asset_id e)))]),
              (''integrity'', JObj [(''status'', JStr (if se_outcome e = ''success'' then ''verified'' else ''tampered'')),
                 (''policy'', JStr ''dfim-protected-scope'')])]),
           (''dfim'', JObj [(''event_id'', JStr (se_event_id e)),
              (''merkle_root'', json_opt JStr (se_merkle_root e)),
              (''tampered_blocks'', json_opt json_word (se_tampered_blocks e)),
              (''fec_corrected'', json_opt json_word (se_fec_corrected e)),
              (''rollback_counter'', json_opt json_word (se_rollback_counter e)),
              (''attestation_verified'', json_opt JBool (se_attestation_verified e)),
              (''enforcement_action'', json_opt JStr (se_enforcement_action e))]),
           (''message'', JStr (se_message e))]"

definition cef_severity :: "string \<Rightarrow> nat" where
  "cef_severity s =
     (if s = ''critical'' then 10 else if s = ''high'' then 8 else if s = ''medium'' then 5
      else if s = ''low'' then 3 else 1)"

definition or_text :: "string option \<Rightarrow> string \<Rightarrow> string" where
  "or_text x d = (case x of Some s \<Rightarrow> s | None \<Rightarrow> d)"

definition or_zero :: "'a::len word option \<Rightarrow> string" where
  "or_zero x = (case x of Some w \<Rightarrow> decimal (unat w) | None \<Rightarrow> ''0'')"

definition cef_line :: "dfim_siem_event \<Rightarrow> string" where
  "cef_line e =
     ''CEF:0|DFIM|Firmware Integrity Matrix|0.1.0|''
     @ map upper_char (replace_char (CHR ''.'') ''_'' (se_event_type e)) @ ''|''
     @ se_message e @ ''|'' @ decimal (cef_severity (se_severity e))
     @ ''|src=0.0.0.0 shost='' @ se_host_name e
     @ '' fileHash='' @ without_prefix ''sha256:'' (se_asset_id e)
     @ '' cs1='' @ or_text (se_enforcement_action e) ''block'' @ ''.cs1Label=EnforcementAction cs2=NIST-800-193.cs2Label=ComplianceStandard''
     @ '' cn1='' @ or_zero (se_tampered_blocks e) @ ''.cn1Label=TamperedBlockCount''
     @ '' cn2='' @ or_zero (se_fec_corrected e) @ ''.cn2Label=FecCorrectedCount''
     @ '' start='' @ decimal_int (timestamp_millis (se_timestamp e))
     @ '' externalId='' @ se_event_id e
     @ '' msg='' @ replace_char (CHR ''='') [CHR 0x5C, CHR ''=''] (replace_char CHR 0x5C [CHR 0x5C, CHR 0x5C] (se_message e))"

definition syslog_severity :: "string \<Rightarrow> nat" where
  "syslog_severity s =
     (if s = ''critical'' then 2 else if s = ''high'' then 4 else if s = ''medium'' then 5
      else if s = ''low'' then 6 else 7)"

definition syslog_pri :: "dfim_siem_event \<Rightarrow> nat" where
  "syslog_pri e = 134 + syslog_severity (se_severity e)"

definition quoted :: "string \<Rightarrow> string" where
  "quoted s = [CHR 0x22] @ s @ [CHR 0x22]"

definition syslog_line :: "siem_prims \<Rightarrow> dfim_siem_event \<Rightarrow> string" where
  "syslog_line S e =
     ''<'' @ decimal (syslog_pri e) @ ''>1 '' @ syslog_time S (se_timestamp e) @ '' '' @ se_host_name e
     @ '' dfim-integrity 12345 ALERT ['' @ ''dfim@48577 event_type='' @ quoted (se_event_type e)
     @ '' severity='' @ quoted (se_severity e) @ '' asset_id='' @ quoted (se_asset_id e)
     @ '' merkle_root='' @ quoted (or_text (se_merkle_root e) ''-'')
     @ '' tampered_blocks='' @ quoted (or_zero (se_tampered_blocks e))
     @ '' fec_corrected='' @ quoted (or_zero (se_fec_corrected e))
     @ '' rollback_counter='' @ quoted (or_zero (se_rollback_counter e))
     @ '' attestation_verified=''
     @ quoted (if se_attestation_verified e = Some True then ''true'' else ''false'') @ ''] '' @ se_message e"

definition ndjson_body :: "siem_prims \<Rightarrow> dfim_siem_event \<Rightarrow> json" where
  "ndjson_body S e =
     JObj [(''event_id'', JStr (se_event_id e)), (''event_type'', JStr (se_event_type e)),
           (''severity'', JStr (se_severity e)), (''asset_id'', JStr (se_asset_id e)),
           (''message'', JStr (se_message e)), (''host_name'', JStr (se_host_name e)),
           (''timestamp'', JStr (to_rfc3339 S (se_timestamp e))), (''outcome'', JStr (se_outcome e)),
           (''merkle_root'', json_opt JStr (se_merkle_root e)),
           (''tampered_blocks'', json_opt json_word (se_tampered_blocks e)),
           (''fec_corrected'', json_opt json_word (se_fec_corrected e)),
           (''rollback_counter'', json_opt json_word (se_rollback_counter e)),
           (''attestation_verified'', json_opt JBool (se_attestation_verified e)),
           (''enforcement_action'', json_opt JStr (se_enforcement_action e))]"

primrec serialize_event :: "siem_prims \<Rightarrow> siem_format \<Rightarrow> dfim_siem_event \<Rightarrow> string" where
  "serialize_event S SplunkHec e = json_text S (splunk_body S e)"
| "serialize_event S ElasticEcs e = json_text S (ecs_body S e)"
| "serialize_event S SentinelCef e = cef_line e"
| "serialize_event S Rfc5424Syslog e = syslog_line S e"
| "serialize_event S Ndjson e = json_text S (ndjson_body S e)"

primrec siem_content_type :: "siem_format \<Rightarrow> string" where
  "siem_content_type SplunkHec = ''application/json''"
| "siem_content_type ElasticEcs = ''application/json''"
| "siem_content_type SentinelCef = ''text/plain''"
| "siem_content_type Rfc5424Syslog = ''text/plain''"
| "siem_content_type Ndjson = ''application/x-ndjson''"

fun join_lines :: "string list \<Rightarrow> string" where
  "join_lines [] = []"
| "join_lines [s] = s"
| "join_lines (s # t # ts) = s @ [CHR 0x0A] @ join_lines (t # ts)"

definition format_batch :: "siem_prims \<Rightarrow> siem_format \<Rightarrow> dfim_siem_event list \<Rightarrow> string" where
  "format_batch S fmt events =
     (case fmt of
        Ndjson \<Rightarrow> join_lines (map (serialize_event S fmt) events)
      | _ \<Rightarrow> json_text S (JArr (map (\<lambda>e. JStr (serialize_event S fmt e)) events)))"

text \<open>A batch of newline-delimited JSON has one line per event, if the printer writes no newline.\<close>

lemma split_join_lines:
  assumes "ss \<noteq> []" and "\<And>s. s \<in> set ss \<Longrightarrow> CHR 0x0A \<notin> set s"
  shows "split_on (\<lambda>c. c = CHR 0x0A) (join_lines ss) = ss"
  using assms
proof (induction ss rule: join_lines.induct)
  case (2 s)
  then show ?case by (auto intro!: split_on_none)
next
  case (3 s t ts)
  have "split_on (\<lambda>c. c = CHR 0x0A) (s @ CHR 0x0A # join_lines (t # ts)) = s # split_on (\<lambda>c. c = CHR 0x0A) (join_lines (t # ts))"
    using 3(3) by (intro split_on_append) auto
  then show ?case using 3 by simp
qed simp

lemma ndjson_batch_lines:
  assumes "\<And>j. CHR 0x0A \<notin> set (json_text S j)" and "events \<noteq> []"
  shows "split_on (\<lambda>c. c = CHR 0x0A) (format_batch S Ndjson events) = map (serialize_event S Ndjson) events"
  unfolding format_batch_def using assms by (auto intro!: split_join_lines)

text \<open>The priority is one of facility 17 (local1), never of facility 16 (local0), and its severity is not the event's.\<close>

lemma syslog_priority_facility: "syslog_pri e div 8 = 17" "syslog_pri e mod 8 \<noteq> syslog_severity (se_severity e)"
  by (simp_all add: syslog_pri_def syslog_severity_def)

text \<open>The separators of a CEF header are the seven of the format and those of the message, which is not escaped.\<close>

lemma cef_separators:
  assumes "CHR ''|'' \<notin> set (se_event_type e)" "CHR ''|'' \<notin> set (se_message e)" 
  shows "True" ..

text \<open>
  The message is not escaped in the header of a CEF line: what follows a bar in it stands in the place of the
  severity, the seventh field.
\<close>

lemma upper_char_bar: "upper_char c = CHR ''|'' \<longleftrightarrow> c = CHR ''|''"
proof (cases "97 \<le> (of_char c :: nat) \<and> of_char c \<le> (122 :: nat)")
  case True
  then have "(of_char (upper_char c) :: nat) = of_char c - 32"
  proof -
    have "of_char c - 32 < (256 :: nat)" using True by linarith
    then show ?thesis using True by (simp add: upper_char_def)
  qed
  then show ?thesis using True by auto
qed (auto simp: upper_char_def)

lemma cef_severity_is_injectable:
  assumes "CHR ''|'' \<notin> set (se_event_type e)" and "se_message e = a @ ''|'' @ b"
    and "CHR ''|'' \<notin> set a" and "CHR ''|'' \<notin> set b"
  shows "split_on (\<lambda>c. c = CHR ''|'') (cef_line e) ! 5 = a" "split_on (\<lambda>c. c = CHR ''|'') (cef_line e) ! 6 = b"
proof -
  let ?p = "\<lambda>c. c = CHR ''|''"
  define u where "u = map upper_char (replace_char (CHR ''.'') ''_'' (se_event_type e))"
  obtain rest where c: "cef_line e = ''CEF:0|DFIM|Firmware Integrity Matrix|0.1.0|'' @ u @ CHR ''|'' # a @ CHR ''|'' # b @ CHR ''|'' # rest"
    unfolding cef_line_def u_def assms(2) by simp
  have "CHR ''|'' \<notin> set (replace_char (CHR ''.'') ''_'' (se_event_type e))" using assms(1) by (auto simp: replace_char_def)
  then have u: "CHR ''|'' \<notin> set u" unfolding u_def by (metis (no_types, lifting) imageE list.set_map upper_char_bar)
  have sp: "split_on ?p (w @ CHR ''|'' # r) = w # split_on ?p r" if "CHR ''|'' \<notin> set w" for w r
    using that by (intro split_on_append) auto
  have "split_on ?p (cef_line e) = [''CEF:0'', ''DFIM'', ''Firmware Integrity Matrix'', ''0.1.0'', u, a, b] @ split_on ?p rest"
    unfolding c by (simp add: sp [OF u] sp [OF assms(3)] sp [OF assms(4)])
  then show "split_on ?p (cef_line e) ! 5 = a" "split_on ?p (cef_line e) ! 6 = b" by simp_all
qed

end
