(* ===== verification/Api_Server.thy ===== *)
theory Api_Server
  imports Api_Auth Api_Ratelimit Api_Db Api_Siem
begin

text \<open>
  The management API (\<^verbatim>\<open>dfim_management_api/src/main.rs\<close>, \<^verbatim>\<open>metrics.rs\<close>): the guard in front of every request, role-based
  authorization, the route table, the handlers as programs of SQL statements, and the server that runs them
  interleaved. What the crates \<^verbatim>\<open>axum\<close> and \<^verbatim>\<open>serde\<close> extracted from a request is the parameter \<open>extractors\<close>, each extractor
  either yielding a value or rejecting the request with a status.
\<close>

section \<open>Requests and responses\<close>

datatype http_method = GET | POST | PUT | DELETE | HEAD | OPTIONS | Other_method string

record 'ip http_request =
  rq_method :: http_method
  rq_path :: string
  rq_query :: string
  rq_authorization :: "string option"
  rq_body :: bytes
  rq_peer :: 'ip

record pagination_params =
  pp_offset :: "int option"
  pp_limit :: "int option"
  pp_status :: "string option"
  pp_host :: "string option"
  pp_kind :: "string option"

record enroll_asset_request =
  en_asset_id :: string
  en_display_name :: string
  en_asset_kind :: string
  en_host_name :: string
  en_policy_id :: "string option"
  en_integrity_hash :: "string option"

record siem_export_params =
  sp_format :: "string option"
  sp_limit :: "int option"

record health_response =
  hr_status :: string
  hr_version :: string
  hr_uptime_seconds :: nat
  hr_asset_count :: "int option"
  hr_policy_count :: "int option"
  hr_alert_count :: "int option"
  hr_node_count :: "int option"

datatype api_body =
    Error_body string nat
  | Health_body health_response
  | Text_body string string
  | Openapi_body
  | Token_body token_response
  | Summary_body fleet_summary_raw rat
  | Assets_body "asset_record list"
  | Asset_body asset_record
  | Deleted_body string
  | Policies_body "policy_record list"
  | Policy_body policy_record
  | Nodes_body "node_record list"
  | Node_body node_record
  | Alerts_body "alert_record list"
  | Alert_body alert_record
  | No_body

record response =
  rs_status :: nat
  rs_body :: api_body

record extractors =
  ex_path :: "string \<Rightarrow> nat + string"
  ex_page :: "string \<Rightarrow> nat + pagination_params"
  ex_siem :: "string \<Rightarrow> nat + siem_export_params"
  ex_login :: "bytes \<Rightarrow> nat + login_request"
  ex_enroll :: "bytes \<Rightarrow> nat + enroll_asset_request"
  ex_map :: "bytes \<Rightarrow> nat + (string \<rightharpoonup> string)"

text \<open>What the process is configured with, and what one request reads of the world: clocks and a fresh UUID.\<close>

record api_config =
  cfg_env :: environment
  cfg_fallback_key :: bytes
  cfg_auth :: auth_prims
  cfg_siem :: siem_prims
  cfg_extract :: extractors
  cfg_error_text :: "db_error \<Rightarrow> string"
  cfg_start_time :: int
  cfg_version :: string

record call_context =
  cx_clock :: "nat \<Rightarrow> int"
  cx_unix :: "u64 option"
  cx_instant :: nat
  cx_uuid :: string

section \<open>Helpers\<close>

definition parse_u32 :: "string \<Rightarrow> nat option" where
  "parse_u32 s =
     (let ds = (if starts_with s ''+'' then drop 1 s else s) in
      if ds \<noteq> [] \<and> list_all (\<lambda>c. 48 \<le> (of_char c :: nat) \<and> of_char c \<le> (57 :: nat)) ds
         \<and> foldl (\<lambda>n c. 10 * n + (of_char c - 48)) (0 :: nat) ds < 2 ^ 32
      then Some (foldl (\<lambda>n c. 10 * n + (of_char c - 48)) 0 ds) else None)"

definition env_u32 :: "environment \<Rightarrow> string \<Rightarrow> nat \<Rightarrow> nat" where
  "env_u32 env key d = (case Option.bind (env key) parse_u32 of Some n \<Rightarrow> n | None \<Rightarrow> d)"

definition app_rate_limiter :: "environment \<Rightarrow> 'ip rate_limiter" where
  "app_rate_limiter env = rate_limiter_new (env_u32 env ''DFIM_RATE_LIMIT'' 1000) (env_u32 env ''DFIM_RATE_BURST'' 10000)"

definition api_error :: "nat \<Rightarrow> string \<Rightarrow> response" where
  "api_error st msg = \<lparr>rs_status = st, rs_body = Error_body msg st\<rparr>"

definition json_response :: "api_body \<Rightarrow> response" where
  "json_response b = \<lparr>rs_status = 200, rs_body = b\<rparr>"

definition created :: "api_body \<Rightarrow> response" where
  "created b = \<lparr>rs_status = 201, rs_body = b\<rparr>"

definition sanitize :: "string \<Rightarrow> string" where
  "sanitize input =
     replace_char CHR 0x27 ''&#x27;'' (replace_char CHR 0x22 ''&quot;'' (replace_char (CHR ''>'') ''&gt;''
       (replace_char (CHR ''<'') ''&lt;'' (replace_char (CHR ''&'') ''&amp;'' input))))"

definition authorize :: "string \<Rightarrow> http_method \<Rightarrow> string \<Rightarrow> bool" where
  "authorize role meth path =
     (if role = ''admin'' then True
      else if role = ''operator''
      then (if meth = DELETE then False else if path = ''/v1/policies'' \<and> meth = POST then False else True)
      else if role = ''readonly'' then meth = GET
      else False)"

section \<open>The guard\<close>

datatype guard_verdict = Pass "claims option" | Reject response

definition guard_middleware :: "api_config \<Rightarrow> ('ip \<Rightarrow> nat) \<Rightarrow> call_context \<Rightarrow> 'ip http_request \<Rightarrow> 'ip rate_limiter \<Rightarrow>
    guard_verdict \<times> 'ip rate_limiter" where
  "guard_middleware cfg hash cx rq rl =
     (let path = rq_path rq in
      if path = ''/health'' \<or> path = ''/metrics'' then (Pass None, rl)
      else
        let (ok, rl') = rate_check hash (cx_instant cx) (rq_peer rq) rl in
        if \<not> ok then (Reject (api_error 429 ''Rate limit exceeded''), rl')
        else if path \<noteq> ''/openapi.json'' \<and> path \<noteq> ''/v1/auth/login''
        then
          let auth_header = (case rq_authorization rq of Some h \<Rightarrow> h | None \<Rightarrow> []) in
          if auth_header = [] then (Reject (api_error 401 ''Authentication required''), rl')
          else
            (case verify_jwt (cfg_auth cfg) (jwt_secret (cfg_env cfg) (cfg_fallback_key cfg)) (cx_unix cx) auth_header of
               Ok c \<Rightarrow>
                 (if \<not> authorize (cl_role c) (rq_method rq) path then (Reject (api_error 403 ''Insufficient role''), rl')
                  else (Pass (Some c), rl'))
             | _ \<Rightarrow> (Reject (api_error 401 ''Invalid token''), rl'))
        else (Pass None, rl'))"

section \<open>Handlers\<close>

definition or_default :: "'a \<Rightarrow> 'a db_result \<Rightarrow> 'a" where
  "or_default d r = (case r of Ok a \<Rightarrow> a | _ \<Rightarrow> d)"

definition health_check :: "api_config \<Rightarrow> call_context \<Rightarrow> response db_prog" where
  "health_check cfg cx =
     db_bind (count_assets ''default'') (\<lambda>a.
     db_bind (count_policies ''default'') (\<lambda>p.
     db_bind (count_alerts ''default'') (\<lambda>l.
     db_bind count_nodes (\<lambda>n.
     let (a', p', l', n') =
       (case (a, p, l, n) of (Ok a, Ok p, Ok l, Ok n) \<Rightarrow> (Some a, Some p, Some l, Some n) | _ \<Rightarrow> (None, None, None, None))
     in Ret (json_response (Health_body
          \<lparr>hr_status = ''operational'', hr_version = cfg_version cfg,
           hr_uptime_seconds = nat (max ((cx_clock cx 0 - cfg_start_time cfg) div 10 ^ 9) 0),
           hr_asset_count = a', hr_policy_count = p', hr_alert_count = l', hr_node_count = n'\<rparr>))))))"

definition no_summary :: fleet_summary_raw where
  "no_summary = \<lparr>fs_total_assets = 0, fs_healthy = 0, fs_tampered = 0, fs_blocked = 0, fs_pending = 0,
     fs_total_nodes = 0, fs_total_policies = 0, fs_active_alerts = 0\<rparr>"

definition coverage_pct :: "fleet_summary_raw \<Rightarrow> rat" where
  "coverage_pct s =
     (let total = f64_round (of_int (fs_total_assets s)) in
      if 0 < total then f64_mul (f64_div (f64_round (of_int (fs_healthy s))) total) 100 else 0)"

definition fleet_summary :: "string \<Rightarrow> response db_prog" where
  "fleet_summary tenant =
     db_bind (db_fleet_summary tenant) (\<lambda>r.
     let s = or_default no_summary r in Ret (json_response (Summary_body s (coverage_pct s))))"

definition api_list_assets :: "string \<Rightarrow> pagination_params \<Rightarrow> response db_prog" where
  "api_list_assets tenant p =
     (let limit = min (case pp_limit p of Some l \<Rightarrow> l | None \<Rightarrow> 100) 1000;
          offset = (case pp_offset p of Some off \<Rightarrow> off | None \<Rightarrow> 0)
      in db_bind (list_assets tenant limit offset (pp_status p) (pp_host p) (pp_kind p)) (\<lambda>r.
         Ret (json_response (Assets_body (or_default [] r)))))"

definition api_get_asset :: "string \<Rightarrow> string \<Rightarrow> response db_prog" where
  "api_get_asset tenant i =
     db_bind (get_asset tenant i) (\<lambda>r.
     Ret (case r of Some a \<Rightarrow> json_response (Asset_body a) | None \<Rightarrow> api_error 404 ''Asset not found''))"

definition enrolled_record :: "call_context \<Rightarrow> string \<Rightarrow> enroll_asset_request \<Rightarrow> asset_record" where
  "enrolled_record cx tenant req =
     \<lparr>ar_asset_id = sanitize (en_asset_id req), ar_display_name = sanitize (en_display_name req),
      ar_asset_kind = sanitize (en_asset_kind req), ar_host_name = sanitize (en_host_name req),
      ar_status = ''pending'', ar_integrity_hash = en_integrity_hash req,
      ar_last_verified = cx_clock cx 0, ar_enrolled_at = cx_clock cx 1,
      ar_policy_id = (case en_policy_id req of Some q \<Rightarrow> Some q | None \<Rightarrow> Some ''default-policy''),
      ar_tenant_id = tenant\<rparr>"

definition enroll_asset :: "api_config \<Rightarrow> call_context \<Rightarrow> string \<Rightarrow> enroll_asset_request \<Rightarrow> response db_prog" where
  "enroll_asset cfg cx tenant req =
     (let rec = enrolled_record cx tenant req in
      db_bind (insert_asset rec) (\<lambda>r.
      Ret (case r of Ok _ \<Rightarrow> created (Asset_body rec) | Err e \<Rightarrow> api_error 409 (cfg_error_text cfg e)
           | Panic \<Rightarrow> api_error 500 '''')))"

definition integrity_alert :: "call_context \<Rightarrow> string \<Rightarrow> string \<Rightarrow> asset_record \<Rightarrow> alert_record" where
  "integrity_alert cx tenant i asset =
     \<lparr>al_alert_id = cx_uuid cx, al_severity = ''critical'', al_asset_id = i,
      al_message = ''Integrity failure: '' @ ar_display_name asset, al_timestamp = cx_clock cx 1,
      al_acknowledged = False, al_tenant_id = tenant\<rparr>"

definition verify_asset :: "call_context \<Rightarrow> string \<Rightarrow> string \<Rightarrow> (string \<rightharpoonup> string) \<Rightarrow> response db_prog" where
  "verify_asset cx tenant i body =
     db_bind (get_asset tenant i) (\<lambda>found.
     case found of
       None \<Rightarrow> Ret (api_error 404 ''Asset not found'')
     | Some asset \<Rightarrow>
         (case Option.bind (body ''integrity_hash'') (\<lambda>h. if h = [] then None else Some h) of
            None \<Rightarrow> Ret (api_error 400 ''integrity_hash is required'')
          | Some provided_hash \<Rightarrow>
              (let finish = (\<lambda>st.
                     db_bind (update_asset_status tenant i st (cx_clock cx 0)) (\<lambda>r.
                     Ret (case r of
                            Ok _ \<Rightarrow> json_response (Asset_body (asset\<lparr>ar_last_verified := cx_clock cx 0, ar_status := st\<rparr>))
                          | _ \<Rightarrow> api_error 500 ''Update failed'')))
               in if ar_integrity_hash asset = Some provided_hash then finish ''healthy''
                  else db_bind (insert_alert (integrity_alert cx tenant i asset)) (\<lambda>_. finish ''tampered''))))"

definition api_delete_asset :: "string \<Rightarrow> string \<Rightarrow> response db_prog" where
  "api_delete_asset tenant i =
     db_bind (db_delete_asset tenant i) (\<lambda>r.
     Ret (case r of Ok _ \<Rightarrow> json_response (Deleted_body i) | _ \<Rightarrow> api_error 404 ''Asset not found''))"

definition api_list_policies :: "string \<Rightarrow> response db_prog" where
  "api_list_policies tenant =
     db_bind (db_list_policies tenant) (\<lambda>r. Ret (json_response (Policies_body (or_default [] r))))"

definition new_policy :: "call_context \<Rightarrow> string \<Rightarrow> (string \<rightharpoonup> string) \<Rightarrow> policy_record" where
  "new_policy cx tenant body =
     \<lparr>pr_policy_id = (case body ''policy_id'' of Some q \<Rightarrow> q | None \<Rightarrow> cx_uuid cx),
      pr_name = (case body ''name'' of Some n \<Rightarrow> n | None \<Rightarrow> ''Unnamed''), pr_version = 1,
      pr_enforcement_mode = ''protected-scope'', pr_tenant_id = tenant\<rparr>"

definition create_policy :: "api_config \<Rightarrow> call_context \<Rightarrow> string \<Rightarrow> (string \<rightharpoonup> string) \<Rightarrow> response db_prog" where
  "create_policy cfg cx tenant body =
     (let policy = new_policy cx tenant body in
      db_bind (insert_policy policy) (\<lambda>r.
      Ret (case r of Ok _ \<Rightarrow> created (Policy_body policy) | Err e \<Rightarrow> api_error 409 (cfg_error_text cfg e)
           | Panic \<Rightarrow> api_error 500 '''')))"

definition api_list_nodes :: "response db_prog" where
  "api_list_nodes = db_bind db_list_nodes (\<lambda>r. Ret (json_response (Nodes_body (or_default [] r))))"

definition new_node :: "call_context \<Rightarrow> (string \<rightharpoonup> string) \<Rightarrow> node_record" where
  "new_node cx body =
     \<lparr>nr_node_id = (case body ''node_id'' of Some n \<Rightarrow> n | None \<Rightarrow> cx_uuid cx),
      nr_host_name = (case body ''host_name'' of Some h \<Rightarrow> h | None \<Rightarrow> ''unknown''),
      nr_platform = (case body ''platform'' of Some q \<Rightarrow> q | None \<Rightarrow> ''linux''),
      nr_status = ''online'', nr_last_seen = cx_clock cx 0, nr_asset_count = 0\<rparr>"

definition register_node :: "api_config \<Rightarrow> call_context \<Rightarrow> (string \<rightharpoonup> string) \<Rightarrow> response db_prog" where
  "register_node cfg cx body =
     (let node = new_node cx body in
      db_bind (insert_node node) (\<lambda>r.
      Ret (case r of Ok _ \<Rightarrow> created (Node_body node) | Err e \<Rightarrow> api_error 409 (cfg_error_text cfg e)
           | Panic \<Rightarrow> api_error 500 '''')))"

definition api_list_alerts :: "string \<Rightarrow> pagination_params \<Rightarrow> response db_prog" where
  "api_list_alerts tenant p =
     (let limit = (case pp_limit p of Some l \<Rightarrow> l | None \<Rightarrow> 100) in
      db_bind (db_list_alerts tenant limit) (\<lambda>r. Ret (json_response (Alerts_body (or_default [] r)))))"

definition acknowledge_alert :: "string \<Rightarrow> string \<Rightarrow> response db_prog" where
  "acknowledge_alert tenant i =
     db_bind (db_acknowledge_alert tenant i) (\<lambda>r.
     Ret (case r of Ok a \<Rightarrow> json_response (Alert_body a) | _ \<Rightarrow> api_error 404 ''Alert not found''))"

definition auth_error_text :: "auth_error \<Rightarrow> string" where
  "auth_error_text e = (case e of Invalid_credentials \<Rightarrow> ''Invalid credentials'' | _ \<Rightarrow> ''second time provided was later than self'')"

definition api_login :: "api_config \<Rightarrow> call_context \<Rightarrow> login_request \<Rightarrow> response db_prog" where
  "api_login cfg cx creds =
     Ret (case auth_login (cfg_auth cfg) (cfg_env cfg) (cfg_fallback_key cfg) (cx_unix cx) creds of
            Ok t \<Rightarrow> json_response (Token_body t)
          | Err e \<Rightarrow> api_error 401 (auth_error_text e)
          | Panic \<Rightarrow> api_error 500 '''')"

definition parse_siem_format :: "string \<Rightarrow> siem_format option" where
  "parse_siem_format s =
     (if s = ''splunk_hec'' \<or> s = ''splunk'' then Some SplunkHec
      else if s = ''elastic'' \<or> s = ''ecs'' then Some ElasticEcs
      else if s = ''sentinel'' \<or> s = ''cef'' then Some SentinelCef
      else if s = ''syslog'' \<or> s = ''rfc5424'' then Some Rfc5424Syslog
      else if s = ''ndjson'' \<or> s = ''json'' then Some Ndjson
      else None)"

definition siem_event_of :: "(string \<times> string) list \<Rightarrow> alert_record \<Rightarrow> dfim_siem_event" where
  "siem_event_of host_names a =
     \<lparr>se_event_id = al_alert_id a, se_event_type = ''dfim.integrity.alert'', se_severity = al_severity a,
      se_asset_id = al_asset_id a, se_message = al_message a,
      se_host_name = (case map_of host_names (al_asset_id a) of Some h \<Rightarrow> h | None \<Rightarrow> []),
      se_timestamp = al_timestamp a, se_outcome = (if al_acknowledged a then ''acknowledged'' else ''open''),
      se_merkle_root = None, se_tampered_blocks = None, se_fec_corrected = None, se_rollback_counter = None,
      se_attestation_verified = None, se_enforcement_action = None\<rparr>"

definition siem_export :: "api_config \<Rightarrow> string \<Rightarrow> siem_export_params \<Rightarrow> response db_prog" where
  "siem_export cfg tenant p =
     (let name = (case sp_format p of Some f \<Rightarrow> f | None \<Rightarrow> ''ndjson'') in
      case parse_siem_format name of
        None \<Rightarrow> Ret (api_error 400 (''Unknown SIEM format '' @ [CHR 0x27] @ sanitize name @ [CHR 0x27] @
                 ''; expected one of: splunk_hec, elastic, sentinel, syslog, ndjson''))
      | Some fmt \<Rightarrow>
          (let limit = max 1 (min 5000 (case sp_limit p of Some l \<Rightarrow> l | None \<Rightarrow> 500)) in
           db_bind (db_list_alerts tenant limit) (\<lambda>r.
           let alerts = or_default [] r in
           db_bind (host_names_for_assets tenant (remdups (map al_asset_id alerts))) (\<lambda>host_names.
           let events = map (siem_event_of host_names) alerts in
           Ret (json_response (Text_body (siem_content_type fmt) (format_batch (cfg_siem cfg) fmt events)))))))"

text \<open>The counters of \<^verbatim>\<open>metrics.rs\<close>, which wrap at 64 bits, and the page they are printed on.\<close>

record metric_counters =
  request_count :: u64
  error_count :: u64
  asset_gauge :: u64
  alert_gauge :: u64

definition increment_requests :: "metric_counters \<Rightarrow> metric_counters" where
  "increment_requests m = m\<lparr>request_count := request_count m + 1\<rparr>"

definition increment_errors :: "metric_counters \<Rightarrow> metric_counters" where
  "increment_errors m = m\<lparr>error_count := error_count m + 1\<rparr>"

definition set_asset_count :: "u64 \<Rightarrow> metric_counters \<Rightarrow> metric_counters" where
  "set_asset_count n m = m\<lparr>asset_gauge := n\<rparr>"

definition set_alert_count :: "u64 \<Rightarrow> metric_counters \<Rightarrow> metric_counters" where
  "set_alert_count n m = m\<lparr>alert_gauge := n\<rparr>"

definition metric :: "string \<Rightarrow> string \<Rightarrow> string \<Rightarrow> string \<Rightarrow> string" where
  "metric name help kind sample =
     ''# HELP '' @ name @ '' '' @ help @ [CHR 0x0A] @ ''# TYPE '' @ name @ '' '' @ kind @ [CHR 0x0A]
     @ name @ sample @ [CHR 0x0A]"

definition metrics_page :: "metric_counters \<Rightarrow> string" where
  "metrics_page m =
     metric ''dfim_http_requests_total'' ''Total HTTP requests'' ''counter'' ('' '' @ decimal (unat (request_count m)))
     @ metric ''dfim_http_errors_total'' ''Total HTTP errors'' ''counter'' ('' '' @ decimal (unat (error_count m)))
     @ metric ''dfim_assets_total'' ''Total enrolled assets'' ''gauge'' ('' '' @ decimal (unat (asset_gauge m)))
     @ metric ''dfim_alerts_active'' ''Active security alerts'' ''gauge'' ('' '' @ decimal (unat (alert_gauge m)))
     @ metric ''dfim_uptime_seconds'' ''API uptime'' ''gauge'' '' 0''
     @ metric ''dfim_build_info'' ''Build metadata'' ''gauge''
         (''{version='' @ quoted ''1.0.0'' @ '',phase='' @ quoted ''5'' @ ''} 1'')"

definition metrics_handler :: "metric_counters \<Rightarrow> response db_prog" where
  "metrics_handler m = Ret (json_response (Text_body ''text/plain; version=0.0.4'' (metrics_page m)))"

text \<open>No handler calls the hooks of \<^verbatim>\<open>metrics.rs\<close>: a running server has the counters it started with.\<close>

definition metrics_start :: metric_counters where
  "metrics_start = \<lparr>request_count = 0, error_count = 0, asset_gauge = 0, alert_gauge = 0\<rparr>"

text \<open>
  The audit log (\<^verbatim>\<open>audit.rs\<close>), which no handler calls yet: one JSON line is appended per entry. A write error is
  ignored; how much of the line was written then is an argument.
\<close>

record audit_entry =
  ae_timestamp :: int
  ae_user :: string
  ae_tenant :: string
  ae_action :: string
  ae_resource :: string
  ae_status :: nat
  ae_ip :: string
  ae_user_agent :: string
  ae_duration_ms :: rat

definition audit_json :: "siem_prims \<Rightarrow> audit_entry \<Rightarrow> json" where
  "audit_json S a =
     JObj [(''timestamp'', JStr (to_rfc3339 S (ae_timestamp a))), (''user'', JStr (ae_user a)),
           (''tenant'', JStr (ae_tenant a)), (''action'', JStr (ae_action a)), (''resource'', JStr (ae_resource a)),
           (''status'', JInt (int (ae_status a))), (''ip'', JStr (ae_ip a)), (''user_agent'', JStr (ae_user_agent a)),
           (''duration_ms'', JFloat (ae_duration_ms a))]"

definition audit_log :: "siem_prims \<Rightarrow> nat option \<Rightarrow> audit_entry \<Rightarrow> string \<Rightarrow> string" where
  "audit_log S failed_after a sink =
     (let line = json_text S (audit_json S a) @ [CHR 0x0A] in
      sink @ (case failed_after of None \<Rightarrow> line | Some n \<Rightarrow> take n line))"

definition audit_mutation :: "siem_prims \<Rightarrow> nat option \<Rightarrow> int \<Rightarrow> string \<Rightarrow> string \<Rightarrow> string \<Rightarrow> string \<Rightarrow> nat \<Rightarrow> string \<Rightarrow>
    string \<Rightarrow> rat \<Rightarrow> string \<Rightarrow> string" where
  "audit_mutation S failed_after now user tenant action res st ip user_agent duration_ms sink =
     audit_log S failed_after
       \<lparr>ae_timestamp = now, ae_user = user, ae_tenant = tenant, ae_action = action, ae_resource = res, ae_status = st,
        ae_ip = ip, ae_user_agent = user_agent, ae_duration_ms = duration_ms\<rparr> sink"

section \<open>Routes\<close>

datatype endpoint =
    E_health | E_metrics | E_openapi | E_login | E_fleet_summary | E_list_assets
  | E_get_asset string | E_delete_asset string | E_enroll | E_verify string
  | E_list_policies | E_create_policy | E_list_nodes | E_register_node
  | E_list_alerts | E_acknowledge string | E_siem_export

text \<open>The methods a path answers; a segment in braces stands for any that is not empty.\<close>

definition resource :: "string \<Rightarrow> (http_method \<times> endpoint) list" where
  "resource path =
     (if path = ''/health'' then [(GET, E_health)]
      else if path = ''/metrics'' then [(GET, E_metrics)]
      else if path = ''/openapi.json'' then [(GET, E_openapi)]
      else if path = ''/v1/auth/login'' then [(POST, E_login)]
      else if path = ''/v1/fleet/summary'' then [(GET, E_fleet_summary)]
      else if path = ''/v1/assets'' then [(GET, E_list_assets)]
      else if path = ''/v1/assets/enroll'' then [(POST, E_enroll)]
      else if path = ''/v1/policies'' then [(GET, E_list_policies), (POST, E_create_policy)]
      else if path = ''/v1/nodes'' then [(GET, E_list_nodes)]
      else if path = ''/v1/nodes/register'' then [(POST, E_register_node)]
      else if path = ''/v1/alerts'' then [(GET, E_list_alerts)]
      else if path = ''/v1/siem/export'' then [(GET, E_siem_export)]
      else
        case split_on (\<lambda>c. c = CHR ''/'') path of
          [pre, v, kind, i] \<Rightarrow>
            (if pre = [] \<and> v = ''v1'' \<and> kind = ''assets'' \<and> i \<noteq> []
             then [(GET, E_get_asset i), (DELETE, E_delete_asset i)] else [])
        | [pre, v, kind, i, act] \<Rightarrow>
            (if pre = [] \<and> v = ''v1'' \<and> kind = ''assets'' \<and> i \<noteq> [] \<and> act = ''verify'' then [(PUT, E_verify i)]
             else if pre = [] \<and> v = ''v1'' \<and> kind = ''alerts'' \<and> i \<noteq> [] \<and> act = ''acknowledge''
             then [(POST, E_acknowledge i)] else [])
        | _ \<Rightarrow> [])"

definition extracted :: "nat + 'a \<Rightarrow> ('a \<Rightarrow> response db_prog) \<Rightarrow> response db_prog" where
  "extracted x f = (case x of Inl st \<Rightarrow> Ret \<lparr>rs_status = st, rs_body = No_body\<rparr> | Inr a \<Rightarrow> f a)"

text \<open>A handler that wants the claims of a request that has none is answered by the framework with 500.\<close>

definition with_tenant :: "claims option \<Rightarrow> (string \<Rightarrow> response db_prog) \<Rightarrow> response db_prog" where
  "with_tenant c f = (case c of Some c \<Rightarrow> f (cl_tenant c) | None \<Rightarrow> Ret \<lparr>rs_status = 500, rs_body = No_body\<rparr>)"

definition path_id :: "api_config \<Rightarrow> string \<Rightarrow> (string \<Rightarrow> response db_prog) \<Rightarrow> response db_prog" where
  "path_id cfg i f = extracted (ex_path (cfg_extract cfg) i) f"

fun dispatch :: "api_config \<Rightarrow> call_context \<Rightarrow> claims option \<Rightarrow> 'ip http_request \<Rightarrow> endpoint \<Rightarrow> response db_prog" where
  "dispatch cfg cx c rq E_health = health_check cfg cx"
| "dispatch cfg cx c rq E_metrics = metrics_handler metrics_start"
| "dispatch cfg cx c rq E_openapi = Ret (json_response Openapi_body)"
| "dispatch cfg cx c rq E_login = extracted (ex_login (cfg_extract cfg) (rq_body rq)) (api_login cfg cx)"
| "dispatch cfg cx c rq E_fleet_summary = with_tenant c fleet_summary"
| "dispatch cfg cx c rq E_list_assets =
     with_tenant c (\<lambda>t. extracted (ex_page (cfg_extract cfg) (rq_query rq)) (api_list_assets t))"
| "dispatch cfg cx c rq (E_get_asset i) = with_tenant c (\<lambda>t. path_id cfg i (api_get_asset t))"
| "dispatch cfg cx c rq (E_delete_asset i) = with_tenant c (\<lambda>t. path_id cfg i (api_delete_asset t))"
| "dispatch cfg cx c rq E_enroll =
     with_tenant c (\<lambda>t. extracted (ex_enroll (cfg_extract cfg) (rq_body rq)) (enroll_asset cfg cx t))"
| "dispatch cfg cx c rq (E_verify i) =
     with_tenant c (\<lambda>t. path_id cfg i (\<lambda>i. extracted (ex_map (cfg_extract cfg) (rq_body rq)) (verify_asset cx t i)))"
| "dispatch cfg cx c rq E_list_policies = with_tenant c api_list_policies"
| "dispatch cfg cx c rq E_create_policy =
     with_tenant c (\<lambda>t. extracted (ex_map (cfg_extract cfg) (rq_body rq)) (create_policy cfg cx t))"
| "dispatch cfg cx c rq E_list_nodes = api_list_nodes"
| "dispatch cfg cx c rq E_register_node =
     extracted (ex_map (cfg_extract cfg) (rq_body rq)) (register_node cfg cx)"
| "dispatch cfg cx c rq E_list_alerts =
     with_tenant c (\<lambda>t. extracted (ex_page (cfg_extract cfg) (rq_query rq)) (api_list_alerts t))"
| "dispatch cfg cx c rq (E_acknowledge i) = with_tenant c (\<lambda>t. path_id cfg i (acknowledge_alert t))"
| "dispatch cfg cx c rq E_siem_export =
     with_tenant c (\<lambda>t. extracted (ex_siem (cfg_extract cfg) (rq_query rq)) (siem_export cfg t))"

text \<open>
  Behind the guard: the CORS layer answers every \<^verbatim>\<open>OPTIONS\<close> request, the body limit is 10 MiB, \<^verbatim>\<open>HEAD\<close> runs the handler
  of \<^verbatim>\<open>GET\<close>, and a known path answers other methods with 405.
\<close>

definition BODY_LIMIT :: nat where
  "BODY_LIMIT = 10 * 1024 * 1024"

definition inner_service :: "api_config \<Rightarrow> call_context \<Rightarrow> claims option \<Rightarrow> 'ip http_request \<Rightarrow> response db_prog" where
  "inner_service cfg cx c rq =
     (if rq_method rq = OPTIONS then Ret \<lparr>rs_status = 200, rs_body = No_body\<rparr>
      else if BODY_LIMIT < length (rq_body rq) then Ret \<lparr>rs_status = 413, rs_body = No_body\<rparr>
      else
        let handlers = resource (rq_path rq) in
        if handlers = [] then Ret \<lparr>rs_status = 404, rs_body = No_body\<rparr>
        else case map_of handlers (if rq_method rq = HEAD then GET else rq_method rq) of
               None \<Rightarrow> Ret \<lparr>rs_status = 405, rs_body = No_body\<rparr>
             | Some e \<Rightarrow> dispatch cfg cx c rq e)"

definition accept_request :: "api_config \<Rightarrow> ('ip \<Rightarrow> nat) \<Rightarrow> call_context \<Rightarrow> 'ip http_request \<Rightarrow> 'ip rate_limiter \<Rightarrow>
    claims option \<times> response db_prog \<times> 'ip rate_limiter" where
  "accept_request cfg hash cx rq rl =
     (case guard_middleware cfg hash cx rq rl of
        (Pass c, rl') \<Rightarrow> (c, inner_service cfg cx c rq, rl')
      | (Reject r, rl') \<Rightarrow> (None, Ret r, rl'))"

section \<open>The running server\<close>

text \<open>
  The state of the server: the tables, the limiter, and the requests in progress with the claims they run under. A
  request arrives, or a request in progress has its next statement executed.
\<close>

record 'ip api_server =
  sv_tables :: tables
  sv_limiter :: "'ip rate_limiter"
  sv_pool :: "(claims option \<times> response db_prog) list"

datatype 'ip server_event = Arrival call_context "'ip http_request" | Progress nat fate int

inductive server_step :: "api_config \<Rightarrow> postgres \<Rightarrow> ('ip \<Rightarrow> nat) \<Rightarrow> 'ip api_server \<Rightarrow> 'ip server_event \<Rightarrow> 'ip api_server \<Rightarrow> bool"
  for cfg :: api_config and P :: postgres and hash :: "'ip \<Rightarrow> nat" where
  arrive: "accept_request cfg hash cx rq (sv_limiter s) = (c, prog, rl) \<Longrightarrow>
     server_step cfg P hash s (Arrival cx rq) (s\<lparr>sv_limiter := rl, sv_pool := sv_pool s @ [(c, prog)]\<rparr>)"
| progress: "i < length (sv_pool s) \<Longrightarrow> sv_pool s ! i = (c, Sql q k) \<Longrightarrow> sql_step P f now q (sv_tables s) = (rep, T) \<Longrightarrow>
     server_step cfg P hash s (Progress i f now) (s\<lparr>sv_tables := T, sv_pool := (sv_pool s)[i := (c, k rep)]\<rparr>)"

inductive_cases server_stepE: "server_step cfg P hash s ev s'"

inductive server_run :: "api_config \<Rightarrow> postgres \<Rightarrow> ('ip \<Rightarrow> nat) \<Rightarrow> 'ip api_server \<Rightarrow> 'ip server_event list \<Rightarrow> 'ip api_server \<Rightarrow> bool"
  for cfg :: api_config and P :: postgres and hash :: "'ip \<Rightarrow> nat" where
  run_nil: "server_run cfg P hash s [] s"
| run_snoc: "server_run cfg P hash s evs s' \<Longrightarrow> server_step cfg P hash s' ev s'' \<Longrightarrow> server_run cfg P hash s (evs @ [ev]) s''"

end
