(* ===== verification/Api_Safety.thy ===== *)
theory Api_Safety
  imports Api_Server
begin

text \<open>
  What the management API guarantees: requests in progress stay within the tenant of their token however their
  statements interleave and fail, roles limit the statements a request can issue, the verdict of a verification is
  exact, and how far the page cap, the filters and the CORS layer are effective.
\<close>

section \<open>What a request may do\<close>

fun sql_reads :: "sql \<Rightarrow> bool" where
  "sql_reads (Count_assets t) = True"
| "sql_reads (Select_assets t s h k) = True"
| "sql_reads (Select_asset i t) = True"
| "sql_reads (Select_host_names t ids) = True"
| "sql_reads (Count_policies t) = True"
| "sql_reads (Select_policies t) = True"
| "sql_reads Count_nodes = True"
| "sql_reads Select_nodes = True"
| "sql_reads (Count_alerts t) = True"
| "sql_reads (Select_alerts t l) = True"
| "sql_reads (Select_alert i t) = True"
| "sql_reads (Select_summary t) = True"
| "sql_reads _ = False"

lemma sql_reads_step:
  assumes "sql_reads q"
  shows "snd (sql_step P f now q T) = T"
proof -
  have "snd (sql_exec P now q T) = T" using assms by (cases q) auto
  then show ?thesis by (cases f) (simp_all add: sql_step_def)
qed

fun body_scoped :: "string \<Rightarrow> api_body \<Rightarrow> bool" where
  "body_scoped t (Assets_body xs) = list_all (\<lambda>a. ar_tenant_id a = t) xs"
| "body_scoped t (Asset_body a) = (ar_tenant_id a = t)"
| "body_scoped t (Policies_body xs) = list_all (\<lambda>p. pr_tenant_id p = t) xs"
| "body_scoped t (Policy_body p) = (pr_tenant_id p = t)"
| "body_scoped t (Alerts_body xs) = list_all (\<lambda>a. al_tenant_id a = t) xs"
| "body_scoped t (Alert_body a) = (al_tenant_id a = t)"
| "body_scoped t _ = True"

abbreviation scoped_prog :: "string \<Rightarrow> response db_prog \<Rightarrow> bool" where
  "scoped_prog t \<equiv> prog_all (sql_scoped t) (reply_scoped t) (\<lambda>r. body_scoped t (rs_body r))"

text \<open>Programs that use only statements with a property, whatever the replies.\<close>

abbreviation within_prog :: "(sql \<Rightarrow> bool) \<Rightarrow> 'r db_prog \<Rightarrow> bool" where
  "within_prog S \<equiv> prog_all S (\<lambda>_. True) (\<lambda>_. True)"

named_theorems db_defs \<open>the functions of the database layer as statements\<close>

lemmas [db_defs] = count_assets_def count_policies_def count_alerts_def count_nodes_def list_assets_def get_asset_def
  host_names_for_assets_def insert_asset_def update_asset_status_def db_delete_asset_def db_list_policies_def
  insert_policy_def db_list_nodes_def insert_node_def db_list_alerts_def insert_alert_def db_acknowledge_alert_def
  db_fleet_summary_def

named_theorems handler_defs \<open>the handlers\<close>

lemmas [handler_defs] = health_check_def fleet_summary_def api_list_assets_def api_get_asset_def enroll_asset_def
  verify_asset_def api_delete_asset_def api_list_policies_def create_policy_def api_list_nodes_def register_node_def
  api_list_alerts_def acknowledge_alert_def api_login_def siem_export_def metrics_handler_def

lemmas program_simps = statement_def from_reply_def db_try_def or_default_def extracted_def with_tenant_def path_id_def
  json_response_def created_def api_error_def Let_def

lemmas reply_pickers = count_of_def affected_of_def assets_of_def policies_of_def nodes_of_def alerts_of_def
  names_of_def summary_of_def

lemmas program_splits = outcome.splits sql_reply.splits option.splits sum.splits prod.splits list.splits

lemma dispatch_scoped:
  assumes "e \<noteq> E_health"
  shows "scoped_prog (cl_tenant c) (dispatch cfg cx (Some c) rq e)"
  using assms
  by (cases e) (auto simp: program_simps db_defs handler_defs reply_pickers list_all_iff enrolled_record_def
      integrity_alert_def new_policy_def dest!: in_set_takeD in_set_dropD split: program_splits)

text \<open>Without claims only the counts of the health check are read.\<close>

lemma dispatch_public:
  assumes "e \<in> {E_health, E_metrics, E_openapi, E_login}"
  shows "prog_all sql_reads (\<lambda>_. True) (\<lambda>r. \<forall>t. body_scoped t (rs_body r)) (dispatch cfg cx c rq e)"
  using assms by (auto simp: program_simps db_defs handler_defs reply_pickers split: program_splits)

lemma resource_open:
  assumes "(m, e) \<in> set (resource path)"
  shows "path = ''/health'' \<longleftrightarrow> e = E_health" "path = ''/metrics'' \<longleftrightarrow> e = E_metrics"
    "path = ''/openapi.json'' \<longleftrightarrow> e = E_openapi" "path = ''/v1/auth/login'' \<longleftrightarrow> e = E_login"
  using assms by (auto simp: resource_def split: if_splits list.splits)

lemma inner_service_cases:
  obtains (refused) st where "inner_service cfg cx c rq = Ret \<lparr>rs_status = st, rs_body = No_body\<rparr>"
  | (handled) m e where "(m, e) \<in> set (resource (rq_path rq))" "m = (if rq_method rq = HEAD then GET else rq_method rq)"
      "inner_service cfg cx c rq = dispatch cfg cx c rq e"
proof -
  define m where "m = (if rq_method rq = HEAD then GET else rq_method rq)"
  have "(\<exists>st. inner_service cfg cx c rq = Ret \<lparr>rs_status = st, rs_body = No_body\<rparr>)
     \<or> (\<exists>e. map_of (resource (rq_path rq)) m = Some e \<and> inner_service cfg cx c rq = dispatch cfg cx c rq e)"
    unfolding inner_service_def m_def [symmetric] by (auto simp: Let_def split: option.split)
  then consider st where "inner_service cfg cx c rq = Ret \<lparr>rs_status = st, rs_body = No_body\<rparr>"
    | e where "map_of (resource (rq_path rq)) m = Some e" "inner_service cfg cx c rq = dispatch cfg cx c rq e" by blast
  then show thesis
  proof cases
    case 2
    then show ?thesis by (rule handled [OF map_of_SomeD m_def])
  qed (rule refused)
qed

text \<open>The guard lets a request through with the claims of its token, or without claims to one of four paths.\<close>

definition open_path :: "string \<Rightarrow> bool" where
  "open_path path \<longleftrightarrow> path \<in> {''/health'', ''/metrics'', ''/openapi.json'', ''/v1/auth/login''}"

lemma guard_pass:
  assumes "guard_middleware cfg hash cx rq rl = (Pass c, rl')"
  shows "case c of None \<Rightarrow> open_path (rq_path rq)
    | Some c \<Rightarrow> \<not> open_path (rq_path rq) \<and> authorize (cl_role c) (rq_method rq) (rq_path rq)
        \<and> (\<exists>h. rq_authorization rq = Some h \<and> h \<noteq> []
             \<and> verify_jwt (cfg_auth cfg) (jwt_secret (cfg_env cfg) (cfg_fallback_key cfg)) (cx_unix cx) h = Ok c)"
  using assms
  by (auto simp: guard_middleware_def Let_def open_path_def split: if_splits prod.splits outcome.splits option.splits)

lemma guard_reject:
  assumes "guard_middleware cfg hash cx rq rl = (Reject r, rl')"
  shows "\<exists>msg. r = api_error (rs_status r) msg \<and> rs_status r \<in> {401, 403, 429}"
  using assms
  by (auto simp: guard_middleware_def Let_def api_error_def split: if_splits prod.splits outcome.splits option.splits)

definition entry_ok :: "claims option \<times> response db_prog \<Rightarrow> bool" where
  "entry_ok x \<longleftrightarrow>
     (case x of
        (Some c, prog) \<Rightarrow> scoped_prog (cl_tenant c) prog
      | (None, prog) \<Rightarrow> prog_all sql_reads (\<lambda>_. True) (\<lambda>r. \<forall>t. body_scoped t (rs_body r)) prog)"

lemma accept_request_ok:
  assumes "accept_request cfg hash cx rq rl = (c, prog, rl')"
  shows "entry_ok (c, prog)"
proof (cases "guard_middleware cfg hash cx rq rl")
  case (Pair v rl1)
  show ?thesis
  proof (cases v)
    case (Pass d)
    then have d: "d = c" "prog = inner_service cfg cx c rq" using assms Pair by (auto simp: accept_request_def)
    note g = guard_pass [OF Pair [unfolded Pass d(1)]]
    show ?thesis
    proof (cases rule: inner_service_cases [of cfg cx c rq])
      case (refused st)
      then show ?thesis unfolding entry_ok_def d(2) by (cases c) auto
    next
      case (handled m e)
      note r = resource_open [OF handled(1)]
      show ?thesis
      proof (cases c)
        case None
        then have "e \<in> {E_health, E_metrics, E_openapi, E_login}" using g r by (auto simp: open_path_def)
        from dispatch_public [OF this] show ?thesis unfolding entry_ok_def d(2) handled(3) using None by simp
      next
        case (Some a)
        then have "e \<noteq> E_health" using g r by (auto simp: open_path_def)
        from dispatch_scoped [OF this] show ?thesis unfolding entry_ok_def d(2) handled(3) using Some by simp
      qed
    qed
  next
    case (Reject r)
    then have "c = None" "prog = Ret r" using assms Pair by (simp_all add: accept_request_def)
    moreover obtain msg where "rs_body r = Error_body msg (rs_status r)"
      using guard_reject [OF Pair [unfolded Reject]] by (metis api_error_def response.select_convs(2))
    ultimately show ?thesis by (simp add: entry_ok_def)
  qed
qed

section \<open>Tenants are isolated\<close>

text \<open>The tenants under which the authenticated requests among some events run.\<close>

definition acting_tenant :: "api_config \<Rightarrow> ('ip \<Rightarrow> nat) \<Rightarrow> 'ip api_server \<Rightarrow> 'ip server_event \<Rightarrow> string option" where
  "acting_tenant cfg hash s ev =
     (case ev of
        Arrival cx rq \<Rightarrow> map_option cl_tenant (fst (accept_request cfg hash cx rq (sv_limiter s)))
      | Progress _ _ _ \<Rightarrow> None)"

definition pool_tenants :: "'ip api_server \<Rightarrow> string set" where
  "pool_tenants s = {cl_tenant c | c prog. (Some c, prog) \<in> set (sv_pool s)}"

definition pool_ok :: "'ip api_server \<Rightarrow> bool" where
  "pool_ok s \<longleftrightarrow> list_all entry_ok (sv_pool s)"

lemma server_step_pool:
  assumes "postgres_ok P" and "server_step cfg P hash s ev s'" and "pool_ok s"
  shows "pool_ok s'"
  using assms(2)
proof (cases rule: server_step.cases)
  case (arrive cx rq c prog rl)
  then show ?thesis using assms(3) accept_request_ok [OF arrive(3)] by (simp add: pool_ok_def)
next
  case (progress i c q k f now rep T)
  have e: "entry_ok (c, Sql q k)" using assms(3) progress by (metis pool_ok_def list_all_length)
  have r: "rep = fst (sql_step P f now q (sv_tables s))" using progress by simp
  have "entry_ok (c, k rep)"
  proof (cases c)
    case None
    then show ?thesis using e by (simp add: entry_ok_def)
  next
    case (Some a)
    then have "reply_scoped (cl_tenant a) rep"
      using e unfolding r by (intro sql_step_reply_scoped [OF assms(1)]) (simp add: entry_ok_def)
    then show ?thesis using e Some by (simp add: entry_ok_def)
  qed
  then show ?thesis using assms(3) progress by (auto simp: pool_ok_def list_all_length nth_list_update)
qed

lemma server_step_tenants:
  assumes "server_step cfg P hash s ev s'"
  shows "pool_tenants s' \<subseteq> pool_tenants s \<union> set_option (acting_tenant cfg hash s ev)"
  using assms
proof (cases rule: server_step.cases)
  case (arrive cx rq c prog rl)
  then show ?thesis by (auto simp: pool_tenants_def acting_tenant_def)
next
  case (progress i c q k f now rep T)
  have m: "(c, Sql q k) \<in> set (sv_pool s)" using progress(3, 4) by (metis nth_mem)
  have "\<exists>p'. (Some d, p') \<in> set (sv_pool s)" if "(Some d, p) \<in> set ((sv_pool s)[i := (c, k rep)])" for d p
  proof -
    have "(Some d, p) = (c, k rep) \<or> (Some d, p) \<in> set (sv_pool s)"
      using that set_update_subset_insert [of "sv_pool s" i "(c, k rep)"] by blast
    then show ?thesis using m by blast
  qed
  then show ?thesis using progress by (auto simp: pool_tenants_def)
qed

lemma server_step_view:
  assumes "server_step cfg P hash s ev s'" and "pool_ok s" and "t \<notin> pool_tenants s"
  shows "tenant_view t (sv_tables s') = tenant_view t (sv_tables s)"
  using assms(1)
proof (cases rule: server_step.cases)
  case (progress i c q k f now rep T)
  have e: "entry_ok (c, Sql q k)" using assms(2) progress by (metis pool_ok_def list_all_length)
  have T: "T = snd (sql_step P f now q (sv_tables s))" using progress by simp
  show ?thesis
  proof (cases c)
    case None
    then have "sql_reads q" using e by (simp add: entry_ok_def)
    then show ?thesis using progress(2) T by (simp add: sql_reads_step)
  next
    case (Some a)
    then have "sql_scoped (cl_tenant a) q" using e by (simp add: entry_ok_def)
    moreover have "cl_tenant a \<noteq> t" using assms(3) Some progress(3, 4) by (auto simp: pool_tenants_def dest: nth_mem)
    ultimately show ?thesis using progress(2) T by (simp add: sql_step_other_tenant)
  qed
qed simp

text \<open>The tenant that the token of an arriving request stands for, if it is accepted.\<close>

definition token_tenant :: "api_config \<Rightarrow> 'ip server_event \<Rightarrow> string option" where
  "token_tenant cfg ev =
     (case ev of
        Arrival cx rq \<Rightarrow>
          (case rq_authorization rq of
             Some h \<Rightarrow>
               (case verify_jwt (cfg_auth cfg) (jwt_secret (cfg_env cfg) (cfg_fallback_key cfg)) (cx_unix cx) h of
                  Ok c \<Rightarrow> Some (cl_tenant c) | _ \<Rightarrow> None)
           | None \<Rightarrow> None)
      | Progress _ _ _ \<Rightarrow> None)"

lemma accept_request_claims:
  assumes "accept_request cfg hash cx rq rl = (Some c, prog, rl')"
  shows "\<not> open_path (rq_path rq)" "authorize (cl_role c) (rq_method rq) (rq_path rq)"
    "\<exists>h. rq_authorization rq = Some h \<and>
       verify_jwt (cfg_auth cfg) (jwt_secret (cfg_env cfg) (cfg_fallback_key cfg)) (cx_unix cx) h = Ok c"
    "prog = inner_service cfg cx (Some c) rq"
proof -
  have "guard_middleware cfg hash cx rq rl = (Pass (Some c), rl') \<and> prog = inner_service cfg cx (Some c) rq"
    using assms by (auto simp: accept_request_def split: prod.splits guard_verdict.splits)
  then show "\<not> open_path (rq_path rq)" "authorize (cl_role c) (rq_method rq) (rq_path rq)"
    "\<exists>h. rq_authorization rq = Some h \<and>
       verify_jwt (cfg_auth cfg) (jwt_secret (cfg_env cfg) (cfg_fallback_key cfg)) (cx_unix cx) h = Ok c"
    "prog = inner_service cfg cx (Some c) rq"
    using guard_pass [of cfg hash cx rq rl "Some c" rl'] by auto
qed

lemma acting_tenant_token: "set_option (acting_tenant cfg hash s ev) \<subseteq> set_option (token_tenant cfg ev)"
proof (cases ev)
  case (Arrival cx rq)
  obtain c prog rl where a: "accept_request cfg hash cx rq (sv_limiter s) = (c, prog, rl)" by (metis prod_cases3)
  then show ?thesis
    using Arrival accept_request_claims(3) by (cases c) (fastforce simp: acting_tenant_def token_tenant_def)+
qed (simp add: acting_tenant_def)

lemma server_run_invariant:
  assumes "server_run cfg P hash s evs s'" and "postgres_ok P" and "sv_pool s = []"
    and "list_all (\<lambda>ev. token_tenant cfg ev \<noteq> Some t) evs"
  shows "pool_ok s' \<and> t \<notin> pool_tenants s' \<and> tenant_view t (sv_tables s') = tenant_view t (sv_tables s)"
  using assms
proof (induction rule: server_run.induct)
  case (run_nil s)
  then show ?case by (simp add: pool_ok_def pool_tenants_def)
next
  case (run_snoc s evs s' ev s'')
  then have ih: "pool_ok s'" "t \<notin> pool_tenants s'" "tenant_view t (sv_tables s') = tenant_view t (sv_tables s)"
    by simp_all
  have "token_tenant cfg ev \<noteq> Some t" using run_snoc.prems(3) by simp
  then have "t \<notin> pool_tenants s''"
    using ih(2) server_step_tenants [OF run_snoc.hyps(2)] acting_tenant_token [of cfg hash s' ev] by (cases "token_tenant cfg ev") auto
  then show ?case
    using ih server_step_pool [OF run_snoc.prems(1) run_snoc.hyps(2) ih(1)] server_step_view [OF run_snoc.hyps(2) ih(1, 2)] by simp
qed


section \<open>Roles\<close>

fun sql_admin_only :: "sql \<Rightarrow> bool" where
  "sql_admin_only (Delete_asset i t) = True"
| "sql_admin_only (Insert_policy p) = True"
| "sql_admin_only Create_tables = True"
| "sql_admin_only (Seed_asset i name kind host st) = True"
| "sql_admin_only Seed_policy = True"
| "sql_admin_only _ = False"

lemma dispatch_get_reads:
  assumes "(GET, e) \<in> set (resource path)"
  shows "within_prog sql_reads (dispatch cfg cx c rq e)"
proof -
  have "e \<in> {E_health, E_metrics, E_openapi, E_fleet_summary, E_list_assets, E_list_policies, E_list_nodes,
      E_list_alerts, E_siem_export} \<or> (\<exists>i. e = E_get_asset i)"
    using assms by (auto simp: resource_def split: if_splits list.splits)
  then show ?thesis
    by (auto simp: program_simps db_defs handler_defs reply_pickers split: program_splits)
qed

lemma dispatch_not_admin:
  assumes "e \<noteq> E_create_policy" and "\<And>i. e \<noteq> E_delete_asset i"
  shows "within_prog (\<lambda>q. \<not> sql_admin_only q) (dispatch cfg cx c rq e)"
  using assms
  by (cases e) (auto simp: program_simps db_defs handler_defs reply_pickers split: program_splits)

text \<open>
  C19. Roles. A request that the guard accepts with claims is not for one of the four open paths, presents a token that
  verifies, and has the role admin, operator or readonly. With the last its program only reads, with operator it never
  deletes an asset or creates a policy, whatever the database replies. A request without claims is rejected or for an
  open path, and its program only reads.
\<close>

theorem roles_limit_statements:
  assumes "accept_request cfg hash cx rq rl = (c, prog, rl')"
  shows "case c of
      Some c \<Rightarrow>
        \<not> open_path (rq_path rq) \<and> cl_role c \<in> {''admin'', ''operator'', ''readonly''}
        \<and> (\<exists>h. rq_authorization rq = Some h \<and>
             verify_jwt (cfg_auth cfg) (jwt_secret (cfg_env cfg) (cfg_fallback_key cfg)) (cx_unix cx) h = Ok c)
        \<and> (cl_role c = ''readonly'' \<longrightarrow> within_prog sql_reads prog)
        \<and> (cl_role c = ''operator'' \<longrightarrow> within_prog (\<lambda>q. \<not> sql_admin_only q) prog)
    | None \<Rightarrow>
        (open_path (rq_path rq) \<or> (\<exists>msg st. prog = Ret (api_error st msg) \<and> st \<in> {401, 403, 429}))
        \<and> within_prog sql_reads prog"
proof (cases c)
  case None
  have "within_prog sql_reads prog"
    using accept_request_ok [OF assms] None by (auto simp: entry_ok_def elim: prog_all_mono)
  moreover have "open_path (rq_path rq) \<or> (\<exists>msg st. prog = Ret (api_error st msg) \<and> st \<in> {401, 403, 429})"
    using assms None guard_pass [of cfg hash cx rq rl None] guard_reject [of cfg hash cx rq rl]
    by (fastforce simp: accept_request_def split: prod.splits guard_verdict.splits)
  ultimately show ?thesis using None by simp
next
  case (Some d)
  note a = accept_request_claims [OF assms [unfolded Some]]
  have "within_prog S prog" if "\<And>m e. (m, e) \<in> set (resource (rq_path rq)) \<Longrightarrow> m = (if rq_method rq = HEAD then GET else rq_method rq)
      \<Longrightarrow> within_prog S (dispatch cfg cx (Some d) rq e)" for S
    unfolding a(4) using that by (cases rule: inner_service_cases [of cfg cx "Some d" rq]) auto
  note w = this
  have "within_prog sql_reads prog" if "cl_role d = ''readonly''"
  proof (rule w)
    fix m e
    assume m: "(m, e) \<in> set (resource (rq_path rq))" "m = (if rq_method rq = HEAD then GET else rq_method rq)"
    have "rq_method rq = GET" using a(2) that by (simp add: authorize_def)
    then show "within_prog sql_reads (dispatch cfg cx (Some d) rq e)" using m dispatch_get_reads by simp
  qed
  moreover have "within_prog (\<lambda>q. \<not> sql_admin_only q) prog" if "cl_role d = ''operator''"
  proof (rule w)
    fix m e
    assume m: "(m, e) \<in> set (resource (rq_path rq))" "m = (if rq_method rq = HEAD then GET else rq_method rq)"
    have o: "rq_method rq \<noteq> DELETE" "rq_path rq = ''/v1/policies'' \<Longrightarrow> rq_method rq \<noteq> POST"
      using a(2) that by (auto simp: authorize_def)
    have "m \<noteq> DELETE" using m(2) o(1) by simp
    then have "e \<noteq> E_delete_asset i" for i using m(1) by (auto simp: resource_def split: if_splits list.splits)
    moreover have "e \<noteq> E_create_policy"
      using m o(2) by (auto simp: resource_def split: if_splits list.splits)
    ultimately show "within_prog (\<lambda>q. \<not> sql_admin_only q) (dispatch cfg cx (Some d) rq e)" by (intro dispatch_not_admin)
  qed
  moreover have "cl_role d \<in> {''admin'', ''operator'', ''readonly''}" using a(2) by (auto simp: authorize_def split: if_splits)
  ultimately show ?thesis using a(1, 3) Some by simp
qed

section \<open>What the handlers do\<close>

lemma unique_row:
  assumes "keys_ok T" and "a \<in> set (t_assets T)" and "ar_asset_id a = i" and "ar_tenant_id a = t"
  shows "filter (\<lambda>b. ar_asset_id b = i \<and> ar_tenant_id b = t) (t_assets T) = [a]"
proof -
  have "filter (\<lambda>b. ar_asset_id b = i \<and> ar_tenant_id b = t) xs = [a]"
    if "distinct (map ar_asset_id xs)" "a \<in> set xs" for xs
    using that
  proof (induction xs)
    case (Cons x xs)
    show ?case
    proof (cases "x = a")
      case True
      then have "\<forall>b \<in> set xs. ar_asset_id b \<noteq> i" using Cons.prems(1) assms(3) by (auto simp: image_iff)
      then show ?thesis using True assms(3, 4) by (simp add: filter_empty_conv)
    next
      case False
      then have "a \<in> set xs" using Cons.prems(2) by simp
      then show ?thesis using Cons assms(3) by auto
    qed
  qed simp
  then show ?thesis using assms(1, 2) by (simp add: keys_ok_def)
qed

text \<open>
  C25. Verification verdict. For an asset of the tenant and a provided hash, an undisturbed verification marks the asset
  healthy if the hash is the stored one and otherwise tampered, and then appends exactly one open critical alert; no
  other row changes. However statements fail, an answer that calls the asset healthy means that the hashes agree.
\<close>

theorem asset_verdict_exact:
  assumes "keys_ok T" and "a \<in> set (t_assets T)" and "ar_asset_id a = i" and "ar_tenant_id a = t"
    and "body ''integrity_hash'' = Some h" and "h \<noteq> []" and "cx_uuid cx \<notin> al_alert_id ` set (t_alerts T)"
  defines "st \<equiv> if ar_integrity_hash a = Some h then ''healthy'' else ''tampered''"
  shows "run_prog P (verify_asset cx t i body) [] T =
      (json_response (Asset_body (a\<lparr>ar_last_verified := cx_clock cx 0, ar_status := st\<rparr>)),
       T\<lparr>t_assets := map (\<lambda>b. if ar_asset_id b = i \<and> ar_tenant_id b = t
            then b\<lparr>ar_status := st, ar_last_verified := stored_time P (cx_clock cx 0)\<rparr> else b) (t_assets T),
         t_alerts := t_alerts T @ (if ar_integrity_hash a = Some h then []
            else [(integrity_alert cx t i a)\<lparr>al_timestamp := stored_time P (cx_clock cx 1)\<rparr>])\<rparr>)
    \<and> (\<forall>fs r T' b. run_prog P (verify_asset cx t i body) fs T = (r, T') \<longrightarrow> rs_body r = Asset_body b
         \<longrightarrow> ar_status b = ''healthy'' \<longrightarrow> ar_integrity_hash a = Some h)"
proof (intro conjI allI impI)
  note u = unique_row [OF assms(1-4)]
  show "run_prog P (verify_asset cx t i body) [] T =
      (json_response (Asset_body (a\<lparr>ar_last_verified := cx_clock cx 0, ar_status := st\<rparr>)),
       T\<lparr>t_assets := map (\<lambda>b. if ar_asset_id b = i \<and> ar_tenant_id b = t
            then b\<lparr>ar_status := st, ar_last_verified := stored_time P (cx_clock cx 0)\<rparr> else b) (t_assets T),
         t_alerts := t_alerts T @ (if ar_integrity_hash a = Some h then []
            else [(integrity_alert cx t i a)\<lparr>al_timestamp := stored_time P (cx_clock cx 1)\<rparr>])\<rparr>)"
    using assms(5-7) u
    by (simp add: verify_asset_def get_asset_def update_asset_status_def insert_alert_def program_simps reply_pickers
        sql_step_def next_fate_def st_def integrity_alert_def)
next
  fix fs r T' b
  assume "run_prog P (verify_asset cx t i body) fs T = (r, T')" "rs_body r = Asset_body b" "ar_status b = ''healthy''"
  then show "ar_integrity_hash a = Some h"
    using assms(5, 6) unique_row [OF assms(1-4)]
    by (auto simp: verify_asset_def get_asset_def update_asset_status_def insert_alert_def program_simps reply_pickers
        sql_step_def split: if_splits fate.splits program_splits)
qed

text \<open>
  Listing assets: the page is cut from the rows of the tenant that match the filters, newest first. The cap of 1000
  rows holds for limits that are not negative; a negative limit wraps around and returns all rows from the offset on.
  A filter on the kind alone, and each pair of filters but status and host, is ignored.
\<close>

definition matching_rows :: "postgres \<Rightarrow> tables \<Rightarrow> string \<Rightarrow> pagination_params \<Rightarrow> asset_record list" where
  "matching_rows P T t p =
     (case select_filters (pp_status p) (pp_host p) (pp_kind p) of (s, h, k) \<Rightarrow>
        sort_key (\<lambda>a. - ar_last_verified a) (asset_order P
          (filter (\<lambda>a. ar_tenant_id a = t \<and> matches s (ar_status a) \<and> matches h (ar_host_name a)
             \<and> matches k (ar_asset_kind a)) (t_assets T))))"

lemma api_list_assets_run:
  "run_prog P (api_list_assets t p) [] T =
     (json_response (Assets_body (take (as_usize (min (case pp_limit p of Some l \<Rightarrow> l | None \<Rightarrow> 100) 1000))
        (drop (as_usize (case pp_offset p of Some off \<Rightarrow> off | None \<Rightarrow> 0)) (matching_rows P T t p)))), T)"
  by (simp add: api_list_assets_def list_assets_def program_simps reply_pickers sql_step_def next_fate_def matching_rows_def
      split: prod.splits)

lemma as_usize_nonneg: "0 \<le> i \<Longrightarrow> i < 2 ^ 63 \<Longrightarrow> as_usize i = nat i"
  by (simp add: as_usize_def)

lemma as_usize_negative:
  assumes "i < 0" and "- (2 ^ 63) \<le> i"
  shows "2 ^ 63 \<le> as_usize i"
proof -
  have "i mod 2 ^ 64 = (i + 2 ^ 64) mod 2 ^ 64" by simp
  also have "\<dots> = i + 2 ^ 64" using assms by (intro mod_pos_pos_trivial) simp_all
  finally show ?thesis using assms by (simp add: as_usize_def le_nat_iff)
qed

lemma asset_page_cap:
  assumes "pp_limit p = Some l" and "0 \<le> l" and "l < 2 ^ 63"
    and "run_prog P (api_list_assets t p) [] T = (r, T')" and "rs_body r = Assets_body xs"
  shows "length xs \<le> 1000"
  using assms as_usize_nonneg [of "min l 1000"] by (auto simp: api_list_assets_run json_response_def)

lemma negative_limit_lifts_cap:
  assumes "pp_limit p = Some l" and "l < 0" and "- (2 ^ 63) \<le> l" and "pp_offset p = None"
    and "length (matching_rows P T t p) < 2 ^ 63"
  shows "run_prog P (api_list_assets t p) [] T = (json_response (Assets_body (matching_rows P T t p)), T)"
proof -
  have "2 ^ 63 \<le> as_usize (min l 1000)" using as_usize_negative [of l] assms(2, 3) by (simp add: min_def)
  then have "length (matching_rows P T t p) \<le> as_usize (min l 1000)" using assms(5) by linarith
  then show ?thesis using assms(1, 4) by (simp add: api_list_assets_run as_usize_def)
qed

lemma kind_filter_ignored:
  assumes "pp_status p = None" and "pp_host p = None"
  shows "matching_rows P T t p = matching_rows P T t (p\<lparr>pp_kind := None\<rparr>)"
  using assms by (simp add: matching_rows_def select_filters_def split: option.split)

text \<open>Preflight requests carry no authorization and are refused before the CORS layer sees them.\<close>

lemma preflight_refused:
  assumes "rq_method rq = OPTIONS" and "rq_authorization rq = None" and "\<not> open_path (rq_path rq)"
  shows "\<exists>st msg rl'. accept_request cfg hash cx rq rl = (None, Ret (api_error st msg), rl') \<and> st \<in> {401, 429}"
  using assms by (auto simp: accept_request_def guard_middleware_def open_path_def Let_def split: prod.splits)

text \<open>The key of an asset is global: enrolling an identifier that another tenant uses is a conflict.\<close>

lemma enroll_conflict_across_tenants:
  assumes "sanitize (en_asset_id req) \<in> ar_asset_id ` set (t_assets T)"
  shows "run_prog P (enroll_asset cfg cx t req) [] T = (api_error 409 (cfg_error_text cfg Unique_violation), T)"
  using assms by (simp add: enroll_asset_def insert_asset_def program_simps reply_pickers sql_step_def next_fate_def
      enrolled_record_def)

section \<open>A concrete server\<close>

definition toy_postgres :: postgres where
  "toy_postgres = \<lparr>asset_order = id, policy_order = id, node_order = id, alert_order = id, stored_time = id,
     error_text = (\<lambda>_. ''error'')\<rparr>"

definition toy_config :: api_config where
  "toy_config =
     \<lparr>cfg_env = (\<lambda>_. None), cfg_fallback_key = [7], cfg_auth = toy_auth,
      cfg_siem = \<lparr>json_text = (\<lambda>_. []), to_rfc3339 = (\<lambda>_. []), syslog_time = (\<lambda>_. [])\<rparr>,
      cfg_extract = \<lparr>ex_path = Inr, ex_page = (\<lambda>_. Inl 400), ex_siem = (\<lambda>_. Inl 400), ex_login = (\<lambda>_. Inl 400),
        ex_enroll = (\<lambda>_. Inl 400), ex_map = (\<lambda>_. Inl 400)\<rparr>,
      cfg_error_text = (\<lambda>_. ''error''), cfg_start_time = 0, cfg_version = ''1.0.0''\<rparr>"

definition toy_context :: call_context where
  "toy_context = \<lparr>cx_clock = (\<lambda>_. 5), cx_unix = Some 1000, cx_instant = 0, cx_uuid = ''u''\<rparr>"

definition toy_asset :: asset_record where
  "toy_asset =
     \<lparr>ar_asset_id = ''x'', ar_display_name = ''X'', ar_asset_kind = ''kernel'', ar_host_name = ''h'', ar_status = ''pending'',
      ar_integrity_hash = Some ''ab'', ar_last_verified = 0, ar_enrolled_at = 0, ar_policy_id = None,
      ar_tenant_id = ''globex''\<rparr>"

definition toy_tables :: tables where
  "toy_tables = no_tables\<lparr>t_assets := [toy_asset]\<rparr>"

definition toy_server :: "nat api_server" where
  "toy_server = \<lparr>sv_tables = toy_tables, sv_limiter = rate_limiter_new 1 1, sv_pool = []\<rparr>"

definition toy_delete :: "string \<Rightarrow> nat http_request" where
  "toy_delete tok = \<lparr>rq_method = DELETE, rq_path = ''/v1/assets/x'', rq_query = [],
     rq_authorization = Some (''Bearer '' @ tok), rq_body = [], rq_peer = 9\<rparr>"

lemma toy_postgres_ok: "postgres_ok toy_postgres"
  by (simp add: postgres_ok_def toy_postgres_def)

lemma toy_first_request: "fst (rate_check hash 0 ip (rate_limiter_new 1 1))"
proof -
  have "f64_round 1 = 1" using f64_round_of_nat [of 1] by simp
  then have "fst (try_consume 0 (token_bucket_new 0 1 1))"
    by (simp add: token_bucket_new_def try_consume_def as_secs_f64_def f64_add_def f64_mul_def f64_div_def)
  moreover have "bucket_of hash (rate_limiter_new 1 1) ip = None"
    by (simp add: bucket_of_def shard_index_def rate_limiter_new_def SHARD_COUNT_def)
  ultimately show ?thesis by (simp add: rate_check_answer rate_limiter_new_def)
qed

lemma toy_delete_accepted:
  obtains tok c rl where "accept_request toy_config (\<lambda>_. 0) toy_context (toy_delete tok) (rate_limiter_new 1 1) =
      (Some c, api_delete_asset ''acme'' ''x'', rl)"
    "cl_tenant c = ''acme''" "cl_role c = ''admin''"
    "token_tenant toy_config (Arrival toy_context (toy_delete tok)) = Some ''acme''"
proof -
  obtain tok where t: "issue_token toy_auth [7] (Some 1000) ''root'' ''admin'' ''acme'' = Ok tok"
    by (simp add: issue_token_def Let_def TOKEN_EXPIRY_SECS_def)
  have v: "verify_jwt toy_auth [7] (Some 1000) (''Bearer '' @ tok) = Ok (issued_claims ''root'' ''admin'' ''acme'' 1000)"
    using issued_token_verifies [OF toy_auth_ok t, of 1000] by (simp add: TOKEN_EXPIRY_SECS_def)
  have cfg: "jwt_secret (cfg_env toy_config) (cfg_fallback_key toy_config) = [7]" "cfg_auth toy_config = toy_auth"
    by (simp_all add: toy_config_def jwt_secret_def)
  obtain rl where r: "rate_check (\<lambda>_. 0) 0 (9 :: nat) (rate_limiter_new 1 1) = (True, rl)"
    using toy_first_request [of "\<lambda>_. 0" "9 :: nat"] by (metis prod.collapse)
  have g: "guard_middleware toy_config (\<lambda>_. 0) toy_context (toy_delete tok) (rate_limiter_new 1 1) =
      (Pass (Some (issued_claims ''root'' ''admin'' ''acme'' 1000)), rl)"
    using v r by (simp add: guard_middleware_def toy_delete_def toy_context_def cfg authorize_def issued_claims_def)
  show thesis
  proof (rule that [of tok "issued_claims ''root'' ''admin'' ''acme'' 1000" rl])
    show "accept_request toy_config (\<lambda>_. 0) toy_context (toy_delete tok) (rate_limiter_new 1 1) =
        (Some (issued_claims ''root'' ''admin'' ''acme'' 1000), api_delete_asset ''acme'' ''x'', rl)"
      using g by (simp add: accept_request_def inner_service_def toy_delete_def BODY_LIMIT_def resource_def with_tenant_def
          path_id_def extracted_def toy_config_def issued_claims_def)
    show "token_tenant toy_config (Arrival toy_context (toy_delete tok)) = Some ''acme''"
      using v by (simp add: token_tenant_def toy_delete_def toy_context_def cfg issued_claims_def)
  qed (simp_all add: issued_claims_def)
qed


theorem roles_limit_statements_witness:
  "\<exists>tok c rl. accept_request toy_config (\<lambda>_. 0) toy_context (toy_delete tok) (rate_limiter_new 1 1) =
       (Some c, api_delete_asset ''acme'' ''x'', rl) \<and> cl_role c \<in> {''admin'', ''operator'', ''readonly''} \<and> cl_role c = ''admin''"
proof -
  obtain tok c rl where "accept_request toy_config (\<lambda>_. 0) toy_context (toy_delete tok) (rate_limiter_new 1 1) =
      (Some c, api_delete_asset ''acme'' ''x'', rl)" "cl_role c = ''admin''"
    using toy_delete_accepted by metis
  with roles_limit_statements [OF this(1)] show ?thesis by auto
qed

theorem asset_verdict_exact_witness:
  "fst (run_prog toy_postgres (verify_asset toy_context ''globex'' ''x'' [''integrity_hash'' \<mapsto> ''ff'']) [] toy_tables) =
     json_response (Asset_body (toy_asset\<lparr>ar_last_verified := 5, ar_status := ''tampered''\<rparr>))"
proof -
  have "keys_ok toy_tables" "toy_asset \<in> set (t_assets toy_tables)" "ar_asset_id toy_asset = ''x''"
    "ar_tenant_id toy_asset = ''globex''" "cx_uuid toy_context \<notin> al_alert_id ` set (t_alerts toy_tables)"
    by (simp_all add: keys_ok_def toy_tables_def no_tables_def toy_asset_def)
  from asset_verdict_exact [OF this(1-4) _ _ this(5), of "[''integrity_hash'' \<mapsto> ''ff'']" "''ff''" toy_postgres]
  show ?thesis by (simp add: toy_context_def toy_asset_def)
qed

end
