(* ===== verification/Api_Openapi.thy ===== *)
theory Api_Openapi
  imports Api_Server
begin

text \<open>
  The interface that the server publishes (\<^verbatim>\<open>dfim_management_api/src/openapi.rs\<close>) against the routes it has: the operations of the
  document with their methods and answers, and the security scheme it names. The texts of the document are left out.
\<close>

section \<open>The document\<close>

record api_operation =
  op_path :: string
  op_method :: http_method
  op_responses :: "nat list"

definition operation :: "string \<Rightarrow> http_method \<Rightarrow> nat list \<Rightarrow> api_operation" where
  "operation path meth responses = \<lparr>op_path = path, op_method = meth, op_responses = responses\<rparr>"

definition openapi_spec :: "api_operation list" where
  "openapi_spec =
     [operation ''/health'' GET [200],
      operation ''/v1/fleet/summary'' GET [200],
      operation ''/v1/assets'' GET [200],
      operation ''/v1/assets/enroll'' POST [201, 409],
      operation ''/v1/assets/{asset_id}'' GET [200],
      operation ''/v1/assets/{asset_id}'' DELETE [200],
      operation ''/v1/assets/{asset_id}/verify'' PUT [200],
      operation ''/v1/policies'' GET [200],
      operation ''/v1/policies'' POST [201],
      operation ''/v1/policies/{policy_id}'' GET [200],
      operation ''/v1/nodes'' GET [200],
      operation ''/v1/nodes/register'' POST [201],
      operation ''/v1/alerts'' GET [200],
      operation ''/v1/alerts/{alert_id}/acknowledge'' POST [200],
      operation ''/v1/siem/export'' GET [200, 400],
      operation ''/v1/telemetry'' GET [200],
      operation ''/v1/telemetry/ingest'' POST [200]]"

text \<open>The header that the document tells clients to authenticate with.\<close>

definition openapi_auth_header :: string where "openapi_auth_header = ''X-API-Key''"

section \<open>Against the routes\<close>

text \<open>A template stands for the paths that have a text for each segment in braces; its own text is one of them.\<close>

definition routed :: "api_operation \<Rightarrow> bool" where
  "routed op \<longleftrightarrow> map_of (resource (op_path op)) (op_method op) \<noteq> None"

lemma documented_without_route:
  "filter (\<lambda>op. \<not> routed op) openapi_spec =
     [operation ''/v1/policies/{policy_id}'' GET [200], operation ''/v1/telemetry'' GET [200], operation ''/v1/telemetry/ingest'' POST [200]]"
  by (simp add: openapi_spec_def routed_def operation_def resource_def)

text \<open>A request for one of these is refused or answered with 404, whatever token it carries.\<close>

lemma documented_but_not_found:
  assumes "op \<in> set (filter (\<lambda>op. \<not> routed op) openapi_spec)" and "rq_path rq = op_path op" and "rq_method rq = op_method op"
    and "length (rq_body rq) \<le> BODY_LIMIT"
  shows "inner_service cfg cx c rq = Ret \<lparr>rs_status = 404, rs_body = No_body\<rparr>"
proof -
  have "resource (op_path op) = [] \<and> op_method op \<noteq> OPTIONS"
    using assms(1) unfolding documented_without_route by (auto simp: operation_def resource_def)
  then show ?thesis using assms(2-4) by (simp add: inner_service_def)
qed

lemma routes_without_document:
  "\<forall>path \<in> {''/metrics'', ''/openapi.json'', ''/v1/auth/login''}. resource path \<noteq> [] \<and> path \<notin> op_path ` set openapi_spec"
  by (simp add: openapi_spec_def operation_def resource_def)

end
