(* ===== verification/Plugin_Policies.thy ===== *)
theory Plugin_Policies
  imports Ieee_Double Text_Format
begin

text \<open>
  The sample enforcement policies of the plugin SDK (\<^verbatim>\<open>dfim_plugin_sdk/src/lib.rs\<close>): banking, defense and telecom, with
  their risk scores in \<^verbatim>\<open>f64\<close>. The text that \<^verbatim>\<open>{:.2}\<close> gives a score is the argument \<open>fmt2\<close>.
\<close>

record policy_input =
  pi_asset_id :: string
  pi_asset_name :: string
  pi_asset_kind :: string
  pi_host_name :: string
  pi_merkle_root :: "string option"
  pi_rollback_counter :: u64
  pi_attestation_verified :: bool
  pi_fec_corrected :: u32
  pi_tampered_blocks :: u32
  pi_metadata :: "string \<rightharpoonup> string"

datatype policy_decision = Allow | Deny | AllowWithWarning | Escalate

record policy_output =
  po_decision :: policy_decision
  po_reason :: string
  po_risk_score :: rat
  po_evidence :: "string list"
  po_compliance_tags :: "string list"

text \<open>A decimal literal of two places.\<close>

definition f64_lit :: "int \<Rightarrow> rat" where
  "f64_lit cents = f64_round (of_int cents / 100)"

definition banking_risk :: "policy_input \<Rightarrow> rat" where
  "banking_risk p =
     (let r0 = 0;
          r1 = (if \<not> pi_attestation_verified p then f64_add r0 (f64_lit 40) else r0);
          r2 = (if 0 < pi_tampered_blocks p then f64_add r1 (f64_lit 50) else r1)
      in if 2 < pi_fec_corrected p then f64_add r2 (f64_lit 30) else r2)"

definition banking_evidence :: "policy_input \<Rightarrow> string list" where
  "banking_evidence p =
     (if \<not> pi_attestation_verified p then [''TPM attestation failed''] else [])
     @ (if 0 < pi_tampered_blocks p then [decimal (unat (pi_tampered_blocks p)) @ '' tampered blocks detected''] else [])
     @ (if 2 < pi_fec_corrected p
        then [decimal (unat (pi_fec_corrected p)) @ '' FEC corrections '' @ map char_of [0xE2 :: nat, 0x80, 0x94] @ '' possible attack'']
        else [])"

definition evaluate_banking_policy :: "(rat \<Rightarrow> string) \<Rightarrow> policy_input \<Rightarrow> policy_output" where
  "evaluate_banking_policy fmt2 p =
     (let risk = banking_risk p; evidence = banking_evidence p in
      if f64_lit 50 \<le> risk
      then \<lparr>po_decision = Deny, po_reason = ''PCI-DSS compliance: integrity failure (risk='' @ fmt2 risk @ '')'',
            po_risk_score = min risk 1, po_evidence = evidence, po_compliance_tags = [''PCI-DSS'', ''SOX'']\<rparr>
      else if 0 < risk
      then \<lparr>po_decision = AllowWithWarning, po_reason = ''PCI-DSS: minor anomalies, monitoring escalated'',
            po_risk_score = risk, po_evidence = evidence, po_compliance_tags = [''PCI-DSS'']\<rparr>
      else \<lparr>po_decision = Allow, po_reason = ''PCI-DSS compliant integrity verified'', po_risk_score = 0,
            po_evidence = [''all-checks-passed''], po_compliance_tags = [''PCI-DSS'']\<rparr>)"

definition evaluate_defense_policy :: "policy_input \<Rightarrow> policy_output" where
  "evaluate_defense_policy p =
     (if \<not> pi_attestation_verified p
      then \<lparr>po_decision = Deny, po_reason = ''NIST 800-53: attestation chain broken'', po_risk_score = 1,
            po_evidence = [''CRITICAL: TPM attestation chain broken''],
            po_compliance_tags = [''NIST-800-53'', ''CMMC'', ''ITAR'']\<rparr>
      else if 0 < pi_tampered_blocks p
      then \<lparr>po_decision = Deny, po_reason = ''NIST 800-53: zero-tolerance tamper detection'', po_risk_score = 1,
            po_evidence = [decimal (unat (pi_tampered_blocks p)) @ '' tampered blocks '' @ map char_of [0xE2 :: nat, 0x80, 0x94]
              @ '' possible APT''],
            po_compliance_tags = [''NIST-800-53'', ''CMMC'']\<rparr>
      else \<lparr>po_decision = Allow, po_reason = ''NIST 800-53 integrity verified'', po_risk_score = 0,
            po_evidence = [''all-cleared''], po_compliance_tags = [''NIST-800-53'', ''CMMC'', ''ITAR'']\<rparr>)"

definition telecom_score :: "nat \<Rightarrow> nat \<Rightarrow> bool \<Rightarrow> rat" where
  "telecom_score tampered_blocks fec_corrected attestation_verified =
     f64_add (f64_add (f64_mul (of_nat tampered_blocks) (f64_lit 15)) (f64_mul (of_nat fec_corrected) (f64_lit 5)))
             (if \<not> attestation_verified then f64_lit 30 else 0)"

definition evaluate_telecom_policy :: "(rat \<Rightarrow> string) \<Rightarrow> policy_input \<Rightarrow> policy_output" where
  "evaluate_telecom_policy fmt2 p =
     (let risk = telecom_score (unat (pi_tampered_blocks p)) (unat (pi_fec_corrected p)) (pi_attestation_verified p);
          decision =
            (if f64_lit 50 < risk then Deny else if f64_lit 20 < risk then Escalate
             else if f64_lit 5 < risk then AllowWithWarning else Allow)
      in \<lparr>po_decision = decision, po_reason = ''Telecom risk score: '' @ fmt2 risk, po_risk_score = min risk 1,
          po_evidence = [''block-errors='' @ decimal (unat (pi_tampered_blocks p))],
          po_compliance_tags = [''GDPR'', ''NIS2'', ''ePrivacy'']\<rparr>)"

lemma f64_lit_values:
  "f64_lit 40 = 3602879701896397 / 9007199254740992" "f64_lit 50 = 1 / 2"
  "f64_lit 30 = 5404319552844595 / 18014398509481984" "f64_lit 15 = 5404319552844595 / 36028797018963968"
  "f64_lit 5 = 3602879701896397 / 72057594037927936" "f64_lit 20 = 3602879701896397 / 18014398509481984"
  by code_simp+

lemma banking_sums:
  "f64_add 0 (f64_lit 40) = f64_lit 40" "f64_add 0 (f64_lit 50) = 1 / 2" "f64_add 0 (f64_lit 30) = f64_lit 30"
  "f64_add (f64_lit 40) (f64_lit 50) = 8106479329266893 / 9007199254740992"
  "f64_add (f64_lit 40) (f64_lit 30) = 3152519739159347 / 4503599627370496"
  "f64_add (1 / 2) (f64_lit 30) = 3602879701896397 / 4503599627370496"
  "f64_add (8106479329266893 / 9007199254740992) (f64_lit 30) = 5404319552844595 / 4503599627370496"
  by code_simp+

lemma banking_decision:
  "po_decision (evaluate_banking_policy fmt2 p) =
     (if 0 < pi_tampered_blocks p \<or> \<not> pi_attestation_verified p \<and> 2 < pi_fec_corrected p then Deny
      else if \<not> pi_attestation_verified p \<or> 2 < pi_fec_corrected p then AllowWithWarning else Allow)"
  by (simp add: evaluate_banking_policy_def banking_risk_def Let_def banking_sums) (simp add: f64_lit_values)

lemma defense_decision:
  "po_decision (evaluate_defense_policy p) =
     (if pi_attestation_verified p \<and> pi_tampered_blocks p = 0 then Allow else Deny)"
  by (simp add: evaluate_defense_policy_def word_gt_0)

text \<open>The three rounded terms of the telecom score lose at most a few units in the last place.\<close>

lemma telecom_score_ge:
  fixes n m :: nat and att :: bool
  defines "a \<equiv> of_nat n * f64_lit 15" and "b \<equiv> of_nat m * f64_lit 5" and "c \<equiv> if \<not> att then f64_lit 30 else 0"
  shows "(a + b + c) * (1 - 3 * ulp) \<le> telecom_score n m att"
proof -
  have pos: "0 \<le> a" "0 \<le> b" "0 \<le> c" by (simp_all add: a_def b_def c_def f64_lit_values)
  have u: "0 \<le> 1 - ulp" by (simp add: ulp_def)
  have ra: "a * (1 - ulp) \<le> f64_round a" "0 \<le> f64_round a" and rb: "b * (1 - ulp) \<le> f64_round b" "0 \<le> f64_round b"
    using f64_round_ge f64_round_nonneg pos by simp_all
  define d where "d = f64_round (f64_round a + f64_round b)"
  have "(a + b) * (1 - ulp) * (1 - ulp) \<le> (f64_round a + f64_round b) * (1 - ulp)"
    using ra(1) rb(1) u by (intro mult_right_mono) (simp_all add: algebra_simps)
  also have "\<dots> \<le> d" unfolding d_def using ra(2) rb(2) by (intro f64_round_ge) simp
  finally have d: "(a + b) * (1 - ulp) * (1 - ulp) \<le> d" .
  have d0: "0 \<le> d" unfolding d_def using ra(2) rb(2) by (intro f64_round_nonneg) simp
  have "(a + b) * (1 - 3 * ulp) \<le> (a + b) * ((1 - ulp) * (1 - ulp) * (1 - ulp))"
    using pos by (intro mult_left_mono) (simp_all add: ulp_def)
  moreover have "c * (1 - 3 * ulp) \<le> c * (1 - ulp)" using pos by (intro mult_left_mono) (simp_all add: ulp_def)
  ultimately have "(a + b + c) * (1 - 3 * ulp) \<le> ((a + b) * (1 - ulp) * (1 - ulp) + c) * (1 - ulp)"
    by (simp add: algebra_simps)
  also have "\<dots> \<le> (d + c) * (1 - ulp)" using d u by (intro mult_right_mono) simp_all
  also have "\<dots> \<le> f64_round (d + c)" using d0 pos(3) by (intro f64_round_ge) simp
  also have "f64_round (d + c) = telecom_score n m att"
    by (simp add: telecom_score_def f64_add_def f64_mul_def a_def b_def c_def d_def)
  finally show ?thesis .
qed

lemma telecom_score_clean: "telecom_score 0 0 True \<le> f64_lit 5" "telecom_score 0 1 True \<le> f64_lit 5"
  by code_simp+

lemma telecom_score_mono_ge:
  assumes "x \<le> of_nat n * f64_lit 15 + of_nat m * f64_lit 5 + (if \<not> att then f64_lit 30 else 0)"
    and "y < x * (1 - 3 * ulp)"
  shows "y < telecom_score n m att"
proof -
  have "0 \<le> 1 - 3 * ulp" by (simp add: ulp_def)
  then have "x * (1 - 3 * ulp) \<le>
      (of_nat n * f64_lit 15 + of_nat m * f64_lit 5 + (if \<not> att then f64_lit 30 else 0)) * (1 - 3 * ulp)"
    using assms(1) by (intro mult_right_mono)
  then show ?thesis using assms(2) telecom_score_ge [of n m att] by linarith
qed

lemma telecom_allow_iff: "telecom_score n m att \<le> f64_lit 5 \<longleftrightarrow> n = 0 \<and> m \<le> 1 \<and> att"
proof
  assume le: "telecom_score n m att \<le> f64_lit 5"
  have v: "0 \<le> f64_lit 15" "0 \<le> f64_lit 5" "0 \<le> f64_lit 30" by (simp_all add: f64_lit_values)
  have big: False if "f64_lit 5 * 2 \<le> of_nat n * f64_lit 15 + of_nat m * f64_lit 5 + (if \<not> att then f64_lit 30 else 0)"
    using telecom_score_mono_ge [OF that, of "f64_lit 5"] le by (simp add: f64_lit_values ulp_def)
  have "n = 0"
  proof (rule ccontr)
    assume "n \<noteq> 0"
    then have "1 * f64_lit 15 \<le> of_nat n * f64_lit 15" using v by (intro mult_right_mono) simp_all
    moreover have "0 \<le> of_nat m * f64_lit 5 + (if \<not> att then f64_lit 30 else 0)" using v by simp
    moreover have "f64_lit 5 * 2 \<le> f64_lit 15" by (simp add: f64_lit_values)
    ultimately show False using big by linarith
  qed
  moreover have "m \<le> 1"
  proof (rule ccontr)
    assume "\<not> m \<le> 1"
    then have "(2 :: rat) \<le> of_nat m" by (metis not_less_eq_eq of_nat_le_iff of_nat_numeral One_nat_def Suc_1)
    then have "2 * f64_lit 5 \<le> of_nat m * f64_lit 5" using v by (intro mult_right_mono) simp_all
    moreover have "0 \<le> of_nat n * f64_lit 15" "0 \<le> (if \<not> att then f64_lit 30 else 0)" using v by simp_all
    ultimately show False using big by linarith
  qed
  moreover have att
  proof (rule ccontr)
    assume "\<not> att"
    moreover have "0 \<le> of_nat n * f64_lit 15" "0 \<le> of_nat m * f64_lit 5" using v by simp_all
    moreover have "f64_lit 5 * 2 \<le> f64_lit 30" by (simp add: f64_lit_values)
    ultimately show False using big by simp
  qed
  ultimately show "n = 0 \<and> m \<le> 1 \<and> att" by blast
next
  assume "n = 0 \<and> m \<le> 1 \<and> att"
  then have "n = 0" "m = 0 \<or> m = 1" att by auto
  then show "telecom_score n m att \<le> f64_lit 5" using telecom_score_clean by auto
qed

lemma telecom_denies_tampering:
  assumes "4 \<le> n"
  shows "f64_lit 50 < telecom_score n m att"
proof (rule telecom_score_mono_ge)
  have "4 * f64_lit 15 \<le> of_nat n * f64_lit 15"
    using assms by (intro mult_right_mono) (simp_all add: f64_lit_values flip: of_nat_le_iff)
  moreover have "0 \<le> of_nat m * f64_lit 5 + (if \<not> att then f64_lit 30 else 0)" by (simp add: f64_lit_values)
  ultimately show "4 * f64_lit 15 \<le> of_nat n * f64_lit 15 + of_nat m * f64_lit 5 + (if \<not> att then f64_lit 30 else 0)" by linarith
  show "f64_lit 50 < 4 * f64_lit 15 * (1 - 3 * ulp)" by (simp add: f64_lit_values ulp_def)
qed

text \<open>
  Sample policies. The banking policy denies exactly if blocks are tampered with, or attestation failed together
  with more than two corrections; one of the latter two alone only warns. The defense policy allows exactly if
  attestation passed and no block is tampered with, and denies otherwise. The telecom policy allows without a warning
  exactly if attestation passed, no block is tampered with and at most one bit was corrected, and it denies from four
  tampered blocks on, in spite of the rounding of its score.
\<close>

theorem sample_policies_decide:
  "po_decision (evaluate_banking_policy fmt2 p) =
     (if 0 < pi_tampered_blocks p \<or> \<not> pi_attestation_verified p \<and> 2 < pi_fec_corrected p then Deny
      else if \<not> pi_attestation_verified p \<or> 2 < pi_fec_corrected p then AllowWithWarning else Allow)
   \<and> po_decision (evaluate_defense_policy p) =
     (if pi_attestation_verified p \<and> pi_tampered_blocks p = 0 then Allow else Deny)
   \<and> (po_decision (evaluate_telecom_policy fmt2 p) = Allow \<longleftrightarrow>
        pi_attestation_verified p \<and> pi_tampered_blocks p = 0 \<and> unat (pi_fec_corrected p) \<le> 1)
   \<and> (unat (pi_tampered_blocks p) < 4 \<or> po_decision (evaluate_telecom_policy fmt2 p) = Deny)"
proof -
  define r where "r = telecom_score (unat (pi_tampered_blocks p)) (unat (pi_fec_corrected p)) (pi_attestation_verified p)"
  have d: "po_decision (evaluate_telecom_policy fmt2 p) =
      (if f64_lit 50 < r then Deny else if f64_lit 20 < r then Escalate else if f64_lit 5 < r then AllowWithWarning else Allow)"
    by (simp add: evaluate_telecom_policy_def r_def Let_def)
  have "f64_lit 5 < f64_lit 20" "f64_lit 20 < f64_lit 50" by (simp_all add: f64_lit_values)
  then have "po_decision (evaluate_telecom_policy fmt2 p) = Allow \<longleftrightarrow> r \<le> f64_lit 5" unfolding d by auto
  also have "\<dots> \<longleftrightarrow> pi_attestation_verified p \<and> pi_tampered_blocks p = 0 \<and> unat (pi_fec_corrected p) \<le> 1"
    unfolding r_def telecom_allow_iff by (auto simp: unat_eq_0)
  finally have allow: "po_decision (evaluate_telecom_policy fmt2 p) = Allow \<longleftrightarrow>
      pi_attestation_verified p \<and> pi_tampered_blocks p = 0 \<and> unat (pi_fec_corrected p) \<le> 1" .
  have "unat (pi_tampered_blocks p) < 4 \<or> f64_lit 50 < r"
    using telecom_denies_tampering [of "unat (pi_tampered_blocks p)"] unfolding r_def by (metis not_less)
  then have "unat (pi_tampered_blocks p) < 4 \<or> po_decision (evaluate_telecom_policy fmt2 p) = Deny" unfolding d by auto
  then show ?thesis using banking_decision defense_decision allow by blast
qed

definition toy_input :: policy_input where
  "toy_input = \<lparr>pi_asset_id = ''sha256:x'', pi_asset_name = ''x'', pi_asset_kind = ''kernel'', pi_host_name = ''n'',
     pi_merkle_root = None, pi_rollback_counter = 1, pi_attestation_verified = False, pi_fec_corrected = 0,
     pi_tampered_blocks = 9, pi_metadata = Map.empty\<rparr>"

theorem sample_policies_decide_witness:
  "po_decision (evaluate_banking_policy (\<lambda>_. []) toy_input) = Deny \<and> po_decision (evaluate_defense_policy toy_input) = Deny
   \<and> po_decision (evaluate_telecom_policy (\<lambda>_. []) toy_input) = Deny
   \<and> po_decision (evaluate_banking_policy (\<lambda>_. []) (toy_input\<lparr>pi_tampered_blocks := 0\<rparr>)) = AllowWithWarning"
  using sample_policies_decide [of "\<lambda>_. []" toy_input]
    sample_policies_decide [of "\<lambda>_. []" "toy_input\<lparr>pi_tampered_blocks := 0\<rparr>"]
  by (simp add: toy_input_def)

end
