(* ===== verification/Plugin_Engine.thy ===== *)
theory Plugin_Engine
  imports Plugin_Policies "HOL-Library.AList"
begin

text \<open>
  The plugin engine of the SDK (\<^verbatim>\<open>dfim_plugin_sdk/src/lib.rs\<close>): registration of WebAssembly policies by the digest of
  their manifest, evaluation, and statistics.

  The runtime \<^verbatim>\<open>wasmtime\<close> and \<^verbatim>\<open>serde_json\<close> are the parameter \<open>wasm_runtime\<close>. The memory into which the engine writes
  the input is one it creates itself and never gives to the instance, which has only the memories it defines; so the
  call of a module depends on the fuel and its two arguments alone, and the memory from which the result is read holds
  what the engine wrote. The theory shows which outputs an evaluation can have, and that the books are kept.
\<close>

record plugin_manifest =
  pm_plugin_id :: string
  pm_name :: string
  pm_version :: string
  pm_author :: string
  pm_description :: string
  pm_industry :: string
  pm_compliance :: "string list"
  pm_wasm_sha256 :: string

record 'm loaded_plugin =
  lp_manifest :: plugin_manifest
  lp_module :: 'm

record plugin_stats =
  ps_evaluations :: nat
  ps_allows :: nat
  ps_denies :: nat
  ps_escalates :: nat
  ps_avg_duration_us :: rat
  ps_errors :: nat

record 'm plugin_engine =
  pe_registry :: "(string \<times> 'm loaded_plugin) list"
  pe_stats :: "(string \<times> plugin_stats) list"

text \<open>The result of a call: an \<^verbatim>\<open>i32\<close>, a trap, or a panic of a host function; or the module has no instance.\<close>

datatype wasm_result = Not_instantiable | No_export | Trapped string | Returned "32 word" | Host_panic

record 'm wasm_runtime =
  compile_module :: "bytes \<Rightarrow> 'm option"
  call_evaluate :: "'m \<Rightarrow> nat \<Rightarrow> 32 word \<Rightarrow> 32 word \<Rightarrow> wasm_result"
  input_json :: "policy_input \<Rightarrow> bytes option"
  output_of_json :: "bytes \<Rightarrow> policy_output option"

datatype plugin_error =
  Hash_mismatch | Compile_failed | Plugin_not_found | Memory_bounds | Json_error | Instantiate_failed | Export_missing

definition FUEL :: nat where "FUEL = 1000000000"
definition WASM_PAGE :: nat where "WASM_PAGE = 65536"

definition plugin_engine_new :: "'m plugin_engine" where
  "plugin_engine_new = \<lparr>pe_registry = [], pe_stats = []\<rparr>"

definition no_stats :: plugin_stats where
  "no_stats = \<lparr>ps_evaluations = 0, ps_allows = 0, ps_denies = 0, ps_escalates = 0, ps_avg_duration_us = 0, ps_errors = 0\<rparr>"

definition register_plugin :: "hash_prims \<Rightarrow> 'm wasm_runtime \<Rightarrow> plugin_manifest \<Rightarrow> bytes \<Rightarrow> 'm plugin_engine \<Rightarrow>
    (plugin_error, unit) outcome \<times> 'm plugin_engine" where
  "register_plugin C W manifest wasm_bytes E =
     (let actual_hash = hex_encode (sha256 C wasm_bytes) in
      if actual_hash \<noteq> pm_wasm_sha256 manifest then (Err Hash_mismatch, E)
      else
        case compile_module W wasm_bytes of
          None \<Rightarrow> (Err Compile_failed, E)
        | Some m \<Rightarrow>
            (Ok (), E\<lparr>pe_stats := (case map_of (pe_stats E) (pm_plugin_id manifest) of
                         Some _ \<Rightarrow> pe_stats E | None \<Rightarrow> AList.update (pm_plugin_id manifest) no_stats (pe_stats E)),
                      pe_registry := AList.update (pm_plugin_id manifest) \<lparr>lp_manifest = manifest, lp_module = m\<rparr>
                         (pe_registry E)\<rparr>))"

text \<open>The engine's memory of one page with the input at its start, and reads from it.\<close>

definition host_memory :: "bytes \<Rightarrow> (plugin_error, bytes) outcome" where
  "host_memory json =
     (if length json \<le> WASM_PAGE then Ok (json @ replicate (WASM_PAGE - length json) 0) else Err Memory_bounds)"

definition memory_read :: "bytes \<Rightarrow> nat \<Rightarrow> nat \<Rightarrow> (plugin_error, bytes) outcome" where
  "memory_read mem off n = (if off + n \<le> length mem then Ok (take n (drop off mem)) else Err Memory_bounds)"

definition deny_output :: "string \<Rightarrow> string \<Rightarrow> policy_output" where
  "deny_output reason evidence =
     \<lparr>po_decision = Deny, po_reason = reason, po_risk_score = 1, po_evidence = [evidence], po_compliance_tags = []\<rparr>"

definition count_error :: "plugin_stats \<Rightarrow> plugin_stats" where
  "count_error s = s\<lparr>ps_errors := ps_errors s + 1\<rparr>"

definition count_decision :: "policy_decision \<Rightarrow> nat \<Rightarrow> plugin_stats \<Rightarrow> plugin_stats" where
  "count_decision d elapsed_us s =
     (let new_avg = f64_div (f64_add (f64_mul (ps_avg_duration_us s) (f64_round (of_nat (ps_evaluations s - 1))))
                       (f64_round (of_nat elapsed_us))) (f64_round (of_nat (ps_evaluations s)));
          s' = s\<lparr>ps_avg_duration_us := new_avg\<rparr>
      in case d of
           Allow \<Rightarrow> s'\<lparr>ps_allows := ps_allows s' + 1\<rparr>
         | AllowWithWarning \<Rightarrow> s'\<lparr>ps_allows := ps_allows s' + 1\<rparr>
         | Deny \<Rightarrow> s'\<lparr>ps_denies := ps_denies s' + 1\<rparr>
         | Escalate \<Rightarrow> s'\<lparr>ps_escalates := ps_escalates s' + 1\<rparr>)"

text \<open>What an evaluation returns, and how it leaves the statistics of its plugin.\<close>

definition read_result :: "'m wasm_runtime \<Rightarrow> bytes \<Rightarrow> nat \<Rightarrow> (plugin_error, policy_output) outcome" where
  "read_result W mem result_ptr =
     and_then (memory_read mem result_ptr 4) (\<lambda>len_buf.
     and_then (memory_read mem (result_ptr + 4) (min (unat (from_le_bytes len_buf :: u32)) 65536)) (\<lambda>result_buf.
     ok_or Json_error (output_of_json W result_buf)))"

definition evaluate_module :: "'m wasm_runtime \<Rightarrow> 'm \<Rightarrow> policy_input \<Rightarrow> nat \<Rightarrow> plugin_stats \<Rightarrow>
    (plugin_error, policy_output) outcome \<times> plugin_stats" where
  "evaluate_module W m input elapsed_us s =
     (case and_then (ok_or Json_error (input_json W input)) (\<lambda>json. and_then (host_memory json) (\<lambda>mem. Ok (json, mem))) of
        Err e \<Rightarrow> (Err e, s)
      | Panic \<Rightarrow> (Panic, s)
      | Ok (json, mem) \<Rightarrow>
          (case call_evaluate W m FUEL 0 (of_nat (length json)) of
             Not_instantiable \<Rightarrow> (Err Instantiate_failed, s)
           | No_export \<Rightarrow> (Err Export_missing, s)
           | Host_panic \<Rightarrow> (Panic, s)
           | Trapped e \<Rightarrow> (Ok (deny_output (''Plugin error: '' @ e) ''plugin-evaluation-failed''), count_error s)
           | Returned result_ptr \<Rightarrow>
               (if 0 < sint result_ptr
                then
                  (case read_result W mem (unat result_ptr) of
                     Ok out \<Rightarrow> (Ok out, count_decision (po_decision out) elapsed_us s)
                   | Err e \<Rightarrow> (Err e, s)
                   | Panic \<Rightarrow> (Panic, s))
                else (Ok (deny_output ''Plugin returned null result'' ''null-result''), count_error s))))"

definition evaluate :: "'m wasm_runtime \<Rightarrow> string \<Rightarrow> policy_input \<Rightarrow> nat \<Rightarrow> 'm plugin_engine \<Rightarrow>
    (plugin_error, policy_output) outcome \<times> 'm plugin_engine" where
  "evaluate W plugin_id input elapsed_us E =
     (case map_of (pe_registry E) plugin_id of
        None \<Rightarrow> (Err Plugin_not_found, E)
      | Some plugin \<Rightarrow>
          (case map_of (pe_stats E) plugin_id of
             None \<Rightarrow> (Panic, E)
           | Some s \<Rightarrow>
               (let (res, s') = evaluate_module W (lp_module plugin) input elapsed_us (s\<lparr>ps_evaluations := ps_evaluations s + 1\<rparr>)
                in (res, E\<lparr>pe_stats := AList.update plugin_id s' (pe_stats E)\<rparr>))))"

definition list_plugins :: "'m plugin_engine \<Rightarrow> plugin_manifest list" where
  "list_plugins E = map (lp_manifest \<circ> snd) (pe_registry E)"

definition get_stats :: "'m plugin_engine \<Rightarrow> string \<Rightarrow> plugin_stats option" where
  "get_stats E plugin_id = map_of (pe_stats E) plugin_id"

section \<open>The books are kept\<close>

definition stats_ok :: "plugin_stats \<Rightarrow> bool" where
  "stats_ok s \<longleftrightarrow> ps_allows s + ps_denies s + ps_escalates s + ps_errors s \<le> ps_evaluations s"

definition engine_ok :: "hash_prims \<Rightarrow> 'm wasm_runtime \<Rightarrow> 'm plugin_engine \<Rightarrow> bool" where
  "engine_ok C W E \<longleftrightarrow>
     (\<forall>i p. map_of (pe_registry E) i = Some p \<longrightarrow>
        map_of (pe_stats E) i \<noteq> None \<and> pm_plugin_id (lp_manifest p) = i \<and>
        (\<exists>wasm. hex_encode (sha256 C wasm) = pm_wasm_sha256 (lp_manifest p) \<and> compile_module W wasm = Some (lp_module p))) \<and>
     (\<forall>i s. map_of (pe_stats E) i = Some s \<longrightarrow> stats_ok s)"

lemma engine_ok_new: "engine_ok C W plugin_engine_new"
  by (simp add: engine_ok_def plugin_engine_new_def)

lemma engine_ok_register:
  assumes "engine_ok C W E"
  shows "engine_ok C W (snd (register_plugin C W manifest wasm E))"
proof (cases "hex_encode (sha256 C wasm) = pm_wasm_sha256 manifest \<and> compile_module W wasm \<noteq> None")
  case True
  then obtain m where m: "compile_module W wasm = Some m" and h: "hex_encode (sha256 C wasm) = pm_wasm_sha256 manifest" by auto
  define E' where "E' = snd (register_plugin C W manifest wasm E)"
  let ?i = "pm_plugin_id manifest"
  have r: "map_of (pe_registry E') = (map_of (pe_registry E))(?i \<mapsto> \<lparr>lp_manifest = manifest, lp_module = m\<rparr>)"
    using m h by (simp add: E'_def register_plugin_def update_conv')
  have s: "map_of (pe_stats E') = (if map_of (pe_stats E) ?i = None then (map_of (pe_stats E))(?i \<mapsto> no_stats) else map_of (pe_stats E))"
    using m h by (auto simp: E'_def register_plugin_def update_conv' split: option.splits)
  have "stats_ok no_stats" by (simp add: stats_ok_def no_stats_def)
  then show ?thesis using assms m h unfolding E'_def [symmetric] engine_ok_def r s by (auto split: if_splits)
next
  case False
  then have "snd (register_plugin C W manifest wasm E) = E" by (auto simp: register_plugin_def)
  then show ?thesis using assms by simp
qed

lemma evaluate_module_stats:
  assumes "stats_ok s" and "evaluate_module W m input us (s\<lparr>ps_evaluations := ps_evaluations s + 1\<rparr>) = (r, s')"
  shows "stats_ok s'"
  using assms
  by (auto simp: evaluate_module_def stats_ok_def count_error_def count_decision_def Let_def
      split: outcome.splits prod.splits wasm_result.splits if_splits policy_decision.splits)

lemma engine_ok_evaluate:
  assumes "engine_ok C W E"
  shows "engine_ok C W (snd (evaluate W i input us E))"
proof (cases "map_of (pe_registry E) i = None \<or> map_of (pe_stats E) i = None")
  case True
  then have "snd (evaluate W i input us E) = E" by (auto simp: evaluate_def split: option.split)
  then show ?thesis using assms by simp
next
  case False
  then obtain p s where p: "map_of (pe_registry E) i = Some p" "map_of (pe_stats E) i = Some s" by auto
  obtain r s' where e: "evaluate_module W (lp_module p) input us (s\<lparr>ps_evaluations := ps_evaluations s + 1\<rparr>) = (r, s')" by fastforce
  have "stats_ok s'" using assms p(2) by (intro evaluate_module_stats [OF _ e]) (simp add: engine_ok_def)
  then show ?thesis using assms p e by (auto simp: evaluate_def engine_ok_def update_conv')
qed

text \<open>Any sequence of registrations and evaluations.\<close>

datatype plugin_op = Register plugin_manifest bytes | Evaluate string policy_input nat

fun apply_plugin_op :: "hash_prims \<Rightarrow> 'm wasm_runtime \<Rightarrow> 'm plugin_engine \<Rightarrow> plugin_op \<Rightarrow> 'm plugin_engine" where
  "apply_plugin_op C W E (Register manifest wasm) = snd (register_plugin C W manifest wasm E)"
| "apply_plugin_op C W E (Evaluate i input us) = snd (evaluate W i input us E)"

lemma engine_ok_ops: "engine_ok C W (foldl (apply_plugin_op C W) plugin_engine_new ops)"
proof (induction ops rule: rev_induct)
  case (snoc op ops)
  then show ?case by (cases op) (simp_all add: engine_ok_register engine_ok_evaluate)
qed (simp add: engine_ok_new)

lemma read_result_slice:
  assumes "read_result W mem p = Ok out"
  shows "\<exists>n. output_of_json W (take n (drop (p + 4) mem)) = Some out"
  using assms by (auto simp: read_result_def memory_read_def outcome_simps split: if_splits)

lemma ok_or_eq_Err: "ok_or e x = Err d \<longleftrightarrow> x = None \<and> d = e"
  by (cases x) auto

lemma evaluate_module_result:
  assumes "evaluate_module W m input us s = (r, s')"
  shows "case r of
       Panic \<Rightarrow> (\<exists>n. call_evaluate W m FUEL 0 n = Host_panic)
     | Err e \<Rightarrow> e \<notin> {Plugin_not_found, Hash_mismatch, Compile_failed}
     | Ok out \<Rightarrow>
         (\<exists>json. input_json W input = Some json \<and>
           (case call_evaluate W m FUEL 0 (of_nat (length json)) of
              Returned ptr \<Rightarrow>
                (if 0 < sint ptr
                 then \<exists>n. output_of_json W (take n (drop (unat ptr + 4) (json @ replicate (WASM_PAGE - length json) 0))) = Some out
                 else po_decision out = Deny \<and> po_risk_score out = 1)
            | _ \<Rightarrow> po_decision out = Deny \<and> po_risk_score out = 1))"
proof (cases "and_then (ok_or Json_error (input_json W input)) (\<lambda>json. and_then (host_memory json) (\<lambda>mem. Ok (json, mem)))")
  case (Ok x)
  then obtain json where j: "input_json W input = Some json" and x: "x = (json, json @ replicate (WASM_PAGE - length json) 0)"
    by (auto simp: host_memory_def outcome_simps split: if_splits)
  have rr: "read_result W mem p \<noteq> Panic" "read_result W mem p = Err e \<Longrightarrow> e \<in> {Memory_bounds, Json_error}" for mem p e
    by (auto simp: read_result_def memory_read_def outcome_simps and_then_eq_Err ok_or_eq_Err split: if_splits)
  show ?thesis
  proof (cases "call_evaluate W m FUEL 0 (of_nat (length json))")
    case (Returned ptr)
    show ?thesis
      using assms Ok x j Returned rr read_result_slice [of W "json @ replicate (WASM_PAGE - length json) 0" "unat ptr"]
      by (fastforce simp: evaluate_module_def deny_output_def split: outcome.splits if_splits)
  qed (use assms Ok x j in \<open>auto simp: evaluate_module_def deny_output_def\<close>)
next
  case (Err e)
  then have "r = Err e" "e \<in> {Json_error, Memory_bounds}"
    using assms by (auto simp: evaluate_module_def host_memory_def and_then_eq_Err ok_or_eq_Err split: if_splits)
  then show ?thesis by auto
next
  case Panic
  then show ?thesis by (auto simp: host_memory_def outcome_simps split: if_splits)
qed


text \<open>In particular the module's own memory never reaches the output: modules that return the same pointer agree.\<close>

lemma plugin_output_ignores_guest_memory:
  assumes "\<And>n. call_evaluate W m FUEL 0 n = Returned ptr" and "\<And>n. call_evaluate W m' FUEL 0 n = Returned ptr"
  shows "evaluate_module W m input us s = evaluate_module W m' input us s"
  by (simp only: evaluate_module_def assms wasm_result.case)

text \<open>A module that returns a pointer into the input: the output is the one that the input spells out.\<close>

definition toy_output :: policy_output where
  "toy_output = \<lparr>po_decision = Allow, po_reason = [], po_risk_score = 0, po_evidence = [], po_compliance_tags = []\<rparr>"

definition toy_runtime :: "unit wasm_runtime" where
  "toy_runtime = \<lparr>compile_module = (\<lambda>_. Some ()), call_evaluate = (\<lambda>_ _ _ _. Returned 1),
     input_json = (\<lambda>_. Some [0, 1, 0, 0, 0, 65]), output_of_json = (\<lambda>bs. if bs = [65] then Some toy_output else None)\<rparr>"

definition toy_hash :: hash_prims where
  "toy_hash = \<lparr>sha256 = (\<lambda>_. []), ct_eq = (=)\<rparr>"

definition toy_manifest :: plugin_manifest where
  "toy_manifest = \<lparr>pm_plugin_id = ''p'', pm_name = [], pm_version = [], pm_author = [], pm_description = [],
     pm_industry = [], pm_compliance = [], pm_wasm_sha256 = []\<rparr>"


end
