(* ===== verification/Core_Keys.thy ===== *)
theory Core_Keys
  imports Text_Format Rust_Text Merkle
begin

text \<open>
  Keys, identities and the FIPS layer of the core engine (\<^verbatim>\<open>kdf.rs\<close>, \<^verbatim>\<open>phasor.rs\<close>, \<^verbatim>\<open>fips.rs\<close>): salts, HKDF keys and HMAC tags
  over canonical manifest bytes, the hash of the build terms, and the self tests that set the operating mode. HMAC and
  HKDF of the crates are the parameter \<open>kdf_prims\<close>. The theory shows that the canonical encodings determine what they
  encode, while the salt does not determine its label and seed, and what the operating mode guarantees.
\<close>

record kdf_prims =
  hmac_tag :: "bytes \<Rightarrow> bytes \<Rightarrow> bytes"
  hkdf_okm :: "bytes \<Rightarrow> bytes \<Rightarrow> bytes \<Rightarrow> nat \<Rightarrow> bytes option"

definition AUTH_INFO :: bytes where "AUTH_INFO = ascii ''dfim-manifest-auth-v1''"
definition protocol_id :: string where "protocol_id = ''dfim_integrity_protocol_v1''"
definition default_salt_label :: bytes where "default_salt_label = ascii ''DFIM-INTEGRITY-v1''"
definition anchors_label :: string where "anchors_label = ''anchors''"

definition derive_salt :: "hash_prims \<Rightarrow> bytes \<Rightarrow> bytes \<Rightarrow> bytes dfim_result" where
  "derive_salt C salt_label seed =
     (if seed = [] then Err EmptyInput
      else
        let label_len = min (length salt_label) 200;
            seed_len = min (length seed) 56;
            buf = put (put (replicate 256 0) 0 (take label_len salt_label)) label_len (take seed_len seed)
        in Ok (sha256_digest C (take (label_len + seed_len) buf)))"

definition derive_authentication_key :: "kdf_prims \<Rightarrow> bytes \<Rightarrow> bytes \<Rightarrow> bytes \<Rightarrow> bytes dfim_result" where
  "derive_authentication_key kd seed salt info = ok_or IntegrityFailure (hkdf_okm kd salt seed info DK_LEN)"

definition authentication_tag :: "kdf_prims \<Rightarrow> bytes \<Rightarrow> bytes \<Rightarrow> bytes dfim_result" where
  "authentication_tag kd key manifest_bytes =
     (if manifest_bytes = [] then Err EmptyInput else Ok (hmac_tag kd key manifest_bytes))"

primrec bar_list :: "u64 list \<Rightarrow> string" where
  "bar_list [] = []"
| "bar_list (c # cs) = decimal (unat c) @ concat (map (\<lambda>d. CHR ''|'' # decimal (unat d)) cs)"

definition canonical_manifest_bytes :: "u64 list \<Rightarrow> u64 list \<Rightarrow> bytes dfim_result" where
  "canonical_manifest_bytes coords abjad =
     (if coords = [] \<and> abjad = [] then Err EmptyInput
      else Ok (ascii (protocol_id @ [CHR 0x0A] @ anchors_label @ [CHR 0x0A] @ bar_list coords @ [CHR 0x0A] @ bar_list abjad)))"

definition authenticate_manifest :: "hash_prims \<Rightarrow> kdf_prims \<Rightarrow> bytes \<Rightarrow> bytes \<Rightarrow> bytes dfim_result" where
  "authenticate_manifest C kd seed manifest_bytes =
     and_then (derive_salt C default_salt_label seed) (\<lambda>salt.
     and_then (derive_authentication_key kd seed salt AUTH_INFO) (\<lambda>key.
     authentication_tag kd key manifest_bytes))"

definition hkdf_sha256_expand :: "kdf_prims \<Rightarrow> bytes \<Rightarrow> bytes \<Rightarrow> bytes \<Rightarrow> nat \<Rightarrow> bytes dfim_result" where
  "hkdf_sha256_expand kd ikm salt info out_len =
     (if ikm = [] \<or> out_len = 0 \<or> DK_LEN * 4 < out_len then Err InvalidParameter
      else ok_or IntegrityFailure (hkdf_okm kd salt ikm info out_len))"

section \<open>Build identity\<close>

text \<open>The two \<^verbatim>\<open>f32\<close> fields by their bit patterns, the only thing the code uses of them.\<close>

record phasor_term =
  pt_role :: string
  pt_rank :: u32
  pt_axis :: u32
  pt_phi_bits :: u32
  pt_weight_bits :: u32

definition append_canonical_term :: "phasor_term \<Rightarrow> bytes \<Rightarrow> bytes" where
  "append_canonical_term term out =
     ((((out @ ascii (pt_role term)) @ [0]) @ to_le_bytes 4 (pt_rank term)) @ to_le_bytes 4 (pt_axis term))
     @ to_le_bytes 4 (pt_phi_bits term) @ to_le_bytes 4 (pt_weight_bits term)"

definition canonical_terms :: "phasor_term list \<Rightarrow> bytes" where
  "canonical_terms terms = foldl (\<lambda>buf term. append_canonical_term term buf) [] terms"

definition build_identity_hash :: "hash_prims \<Rightarrow> phasor_term list \<Rightarrow> bytes dfim_result" where
  "build_identity_hash C terms =
     (if terms = [] then Err EmptyInput else Ok (sha256_digest C (canonical_terms terms)))"

definition build_identity_hex :: "bytes \<Rightarrow> bytes" where
  "build_identity_hex h = digest_to_hex h"

section \<open>The FIPS layer\<close>

datatype fips_mode = FipsValidated | SoftwareOnly | SelfTestFailed

definition FIPS_MODE_FIPS_VALIDATED :: u8 where "FIPS_MODE_FIPS_VALIDATED = 1"
definition FIPS_MODE_SOFTWARE :: u8 where "FIPS_MODE_SOFTWARE = 2"
definition FIPS_MODE_FAILED :: u8 where "FIPS_MODE_FAILED = 3"

text \<open>The known answers, four bytes of the source to a word.\<close>

definition words_be :: "u32 list \<Rightarrow> bytes" where
  "words_be ws = concat (map (to_be_bytes 4) ws)"

definition SHA256_KAT_EMPTY_EXPECTED :: bytes where
  "SHA256_KAT_EMPTY_EXPECTED = words_be [0xe3b0c442, 0x98fc1c14, 0x9afbf4c8, 0x996fb924, 0x27ae41e4, 0x649b934c, 0xa495991b, 0x7852b855]"

definition SHA256_KAT_ABC_EXPECTED :: bytes where
  "SHA256_KAT_ABC_EXPECTED = words_be [0xba7816bf, 0x8f01cfea, 0x414140de, 0x5dae2223, 0xb00361a3, 0x96177a9c, 0xb410ff61, 0xf20015ad]"

definition HMAC_KAT_EXPECTED :: bytes where
  "HMAC_KAT_EXPECTED = words_be [0xb0344c61, 0xd8db3853, 0x5ca8afce, 0xaf0bf12b, 0x881dc200, 0xc9833da7, 0x26e9376c, 0x2e32cff7]"

definition run_power_on_self_tests_software :: "hash_prims \<Rightarrow> kdf_prims \<Rightarrow> bool" where
  "run_power_on_self_tests_software C kd =
     (if \<not> constant_time_hash_eq C (sha256_digest C []) SHA256_KAT_EMPTY_EXPECTED then False
      else if \<not> constant_time_hash_eq C (sha256_digest C (ascii ''abc'')) SHA256_KAT_ABC_EXPECTED then False
      else if \<not> constant_time_hash_eq C (hmac_tag kd (replicate 20 0x0b) (ascii ''Hi There'')) HMAC_KAT_EXPECTED then False
      else if constant_time_hash_eq C (sha256_digest C (sha256_digest C (ascii ''fips-pct-140-3'')))
                (sha256_digest C (ascii ''fips-pct-140-3'')) then False
      else True)"

text \<open>Without the feature \<^verbatim>\<open>full\<close> only the first two answers are tested.\<close>

definition run_power_on_self_tests_bpf :: "hash_prims \<Rightarrow> bool" where
  "run_power_on_self_tests_bpf C =
     (if \<not> constant_time_hash_eq C (sha256_digest C []) SHA256_KAT_EMPTY_EXPECTED then False
      else if \<not> constant_time_hash_eq C (sha256_digest C (ascii ''abc'')) SHA256_KAT_ABC_EXPECTED then False
      else True)"

text \<open>The atomic \<^verbatim>\<open>FIPS_MODE\<close> is the state; it starts as \<^verbatim>\<open>FIPS_MODE_SOFTWARE\<close>.\<close>

definition fips_start :: u8 where
  "fips_start = FIPS_MODE_SOFTWARE"

definition fips_module_init :: "hash_prims \<Rightarrow> kdf_prims \<Rightarrow> u8 \<Rightarrow> fips_mode dfim_result \<times> u8" where
  "fips_module_init C kd state =
     (if \<not> run_power_on_self_tests_software C kd then (Err IntegrityFailure, FIPS_MODE_FAILED)
      else (Ok SoftwareOnly, FIPS_MODE_SOFTWARE))"

definition fips_mode_of :: "u8 \<Rightarrow> fips_mode" where
  "fips_mode_of state =
     (if state = FIPS_MODE_FIPS_VALIDATED then FipsValidated
      else if state = FIPS_MODE_SOFTWARE then SoftwareOnly else SelfTestFailed)"

definition assert_fips_operational :: "u8 \<Rightarrow> unit dfim_result" where
  "assert_fips_operational state = (case fips_mode_of state of SelfTestFailed \<Rightarrow> Err IntegrityFailure | _ \<Rightarrow> Ok ())"

definition fips_sha256 :: "hash_prims \<Rightarrow> u8 \<Rightarrow> bytes \<Rightarrow> bytes" where
  "fips_sha256 C state data = (case fips_mode_of state of SelfTestFailed \<Rightarrow> replicate 32 0 | _ \<Rightarrow> sha256_digest C data)"

definition fips_hmac_sha256 :: "kdf_prims \<Rightarrow> u8 \<Rightarrow> bytes \<Rightarrow> bytes \<Rightarrow> bytes" where
  "fips_hmac_sha256 kd state key data = (case fips_mode_of state of SelfTestFailed \<Rightarrow> replicate 32 0 | _ \<Rightarrow> hmac_tag kd key data)"

definition fips_continuous_test :: "hash_prims \<Rightarrow> bool" where
  "fips_continuous_test C \<longleftrightarrow>
     (let a = sha256_digest C (ascii ''fips-continuous-test-1''); b = sha256_digest C (ascii ''fips-continuous-test-1'')
      in constant_time_hash_eq C a b
         \<and> \<not> constant_time_hash_eq C a (sha256_digest C (ascii ''fips-continuous-test-2'')))"

section \<open>The canonical encodings determine what they encode\<close>

lemma separator_unique:
  assumes "a @ x # u = b @ x # v" and "x \<notin> set a" and "x \<notin> set b"
  shows "a = b \<and> u = v"
  using assms
proof (induction a arbitrary: b)
  case Nil
  then show ?case by (cases b) auto
next
  case (Cons c a)
  then show ?case by (cases b) auto
qed

definition term_bytes :: "phasor_term \<Rightarrow> bytes" where
  "term_bytes t = to_le_bytes 4 (pt_rank t) @ to_le_bytes 4 (pt_axis t) @ to_le_bytes 4 (pt_phi_bits t)
     @ to_le_bytes 4 (pt_weight_bits t)"

lemma canonical_terms_concat:
  "canonical_terms ts = concat (map (\<lambda>t. ascii (pt_role t) @ 0 # term_bytes t) ts)"
proof -
  have "foldl (\<lambda>buf t. append_canonical_term t buf) acc ts = acc @ concat (map (\<lambda>t. ascii (pt_role t) @ 0 # term_bytes t) ts)" for acc
    by (induction ts arbitrary: acc) (simp_all add: append_canonical_term_def term_bytes_def)
  then show ?thesis by (simp add: canonical_terms_def)
qed

lemma ascii_zero: "0 \<in> set (ascii s) \<longleftrightarrow> CHR 0x00 \<in> set s"
proof -
  have z: "(0 :: u8) = of_nat (of_char c) \<longleftrightarrow> c = CHR 0x00" for c
    using of_char_word_inj [of "CHR 0x00" c] by auto
  show ?thesis unfolding ascii_def by (auto simp: image_iff z)
qed

lemma le4_inj: "to_le_bytes 4 (a :: u32) = to_le_bytes 4 b \<longleftrightarrow> a = b"
  by (metis word_bytes_roundtrip(2))

lemma term_bytes_inj:
  assumes "term_bytes s @ x = term_bytes t @ y" and "pt_role s = pt_role t"
  shows "s = t \<and> x = y"
  using assms by (auto simp: term_bytes_def le4_inj intro: phasor_term.equality)

lemma canonical_terms_inj:
  assumes "canonical_terms ss = canonical_terms ts"
    and "\<And>t. t \<in> set ss \<union> set ts \<Longrightarrow> CHR 0x00 \<notin> set (pt_role t)"
  shows "ss = ts"
  using assms
proof (induction ss arbitrary: ts)
  case Nil
  then show ?case by (cases ts) (simp_all add: canonical_terms_concat)
next
  case (Cons s ss)
  then obtain t ts' where ts: "ts = t # ts'" by (cases ts) (simp_all add: canonical_terms_concat)
  have e: "ascii (pt_role s) @ 0 # (term_bytes s @ canonical_terms ss) = ascii (pt_role t) @ 0 # (term_bytes t @ canonical_terms ts')"
    using Cons.prems(1) by (simp add: ts canonical_terms_concat)
  have n: "0 \<notin> set (ascii (pt_role s))" "0 \<notin> set (ascii (pt_role t))"
    using Cons.prems(2) by (simp_all add: ts ascii_zero)
  have "pt_role s = pt_role t" and "term_bytes s @ canonical_terms ss = term_bytes t @ canonical_terms ts'"
    using separator_unique [OF e n] by simp_all
  then have "s = t" and "canonical_terms ss = canonical_terms ts'" using term_bytes_inj by blast+
  then show ?case using Cons.IH Cons.prems(2) by (simp add: ts)
qed

lemma digit_not_bar: "c \<in> set (decimal n) \<Longrightarrow> c \<noteq> CHR ''|'' \<and> c \<noteq> CHR 0x0A"
  using decimal_chars [of c n] by (auto simp: digit_char_def HEX_CHARS_def)

lemma decimal_ne: "decimal n \<noteq> []"
  by (simp add: decimal.simps [of n])

lemma bar_list_split:
  "cs \<noteq> [] \<Longrightarrow> split_on (\<lambda>c. c = CHR ''|'') (bar_list cs) = map (\<lambda>c. decimal (unat c)) cs"
proof (induction cs)
  case (Cons c cs)
  have n: "\<not> x = CHR ''|''" if "x \<in> set (decimal m)" for x m using digit_not_bar that by blast
  show ?case
  proof (cases cs)
    case Nil
    then show ?thesis using n by (simp add: split_on_none)
  next
    case (Cons d ds)
    then have "bar_list (c # cs) = decimal (unat c) @ CHR ''|'' # bar_list cs" by simp
    then show ?thesis using n Cons Cons.IH by (simp add: split_on_append)
  qed
qed simp

lemma bar_list_newline: "CHR 0x0A \<notin> set (bar_list cs)"
  using digit_not_bar by (cases cs) (auto dest: digit_not_bar)

lemma bar_list_inj:
  assumes "bar_list cs = bar_list ds"
  shows "cs = ds"
proof -
  have e: "bar_list xs = [] \<longleftrightarrow> xs = []" for xs by (cases xs) (simp_all add: decimal_ne)
  have d: "inj (\<lambda>c :: u64. decimal (unat c))" by (auto intro!: injI dest!: decimal_inj simp: unsigned_word_eqI)
  show ?thesis
  proof (cases "cs = []")
    case True
    then show ?thesis using assms e by metis
  next
    case False
    then have "map (\<lambda>c. decimal (unat c)) cs = map (\<lambda>c. decimal (unat c)) ds"
      using assms e bar_list_split by metis
    then show ?thesis using d by (simp add: inj_map_eq_map)
  qed
qed

lemma canonical_manifest_bytes_inj:
  assumes "canonical_manifest_bytes cs as = Ok m" and "canonical_manifest_bytes ds bs = Ok m"
  shows "cs = ds \<and> as = bs"
proof -
  have "bar_list cs @ CHR 0x0A # bar_list as = bar_list ds @ CHR 0x0A # bar_list bs"
    using assms by (auto simp: canonical_manifest_bytes_def split: if_splits dest!: sym [of "ascii _" m])
  then show ?thesis using separator_unique bar_list_newline bar_list_inj by metis
qed

text \<open>
  The encodings that are hashed and authenticated are unambiguous: two manifests with the same canonical bytes have the
  same coordinates and the same abjad values, and two term lists whose roles have no NUL and which have the same build
  identity are equal, or their two encodings are a collision of SHA-256.
\<close>

theorem canonical_encodings_injective:
  assumes "canonical_manifest_bytes cs as = Ok m" and "canonical_manifest_bytes ds bs = Ok m"
    and "build_identity_hash C ss = Ok h" and "build_identity_hash C ts = Ok h"
    and "\<And>t. t \<in> set ss \<union> set ts \<Longrightarrow> CHR 0x00 \<notin> set (pt_role t)"
  shows "cs = ds \<and> as = bs \<and> (ss = ts \<or> collision C (canonical_terms ss) (canonical_terms ts))"
proof -
  have "sha256 C (canonical_terms ss) = sha256 C (canonical_terms ts)"
    using assms(3,4) by (simp add: build_identity_hash_def sha256_digest_def split: if_splits)
  moreover have "ss = ts" if "canonical_terms ss = canonical_terms ts" using canonical_terms_inj that assms(5) by metis
  ultimately show ?thesis using canonical_manifest_bytes_inj [OF assms(1,2)] by (auto simp: collision_def)
qed

definition noor :: phasor_term where
  "noor = \<lparr>pt_role = ''noor'', pt_rank = 1, pt_axis = 0, pt_phi_bits = 0xC00107D9, pt_weight_bits = 0x3D20902E\<rparr>"

theorem canonical_encodings_injective_witness:
  "\<exists>h. build_identity_hash bpf_prims [noor] = Ok h \<and>
     canonical_manifest_bytes [12, 7] [] = Ok (ascii (''dfim_integrity_protocol_v1'' @ CHR 0x0A # ''anchors'' @ CHR 0x0A # ''12|7'' @ [CHR 0x0A])) \<and>
     ([noor] = [noor] \<or> collision bpf_prims (canonical_terms [noor]) (canonical_terms [noor]))"
proof -
  have m: "canonical_manifest_bytes [12, 7] [] =
      Ok (ascii (''dfim_integrity_protocol_v1'' @ CHR 0x0A # ''anchors'' @ CHR 0x0A # ''12|7'' @ [CHR 0x0A]))"
    by (simp add: canonical_manifest_bytes_def protocol_id_def anchors_label_def decimal.simps HEX_CHARS_def)
  have h: "build_identity_hash bpf_prims [noor] = Ok (sha256_digest bpf_prims (canonical_terms [noor]))"
    by (simp add: build_identity_hash_def)
  have "CHR 0x00 \<notin> set (pt_role t)" if "t \<in> set [noor] \<union> set [noor]" for t using that by (simp add: noor_def)
  then show ?thesis using canonical_encodings_injective [OF m m h h] m h by blast
qed

text \<open>
  The salt is the digest of the label and the seed without anything between them: moving a byte across the border gives the
  same salt.
\<close>

lemma derive_salt_does_not_separate:
  assumes "length l < 200" and "length s < 56" and "s \<noteq> []"
  shows "derive_salt C (l @ [x]) s = derive_salt C l (x # s)"
  using assms by (simp add: derive_salt_def Let_def put_def)

section \<open>The operating mode\<close>

definition known_answers :: "hash_prims \<Rightarrow> kdf_prims \<Rightarrow> bool" where
  "known_answers C kd \<longleftrightarrow>
     sha256 C [] = SHA256_KAT_EMPTY_EXPECTED \<and> sha256 C (ascii ''abc'') = SHA256_KAT_ABC_EXPECTED \<and>
     hmac_tag kd (replicate 20 0x0b) (ascii ''Hi There'') = HMAC_KAT_EXPECTED \<and>
     sha256 C (sha256 C (ascii ''fips-pct-140-3'')) \<noteq> sha256 C (ascii ''fips-pct-140-3'')"

lemma length_known_answers:
  "length SHA256_KAT_EMPTY_EXPECTED = 32" "length SHA256_KAT_ABC_EXPECTED = 32" "length HMAC_KAT_EXPECTED = 32"
  by (simp_all add: SHA256_KAT_EMPTY_EXPECTED_def SHA256_KAT_ABC_EXPECTED_def HMAC_KAT_EXPECTED_def words_be_def)

lemma self_tests_iff:
  assumes "hash_contract C" and "\<And>k m. length (hmac_tag kd k m) = 32"
  shows "run_power_on_self_tests_software C kd \<longleftrightarrow> known_answers C kd"
proof -
  have "length SHA256_KAT_EMPTY_EXPECTED = 32" "length SHA256_KAT_ABC_EXPECTED = 32" "length HMAC_KAT_EXPECTED = 32"
    by (rule length_known_answers)+
  then show ?thesis
    using assms(2) hash_contract.sha256_len [OF assms(1)]
    by (simp add: run_power_on_self_tests_software_def known_answers_def constant_time_hash_eq_iff [OF assms(1)] sha256_digest_def)
qed

text \<open>
  C39. Initialisation reports software mode exactly if every self test gives its known answer, and then the operations are the
  digest and the tag of the primitives; otherwise it fails, the module refuses to operate and both operations give the zero
  digest. It never reports a validated module, and the continuous test passes exactly if the two test messages have
  different digests.
\<close>

theorem fips_gate:
  assumes "hash_contract C" and "\<And>k m. length (hmac_tag kd k m) = 32" and "fips_module_init C kd before = (r, state)"
  shows "(if known_answers C kd
     then r = Ok SoftwareOnly \<and> fips_mode_of state = SoftwareOnly \<and> assert_fips_operational state = Ok () \<and>
       fips_sha256 C state data = sha256 C data \<and> fips_hmac_sha256 kd state key data = hmac_tag kd key data
     else r = Err IntegrityFailure \<and> fips_mode_of state = SelfTestFailed \<and> assert_fips_operational state = Err IntegrityFailure \<and>
       fips_sha256 C state data = replicate 32 0 \<and> fips_hmac_sha256 kd state key data = replicate 32 0) \<and>
     (fips_continuous_test C \<longleftrightarrow> sha256 C (ascii ''fips-continuous-test-1'') \<noteq> sha256 C (ascii ''fips-continuous-test-2''))"
proof (rule conjI, goal_cases)
  case 1
  show ?case
    using assms(3) self_tests_iff [OF assms(1,2)]
    by (auto simp: fips_module_init_def fips_mode_of_def assert_fips_operational_def fips_sha256_def fips_hmac_sha256_def
        FIPS_MODE_SOFTWARE_def FIPS_MODE_FAILED_def FIPS_MODE_FIPS_VALIDATED_def sha256_digest_def split: if_splits)
next
  case 2
  show ?case
    by (simp add: fips_continuous_test_def constant_time_hash_eq_iff [OF assms(1)] sha256_digest_def
        hash_contract.sha256_len [OF assms(1)])
qed

text \<open>Before any self test the module counts as operational.\<close>

lemma fips_operational_before_self_tests: "assert_fips_operational fips_start = Ok ()"
  by (simp add: assert_fips_operational_def fips_mode_of_def fips_start_def FIPS_MODE_SOFTWARE_def FIPS_MODE_FIPS_VALIDATED_def)

text \<open>A hash and a tag with the known answers, and tags without.\<close>

definition kat_hash :: "bytes \<Rightarrow> bytes" where
  "kat_hash m =
     (if m = [] then SHA256_KAT_EMPTY_EXPECTED else if m = ascii ''abc'' then SHA256_KAT_ABC_EXPECTED
      else take 32 (1 # m @ replicate 32 0))"

definition kat_prims :: hash_prims where
  "kat_prims = \<lparr>sha256 = kat_hash, ct_eq = (=)\<rparr>"

definition kat_tags :: kdf_prims where
  "kat_tags = \<lparr>hmac_tag = (\<lambda>k m. HMAC_KAT_EXPECTED), hkdf_okm = (\<lambda>salt ikm info n. Some (replicate n 0))\<rparr>"

definition bad_tags :: kdf_prims where
  "bad_tags = kat_tags\<lparr>hmac_tag := (\<lambda>k m. replicate 32 0)\<rparr>"

interpretation kat: hash_contract kat_prims
  by unfold_locales
    (auto simp: kat_prims_def kat_hash_def length_known_answers min_def)

theorem fips_gate_witness:
  "fst (fips_module_init kat_prims kat_tags fips_start) = Ok SoftwareOnly \<and>
   fips_sha256 kat_prims (snd (fips_module_init kat_prims kat_tags fips_start)) (ascii ''abc'') = SHA256_KAT_ABC_EXPECTED \<and>
   fst (fips_module_init kat_prims bad_tags fips_start) = Err IntegrityFailure \<and>
   fips_sha256 kat_prims (snd (fips_module_init kat_prims bad_tags fips_start)) (ascii ''abc'') = replicate 32 0"
proof -
  have l: "length (hmac_tag kat_tags k m) = 32" "length (hmac_tag bad_tags k m) = 32" for k m
    by (simp_all add: kat_tags_def bad_tags_def length_known_answers)
  have k: "known_answers kat_prims kat_tags"
    by (simp add: known_answers_def kat_prims_def kat_hash_def kat_tags_def ascii_def)
  have "hd (replicate 32 0) \<noteq> hd HMAC_KAT_EXPECTED"
    by (simp add: HMAC_KAT_EXPECTED_def words_be_def to_be_bytes_def to_le_bytes_def upt_rec)
  then have "replicate 32 0 \<noteq> HMAC_KAT_EXPECTED" by metis
  then have n: "\<not> known_answers kat_prims bad_tags" by (simp add: known_answers_def bad_tags_def kat_tags_def)
  have a: "sha256 kat_prims (ascii ''abc'') = SHA256_KAT_ABC_EXPECTED"
    by (simp add: kat_prims_def kat_hash_def ascii_def)
  show ?thesis
    using fips_gate [OF kat.hash_contract_axioms l(1) prod.collapse [symmetric], of fips_start "ascii ''abc''" "[]"]
      fips_gate [OF kat.hash_contract_axioms l(2) prod.collapse [symmetric], of fips_start "ascii ''abc''" "[]"] k n a
    by simp
qed

end
