(* ===== verification/Build_Key.thy ===== *)
theory Build_Key
  imports Rust_Text
begin

text \<open>
  The key of the string obfuscation, which the build scripts take from the environment (\<^verbatim>\<open>build-support/litcrypt_key.rs\<close>).

  A variable that is not valid UTF-8 counts as unset; a message of a failed build is left out.
\<close>

definition MIN_KEY_LEN :: nat where "MIN_KEY_LEN = 16"

record key_env =
  ke_key :: "bytes option"
  ke_file :: "string option"
  ke_read :: "string \<Rightarrow> bytes option"

datatype key_error = Key_file_unreadable | Key_unset

definition env_text :: "bytes option \<Rightarrow> bytes option" where
  "env_text v = (case v of Some bs \<Rightarrow> if utf8_chars bs = None then None else Some bs | None \<Rightarrow> None)"

definition resolve_crypto_key :: "key_env \<Rightarrow> (key_error, bytes) outcome" where
  "resolve_crypto_key env =
     (case env_text (ke_key env) of
        Some key \<Rightarrow> Ok key
      | None \<Rightarrow>
          (case ke_file env of
             Some path \<Rightarrow> ok_or Key_file_unreadable (env_text (ke_read env path))
           | None \<Rightarrow> Err Key_unset))"

text \<open>The value given to the compiler; every failed check stops the build.\<close>

definition configure_litcrypt_key :: "key_env \<Rightarrow> (key_error, bytes) outcome" where
  "configure_litcrypt_key env =
     (case resolve_crypto_key env of
        Ok key \<Rightarrow>
          if length key < MIN_KEY_LEN then Panic
          else if list_ex (\<lambda>b. b = 0x0A \<or> b = 0x0D \<or> b = 0) key then Panic
          else
            let trimmed = concat (str_trim (case utf8_chars key of Some cs \<Rightarrow> cs | None \<Rightarrow> [])) in
            if length trimmed < MIN_KEY_LEN then Panic else Ok trimmed
      | _ \<Rightarrow> Panic)"

section \<open>What is accepted\<close>

lemma utf8_concat: "utf8_chars bs = Some cs \<Longrightarrow> concat cs = bs"
proof (induction bs arbitrary: cs rule: utf8_chars.induct)
  case (1 bs)
  show ?case
  proof (cases "bs = [] \<or> utf8_front bs = 0")
    case True
    then show ?thesis using "1.prems" by (auto simp: utf8_chars.simps [of bs] split: if_splits)
  next
    case False
    then obtain ds where "utf8_chars (drop (utf8_front bs) bs) = Some ds" "cs = take (utf8_front bs) bs # ds"
      using "1.prems" by (auto simp: utf8_chars.simps [of bs])
    then show ?thesis using "1.IH" False by simp
  qed
qed

lemma trim_subset: "set (str_trim cs) \<subseteq> set cs"
  by (auto simp: str_trim_def dest!: set_dropWhileD)

lemma configured_key:
  assumes "configure_litcrypt_key env = Ok key"
  shows "16 \<le> length key \<and> {0x0A, 0x0D, 0} \<inter> set key = {}"
proof -
  obtain raw cs where r: "\<not> list_ex (\<lambda>b. b = 0x0A \<or> b = 0x0D \<or> b = 0) raw" "key = concat (str_trim cs)" "16 \<le> length key"
      "cs = (case utf8_chars raw of Some cs \<Rightarrow> cs | None \<Rightarrow> [])"
    using assms by (auto simp: configure_litcrypt_key_def Let_def MIN_KEY_LEN_def split: outcome.splits if_splits)
  have "set (concat cs) \<subseteq> set raw" using r(4) utf8_concat [of raw] by (auto split: option.splits)
  then have "set key \<subseteq> set raw" using trim_subset [of cs] r(2) by auto
  then show ?thesis using r(1,3) by (auto simp: list_ex_iff)
qed

text \<open>White space around the key is meant to be trimmed, but a line end is refused before that.\<close>

lemma key_file_with_line_end_refused:
  assumes "ke_key env = None" and "ke_file env = Some path" and "ke_read env path = Some (text @ [0x0A])"
  shows "configure_litcrypt_key env = Panic"
  using assms by (auto simp: configure_litcrypt_key_def resolve_crypto_key_def env_text_def split: option.splits)

end
