(* ===== verification/Spec2Isabelle.thy ===== *)
theory Spec2Isabelle
  imports Boot_Guard Linux_Chain Attestation_Chain Host_License Api_Safety Api_Openapi Plugin_Engine Core_Keys Build_Key
begin

text \<open>
  DFIM, the Deterministic Firmware Integrity Matrix: a verification development for the Rust workspace under
  \<^verbatim>\<open>src/\<close>.

  \<^bold>\<open>The program.\<close> An image is cut into blocks of 4096 bytes, a Merkle tree is built over them, and a sidecar
  (\<^verbatim>\<open>DFIMBOOT\<close>) keeps the root, a Hamming-coded backup of the metadata and one membership proof per block. The
  provisioner (\<^verbatim>\<open>dfim_cli_provisioner\<close>) writes sidecars, unsigned or signed, checks images against them, recovers damaged
  ones and handles TPM attestation. The UEFI boot guard (\<^verbatim>\<open>dfim_windows_uefi\<close>) validates the boot manager before it
  starts it; the Linux loader and its LSM probe (\<^verbatim>\<open>dfim_linux_kernel\<close>) do the same for executables. All of them rest on
  \<^verbatim>\<open>dfim_core_engine\<close>. A management API (\<^verbatim>\<open>dfim_management_api\<close>) keeps assets, alerts and policies of several
  tenants in a database, and a plugin SDK (\<^verbatim>\<open>dfim_plugin_sdk\<close>) evaluates policies in WebAssembly.

  \<^bold>\<open>Conventions.\<close> A Rust function is a HOL function of the same name. A computation that returns \<^verbatim>\<open>Result\<close> has the type
  \<open>outcome\<close>, with a third case \<open>Panic\<close> for a slice out of range, an overflowing shift or a checked arithmetic overflow;
  so that a parser does not panic is a theorem. Machine integers are words of their width; lengths and indices, which the
  code bounds by the memory it holds, are natural numbers with the checked operations written out. Loops are structural
  recursion or folds; the few others have a termination proof, except the loop over type records in \<open>Btf_Offsets\<close>, which is a partial
  function whose result \<open>None\<close> is proved impossible; no definition runs on fuel. \<^verbatim>\<open>f64\<close> is rational arithmetic with
  the rounding to 53 bits written out (\<open>Ieee_Double\<close>), and bounds on it carry the rounding error. File operations run on a
  host (\<open>Host_Fs\<close>) whose script may fail or kill the process at any operation, after any part of its effect.

  \<^bold>\<open>Theories, sources and results.\<close>

  \<^item> \<open>Dfim_Prelude\<close>: outcomes, slices, endian conversions, and the interfaces \<open>total_parser\<close>, \<open>codec\<close> and
    \<open>canonical_codec\<close> that the binary formats interpret. \<open>Rust_Text\<close>, \<open>Text_Format\<close>: the operations of \<^verbatim>\<open>str\<close>, numerals, JSON
    escaping (interface \<open>json_escaper\<close>).
  \<^item> \<open>Core_Base\<close> (\<^verbatim>\<open>error.rs\<close>, \<^verbatim>\<open>observer.rs\<close>, \<^verbatim>\<open>digest.rs\<close>, \<^verbatim>\<open>crypto.rs\<close>): errors, the work cap, digests and the interface
    \<open>hash_contract\<close>. \<open>Bpf_Sha256\<close> (\<^verbatim>\<open>bpf_sha256.rs\<close>): the kernel's SHA-256 equals FIPS 180-4 and interprets
    \<open>hash_contract\<close>, which makes every theorem about an abstract hash one about this code.
  \<^item> \<open>Merkle\<close> (\<^verbatim>\<open>merkle.rs\<close>): \<open>build\<close> refines the specified tree; proofs are complete and sound, where soundness is an
    executable function that extracts a collision from any false proof. \<open>Hamming\<close> (\<^verbatim>\<open>hamming.rs\<close>): single errors are
    corrected, and the limits of the code. \<open>Sidecar\<close> (\<^verbatim>\<open>parser.rs\<close>, \<^verbatim>\<open>state_db.rs\<close>, \<^verbatim>\<open>integrity_gate.rs\<close>): the formats are
    canonical and their parsers total.
  \<^item> \<open>Boot_Pipeline\<close> (\<^verbatim>\<open>manifest.rs\<close>, \<^verbatim>\<open>pipeline.rs\<close>, \<^verbatim>\<open>boot_validate.rs\<close>): the three validators agree, accept what was provisioned and, up
    to zero padding or an explicit collision, nothing else. \<open>Signed_Boot\<close> (\<^verbatim>\<open>signed_manifest.rs\<close>, \<^verbatim>\<open>rollback.rs\<close>): the same
    for signed sidecars under unforgeability, with the release floor. \<open>Boot_Guard\<close> (\<^verbatim>\<open>dfim_windows_uefi/src/main.rs\<close>,
    \<^verbatim>\<open>build.rs\<close>): a run as the list of its effects; it hands over validated bytes or resets the machine.
  \<^item> \<open>Enforcement\<close> (\<^verbatim>\<open>enforcement_policy.rs\<close>, \<^verbatim>\<open>dfim-ebpf/src\<close>): the probe on its maps, and the loader's updates as a step
    relation that interleaves with executions. \<open>Linux_Loader\<close> (\<^verbatim>\<open>dfim-ebpf-user/src\<close>, \<^verbatim>\<open>ima_policy.rs\<close>): provisioning, the IMA gate,
    the SIEM sink and the deny monitor. \<open>Btf_Offsets\<close> (\<^verbatim>\<open>dfim-ebpf/build.rs\<close>): the parser of the kernel's type information ends on every
    input and finds the documented offsets. \<open>Linux_Chain\<close>: provisioner, loader, build script and probe together, with the encodings of device
    numbers for which they fit.
  \<^item> \<open>Host_License\<close> (\<^verbatim>\<open>dfim_host_init\<close>): the evaluation window refines a two-number specification. \<open>Cli_Recovery\<close>,
    \<open>Cli_Audit\<close>, \<open>Cli_Verify\<close>, \<open>Raw_Stress\<close>, \<open>Attestation\<close>, \<open>Cli_Commands\<close> (\<^verbatim>\<open>dfim_cli_provisioner/src\<close>): atomic recovery by
    triples over \<open>Host_Fs\<close>, audited verification, the stress harness on a block device, the attestation formats and verifier, and the
    commands with their exit status. \<open>Tpm_Hardware\<close> (\<^verbatim>\<open>tpm.rs\<close>): device choice, keys and quotes between two PCR snapshots, over any TPM.
    \<open>Attestation_Chain\<close>: the five attestation commands together; honest evidence is accepted exactly for the enrolled PCRs. \<open>Build_Key\<close>
    (\<^verbatim>\<open>build-support/litcrypt_key.rs\<close>): the checks on the obfuscation key.
  \<^item> \<open>Core_Keys\<close> (\<^verbatim>\<open>kdf.rs\<close>, \<^verbatim>\<open>phasor.rs\<close>, \<^verbatim>\<open>fips.rs\<close>): canonical encodings are injective, and the self tests gate the
    operating mode.
  \<^item> \<open>Api_Ratelimit\<close>, \<open>Api_Auth\<close>, \<open>Api_Db\<close>, \<open>Api_Siem\<close>, \<open>Api_Server\<close>, \<open>Api_Safety\<close> (\<^verbatim>\<open>dfim_management_api/src\<close>): token buckets with
    their rounding, tokens and accounts, SQL statements as data with the handlers as programs over them, and a server that
    interleaves requests statement by statement; tenants are isolated in every such run, and roles limit the statements. \<open>Api_Openapi\<close>: the
    published interface against the routes.
  \<^item> \<open>Plugin_Policies\<close>, \<open>Plugin_Engine\<close> (\<^verbatim>\<open>dfim_plugin_sdk\<close>): the decision tables of the sample policies, and the engine
    under any sequence of registrations and evaluations.

  \<^item> This theory: the chain from the signing key over the provisioner's commands, the build script and the deployed files to the
    image that the boot guard starts.

  \<^bold>\<open>Parameters.\<close> Code outside the repository is an argument of the definitions that call it, with what is relied on
  as a named hypothesis that has an instance: hashing and comparison (\<open>hash_prims\<close>, \<open>hash_contract\<close>), ECDSA (\<open>sig_prims\<close>,
  \<open>signature_contract\<close>; unforgeability is a separate hypothesis), the firmware (\<open>firmware\<close>), kernel memory,
  the files a Linux run reads (\<open>linux_host\<close>), the TPM and its library (\<open>tss\<close>, \<open>tpm_contract\<close>), HMAC, base64 and JSON of the API (\<open>auth_prims\<close>,
  \<open>siem_prims\<close>), what SQL leaves open (\<open>postgres\<close>, \<open>postgres_ok\<close>), request extraction (\<open>extractors\<close>), the WebAssembly
  runtime (\<open>wasm_runtime\<close>), HMAC and HKDF of the engine (\<open>kdf_prims\<close>), the hash of a client address, clocks, and the contents of fresh
  memory (\<open>stress_env\<close>).

  \<^bold>\<open>Not modelled.\<close> The parsers of the command line, log texts, thread start-up and listeners have no logic of the repository; the build
  script of the loader (\<^verbatim>\<open>dfim-ebpf-user/build.rs\<close>) is a copy of a third-party helper that runs cargo; the literals that \<^verbatim>\<open>litcrypt\<close>
  hides have their plain values at run time; the Kani harnesses and fuzz targets only call the parsers, whose totality is proved here
  for all inputs.
\<close>

section \<open>From the signing key to the running image\<close>

text \<open>What the provisioner and the build script read as hexadecimal.\<close>

definition hex_text :: "bytes \<Rightarrow> bytes" where
  "hex_text bs = concat (map hex_pair bs)"

lemma fold_outcome_agree:
  assumes "\<And>s x s'. f s x = Ok s' \<Longrightarrow> g s x = Ok s'" and "fold_outcome f s xs = Ok r"
  shows "fold_outcome g s xs = Ok r"
  using assms(2)
proof (induction xs arbitrary: s)
  case (Cons x xs)
  then obtain s' where "f s x = Ok s'" "fold_outcome f s' xs = Ok r" by auto
  then show ?case using Cons.IH assms(1) by auto
qed simp

lemma cli_decode_hex_text: "cli_decode_hex_exact (length bs) (hex_text bs) = Ok bs"
proof -
  have n: "decode_hex_nibble b = Ok v" if "decode_nibble b = Ok v" for b v
    using that by (auto simp: decode_nibble_def decode_hex_nibble_def split: if_splits)
  have i: "(index_at xs k :: (cli_error, u8) outcome) = Ok v" if "(index_at xs k :: (unit, u8) outcome) = Ok v" for xs k v
    using that by (auto simp: index_at_def split: if_splits)
  note d = decode_hex_pairs [of bs, unfolded decode_hex_exact_def option.case]
  have "fold_outcome (\<lambda>output index.
      and_then (and_then (index_at (hex_text bs) (index * 2)) decode_hex_nibble) (\<lambda>high.
      and_then (and_then (index_at (hex_text bs) (index * 2 + 1)) decode_hex_nibble) (\<lambda>low.
      Ok (output[index := (push_bit 4 high) OR low])))) (replicate (length bs) 0) [0..<length bs] =
      (Ok bs :: (cli_error, bytes) outcome)"
    by (rule fold_outcome_agree [where f = "\<lambda>output index.
      and_then (and_then (index_at (hex_text bs) (index * 2)) decode_nibble) (\<lambda>high.
      and_then (and_then (index_at (hex_text bs) (index * 2 + 1)) decode_nibble) (\<lambda>low.
      (Ok (output[index := (push_bit 4 high) OR low]) :: (unit, bytes) outcome)))"])
      (use d in \<open>auto simp: hex_text_def dest!: n i split: if_splits\<close>)
  then show ?thesis by (simp add: cli_decode_hex_exact_def hex_text_def length_hex_pairs)
qed

lemma clean_private_key:
  assumes "fault_free h" and "contents (disk_of h) k = Some sk" and "length sk = 32"
  shows "read_private_key k h = (Ok sk, h)"
  using assms by (simp add: read_private_key_def io_bind_def clean_fs_read io_return_def)

lemma clean_provision_v2:
  assumes C: "hash_contract C" and S: "signature_contract S" and h: "fault_free h"
    and p: "0 < length (path_text p)" "length (path_text p) \<le> 2 ^ 32 - 1"
    and q: "canonical h p = Some q" "contents (disk_of h) q = Some img" and img: "0 < length img" "length img \<le> 262144"
    and k: "contents (disk_of h) k = Some sk" "length sk = 32" "signing_key_ok S sk" "public_key_sec1_from_private S sk = Ok pk"
    and key: "length key_id = 16" and rel: "release \<noteq> 0"
    and b: "build_signed_boot_sidecar_v2 C S img sk key_id release = Ok blob"
  shows "\<exists>h'. run_provision_v2 C S tpm \<lparr>pv_target = p, pv_output = None, pv_signing_key = k, pv_key_id = hex_text key_id,
      pv_release_counter = release, pv_dry_run = False, pv_extend_tpm = False, pv_format = fmt\<rparr> h = (Ok (), h') \<and> fault_free h' \<and>
    telemetry_path h' = telemetry_path h \<and>
    (\<forall>x. telemetry_path h \<noteq> Some x \<longrightarrow>
       contents (disk_of h') x = ((contents (disk_of h))(default_sidecar_path q \<mapsto> blob)) x)"
proof -
  obtain v where v: "validate_signed_boot_image_v2 C S img blob
      \<lparr>public_key_sec1 = pk, expected_key_id = key_id, minimum_release = release\<rparr> = Ok v"
    using signed_image_validates [OF C S k(3,4) img(1) _ key rel, of release] img(2) b by (auto simp: boot_limits)
  have bounds: "assert_image_bounds (length img) = Ok ()"
    using img by (simp add: assert_image_bounds_def validate_image_byte_len_def boot_limits not_less div_ceil_le_iff)
  have hex: "cli_decode_hex_exact 16 (hex_text key_id) = Ok key_id" using cli_decode_hex_text [of key_id] key by simp
  define h1 where "h1 = h\<lparr>disk_of := set_file (default_sidecar_path q) (Some blob) (disk_of h)\<rparr>"
  have f1: "fault_free h1" using h by (simp add: h1_def)
  have w: "fs_write (default_sidecar_path q) blob e h = (Ok (), h1)" for e
    using h by (simp add: fs_ops clean_op_free h1_def)
  let ?root = "vb_merkle_root (vs_boot v)" and ?rel = "vs_release_counter v"
  obtain h2 where h2: "emit_provision_event C q ProvisionV2 Success (Some ?rel) (Some ?root) False h1 = (Ok (), h2)" "audited h1 h2"
    using clean_reports(3) [OF f1] by blast
  obtain h3 where h3: "write_command_json C ''provision_v2'' q fmt ''success'' (Some ?root) (Some ?rel) (Some (length img)) False h2 = (Ok (), h3)"
    "audited h2 h3"
    using clean_reports(1) [OF audited_free [OF h2(2)]] by blast
  have "run_provision_v2 C S tpm \<lparr>pv_target = p, pv_output = None, pv_signing_key = k, pv_key_id = hex_text key_id,
      pv_release_counter = release, pv_dry_run = False, pv_extend_tpm = False, pv_format = fmt\<rparr> h = (Ok (), h3)"
    using clean_gates [OF p] clean_target [OF q] clean_private_key [OF h k(1,2)] rel v b bounds hex h2(1) h3(1) w
      clean_directory [OF h] k(4)
    by (simp add: run_provision_v2_def io_bind_def clean_fs_read [OF h] q io_of_def io_return_def Let_def)
  moreover have "audited h1 h3" using h2(2) h3(2) by (rule audited_trans)
  ultimately show ?thesis by (auto simp: audited_def h1_def)
qed

lemma clean_rollback_payload:
  assumes "fault_free h" and "length key_id = 16" and "least \<noteq> 0"
  shows "write_rollback_payload (hex_text key_id) least out h =
    (Ok (), h\<lparr>disk_of := set_file out (Some (baseline_bytes key_id least)) (disk_of h)\<rparr>)"
  using assms cli_decode_hex_text [of key_id] build_rollback_baseline_eq [OF assms(2), of least]
  by (simp add: write_rollback_payload_def io_bind_def io_of_def fs_ops clean_op_free)

text \<open>The firmware has a file of this content.\<close>

definition serves :: "firmware \<Rightarrow> string \<Rightarrow> bytes option \<Rightarrow> bool" where
  "serves fw path c \<longleftrightarrow>
     (\<exists>file data. c = Some data \<and> fw_open fw path = Some file \<and> into_type file = Some Regular \<and>
        file_size file = Some (of_nat (length data)) \<and> file_read file (length data) = Some (length data, data))"

lemma serves_read:
  assumes "get_image_file_system fw" "open_volume fw" "serves fw path (Some data)" "0 < length data" "length data \<le> MAX_IMAGE_BYTES"
  shows "read_volume_file fw path = Ok data"
proof -
  have u: "unat (of_nat (length data) :: u64) = length data"
    using assms(5) by (intro unat_of_nat_u64) (simp add: boot_limits)
  then have "(of_nat (length data) :: u64) \<noteq> 0" using assms(4) by (metis less_irrefl unsigned_0)
  then show ?thesis using assms u by (auto simp: read_volume_file_def serves_def boot_limits USIZE_MAX_def)
qed

text \<open>The machine after deployment of the files of a disk: the image, its sidecar and the payload of the variable.\<close>

definition deployed :: "firmware \<Rightarrow> disk \<Rightarrow> host_path \<Rightarrow> host_path \<Rightarrow> bool" where
  "deployed fw d target payload \<longleftrightarrow>
     fw_init fw \<and> get_image_file_system fw \<and> open_volume fw \<and> serves fw BOOTMGFW_PATH (contents d target) \<and>
     serves fw BOOTMGFW_MANIFEST_PATH (contents d (default_sidecar_path target)) \<and>
     (\<exists>data attributes. contents d payload = Some data \<and> get_variable fw ROLLBACK_VARIABLE_NAME = Some (data, attributes) \<and>
        set required_attributes \<subseteq> set attributes)"

definition built_for :: "build_env \<Rightarrow> bytes \<Rightarrow> bytes \<Rightarrow> bool" where
  "built_for benv pk key_id \<longleftrightarrow> CARGO_FEATURE_UEFI_APP benv \<and> DFIM_BOOT_PUBLIC_KEY_HEX benv = Some (hex_text pk) \<and>
     DFIM_BOOT_KEY_ID_HEX benv = Some (hex_text key_id)"

lemma built_trust:
  assumes "built_for benv pk key_id" "length pk = 33" "length key_id = 16" "uefi_build_script benv = Ok trust"
  shows "BOOT_PUBLIC_KEY trust = pk" and "BOOT_KEY_ID trust = key_id" and "BOOT_MIN_RELEASE trust \<noteq> 0"
  using assms decode_hex_pairs [of pk] decode_hex_pairs [of key_id]
  by (auto simp: built_for_def uefi_build_script_def hex_text_def split: if_splits option.splits)

lemma signed_sidecar_size:
  assumes "hash_contract C" "signature_contract S" "signing_key_ok S sk" "0 < length img" "length img \<le> 262144"
    "length key_id = 16" "release \<noteq> 0" "build_signed_boot_sidecar_v2 C S img sk key_id release = Ok blob"
  shows "0 < length blob" and "length blob \<le> MAX_IMAGE_BYTES"
proof -
  have "length blob = length (signed_bytes (sidecar_manifest C img) release key_id) + 64"
    using build_signed_eq [OF assms(1,4,5,7,3), of key_id] assms(8) signature_contractD(1) [OF assms(2,3)] by (auto simp: Let_def)
  then show "0 < length blob" and "length blob \<le> MAX_IMAGE_BYTES"
    using length_signed_bytes [OF assms(1,4,5,6), of release] by (simp_all add: boot_limits)
qed

text \<open>The guard on a deployed machine boots exactly the image if its release reaches both floors.\<close>

lemma guard_on_deployed:
  assumes C: "hash_contract C" and S: "signature_contract S" and sk: "signing_key_ok S sk" "public_key_sec1_from_private S sk = Ok pk"
    and img: "0 < length img" "length img \<le> 262144" and key: "length key_id = 16" and rel: "release \<noteq> 0" "least \<noteq> 0"
    and b: "build_signed_boot_sidecar_v2 C S img sk key_id release = Ok blob"
    and d: "contents d q = Some img" "contents d (default_sidecar_path q) = Some blob" "contents d out = Some (baseline_bytes key_id least)"
    and fw: "deployed fw d q out" and t: "BOOT_PUBLIC_KEY trust = pk" "BOOT_KEY_ID trust = key_id" "BOOT_MIN_RELEASE trust \<noteq> 0"
  shows "if max (BOOT_MIN_RELEASE trust) least \<le> release
    then (\<forall>p. Load_image p \<in> set (fst (run_boot_guard C S trust fw)) \<longleftrightarrow> p = img) \<and>
      snd (run_boot_guard C S trust fw) = (if \<exists>i. load_image fw img = Some i \<and> start_image fw i then guard_exit.Returned else Reset)
    else (\<forall>p. Load_image p \<notin> set (fst (run_boot_guard C S trust fw))) \<and> snd (run_boot_guard C S trust fw) = Reset"
proof -
  let ?least = "max (BOOT_MIN_RELEASE trust) least"
  have "read_volume_file fw BOOTMGFW_PATH = Ok img" "read_volume_file fw BOOTMGFW_MANIFEST_PATH = Ok blob"
    using fw d serves_read [of fw] img signed_sidecar_size [OF C S sk(1) img key rel(1) b] by (auto simp: deployed_def boot_limits)
  moreover have "parse_rollback_baseline (baseline_bytes key_id least) key_id = Ok least"
    using parse_rollback_baseline_iff [OF key] rel(2) by simp
  then have "read_authenticated_rollback_floor fw trust = Ok least"
    using fw d t by (auto simp: deployed_def read_authenticated_rollback_floor_def)
  ultimately have tp: "trusted_payload C S trust fw = validate_signed_boot_image_v2 C S img blob
      \<lparr>public_key_sec1 = pk, expected_key_id = key_id, minimum_release = ?least\<rparr>"
    using t rel(2) by (simp add: trusted_payload_def effective_minimum_release_def)
  have v: "if ?least \<le> release then \<exists>v. trusted_payload C S trust fw = Ok v \<and> vb_payload (vs_boot v) = img
      else \<not> is_ok (trusted_payload C S trust fw)"
    using signed_image_validates [OF C S sk img(1) _ key rel(1), of ?least] img(2) b by (auto simp: tp boot_limits Let_def)
  have "length (BOOT_KEY_ID trust) = 16" "fw_init fw" using t key fw by (simp_all add: deployed_def)
  then show ?thesis using boot_guard_cases [of trust fw C S] v by (auto simp: is_ok_iff split: if_splits)
qed

lemma sidecar_beside [simp]: "default_sidecar_path q \<noteq> q"
  by (cases q) (auto simp: default_sidecar_path_def path_push_def dest: arg_cong [of _ _ last])

text \<open>
  C2. From the signing key to the running image. On a host without faults, with a 32-byte signing key, an image of 1 to 262144 bytes,
  a 16-byte key identifier and a non-zero release and floor, the commands \<^verbatim>\<open>provision-v2\<close> and \<^verbatim>\<open>rollback-payload\<close> exit with 0.
  Every guard that was built for the key and its identifier and that runs on a machine on which the resulting files are deployed then loads exactly
  that image, and returns if the firmware loads and starts it, provided the release reaches the floor of the build and the one of the payload; otherwise
  it loads nothing and resets the machine.
\<close>

theorem signed_provisioning_boots:
  assumes "hash_contract C" and "signature_contract S" and "fault_free h" and "fmt \<in> {''text'', ''json''}"
    and "0 < length (path_text p)" and "length (path_text p) \<le> 2 ^ 32 - 1" and "canonical h p = Some q"
    and "contents (disk_of h) q = Some img" and "0 < length img" and "length img \<le> 262144"
    and "contents (disk_of h) k = Some sk" and "length sk = 32" and "signing_key_ok S sk" and "public_key_sec1_from_private S sk = Ok pk"
    and "length key_id = 16" and "release \<noteq> 0" and "least \<noteq> 0"
    and "telemetry_path h \<noteq> Some q" and "telemetry_path h \<noteq> Some (default_sidecar_path q)"
    and "out \<noteq> q" and "out \<noteq> default_sidecar_path q"
  shows "\<exists>h1 h2.
    cli_main C S tpm env fmt (Provision_V2 p None k (hex_text key_id) release False False) h = (0, h1) \<and>
    cli_main C S tpm env fmt (Rollback_Payload (hex_text key_id) least out) h1 = (0, h2) \<and>
    contents (disk_of h2) q = Some img \<and> (\<exists>blob. contents (disk_of h2) (default_sidecar_path q) = Some blob) \<and>
    contents (disk_of h2) out = Some (baseline_bytes key_id least) \<and>
    (\<forall>fw benv trust. deployed fw (disk_of h2) q out \<and> built_for benv pk key_id \<and> uefi_build_script benv = Ok trust \<longrightarrow>
      (if max (BOOT_MIN_RELEASE trust) least \<le> release
       then (\<forall>p. Load_image p \<in> set (fst (run_boot_guard C S trust fw)) \<longleftrightarrow> p = img) \<and>
         snd (run_boot_guard C S trust fw) = (if \<exists>i. load_image fw img = Some i \<and> start_image fw i then guard_exit.Returned else Reset)
       else (\<forall>p. Load_image p \<notin> set (fst (run_boot_guard C S trust fw))) \<and> snd (run_boot_guard C S trust fw) = Reset))"
proof -
  note C = assms(1) and S = assms(2) and img = assms(9,10) and k = assms(11-14) and key = assms(15) and rel = assms(16,17)
  obtain blob where b: "build_signed_boot_sidecar_v2 C S img sk key_id release = Ok blob"
    using build_signed_eq [OF C img rel(1) k(3)] by (auto simp: Let_def)
  obtain f where fmt: "output_format_parse fmt = Ok f" using assms(4) by (auto simp: output_format_parse_def)
  obtain h1 where r1: "run_provision_v2 C S tpm \<lparr>pv_target = p, pv_output = None, pv_signing_key = k, pv_key_id = hex_text key_id,
      pv_release_counter = release, pv_dry_run = False, pv_extend_tpm = False, pv_format = f\<rparr> h = (Ok (), h1)"
    and h1: "fault_free h1" "\<And>x. telemetry_path h \<noteq> Some x \<Longrightarrow>
       contents (disk_of h1) x = ((contents (disk_of h))(default_sidecar_path q \<mapsto> blob)) x"
    using clean_provision_v2 [OF C S assms(3,5-8) img k key rel(1) b] by blast
  let ?h2 = "h1\<lparr>disk_of := set_file out (Some (baseline_bytes key_id least)) (disk_of h1)\<rparr>"
  have c: "cli_main C S tpm env fmt (Provision_V2 p None k (hex_text key_id) release False False) h = (0, h1)"
    "cli_main C S tpm env fmt (Rollback_Payload (hex_text key_id) least out) h1 = (0, ?h2)"
    using r1 clean_rollback_payload [OF h1(1) key rel(2)]
    by (simp_all add: cli_main_def fmt report_provision_def report_attestation_command_def SUCCESS_def)
  have d: "contents (disk_of ?h2) q = Some img" "contents (disk_of ?h2) (default_sidecar_path q) = Some blob"
    "contents (disk_of ?h2) out = Some (baseline_bytes key_id least)"
    using h1(2) assms(8,18-21) by (auto simp: sidecar_beside [symmetric])
  have "length pk = 33"
    using k(3,4) signature_contractD(2) [OF S k(3)]
    by (auto simp: public_key_sec1_from_private_def V2_PUBLIC_KEY_LEN_def put_def Let_def split: if_splits)
  then show ?thesis using c d guard_on_deployed [OF C S k(3,4) img key rel b d] built_trust [OF _ _ key] by blast
qed

definition signing_host :: host where
  "signing_host = \<lparr>disk_of = \<lparr>contents = [boot_file ''os.efi'' \<mapsto> [9, 9], boot_file ''key'' \<mapsto> replicate 32 0x11], modes = (\<lambda>_. 0)\<rparr>,
     script = [], rivals = [], alive = True, temp_sequence = 0, process_id = 1, canonical = Some, now_ms = 0,
     telemetry_path = None, stdout = []\<rparr>"

definition sample_build :: build_env where
  "sample_build = \<lparr>CARGO_FEATURE_UEFI_APP = True, DFIM_BOOT_PUBLIC_KEY_HEX = Some (hex_text (2 # replicate 32 0x11)),
     DFIM_BOOT_KEY_ID_HEX = Some (hex_text (replicate 16 7)), DFIM_BOOT_MIN_RELEASE = Some (ascii ''3'')\<rparr>"

lemma sample_build_trust: "uefi_build_script sample_build = Ok sample_trust"
proof -
  have m: "parse_u64 (ascii ''3'') = Some 3" by (simp add: parse_u64_def parse_digits_def ascii_def)
  have "decode_hex_exact 33 (Some (hex_text (2 # replicate 32 0x11))) = Ok (2 # replicate 32 0x11)"
    "decode_hex_exact 16 (Some (hex_text (replicate 16 7))) = Ok (replicate 16 7)"
    using decode_hex_pairs [of "2 # replicate 32 0x11"] decode_hex_pairs [of "replicate 16 7"] by (simp_all add: hex_text_def)
  then show ?thesis using m by (simp add: uefi_build_script_def sample_build_def sample_trust_def index_at_def)
qed

theorem signed_provisioning_boots_witness:
  "\<exists>h1 h2 sidecar.
    cli_main bpf_prims sample_sig None stress_unix ''json''
      (Provision_V2 (boot_file ''os.efi'') None (boot_file ''key'') (hex_text (replicate 16 7)) 9 False False) signing_host = (0, h1) \<and>
    cli_main bpf_prims sample_sig None stress_unix ''json''
      (Rollback_Payload (hex_text (replicate 16 7)) 5 (boot_file ''floor'')) h1 = (0, h2) \<and>
    contents (disk_of h2) (default_sidecar_path (boot_file ''os.efi'')) = Some sidecar \<and>
    snd (run_boot_guard bpf_prims sample_sig sample_trust (booting_firmware [9, 9] sidecar)) = guard_exit.Returned"
proof -
  let ?q = "boot_file ''os.efi''" and ?out = "boot_file ''floor''"
  have h: "fault_free signing_host" "canonical signing_host ?q = Some ?q" "contents (disk_of signing_host) ?q = Some [9, 9]"
    "contents (disk_of signing_host) (boot_file ''key'') = Some (replicate 32 0x11)" "telemetry_path signing_host = None"
    by (simp_all add: fault_free_def signing_host_def boot_file_def)
  have p: "path_text ?q = ''/boot/os.efi''" "?out \<noteq> ?q" "?out \<noteq> default_sidecar_path ?q"
    by (simp_all add: boot_file_def path_text_def default_sidecar_path_def path_push_def)
  obtain h1 h2 sidecar where c: "cli_main bpf_prims sample_sig None stress_unix ''json''
      (Provision_V2 ?q None (boot_file ''key'') (hex_text (replicate 16 7)) 9 False False) signing_host = (0, h1)"
      "cli_main bpf_prims sample_sig None stress_unix ''json'' (Rollback_Payload (hex_text (replicate 16 7)) 5 ?out) h1 = (0, h2)"
    and d: "contents (disk_of h2) ?q = Some [9, 9]" "contents (disk_of h2) (default_sidecar_path ?q) = Some sidecar"
      "contents (disk_of h2) ?out = Some (baseline_bytes (replicate 16 7) 5)"
    and g: "\<And>fw benv trust. deployed fw (disk_of h2) ?q ?out \<Longrightarrow> built_for benv (2 # replicate 32 0x11) (replicate 16 7) \<Longrightarrow>
      uefi_build_script benv = Ok trust \<Longrightarrow> max (BOOT_MIN_RELEASE trust) 5 \<le> 9 \<Longrightarrow> snd (run_boot_guard bpf_prims sample_sig trust fw) =
        (if \<exists>i. load_image fw [9, 9] = Some i \<and> start_image fw i then guard_exit.Returned else Reset)"
    using signed_provisioning_boots [OF kernel_hash.hash_contract_axioms sample_sig_contract h(1), of "''json''" ?q ?q "[9, 9]"
        "boot_file ''key''" "replicate 32 0x11" "2 # replicate 32 0x11" "replicate 16 7" 9 5 ?out None stress_unix] h p sample_key
    by fastforce
  have "deployed (booting_firmware [9, 9] sidecar) (disk_of h2) ?q ?out"
    using d by (simp add: deployed_def serves_def booting_firmware_def Let_def BOOTMGFW_PATH_def BOOTMGFW_MANIFEST_PATH_def)
  moreover have "built_for sample_build (2 # replicate 32 0x11) (replicate 16 7)" by (simp add: built_for_def sample_build_def)
  ultimately have "snd (run_boot_guard bpf_prims sample_sig sample_trust (booting_firmware [9, 9] sidecar)) = guard_exit.Returned"
    using g [OF _ _ sample_build_trust] by (simp add: sample_trust_def booting_firmware_def)
  then show ?thesis using c d(2) by blast
qed

end
